(* ===== verification/Prelude.thy ===== *)
theory Prelude
  imports Complex_Main "HOL-Library.Sublist" "HOL-Library.List_Lexorder"
begin

text \<open>
  Shared vocabulary of the development: JavaScript strings, the numeric conventions, the small
  list functions that stand for the loops of the sources, and the collections of automation facts.

  \<^item> A JavaScript string is the list of its UTF-16 code units (\<open>jstring\<close>); \<open>js ''abc''\<close> is the
    literal. JavaScript's \<open><\<close> on strings is the lexicographic order on code units, which is the
    order \<open>List_Lexorder\<close> gives lists of numbers.
  \<^item> A JavaScript number is a real number. Every number that enters the geometry comes from a JSON
    document that passed the schema, hence is finite, so the sources' \<open>isFinitePoint\<close> guards hold
    for every value of the model. On the grid of multiples of 1/64 (\<open>on_grid\<close>) and below
    \<open>2 ^ 20\<close> in size, the sums and products the predicates form are exact in IEEE doubles as well.
\<close>

section \<open>Collections of automation facts\<close>

named_theorems geo_simps \<open>unfoldings of the elementary geometric predicates\<close>
named_theorems grid_intros \<open>closure of the coordinate grid under the operations of the code\<close>

section \<open>JavaScript strings\<close>

type_synonym jstring = "nat list"

definition js :: "string \<Rightarrow> jstring" where
  "js s = map of_char s"

lemma js_simps [simp]:
  "js [] = []"
  "js (c # s) = of_char c # js s"
  by (simp_all add: js_def)

lemma js_append [simp]: "js (s @ t) = js s @ js t"
  by (simp add: js_def)

lemma length_js [simp]: "length (js s) = length s"
  by (simp add: js_def)

text \<open>A JavaScript value that may be absent or the empty string is falsy in both cases.\<close>

fun truthy :: "jstring option \<Rightarrow> bool" where
  "truthy None = False"
| "truthy (Some s) = (s \<noteq> [])"

text \<open>The value of \<open>s || ''\<close>.\<close>

definition or_empty :: "jstring option \<Rightarrow> jstring" where
  "or_empty s = (case s of None \<Rightarrow> [] | Some t \<Rightarrow> t)"

section \<open>Numbers\<close>

definition js_round :: "real \<Rightarrow> int" where
  "js_round v = \<lfloor>v + 1 / 2\<rfloor>"

definition hypot :: "real \<Rightarrow> real \<Rightarrow> real" where
  "hypot dx dy = sqrt (dx * dx + dy * dy)"

lemma hypot_axis [simp]: "hypot 0 v = \<bar>v\<bar>" "hypot v 0 = \<bar>v\<bar>"
  by (simp_all add: hypot_def)

lemma hypot_nonneg [simp]: "0 \<le> hypot u v"
  by (simp add: hypot_def)

lemma hypot_zero_iff [simp]: "hypot u v = 0 \<longleftrightarrow> u = 0 \<and> v = 0"
  by (simp add: hypot_def add_nonneg_eq_0_iff)

text \<open>The grid of coordinates: multiples of 1/64.\<close>

definition on_grid :: "real \<Rightarrow> bool" where
  "on_grid v \<longleftrightarrow> 64 * v \<in> \<int>"

lemma on_grid_add [grid_intros]: "on_grid u \<Longrightarrow> on_grid v \<Longrightarrow> on_grid (u + v)"
  by (simp add: on_grid_def distrib_left)

lemma on_grid_diff [grid_intros]: "on_grid u \<Longrightarrow> on_grid v \<Longrightarrow> on_grid (u - v)"
  by (simp add: on_grid_def right_diff_distrib)

lemma on_grid_int [grid_intros]: "u \<in> \<int> \<Longrightarrow> on_grid u"
  unfolding on_grid_def by (intro Ints_mult) auto

text \<open>A product of two grid numbers below the epsilon of the sources is zero.\<close>

lemma ints_small_zero: "v \<in> \<int> \<Longrightarrow> \<bar>v::real\<bar> < 1 \<Longrightarrow> v = 0"
  by (elim Ints_cases) (auto simp flip: of_int_abs)

lemma grid_prod_ints: "on_grid u \<Longrightarrow> on_grid v \<Longrightarrow> 4096 * (u * v) \<in> \<int>"
proof -
  assume "on_grid u" "on_grid v"
  then have "(64 * u) * (64 * v) \<in> \<int>" unfolding on_grid_def by (rule Ints_mult)
  then show ?thesis by (simp add: mult_ac)
qed

lemma grid_small_zero:
  assumes "4096 * (v::real) \<in> \<int>" and "\<bar>v\<bar> \<le> 1 / 10000"
  shows "v = 0"
proof -
  have "\<bar>4096 * v\<bar> < 1" using assms(2) by (simp add: abs_mult)
  then show ?thesis using ints_small_zero [OF assms(1)] by simp
qed

lemma grid_small_zero1:
  assumes "on_grid v" and "\<bar>v\<bar> \<le> 1 / 10000"
  shows "v = 0"
proof -
  have "\<bar>64 * v\<bar> < 1" using assms(2) by (simp add: abs_mult)
  then show ?thesis using assms(1) ints_small_zero [of "64 * v"] by (simp add: on_grid_def)
qed

section \<open>Lists and loops\<close>

text \<open>The index of the first element that satisfies a test: a \<open>for\<close> loop with \<open>break\<close>.\<close>

fun find_index_from :: "nat \<Rightarrow> ('a \<Rightarrow> bool) \<Rightarrow> 'a list \<Rightarrow> nat option" where
  "find_index_from i P [] = None"
| "find_index_from i P (v # vs) = (if P v then Some i else find_index_from (Suc i) P vs)"

definition find_index :: "('a \<Rightarrow> bool) \<Rightarrow> 'a list \<Rightarrow> nat option" where
  "find_index P vs = find_index_from 0 P vs"

lemma find_index_from_None [simp]: "find_index_from i P vs = None \<longleftrightarrow> (\<forall>v\<in>set vs. \<not> P v)"
  by (induction vs arbitrary: i) auto

lemma find_index_from_Some:
  "find_index_from i P vs = Some k \<Longrightarrow>
     \<exists>m. k = i + m \<and> m < length vs \<and> P (vs ! m) \<and> (\<forall>j < m. \<not> P (vs ! j))"
proof (induction vs arbitrary: i)
  case Nil
  then show ?case by simp
next
  case (Cons v vs)
  show ?case
  proof (cases "P v")
    case True
    with Cons.prems show ?thesis by auto
  next
    case False
    with Cons.prems have "find_index_from (Suc i) P vs = Some k" by simp
    from Cons.IH [OF this] obtain m where
      "k = Suc i + m" "m < length vs" "P (vs ! m)" "\<forall>j < m. \<not> P (vs ! j)" by blast
    with False show ?thesis
      by (intro exI [of _ "Suc m"]) (auto simp: less_Suc_eq_0_disj)
  qed
qed

lemma find_index_None [simp]: "find_index P vs = None \<longleftrightarrow> (\<forall>v\<in>set vs. \<not> P v)"
  by (simp add: find_index_def)

lemma find_index_Some:
  "find_index P vs = Some k \<Longrightarrow> k < length vs \<and> P (vs ! k) \<and> (\<forall>j < k. \<not> P (vs ! j))"
  using find_index_from_Some [of 0 P vs k] by (auto simp: find_index_def)

text \<open>The consecutive pairs of a list: \<open>(points[i], points[i + 1])\<close> for \<open>i < points.length - 1\<close>.\<close>

definition pairs :: "'a list \<Rightarrow> ('a \<times> 'a) list" where
  "pairs vs = zip vs (tl vs)"

lemma pairs_simps [simp]:
  "pairs [] = []"
  "pairs [v] = []"
  "pairs (v # w # vs) = (v, w) # pairs (w # vs)"
  by (simp_all add: pairs_def)

lemma length_pairs [simp]: "length (pairs vs) = length vs - 1"
  by (simp add: pairs_def)

lemma nth_pairs: "Suc i < length vs \<Longrightarrow> pairs vs ! i = (vs ! i, vs ! Suc i)"
  by (simp add: pairs_def nth_tl)

lemma set_pairs_subset: "(v, w) \<in> set (pairs vs) \<Longrightarrow> v \<in> set vs \<and> w \<in> set vs"
  unfolding pairs_def by (metis list.set_sel(2) set_zip_leftD set_zip_rightD tl_Nil)

lemma pairs_snoc: "pairs (vs @ [v, w]) = pairs (vs @ [v]) @ [(v, w)]"
  by (induction vs rule: induct_list012) auto

lemma set_enumerate_iff: "(i, v) \<in> set (enumerate 0 vs) \<longleftrightarrow> i < length vs \<and> vs ! i = v"
  by (auto simp: in_set_enumerate_eq)

text \<open>Every pair of a list with the earlier element first: the loops \<open>i\<close>, \<open>j = i + 1\<close>.\<close>

fun ordered_pairs :: "'a list \<Rightarrow> ('a \<times> 'a) list" where
  "ordered_pairs [] = []"
| "ordered_pairs (v # vs) = map (Pair v) vs @ ordered_pairs vs"

lemma set_ordered_pairs:
  "(v, w) \<in> set (ordered_pairs vs) \<longleftrightarrow> (\<exists>i j. i < j \<and> j < length vs \<and> vs ! i = v \<and> vs ! j = w)"
proof (induction vs)
  case (Cons u us)
  have "(v, w) \<in> set (map (Pair u) us) \<longleftrightarrow> u = v \<and> (\<exists>j < length us. us ! j = w)"
    by (auto simp: in_set_conv_nth image_iff)
  moreover have "(\<exists>i j. i < j \<and> j < length (u # us) \<and> (u # us) ! i = v \<and> (u # us) ! j = w) \<longleftrightarrow>
      u = v \<and> (\<exists>j < length us. us ! j = w) \<or> (\<exists>i j. i < j \<and> j < length us \<and> us ! i = v \<and> us ! j = w)"
    (is "?l \<longleftrightarrow> ?r")
  proof
    assume ?l
    then obtain i j where ij: "i < j" "j < length (u # us)" "(u # us) ! i = v" "(u # us) ! j = w" by blast
    then obtain j' where "j = Suc j'" by (cases j) auto
    with ij show ?r by (cases i) auto
  next
    assume ?r
    then show ?l
    proof
      assume "u = v \<and> (\<exists>j < length us. us ! j = w)"
      then show ?l by (metis Suc_less_eq length_Cons nth_Cons_0 nth_Cons_Suc zero_less_Suc)
    next
      assume "\<exists>i j. i < j \<and> j < length us \<and> us ! i = v \<and> us ! j = w"
      then show ?l by (metis Suc_less_eq length_Cons nth_Cons_Suc)
    qed
  qed
  ultimately show ?case using Cons by simp
qed simp

text \<open>The first result of a search loop that stops at the first hit.\<close>

fun first_some :: "('a \<Rightarrow> 'b option) \<Rightarrow> 'a list \<Rightarrow> 'b option" where
  "first_some f [] = None"
| "first_some f (v # vs) = (case f v of Some w \<Rightarrow> Some w | None \<Rightarrow> first_some f vs)"

lemma first_some_None [simp]: "first_some f vs = None \<longleftrightarrow> (\<forall>v\<in>set vs. f v = None)"
  by (induction vs) (auto split: option.splits)

lemma first_some_Some: "first_some f vs = Some w \<Longrightarrow> \<exists>v\<in>set vs. f v = Some w"
  by (induction vs) (auto split: option.splits)

lemma map_filter_Nil_iff: "List.map_filter f vs = [] \<longleftrightarrow> (\<forall>v\<in>set vs. f v = None)"
  by (auto simp: List.map_filter_def filter_empty_conv)

lemma set_map_filter_iff: "w \<in> set (List.map_filter f vs) \<longleftrightarrow> (\<exists>v\<in>set vs. f v = Some w)"
  by (force simp: List.map_filter_def image_iff)

lemma concat_map_Nil_iff: "concat (map f vs) = [] \<longleftrightarrow> (\<forall>v\<in>set vs. f v = [])"
  by simp

lemma ball_enumerate: "(\<forall>e\<in>set (enumerate 0 vs). P e) \<longleftrightarrow> (\<forall>i < length vs. P (i, vs ! i))"
  by (auto simp: in_set_enumerate_eq)

end
