(* ===== verification/Geometry_Core.thy ===== *)
theory Geometry_Core
  imports Prelude
begin

text \<open>
  The elementary predicates of \<open>renderers/shared/geometry.mjs\<close>: points, rectangles, orientation
  tests, segment intersection, distances and the clipped length of a segment in a rectangle.
  A point \<open>[x, y]\<close> is a pair; a rectangle and a measured box are records, the second an extension
  of the first with the centre and the node id.

  The main results are the exactness of \<open>segmentsIntersect\<close> and \<open>segmentIntersectsRect\<close> on the
  coordinate grid (the code's epsilon never changes an answer there) and the meaning of
  \<open>rectsOverlap\<close>.
\<close>

section \<open>Points, rectangles and boxes\<close>

type_synonym point = "real \<times> real"
type_synonym segment = "point \<times> point"

record rect =
  rx :: real
  ry :: real
  rwidth :: real
  rheight :: real

record box = rect +
  bcx :: real
  bcy :: real
  bid :: jstring

record bounds =
  bx1 :: real
  by1 :: real
  bx2 :: real
  by2 :: real

definition grid_point :: "point \<Rightarrow> bool" where
  "grid_point p \<longleftrightarrow> on_grid (fst p) \<and> on_grid (snd p)"

definition grid_rect :: "'a rect_scheme \<Rightarrow> bool" where
  "grid_rect r \<longleftrightarrow> on_grid (rx r) \<and> on_grid (ry r) \<and> on_grid (rwidth r) \<and> on_grid (rheight r)"

definition valid_rect :: "'a rect_scheme \<Rightarrow> bool" where
  "valid_rect r \<longleftrightarrow> 0 \<le> rwidth r \<and> 0 \<le> rheight r"

section \<open>Rectangles that overlap\<close>

definition rectsOverlap :: "'a rect_scheme \<Rightarrow> 'b rect_scheme \<Rightarrow> real \<Rightarrow> bool" where
  "rectsOverlap a b gap \<longleftrightarrow>
     \<not> (rx a + rwidth a + gap \<le> rx b \<or>
        rx b + rwidth b + gap \<le> rx a \<or>
        ry a + rheight a + gap \<le> ry b \<or>
        ry b + rheight b + gap \<le> ry a)"

section \<open>Orientation and segment intersection\<close>

definition crossProduct :: "point \<Rightarrow> point \<Rightarrow> point \<Rightarrow> real" where
  "crossProduct a b c =
     (fst b - fst a) * (snd c - snd a) - (snd b - snd a) * (fst c - fst a)"

definition pointInBox :: "point \<Rightarrow> bounds \<Rightarrow> bool" where
  "pointInBox p box \<longleftrightarrow>
     bx1 box \<le> fst p \<and> fst p \<le> bx2 box \<and> by1 box \<le> snd p \<and> snd p \<le> by2 box"

definition orientation :: "point \<Rightarrow> point \<Rightarrow> point \<Rightarrow> nat" where
  "orientation a b c =
     (let value = (snd b - snd a) * (fst c - fst b) - (fst b - fst a) * (snd c - snd b)
      in if \<bar>value\<bar> < 1 / 10000 then 0 else if 0 < value then 1 else 2)"

definition onSegment :: "point \<Rightarrow> point \<Rightarrow> point \<Rightarrow> bool" where
  "onSegment a b c \<longleftrightarrow>
     fst b \<le> max (fst a) (fst c) \<and> min (fst a) (fst c) \<le> fst b \<and>
     snd b \<le> max (snd a) (snd c) \<and> min (snd a) (snd c) \<le> snd b"

definition segmentsIntersect :: "point \<Rightarrow> point \<Rightarrow> point \<Rightarrow> point \<Rightarrow> bool" where
  "segmentsIntersect a b c d =
     (let o1 = orientation a b c;
          o2 = orientation a b d;
          o3 = orientation c d a;
          o4 = orientation c d b
      in if o1 = 0 \<and> onSegment a c b then True
         else if o2 = 0 \<and> onSegment a d b then True
         else if o3 = 0 \<and> onSegment c a d then True
         else if o4 = 0 \<and> onSegment c b d then True
         else o1 \<noteq> o2 \<and> o3 \<noteq> o4)"

definition expand_rect :: "'a rect_scheme \<Rightarrow> real \<Rightarrow> bounds" where
  "expand_rect rect gap =
     \<lparr>bx1 = rx rect - gap, by1 = ry rect - gap,
      bx2 = rx rect + rwidth rect + gap, by2 = ry rect + rheight rect + gap\<rparr>"

definition segmentIntersectsRect :: "segment \<Rightarrow> 'a rect_scheme \<Rightarrow> real \<Rightarrow> bool" where
  "segmentIntersectsRect seg rect gap =
     (let box = expand_rect rect gap; a = fst seg; b = snd seg
      in if pointInBox a box \<or> pointInBox b box then True
         else segmentsIntersect a b (bx1 box, by1 box) (bx2 box, by1 box) \<or>
              segmentsIntersect a b (bx2 box, by1 box) (bx2 box, by2 box) \<or>
              segmentsIntersect a b (bx2 box, by2 box) (bx1 box, by2 box) \<or>
              segmentsIntersect a b (bx1 box, by2 box) (bx1 box, by1 box))"

definition properSegmentIntersection :: "point \<Rightarrow> point \<Rightarrow> point \<Rightarrow> point \<Rightarrow> point option" where
  "properSegmentIntersection a b c d =
     (let abC = crossProduct a b c;
          abD = crossProduct a b d;
          cdA = crossProduct c d a;
          cdB = crossProduct c d b;
          epsilon = 1 / 10000;
          opposite = (\<lambda>left right. (epsilon < left \<and> right < - epsilon) \<or>
                                   (left < - epsilon \<and> epsilon < right))
      in if \<not> opposite abC abD \<or> \<not> opposite cdA cdB then None
         else
           (let denominator =
                  (fst a - fst b) * (snd c - snd d) - (snd a - snd b) * (fst c - fst d)
            in if \<bar>denominator\<bar> < epsilon then None
               else
                 (let ab = fst a * snd b - snd a * fst b;
                      cd = fst c * snd d - snd c * fst d
                  in Some ((ab * (fst c - fst d) - (fst a - fst b) * cd) / denominator,
                           (ab * (snd c - snd d) - (snd a - snd b) * cd) / denominator))))"

section \<open>Distances and clipping\<close>

definition pointRectDistance :: "point \<Rightarrow> 'a rect_scheme \<Rightarrow> real" where
  "pointRectDistance p rect =
     (let dx = max (max (rx rect - fst p) 0) (fst p - (rx rect + rwidth rect));
          dy = max (max (ry rect - snd p) 0) (snd p - (ry rect + rheight rect))
      in hypot dx dy)"

definition pointSegmentDistance :: "point \<Rightarrow> point \<Rightarrow> point \<Rightarrow> real" where
  "pointSegmentDistance p start end =
     (let dx = fst end - fst start;
          dy = snd end - snd start;
          lengthSquared = dx * dx + dy * dy
      in if lengthSquared \<le> 1 / 10000000 then hypot (fst p - fst start) (snd p - snd start)
         else
           (let projection =
                  max 0 (min 1 (((fst p - fst start) * dx + (snd p - snd start) * dy) / lengthSquared))
            in hypot (fst p - (fst start + projection * dx)) (snd p - (snd start + projection * dy))))"

text \<open>\<open>None\<close> is the \<open>null\<close> the source returns for a rectangle of negative size.\<close>

definition segmentRectClearance :: "segment \<Rightarrow> 'a rect_scheme \<Rightarrow> real option" where
  "segmentRectClearance seg rect =
     (let start = fst seg; end = snd seg
      in if rwidth rect < 0 \<or> rheight rect < 0 then None
         else if segmentIntersectsRect seg rect 0 then Some 0
         else
           (let corners = [(rx rect, ry rect),
                           (rx rect + rwidth rect, ry rect),
                           (rx rect + rwidth rect, ry rect + rheight rect),
                           (rx rect, ry rect + rheight rect)]
            in Some (fold min (map (\<lambda>corner. pointSegmentDistance corner start end) corners)
                       (min (pointRectDistance start rect) (pointRectDistance end rect)))))"

text \<open>
  The clipping loop of \<open>segmentRectIntersectionLength\<close>: \<open>None\<close> is its early \<open>return 0\<close>, \<open>Some\<close>
  the final \<open>(enter, leave)\<close>.
\<close>

fun clip_loop :: "(real \<times> real) list \<Rightarrow> real \<Rightarrow> real \<Rightarrow> (real \<times> real) option" where
  "clip_loop [] enter leave = Some (enter, leave)"
| "clip_loop ((direction, distance) # bs) enter leave =
     (if \<bar>direction\<bar> \<le> 1 / 10000000
      then (if distance < - (1 / 10000000) then None else clip_loop bs enter leave)
      else
        (let ratio = distance / direction;
             enter' = (if direction < 0 then max enter ratio else enter);
             leave' = (if direction < 0 then leave else min leave ratio)
         in if leave' + 1 / 10000000 < enter' then None else clip_loop bs enter' leave'))"

definition segmentRectIntersectionLength :: "segment \<Rightarrow> 'a rect_scheme \<Rightarrow> real option" where
  "segmentRectIntersectionLength seg rect =
     (let start = fst seg; end = snd seg
      in if rwidth rect < 0 \<or> rheight rect < 0 then None
         else
           (let dx = fst end - fst start;
                dy = snd end - snd start;
                len = hypot dx dy
            in if len \<le> 1 / 10000000 then Some 0
               else
                 (let bs = [(- dx, fst start - rx rect),
                            (dx, rx rect + rwidth rect - fst start),
                            (- dy, snd start - ry rect),
                            (dy, ry rect + rheight rect - snd start)]
                  in case clip_loop bs 0 1 of
                       None \<Rightarrow> Some 0
                     | Some (enter, leave) \<Rightarrow> Some (len * max 0 (leave - enter)))))"

definition pointLiesOnSegment :: "point \<Rightarrow> point \<Rightarrow> point \<Rightarrow> bool" where
  "pointLiesOnSegment p start end =
     (let epsilon = 1 / 10000;
          len = hypot (fst end - fst start) (snd end - snd start)
      in if len \<le> epsilon then hypot (fst p - fst start) (snd p - snd start) \<le> epsilon
         else if epsilon * len < \<bar>crossProduct start end p\<bar> then False
         else min (fst start) (fst end) - epsilon \<le> fst p \<and>
              fst p \<le> max (fst start) (fst end) + epsilon \<and>
              min (snd start) (snd end) - epsilon \<le> snd p \<and>
              snd p \<le> max (snd start) (snd end) + epsilon)"

definition collinearForward :: "point \<Rightarrow> point \<Rightarrow> point \<Rightarrow> bool" where
  "collinearForward a b c =
     (if 1 / 10000 < \<bar>crossProduct a b c\<bar> then False
      else - (1 / 10000) \<le> (fst b - fst a) * (fst c - fst b) + (snd b - snd a) * (snd c - snd b))"

text \<open>\<open>axis\<close> is the coordinate index the source computes: 0 for horizontal, 1 for vertical runs.\<close>

definition coord :: "nat \<Rightarrow> point \<Rightarrow> real" where
  "coord axis p = (if axis = 0 then fst p else snd p)"

record overlap =
  ov_length :: real
  ov_start :: point
  ov_end :: point

definition collinearAxisOverlap :: "point \<Rightarrow> point \<Rightarrow> point \<Rightarrow> point \<Rightarrow> overlap option" where
  "collinearAxisOverlap a b c d =
     (let epsilon = 1 / 10000;
          horizontal = (\<bar>snd a - snd b\<bar> \<le> epsilon \<and> \<bar>snd c - snd d\<bar> \<le> epsilon \<and>
                        \<bar>snd a - snd c\<bar> \<le> epsilon);
          vertical = (\<bar>fst a - fst b\<bar> \<le> epsilon \<and> \<bar>fst c - fst d\<bar> \<le> epsilon \<and>
                      \<bar>fst a - fst c\<bar> \<le> epsilon)
      in if \<not> horizontal \<and> \<not> vertical then None
         else
           (let axis = (if horizontal then 0 else 1);
                low = max (min (coord axis a) (coord axis b)) (min (coord axis c) (coord axis d));
                high = min (max (coord axis a) (coord axis b)) (max (coord axis c) (coord axis d))
            in if high - low \<le> epsilon then None
               else
                 (let fixed = (if horizontal then snd a else fst a)
                  in Some \<lparr>ov_length = high - low,
                           ov_start = (if horizontal then (low, fixed) else (fixed, low)),
                           ov_end = (if horizontal then (high, fixed) else (fixed, high))\<rparr>)))"


section \<open>Exactness on the grid\<close>

text \<open>The points of a closed segment.\<close>


definition on_seg :: "point \<Rightarrow> point \<Rightarrow> point \<Rightarrow> bool" where
  "on_seg p a b \<longleftrightarrow>
     (\<exists>t. 0 \<le> t \<and> t \<le> 1 \<and> p = (fst a + t * (fst b - fst a), snd a + t * (snd b - snd a)))"

lemma orientation_grid:
  assumes "grid_point a" "grid_point b" "grid_point c"
  shows "orientation a b c =
           (if crossProduct a b c = 0 then 0 else if crossProduct a b c < 0 then 1 else 2)"
proof -
  let ?v = "(snd b - snd a) * (fst c - fst b) - (fst b - fst a) * (snd c - snd b)"
  have eq: "?v = - crossProduct a b c" by (simp add: crossProduct_def algebra_simps)
  have "4096 * ?v \<in> \<int>"
    using assms unfolding right_diff_distrib grid_point_def
    by (intro Ints_diff grid_prod_ints on_grid_diff) auto
  then have "\<bar>?v\<bar> < 1 / 10000 \<Longrightarrow> ?v = 0" by (rule grid_small_zero) simp
  then show ?thesis unfolding orientation_def Let_def eq by auto
qed

lemma on_seg_ends [simp]: "on_seg a a b" "on_seg b a b"
  unfolding on_seg_def by (rule exI [of _ 0], simp, rule exI [of _ 1], simp)

lemma on_seg_sym: "on_seg p a b \<longleftrightarrow> on_seg p b a"
proof -
  have "on_seg p a b \<Longrightarrow> on_seg p b a" for a b
    unfolding on_seg_def by (elim exE, rename_tac t, rule_tac x = "1 - t" in exI) (auto simp: algebra_simps)
  then show ?thesis by blast
qed

lemma on_seg_degenerate [simp]: "on_seg p a a \<longleftrightarrow> p = a"
  unfolding on_seg_def by (auto intro: exI [of _ 0])

lemma between_convex:
  assumes "0 \<le> t" "t \<le> (1::real)"
  shows "min u v \<le> u + t * (v - u)" "u + t * (v - u) \<le> max u v"
proof -
  have "u + t * (v - u) = (1 - t) * u + t * v" by (simp add: algebra_simps)
  moreover have "(1 - t) * min u v \<le> (1 - t) * u" "t * min u v \<le> t * v"
    "(1 - t) * u \<le> (1 - t) * max u v" "t * v \<le> t * max u v"
    using assms by (auto intro: mult_left_mono)
  ultimately show "min u v \<le> u + t * (v - u)" "u + t * (v - u) \<le> max u v"
    by (auto simp: algebra_simps)
qed

text \<open>The parameter of a collinear point.\<close>

lemma collinear_param:
  assumes "crossProduct a b c = 0" "a \<noteq> b"
  obtains g where "c = (fst a + g * (fst b - fst a), snd a + g * (snd b - snd a))"
proof (cases "fst a = fst b")
  case True
  with assms(2) have ne: "snd b - snd a \<noteq> 0" by (auto simp: prod_eq_iff)
  with True assms(1) have "fst c = fst a" by (simp add: crossProduct_def)
  with True ne have "c = (fst a + (snd c - snd a) / (snd b - snd a) * (fst b - fst a),
      snd a + (snd c - snd a) / (snd b - snd a) * (snd b - snd a))"
    by (simp add: prod_eq_iff)
  then show ?thesis by (rule that)
next
  case False
  then have ne: "fst b - fst a \<noteq> 0" by simp
  from assms(1) have "snd c - snd a = (fst c - fst a) / (fst b - fst a) * (snd b - snd a)"
    using ne by (simp add: crossProduct_def field_simps)
  with ne have "c = (fst a + (fst c - fst a) / (fst b - fst a) * (fst b - fst a),
      snd a + (fst c - fst a) / (fst b - fst a) * (snd b - snd a))"
    by (simp add: prod_eq_iff)
  then show ?thesis by (rule that)
qed

lemma param_in_unit:
  assumes "min u v \<le> u + g * (v - u)" "u + g * (v - u) \<le> max u v" "u \<noteq> (v::real)"
  shows "0 \<le> g \<and> g \<le> 1"
proof (cases "u < v")
  case True
  with assms have "0 \<le> g * (v - u)" "(g - 1) * (v - u) \<le> 0" by (simp_all add: algebra_simps)
  with True show ?thesis by (simp add: zero_le_mult_iff mult_le_0_iff)
next
  case False
  with assms(1,2) have "0 \<le> g * (u - v)" "0 \<le> (1 - g) * (u - v)"
    by (simp_all add: algebra_simps)
  moreover have "0 < u - v" using False assms(3) by simp
  ultimately show ?thesis by (simp add: zero_le_mult_iff)
qed

lemma onSegment_iff: "crossProduct a b c = 0 \<and> onSegment a c b \<longleftrightarrow> on_seg c a b"
proof
  assume l: "crossProduct a b c = 0 \<and> onSegment a c b"
  show "on_seg c a b"
  proof (cases "a = b")
    case True
    with l have "fst c = fst a" "snd c = snd a" by (auto simp: onSegment_def)
    then have "c = a" by (simp add: prod_eq_iff)
    with True show ?thesis by simp
  next
    case False
    then obtain g where g: "c = (fst a + g * (fst b - fst a), snd a + g * (snd b - snd a))"
      using collinear_param l by blast
    have "0 \<le> g \<and> g \<le> 1"
    proof (cases "fst a = fst b")
      case True
      with False have "snd a \<noteq> snd b" by (auto simp: prod_eq_iff)
      with l g show ?thesis by (intro param_in_unit [of "snd a" "snd b"]) (simp_all add: onSegment_def)
    next
      case False
      with l g show ?thesis by (intro param_in_unit [of "fst a" "fst b"]) (simp_all add: onSegment_def)
    qed
    with g show ?thesis unfolding on_seg_def by blast
  qed
next
  assume "on_seg c a b"
  then obtain t where t: "0 \<le> t" "t \<le> 1"
    "c = (fst a + t * (fst b - fst a), snd a + t * (snd b - snd a))"
    unfolding on_seg_def by blast
  then show "crossProduct a b c = 0 \<and> onSegment a c b"
    using between_convex [OF t(1,2)] by (auto simp: crossProduct_def onSegment_def)
qed

text \<open>The four tests of the code with exact signs.\<close>

definition meets :: "point \<Rightarrow> point \<Rightarrow> point \<Rightarrow> point \<Rightarrow> bool" where
  "meets a b c d \<longleftrightarrow>
     on_seg c a b \<or> on_seg d a b \<or> on_seg a c d \<or> on_seg b c d \<or>
     sgn (crossProduct a b c) \<noteq> sgn (crossProduct a b d) \<and>
     sgn (crossProduct c d a) \<noteq> sgn (crossProduct c d b)"

lemma segmentsIntersect_grid:
  assumes "grid_point a" "grid_point b" "grid_point c" "grid_point d"
  shows "segmentsIntersect a b c d \<longleftrightarrow> meets a b c d"
proof -
  have cls: "((if u = 0 then 0 else if u < 0 then 1 else 2) = (if v = 0 then 0 else if v < 0 then 1 else (2::nat)))
      \<longleftrightarrow> sgn u = sgn v" for u v :: real
    by (auto simp: sgn_if)
  have z: "((if u = 0 then 0 else if u < 0 then 1 else (2::nat)) = 0) \<longleftrightarrow> u = 0" for u :: real by simp
  show ?thesis
    unfolding segmentsIntersect_def Let_def meets_def
      orientation_grid [OF assms(1,2,3)] orientation_grid [OF assms(1,2,4)]
      orientation_grid [OF assms(3,4,1)] orientation_grid [OF assms(3,4,2)] cls z
      onSegment_iff [symmetric] by auto
qed

lemma cross_affine:
  "crossProduct a b (fst c + s * (fst d - fst c), snd c + s * (snd d - snd c)) =
     (1 - s) * crossProduct a b c + s * crossProduct a b d"
  by (simp add: crossProduct_def algebra_simps)

lemma cross_on_line:
  "crossProduct a b (fst a + t * (fst b - fst a), snd a + t * (snd b - snd a)) = 0"
  by (simp add: crossProduct_def algebra_simps)

lemma convex_zero_sgn:
  assumes "(1 - s) * u + s * v = 0" "0 \<le> s" "s \<le> (1::real)" "u \<noteq> 0" "v \<noteq> 0"
  shows "sgn u \<noteq> sgn v"
proof
  assume "sgn u = sgn v"
  then have "0 < u \<and> 0 < v \<or> u < 0 \<and> v < 0" using assms(4,5) by (auto simp: sgn_if split: if_splits)
  moreover have "0 < 1 - s \<or> 0 < s" by linarith
  moreover have "0 \<le> 1 - s" using assms by simp
  ultimately have "(1 - s) * u + s * v \<noteq> 0"
    using assms(2)
    by (elim disjE conjE)
       (smt (verit) mult_nonneg_nonneg mult_pos_pos mult_nonneg_nonpos mult_pos_neg)+
  with assms(1) show False by simp
qed

lemma collinear_meets:
  assumes t: "0 \<le> t" "t \<le> 1" "p = (fst a + t * (fst b - fst a), snd a + t * (snd b - snd a))"
    and s: "0 \<le> s" "s \<le> 1" "p = (fst c + s * (fst d - fst c), snd c + s * (snd d - snd c))"
    and z: "crossProduct a b c = 0" "crossProduct a b d = 0"
  shows "on_seg c a b \<or> on_seg d a b \<or> on_seg a c d"
proof (cases "a = b")
  case True
  with t s have "on_seg a c d" unfolding on_seg_def by (metis prod.collapse diff_self mult_zero_right add_0_right)
  then show ?thesis by simp
next
  case ne: False
  obtain g where g: "c = (fst a + g * (fst b - fst a), snd a + g * (snd b - snd a))"
    using collinear_param [OF z(1) ne] .
  obtain h where h: "d = (fst a + h * (fst b - fst a), snd a + h * (snd b - snd a))"
    using collinear_param [OF z(2) ne] .
  have eq: "t * (fst b - fst a) = (g + s * (h - g)) * (fst b - fst a)"
    "t * (snd b - snd a) = (g + s * (h - g)) * (snd b - snd a)"
    using t(3) s(3) g h by (auto simp: algebra_simps)
  have tg: "t = g + s * (h - g)"
  proof (cases "fst a = fst b")
    case True
    with ne have "snd b - snd a \<noteq> 0" by (auto simp: prod_eq_iff)
    with eq(2) show ?thesis by simp
  next
    case False
    with eq(1) show ?thesis by simp
  qed
  consider "0 \<le> g \<and> g \<le> 1" | "0 \<le> h \<and> h \<le> 1" | "(g < 0 \<or> 1 < g) \<and> (h < 0 \<or> 1 < h)" by linarith
  then show ?thesis
  proof cases
    case 1
    with g show ?thesis unfolding on_seg_def by blast
  next
    case 2
    with h show ?thesis unfolding on_seg_def by blast
  next
    case 3
    have "min g h \<le> t" "t \<le> max g h" unfolding tg by (rule between_convex [OF s(1,2)])+
    then have "g * h \<le> 0 \<and> g \<noteq> h"
      using 3 t(1,2) by (auto simp: mult_le_0_iff min_def max_def split: if_splits)
    then have gh: "h - g \<noteq> 0" "0 \<le> - g / (h - g)" "- g / (h - g) \<le> 1"
      using 3 by (auto simp: mult_le_0_iff divide_simps)
    have "a = (fst c + (- g / (h - g)) * (fst d - fst c), snd c + (- g / (h - g)) * (snd d - snd c))"
      using gh(1) unfolding g h by (simp add: prod_eq_iff field_simps)
    with gh show ?thesis unfolding on_seg_def by blast
  qed
qed

lemma meets_complete:
  assumes "on_seg p a b" "on_seg p c d"
  shows "meets a b c d"
proof -
  obtain t where t: "0 \<le> t" "t \<le> 1" "p = (fst a + t * (fst b - fst a), snd a + t * (snd b - snd a))"
    using assms(1) unfolding on_seg_def by blast
  obtain s where s: "0 \<le> s" "s \<le> 1" "p = (fst c + s * (fst d - fst c), snd c + s * (snd d - snd c))"
    using assms(2) unfolding on_seg_def by blast
  have C: "(1 - s) * crossProduct a b c + s * crossProduct a b d = 0"
    using cross_on_line [of a b t] by (simp flip: t(3) add: s(3) cross_affine)
  have D: "(1 - t) * crossProduct c d a + t * crossProduct c d b = 0"
    using cross_on_line [of c d s] by (simp flip: s(3) add: t(3) cross_affine)
  have p0: "s = 0 \<Longrightarrow> p = c" "s = 1 \<Longrightarrow> p = d" "t = 0 \<Longrightarrow> p = a" "t = 1 \<Longrightarrow> p = b"
    using t(3) s(3) by simp_all
  consider "crossProduct a b c = 0" "crossProduct a b d = 0"
    | "crossProduct c d a = 0" "crossProduct c d b = 0"
    | "crossProduct a b c = 0" "crossProduct a b d \<noteq> 0"
    | "crossProduct a b c \<noteq> 0" "crossProduct a b d = 0"
    | "crossProduct c d a = 0" "crossProduct c d b \<noteq> 0"
    | "crossProduct c d a \<noteq> 0" "crossProduct c d b = 0"
    | "crossProduct a b c \<noteq> 0" "crossProduct a b d \<noteq> 0" "crossProduct c d a \<noteq> 0" "crossProduct c d b \<noteq> 0"
    by blast
  then show ?thesis
  proof cases
    case 1
    from collinear_meets [OF t s this] show ?thesis by (auto simp: meets_def)
  next
    case 2
    from collinear_meets [OF s t this] show ?thesis by (auto simp: meets_def)
  next
    case 7
    then have "sgn (crossProduct a b c) \<noteq> sgn (crossProduct a b d)"
      "sgn (crossProduct c d a) \<noteq> sgn (crossProduct c d b)"
      using convex_zero_sgn [OF C s(1,2)] convex_zero_sgn [OF D t(1,2)] by auto
    then show ?thesis by (simp add: meets_def)
  qed (use C D p0 assms in \<open>auto simp: meets_def\<close>)
qed

lemma cross_same_side:
  assumes z: "crossProduct a b c = 0" and nz: "crossProduct a b d \<noteq> 0" and out: "\<not> on_seg c a b"
  shows "sgn (crossProduct c d a) = sgn (crossProduct c d b)"
proof -
  have "a \<noteq> b" using nz by (auto simp: crossProduct_def)
  then obtain g where g: "c = (fst a + g * (fst b - fst a), snd a + g * (snd b - snd a))"
    using collinear_param z by blast
  let ?K = "(fst d - fst c) * (snd b - snd a) - (snd d - snd c) * (fst b - fst a)"
  have A: "crossProduct c d a = - g * ?K" and B: "crossProduct c d b = (1 - g) * ?K"
    by (simp_all add: g crossProduct_def algebra_simps)
  have "\<not> (0 \<le> g \<and> g \<le> 1)" using out g unfolding on_seg_def by blast
  then have "sgn (- g) = sgn (1 - g)" by (auto simp: sgn_if)
  then show ?thesis by (simp only: A B sgn_mult)
qed

lemma crossing_point:
  assumes "crossProduct c d a \<noteq> crossProduct c d b"
  defines "D \<equiv> crossProduct c d a - crossProduct c d b"
  shows "(fst a + crossProduct c d a / D * (fst b - fst a), snd a + crossProduct c d a / D * (snd b - snd a)) =
         (fst c - crossProduct a b c / D * (fst d - fst c), snd c - crossProduct a b c / D * (snd d - snd c))"
    and "crossProduct a b d - crossProduct a b c = D"
proof -
  show D: "crossProduct a b d - crossProduct a b c = D"
    by (simp add: D_def crossProduct_def algebra_simps)
  have nz: "D \<noteq> 0" using assms by simp
  have "D * fst a + crossProduct c d a * (fst b - fst a) = D * fst c - crossProduct a b c * (fst d - fst c)"
    "D * snd a + crossProduct c d a * (snd b - snd a) = D * snd c - crossProduct a b c * (snd d - snd c)"
    by (simp_all add: D_def crossProduct_def algebra_simps)
  with nz show "(fst a + crossProduct c d a / D * (fst b - fst a), snd a + crossProduct c d a / D * (snd b - snd a)) =
         (fst c - crossProduct a b c / D * (fst d - fst c), snd c - crossProduct a b c / D * (snd d - snd c))"
    by (simp add: field_simps)
qed

lemma opposite_ratio:
  assumes "sgn u \<noteq> sgn v" "u \<noteq> 0" "v \<noteq> (0::real)"
  shows "0 \<le> u / (u - v)" "u / (u - v) \<le> 1" "u \<noteq> v"
  using assms by (auto simp: sgn_if divide_simps split: if_splits)

lemma meets_sound:
  assumes "meets a b c d"
  shows "\<exists>p. on_seg p a b \<and> on_seg p c d"
proof (cases "on_seg c a b \<or> on_seg d a b \<or> on_seg a c d \<or> on_seg b c d")
  case True
  then show ?thesis using on_seg_ends by blast
next
  case out: False
  with assms have s: "sgn (crossProduct a b c) \<noteq> sgn (crossProduct a b d)"
    "sgn (crossProduct c d a) \<noteq> sgn (crossProduct c d b)" by (auto simp: meets_def)
  have ne: "a \<noteq> b" "c \<noteq> d" using s by (auto simp: crossProduct_def)
  have anti: "crossProduct b a q = - crossProduct a b q" for a b q
    by (simp add: crossProduct_def algebra_simps)
  have nz: "crossProduct a b c \<noteq> 0" "crossProduct a b d \<noteq> 0"
    "crossProduct c d a \<noteq> 0" "crossProduct c d b \<noteq> 0"
  proof -
    show "crossProduct a b c \<noteq> 0"
    proof
      assume z: "crossProduct a b c = 0"
      with s(1) have "crossProduct a b d \<noteq> 0" by auto
      from cross_same_side [OF z this] out s(2) show False by blast
    qed
    show "crossProduct a b d \<noteq> 0"
    proof
      assume z: "crossProduct a b d = 0"
      with s(1) have "crossProduct a b c \<noteq> 0" by auto
      from cross_same_side [OF z this] out s(2) show False by (auto simp: anti [of d c])
    qed
    show "crossProduct c d a \<noteq> 0"
    proof
      assume z: "crossProduct c d a = 0"
      with s(2) have "crossProduct c d b \<noteq> 0" by auto
      from cross_same_side [OF z this] out s(1) show False by blast
    qed
    show "crossProduct c d b \<noteq> 0"
    proof
      assume z: "crossProduct c d b = 0"
      with s(2) have "crossProduct c d a \<noteq> 0" by auto
      from cross_same_side [OF z this] out s(1) show False by (auto simp: anti [of b a])
    qed
  qed
  define D where "D = crossProduct c d a - crossProduct c d b"
  have ne: "crossProduct c d a \<noteq> crossProduct c d b" using s(2) by auto
  have t: "0 \<le> crossProduct c d a / D" "crossProduct c d a / D \<le> 1"
    using opposite_ratio [OF s(2) nz(3,4)] by (simp_all add: D_def)
  have "D = - (crossProduct a b c - crossProduct a b d)" using crossing_point(2) [OF ne] by (simp add: D_def)
  then have "- (crossProduct a b c / D) = crossProduct a b c / (crossProduct a b c - crossProduct a b d)"
    by (simp add: minus_divide_right)
  then have u: "0 \<le> - (crossProduct a b c / D)" "- (crossProduct a b c / D) \<le> 1"
    using opposite_ratio [OF s(1) nz(1,2)] by simp_all
  let ?p = "(fst a + crossProduct c d a / D * (fst b - fst a), snd a + crossProduct c d a / D * (snd b - snd a))"
  have "on_seg ?p a b" using t unfolding on_seg_def by blast
  moreover have "on_seg ?p c d"
    unfolding on_seg_def
    by (rule exI [of _ "- (crossProduct a b c / D)"]) (use u crossing_point(1) [OF ne] in \<open>simp add: D_def\<close>)
  ultimately show ?thesis by blast
qed

lemma entry_point:
  fixes u v du dv :: real
  assumes "u < lo" "0 \<le> r" "lo \<le> u + r * du" "u + r * du \<le> hi" "lo' \<le> v + r * dv" "v + r * dv \<le> hi'"
  shows "\<exists>t. 0 \<le> t \<and> t \<le> r \<and>
     (u + t * du = lo \<and> lo' \<le> v + t * dv \<and> v + t * dv \<le> hi' \<or>
      lo \<le> u + t * du \<and> u + t * du \<le> hi \<and> (v + t * dv = lo' \<or> v + t * dv = hi'))"
proof -
  have rdu: "0 < r * du" using assms by linarith
  with assms(2) have du: "0 < du" by (simp add: zero_less_mult_iff)
  define t where "t = (lo - u) / du"
  have t: "u + t * du = lo" "0 \<le> t" using du assms(1) by (simp_all add: t_def)
  have tr: "t \<le> r" using du assms(3) by (simp add: t_def pos_divide_le_eq)
  have mono: "lo \<le> u + w * du \<and> u + w * du \<le> hi" if "t \<le> w" "w \<le> r" for w
  proof -
    have "t * du \<le> w * du" "w * du \<le> r * du" using that du by (simp_all add: mult_right_mono)
    with t(1) assms(4) show ?thesis by linarith
  qed
  consider "lo' \<le> v + t * dv \<and> v + t * dv \<le> hi'" | "v + t * dv < lo'" | "hi' < v + t * dv" by linarith
  then show ?thesis
  proof cases
    case 1
    with t tr show ?thesis by blast
  next
    case 2
    then have "0 < (r - t) * dv" using assms(5) by (simp add: algebra_simps)
    with tr have dv: "0 < dv" by (simp add: zero_less_mult_iff)
    define w where "w = (lo' - v) / dv"
    have w: "v + w * dv = lo'" using dv by (simp add: w_def)
    have "t \<le> w" "w \<le> r"
      using dv 2 assms(5) by (simp_all add: w_def pos_le_divide_eq pos_divide_le_eq)
    with w mono [of w] t(2) show ?thesis by (intro exI [of _ w]) auto
  next
    case 3
    then have "(r - t) * dv < 0" using assms(6) by (simp add: algebra_simps)
    with tr have dv: "dv < 0" by (simp add: mult_less_0_iff)
    define w where "w = (hi' - v) / dv"
    have w: "v + w * dv = hi'" using dv by (simp add: w_def)
    have "t \<le> w" "w \<le> r"
      using dv 3 assms(6) by (simp_all add: w_def neg_le_divide_eq neg_divide_le_eq)
    with w mono [of w] t(2) show ?thesis by (intro exI [of _ w]) auto
  qed
qed

lemma entry_point_hi:
  fixes u v du dv :: real
  assumes "hi < u" "0 \<le> r" "lo \<le> u + r * du" "u + r * du \<le> hi" "lo' \<le> v + r * dv" "v + r * dv \<le> hi'"
  shows "\<exists>t. 0 \<le> t \<and> t \<le> r \<and>
     (u + t * du = hi \<and> lo' \<le> v + t * dv \<and> v + t * dv \<le> hi' \<or>
      lo \<le> u + t * du \<and> u + t * du \<le> hi \<and> (v + t * dv = lo' \<or> v + t * dv = hi'))"
proof -
  have *: "- u + t * - du = - (u + t * du)" for t by simp
  show ?thesis
    using entry_point [of "- u" "- hi" r "- du" "- lo" lo' v dv hi'] assms unfolding * by auto
qed

definition valid_bounds :: "bounds \<Rightarrow> bool" where
  "valid_bounds box \<longleftrightarrow> bx1 box \<le> bx2 box \<and> by1 box \<le> by2 box"

definition on_border :: "point \<Rightarrow> bounds \<Rightarrow> bool" where
  "on_border p box \<longleftrightarrow> pointInBox p box \<and>
     (fst p = bx1 box \<or> fst p = bx2 box \<or> snd p = by1 box \<or> snd p = by2 box)"

lemma on_seg_horizontal: "u \<le> v \<Longrightarrow> on_seg p (u, y) (v, y) \<longleftrightarrow> snd p = y \<and> u \<le> fst p \<and> fst p \<le> v"
  by (subst onSegment_iff [symmetric]) (auto simp: crossProduct_def onSegment_def)

lemma on_seg_vertical: "u \<le> v \<Longrightarrow> on_seg p (x, u) (x, v) \<longleftrightarrow> fst p = x \<and> u \<le> snd p \<and> snd p \<le> v"
  by (subst onSegment_iff [symmetric]) (auto simp: crossProduct_def onSegment_def)

lemma on_border_edges:
  "valid_bounds box \<Longrightarrow> on_border p box \<longleftrightarrow>
     on_seg p (bx1 box, by1 box) (bx2 box, by1 box) \<or> on_seg p (bx2 box, by1 box) (bx2 box, by2 box) \<or>
     on_seg p (bx2 box, by2 box) (bx1 box, by2 box) \<or> on_seg p (bx1 box, by2 box) (bx1 box, by1 box)"
  unfolding on_seg_sym [of p "(bx2 box, by2 box)" "(bx1 box, by2 box)"]
    on_seg_sym [of p "(bx1 box, by2 box)" "(bx1 box, by1 box)"]
  by (auto simp: on_border_def pointInBox_def valid_bounds_def on_seg_horizontal on_seg_vertical)

lemma border_crossing:
  assumes q: "on_seg q a b" "pointInBox q box" and out: "\<not> pointInBox a box"
  shows "\<exists>p. on_seg p a b \<and> on_border p box"
proof -
  obtain r where r: "0 \<le> r" "r \<le> 1" "q = (fst a + r * (fst b - fst a), snd a + r * (snd b - snd a))"
    using q(1) unfolding on_seg_def by blast
  have qb: "bx1 box \<le> fst a + r * (fst b - fst a)" "fst a + r * (fst b - fst a) \<le> bx2 box"
    "by1 box \<le> snd a + r * (snd b - snd a)" "snd a + r * (snd b - snd a) \<le> by2 box"
    using q(2) r(3) by (auto simp: pointInBox_def)
  have fin: ?thesis if "0 \<le> t" "t \<le> r"
    "on_border (fst a + t * (fst b - fst a), snd a + t * (snd b - snd a)) box" for t
  proof -
    have "on_seg (fst a + t * (fst b - fst a), snd a + t * (snd b - snd a)) a b"
      using that(1,2) r(2) unfolding on_seg_def by (intro exI [of _ t]) simp
    with that(3) show ?thesis by blast
  qed
  consider "fst a < bx1 box" | "bx2 box < fst a" | "snd a < by1 box" | "by2 box < snd a"
    using out by (auto simp: pointInBox_def not_le)
  then show ?thesis
  proof cases
    case 1
    from entry_point [OF 1 r(1) qb(1,2,3,4)] show ?thesis
      using qb fin by (elim exE, rename_tac t) (auto simp: on_border_def pointInBox_def)
  next
    case 2
    from entry_point_hi [OF 2 r(1) qb(1,2,3,4)] show ?thesis
      using qb fin by (elim exE, rename_tac t) (auto simp: on_border_def pointInBox_def)
  next
    case 3
    from entry_point [OF 3 r(1) qb(3,4,1,2)] show ?thesis
      using qb fin by (elim exE, rename_tac t) (auto simp: on_border_def pointInBox_def)
  next
    case 4
    from entry_point_hi [OF 4 r(1) qb(3,4,1,2)] show ?thesis
      using qb fin by (elim exE, rename_tac t) (auto simp: on_border_def pointInBox_def)
  qed
qed

lemma segmentsIntersect_exact:
  assumes "grid_point a" "grid_point b" "grid_point c" "grid_point d"
  shows "segmentsIntersect a b c d \<longleftrightarrow> (\<exists>p. on_seg p a b \<and> on_seg p c d)"
  using segmentsIntersect_grid [OF assms] meets_sound meets_complete by blast

lemma segmentIntersectsRect_exact:
  assumes "grid_point (fst seg)" "grid_point (snd seg)" "grid_rect rect" "valid_rect rect"
    and "on_grid gap" "0 \<le> gap"
  shows "segmentIntersectsRect seg rect gap \<longleftrightarrow>
     (\<exists>p. on_seg p (fst seg) (snd seg) \<and> pointInBox p (expand_rect rect gap))"
proof -
  let ?box = "expand_rect rect gap"
  have v: "valid_bounds ?box" using assms(4,6) by (simp add: valid_bounds_def expand_rect_def valid_rect_def)
  have g: "grid_point (bx1 ?box, by1 ?box)" "grid_point (bx2 ?box, by1 ?box)"
    "grid_point (bx1 ?box, by2 ?box)" "grid_point (bx2 ?box, by2 ?box)"
    using assms(3,5) by (auto simp: grid_point_def grid_rect_def expand_rect_def intro!: on_grid_add on_grid_diff)
  show ?thesis
  proof (cases "pointInBox (fst seg) ?box \<or> pointInBox (snd seg) ?box")
    case True
    then show ?thesis unfolding segmentIntersectsRect_def Let_def using on_seg_ends by fastforce
  next
    case False
    have "segmentIntersectsRect seg rect gap \<longleftrightarrow> (\<exists>p. on_seg p (fst seg) (snd seg) \<and> on_border p ?box)"
      using False
      by (auto simp: segmentIntersectsRect_def Let_def segmentsIntersect_exact assms(1,2) g on_border_edges [OF v])
    also have "\<dots> \<longleftrightarrow> (\<exists>p. on_seg p (fst seg) (snd seg) \<and> pointInBox p ?box)"
      using False border_crossing [of _ "fst seg" "snd seg" ?box] by (auto simp: on_border_def)
    finally show ?thesis .
  qed
qed

lemma rectsOverlap_sym: "rectsOverlap a b gap \<longleftrightarrow> rectsOverlap b a gap"
  by (auto simp: rectsOverlap_def)

lemma rectsOverlap_iff:
  assumes "0 < rwidth a" "0 < rheight a" "0 < rwidth b" "0 < rheight b"
  shows "rectsOverlap a b 0 \<longleftrightarrow>
     (\<exists>u v. rx a < u \<and> u < rx a + rwidth a \<and> ry a < v \<and> v < ry a + rheight a \<and>
            rx b < u \<and> u < rx b + rwidth b \<and> ry b < v \<and> v < ry b + rheight b)"
proof
  assume o: "rectsOverlap a b 0"
  have d: "\<exists>u. p < u \<and> u < q \<and> p' < u \<and> u < q'" if "p < q'" "p' < q" "p < q" "p' < q'" for p q p' q' :: real
    using dense [of "max p p'" "min q q'"] that by auto
  show "\<exists>u v. rx a < u \<and> u < rx a + rwidth a \<and> ry a < v \<and> v < ry a + rheight a \<and>
            rx b < u \<and> u < rx b + rwidth b \<and> ry b < v \<and> v < ry b + rheight b"
    using o assms d [of "rx a" "rx b + rwidth b" "rx b" "rx a + rwidth a"]
      d [of "ry a" "ry b + rheight b" "ry b" "ry a + rheight a"]
    by (auto simp: rectsOverlap_def)
qed (auto simp: rectsOverlap_def)

end
