(* ===== verification/Routes.thy ===== *)
theory Routes
  imports Geometry_Core
begin

text \<open>
  Routes: the polylines of \<open>renderers/shared/geometry.mjs\<close>. The relationships and their sides, and
  the normalisation of a route: on the grid it keeps the drawn curve and both ends, and leaves no
  repeated point and no way point a straight run could skip.

  A relationship (edge, flow, transition, connection) is a record of its authored fields; \<open>oid\<close> is
  the identity of the JavaScript object, which the sources compare with \<open>===\<close> and use as \<open>Map\<close> key.
\<close>

section \<open>Relationships and sides\<close>

datatype side = Auto | LeftS | RightS | TopS | BottomS

record relation =
  oid :: nat
  rel_key :: "jstring option"
  rel_id :: "jstring option"
  rel_from :: jstring
  rel_to :: jstring
  rel_label :: "jstring option"
  fromSide :: "side option"
  toSide :: "side option"
  rel_route :: "jstring option"
  via :: "point list option"
  channelX :: "real option"
  channelY :: "real option"
  labelAt :: "point option"
  labelDx :: "real option"
  labelDy :: "real option"
  labelSegment :: "int option"

definition chosenSide :: "side option \<Rightarrow> side \<Rightarrow> side" where
  "chosenSide s fallback = (case s of None \<Rightarrow> fallback | Some s' \<Rightarrow> if s' \<noteq> Auto then s' else fallback)"

definition defaultFromSide :: "box \<Rightarrow> box \<Rightarrow> side" where
  "defaultFromSide from to =
     (if bcx to < bcx from then LeftS
      else if bcx from < bcx to then RightS
      else if bcy from < bcy to then BottomS
      else TopS)"

definition defaultToSide :: "box \<Rightarrow> box \<Rightarrow> side" where
  "defaultToSide from to =
     (if bcx to < bcx from then RightS
      else if bcx from < bcx to then LeftS
      else if bcy from < bcy to then TopS
      else BottomS)"

definition anchor :: "box \<Rightarrow> side \<Rightarrow> point" where
  "anchor rect s =
     (case s of
        LeftS \<Rightarrow> (rx rect, bcy rect)
      | RightS \<Rightarrow> (rx rect + rwidth rect, bcy rect)
      | TopS \<Rightarrow> (bcx rect, ry rect)
      | BottomS \<Rightarrow> (bcx rect, ry rect + rheight rect)
      | Auto \<Rightarrow> (rx rect + rwidth rect, bcy rect))"

section \<open>Normalised routes\<close>

definition dedupe_step :: "point list \<Rightarrow> point \<Rightarrow> point list" where
  "dedupe_step deduped p =
     (if deduped = [] \<or> 1 / 10000 < \<bar>fst p - fst (last deduped)\<bar> \<or>
         1 / 10000 < \<bar>snd p - snd (last deduped)\<bar>
      then deduped @ [p] else deduped)"

text \<open>The inner \<open>while\<close> loop, which pops collinear way points.\<close>

function pop_collinear :: "point list \<Rightarrow> point \<Rightarrow> point list" where
  "pop_collinear normalized p =
     (if 2 \<le> length normalized \<and>
         collinearForward (normalized ! (length normalized - 2)) (last normalized) p
      then pop_collinear (butlast normalized) p
      else normalized)"
  by pat_completeness auto
termination
  by (relation "measure (\<lambda>(normalized, p). length normalized)") auto

declare pop_collinear.simps [simp del]

definition normalize_step :: "point list \<Rightarrow> point \<Rightarrow> point list" where
  "normalize_step normalized p = pop_collinear normalized p @ [p]"

definition normalizeRoutePoints :: "point list \<Rightarrow> point list" where
  "normalizeRoutePoints points = foldl normalize_step [] (foldl dedupe_step [] points)"

section \<open>Normalisation: proofs\<close>

definition grid_points :: "point list \<Rightarrow> bool" where
  "grid_points ps \<longleftrightarrow> (\<forall>p\<in>set ps. grid_point p)"

lemma grid_points_simps [simp]:
  "grid_points []" "grid_points (p # ps) \<longleftrightarrow> grid_point p \<and> grid_points ps"
  "grid_points (ps @ qs) \<longleftrightarrow> grid_points ps \<and> grid_points qs"
  by (auto simp: grid_points_def)

lemma grid_near_eq:
  assumes "grid_point p" "grid_point q"
  shows "(1 / 10000 < \<bar>fst p - fst q\<bar> \<or> 1 / 10000 < \<bar>snd p - snd q\<bar>) \<longleftrightarrow> p \<noteq> q"
proof -
  have far: "1 / 10000 < \<bar>v\<bar> \<longleftrightarrow> v \<noteq> 0" if "on_grid v" for v
    using grid_small_zero1 [OF that] by fastforce
  show ?thesis
    using assms far [of "fst p - fst q"] far [of "snd p - snd q"]
    by (simp add: grid_point_def on_grid_diff prod_eq_iff)
qed

text \<open>On the grid the first loop removes adjacent duplicates.\<close>

lemma dedupe_grid_snoc:
  "grid_points ps \<Longrightarrow> grid_point q \<Longrightarrow> foldl dedupe_step (acc @ [q]) ps = acc @ remdups_adj (q # ps)"
proof (induction ps arbitrary: acc q)
  case (Cons p ps)
  then have "dedupe_step (acc @ [q]) p = (if p = q then acc @ [q] else acc @ [q] @ [p])"
    using grid_near_eq [of p q] by (auto simp: dedupe_step_def)
  with Cons.IH [of q acc] Cons.IH [of p "acc @ [q]"] Cons.prems show ?case by (cases "p = q") simp_all
qed simp

lemma dedupe_grid: "grid_points ps \<Longrightarrow> foldl dedupe_step [] ps = remdups_adj ps"
  using dedupe_grid_snoc [of "tl ps" "hd ps" "[]"] by (cases ps) (auto simp: dedupe_step_def)

text \<open>On the grid \<open>collinearForward\<close> is exact.\<close>

definition fwd :: "point \<Rightarrow> point \<Rightarrow> point \<Rightarrow> bool" where
  "fwd a b c \<longleftrightarrow> crossProduct a b c = 0 \<and>
     0 \<le> (fst b - fst a) * (fst c - fst b) + (snd b - snd a) * (snd c - snd b)"

lemma collinearForward_grid:
  assumes "grid_point a" "grid_point b" "grid_point c"
  shows "collinearForward a b c \<longleftrightarrow> fwd a b c"
proof -
  let ?d = "(fst b - fst a) * (fst c - fst b) + (snd b - snd a) * (snd c - snd b)"
  have "4096 * crossProduct a b c \<in> \<int>"
    using assms unfolding crossProduct_def right_diff_distrib grid_point_def
    by (intro Ints_diff grid_prod_ints on_grid_diff) auto
  then have c: "\<bar>crossProduct a b c\<bar> \<le> 1 / 10000 \<Longrightarrow> crossProduct a b c = 0" by (rule grid_small_zero)
  have "4096 * ?d \<in> \<int>"
    using assms unfolding distrib_left grid_point_def
    by (intro Ints_add grid_prod_ints on_grid_diff) auto
  then have "- (1 / 10000) \<le> ?d \<Longrightarrow> 0 \<le> ?d" using grid_small_zero [of ?d] by linarith
  with c show ?thesis by (auto simp: collinearForward_def fwd_def)
qed

lemma fwd_on_seg: "fwd a b c \<Longrightarrow> on_seg b a c"
proof (cases "a = b")
  case False
  assume f: "fwd a b c"
  then have "crossProduct a b c = 0" by (simp add: fwd_def)
  then obtain g where g: "c = (fst a + g * (fst b - fst a), snd a + g * (snd b - snd a))"
    using collinear_param False by blast
  have "0 \<le> (g - 1) * ((fst b - fst a)\<^sup>2 + (snd b - snd a)\<^sup>2)"
    using f by (simp add: fwd_def g algebra_simps power2_eq_square)
  moreover have "0 < (fst b - fst a)\<^sup>2 + (snd b - snd a)\<^sup>2"
    using False by (auto simp: sum_power2_gt_zero_iff prod_eq_iff)
  ultimately have "1 \<le> g" by (simp add: zero_le_mult_iff)
  then show ?thesis unfolding on_seg_def
    by (intro exI [of _ "1 / g"]) (simp add: g prod_eq_iff)
qed simp

lemma fwd_distinct: "fwd a b c \<Longrightarrow> a \<noteq> b \<Longrightarrow> b \<noteq> c \<Longrightarrow> a \<noteq> c"
  using fwd_on_seg [of a b c] by auto

lemma on_seg_split: "on_seg b a c \<Longrightarrow> on_seg p a c \<longleftrightarrow> on_seg p a b \<or> on_seg p b c"
proof -
  assume "on_seg b a c"
  then obtain t where t: "0 \<le> t" "t \<le> 1" and b: "b = (fst a + t * (fst c - fst a), snd a + t * (snd c - snd a))"
    unfolding on_seg_def by blast
  show ?thesis
  proof
    assume "on_seg p a c"
    then obtain s where s: "0 \<le> s" "s \<le> 1" and p: "p = (fst a + s * (fst c - fst a), snd a + s * (snd c - snd a))"
      unfolding on_seg_def by blast
    show "on_seg p a b \<or> on_seg p b c"
    proof (cases "s \<le> t")
      case True
      show ?thesis
      proof (cases "t = 0")
        case True
        with \<open>s \<le> t\<close> s have "s = 0" by simp
        then have "p = a" using p by simp
        then show ?thesis by simp
      next
        case False
        with t True s have "0 \<le> s / t" "s / t \<le> 1" by auto
        then have "on_seg p a b" unfolding on_seg_def using False
          by (intro exI [of _ "s / t"]) (simp add: p b)
        then show ?thesis ..
      qed
    next
      case False
      then have "t < 1" using s by simp
      define w where "w = (s - t) / (1 - t)"
      have w: "0 \<le> w" "w \<le> 1" using False s t \<open>t < 1\<close> by (auto simp: w_def)
      have s_eq: "s = t + w * (1 - t)" using \<open>t < 1\<close> by (simp add: w_def)
      have "p = (fst b + w * (fst c - fst b), snd b + w * (snd c - snd b))"
        unfolding p b by (simp add: s_eq algebra_simps)
      with w show ?thesis unfolding on_seg_def by blast
    qed
  next
    assume "on_seg p a b \<or> on_seg p b c"
    then show "on_seg p a c"
    proof
      assume "on_seg p a b"
      then obtain s where s: "0 \<le> s" "s \<le> 1" and p: "p = (fst a + s * (fst b - fst a), snd a + s * (snd b - snd a))"
        unfolding on_seg_def by blast
      then show ?thesis unfolding on_seg_def using t
        by (intro exI [of _ "s * t"]) (simp add: b mult_le_one)
    next
      assume "on_seg p b c"
      then obtain s where s: "0 \<le> s" "s \<le> 1" and p: "p = (fst b + s * (fst c - fst b), snd b + s * (snd c - snd b))"
        unfolding on_seg_def by blast
      have "s * (1 - t) \<le> 1 * (1 - t)" "0 \<le> s * (1 - t)"
        using s t by (intro mult_right_mono mult_nonneg_nonneg; simp)+
      moreover have "p = (fst a + (t + s * (1 - t)) * (fst c - fst a), snd a + (t + s * (1 - t)) * (snd c - snd a))"
        by (simp add: p b algebra_simps)
      ultimately show ?thesis unfolding on_seg_def using t
        by (intro exI [of _ "t + s * (1 - t)"]) simp
    qed
  qed
qed


text \<open>The curve of a route: its points and the points of its segments.\<close>

definition trace :: "point list \<Rightarrow> point set" where
  "trace ps = set ps \<union> {p. \<exists>(a, b)\<in>set (pairs ps). on_seg p a b}"

lemma trace_simps [simp]: "trace [] = {}" "trace [p] = {p}"
  by (simp_all add: trace_def)

lemma trace_Cons2: "trace (p # q # ps) = {r. on_seg r p q} \<union> trace (q # ps)"
  by (auto simp: trace_def)

lemma trace_snoc: "ps \<noteq> [] \<Longrightarrow> trace (ps @ [q]) = trace ps \<union> {r. on_seg r (last ps) q}"
  by (induction ps rule: induct_list012) (auto simp: trace_Cons2)

lemma trace_remdups_adj: "trace (remdups_adj ps) = trace ps"
proof (induction ps rule: remdups_adj.induct)
  case (3 p q ps)
  show ?case
  proof (cases "p = q")
    case True
    then have "trace (p # q # ps) = trace (q # ps)" by (auto simp: trace_Cons2) (auto simp: trace_def)
    with True 3 show ?thesis by simp
  next
    case False
    then obtain qs where "remdups_adj (q # ps) = q # qs"
      by (metis list.exhaust_sel remdups_adj.simps(2) hd_remdups_adj list.sel(1) remdups_adj_Nil_iff list.discI)
    with False 3 show ?thesis by (simp add: trace_Cons2)
  qed
qed simp_all

text \<open>
  A normal route: no immediate repetition and no way point a straight run could skip.
\<close>

definition normal_route :: "point list \<Rightarrow> bool" where
  "normal_route ps \<longleftrightarrow> distinct_adj ps \<and>
     (\<forall>i. i + 2 < length ps \<longrightarrow> \<not> fwd (ps ! i) (ps ! (i + 1)) (ps ! (i + 2)))"

lemma normal_route_snoc:
  assumes "normal_route ns" "ns \<noteq> [] \<Longrightarrow> last ns \<noteq> p"
    and "2 \<le> length ns \<Longrightarrow> \<not> fwd (ns ! (length ns - 2)) (last ns) p"
  shows "normal_route (ns @ [p])"
proof -
  have "\<not> fwd ((ns @ [p]) ! i) ((ns @ [p]) ! (i + 1)) ((ns @ [p]) ! (i + 2))" if "i + 2 < length (ns @ [p])" for i
  proof (cases "i + 2 < length ns")
    case True
    then show ?thesis using assms(1) by (simp add: normal_route_def nth_append)
  next
    case False
    then have i: "i = length ns - 2" "2 \<le> length ns" using that by auto
    then have "i + 1 = length ns - 1" "ns \<noteq> []" by auto
    then have "ns ! (i + 1) = last ns" by (metis last_conv_nth)
    moreover have "i + 2 = length ns" "i < length ns" "i + 1 < length ns" using i by auto
    then have "(ns @ [p]) ! (i + 2) = p" "(ns @ [p]) ! i = ns ! (length ns - 2)"
      "(ns @ [p]) ! (i + 1) = ns ! (i + 1)"
      using i by (metis nth_append_length, simp_all add: nth_append)
    ultimately show ?thesis using i assms(3) by metis
  qed
  then show ?thesis using assms(1,2) by (auto simp: normal_route_def distinct_adj_append_iff)
qed

lemma normal_route_butlast: "normal_route ns \<Longrightarrow> normal_route (butlast ns)"
proof (cases "ns = []")
  case False
  assume n: "normal_route ns"
  then have "distinct_adj (butlast ns @ [last ns])" using False by (simp add: normal_route_def)
  then have "distinct_adj (butlast ns)" by (simp add: distinct_adj_append_iff)
  with n show ?thesis by (simp add: normal_route_def nth_butlast)
qed simp

text \<open>What the popping loop keeps, for a grid point that differs from the last one.\<close>

lemma pop_collinear_grid:
  assumes "normal_route ns" "grid_points ns" "grid_point p" "ns \<noteq> []" "last ns \<noteq> p"
  shows "normal_route (pop_collinear ns p @ [p]) \<and> pop_collinear ns p \<noteq> [] \<and>
     grid_points (pop_collinear ns p) \<and> hd (pop_collinear ns p) = hd ns \<and>
     subseq (pop_collinear ns p) ns \<and> trace (pop_collinear ns p @ [p]) = trace (ns @ [p])"
  using assms
proof (induction ns p rule: pop_collinear.induct)
  case (1 ns p)
  show ?case
  proof (cases "2 \<le> length ns \<and> fwd (ns ! (length ns - 2)) (last ns) p")
    case True
    let ?ms = "butlast ns"
    from True have "0 < length ?ms" by simp
    then have ms1: "?ms \<noteq> []" by blast
    then have "last ?ms = ?ms ! (length ns - 2)" by (simp add: last_conv_nth numeral_2_eq_2)
    also have "\<dots> = ns ! (length ns - 2)" using \<open>0 < length ?ms\<close> by (intro nth_butlast) simp
    finally have ms: "?ms \<noteq> []" "last ?ms = ns ! (length ns - 2)" using ms1 by auto
    have g: "grid_point (ns ! (length ns - 2))" "grid_point (last ns)"
      using "1.prems"(2,4) True by (auto simp: grid_points_def)
    then have cf: "collinearForward (ns ! (length ns - 2)) (last ns) p"
      using True "1.prems"(3) by (simp add: collinearForward_grid)
    have ns: "ns = ?ms @ [last ns]" using "1.prems"(4) by simp
    have "last ?ms \<noteq> last ns"
      using "1.prems"(1) ms(1) unfolding normal_route_def by (subst (asm) ns) (simp add: distinct_adj_append_iff)
    then have "last ?ms \<noteq> p" using True "1.prems"(5) fwd_distinct ms(2) by metis
    moreover have "grid_points ?ms" using "1.prems"(2) by (auto simp: grid_points_def dest: in_set_butlastD)
    ultimately have IH: "normal_route (pop_collinear ?ms p @ [p]) \<and> pop_collinear ?ms p \<noteq> [] \<and>
     grid_points (pop_collinear ?ms p) \<and> hd (pop_collinear ?ms p) = hd ?ms \<and>
     subseq (pop_collinear ?ms p) ?ms \<and> trace (pop_collinear ?ms p @ [p]) = trace (?ms @ [p])"
      using "1.IH" True cf ms(1) "1.prems"(1,3) normal_route_butlast by blast
    have eq: "pop_collinear ns p = pop_collinear ?ms p"
      using True cf by (simp add: pop_collinear.simps [of ns p])
    have "trace (ns @ [p]) = trace (?ms @ [last ns]) \<union> {r. on_seg r (last ns) p}"
      using "1.prems"(4) trace_snoc [of ns p] by simp
    also have "\<dots> = trace ?ms \<union> ({r. on_seg r (last ?ms) (last ns)} \<union> {r. on_seg r (last ns) p})"
      using ms(1) trace_snoc [of ?ms "last ns"] by auto
    also have "\<dots> = trace ?ms \<union> {r. on_seg r (last ?ms) p}"
      using on_seg_split [OF fwd_on_seg, of "last ?ms" "last ns" p] True ms(2) by auto
    also have "\<dots> = trace (?ms @ [p])" using ms(1) by (simp add: trace_snoc)
    finally have "trace (ns @ [p]) = trace (?ms @ [p])" .
    moreover have "hd ?ms = hd ns" using ms(1) by (metis hd_append2 ns)
    moreover have "subseq ?ms ns" by (metis ns subseq_rev_drop_many subseq_order.refl)
    ultimately show ?thesis using IH eq by (auto intro: subseq_order.trans)
  next
    case False
    have "\<not> (2 \<le> length ns \<and> collinearForward (ns ! (length ns - 2)) (last ns) p)"
      using False collinearForward_grid [of "ns ! (length ns - 2)" "last ns" p] "1.prems"(2,3,4)
      by (auto simp: grid_points_def)
    then have "pop_collinear ns p = ns" by (subst pop_collinear.simps) auto
    with 1 False show ?thesis using normal_route_snoc by auto
  qed
qed


lemma normalize_loop_grid:
  assumes "grid_points ps" "distinct_adj (last ns # ps)" "normal_route ns" "grid_points ns" "ns \<noteq> []"
  shows "normal_route (foldl normalize_step ns ps) \<and> grid_points (foldl normalize_step ns ps) \<and>
     foldl normalize_step ns ps \<noteq> [] \<and>
     hd (foldl normalize_step ns ps) = hd ns \<and> last (foldl normalize_step ns ps) = last (ns @ ps) \<and>
     subseq (foldl normalize_step ns ps) (ns @ ps) \<and> trace (foldl normalize_step ns ps) = trace (ns @ ps)"
  using assms
proof (induction ps arbitrary: ns)
  case (Cons p ps)
  have p: "last ns \<noteq> p" "grid_point p" "distinct_adj (p # ps)" using Cons.prems by auto
  let ?q = "pop_collinear ns p"
  have q: "normal_route (?q @ [p])" "?q \<noteq> []" "grid_points ?q" "hd ?q = hd ns" "subseq ?q ns"
    "trace (?q @ [p]) = trace (ns @ [p])"
    using pop_collinear_grid [OF Cons.prems(3,4) p(2) Cons.prems(5) p(1)] by auto
  have step: "foldl normalize_step ns (p # ps) = foldl normalize_step (?q @ [p]) ps"
    by (simp add: normalize_step_def)
  have IH: "normal_route (foldl normalize_step (?q @ [p]) ps) \<and> grid_points (foldl normalize_step (?q @ [p]) ps) \<and>
     foldl normalize_step (?q @ [p]) ps \<noteq> [] \<and>
     hd (foldl normalize_step (?q @ [p]) ps) = hd (?q @ [p]) \<and>
     last (foldl normalize_step (?q @ [p]) ps) = last ((?q @ [p]) @ ps) \<and>
     subseq (foldl normalize_step (?q @ [p]) ps) ((?q @ [p]) @ ps) \<and>
     trace (foldl normalize_step (?q @ [p]) ps) = trace ((?q @ [p]) @ ps)"
    using Cons.prems(1) p q by (intro Cons.IH) auto
  have tr: "trace (us @ ps) = trace (ws @ ps)" if "trace us = trace ws" "last us = last ws" "us \<noteq> []" "ws \<noteq> []" for us ws
    using that
  proof (induction ps arbitrary: us ws)
    case (Cons r rs)
    then show ?case using Cons.IH [of "us @ [r]" "ws @ [r]"] by (simp add: trace_snoc)
  qed simp
  have "trace ((?q @ [p]) @ ps) = trace ((ns @ [p]) @ ps)" by (rule tr) (use q(6) in auto)
  moreover have "subseq ((?q @ [p]) @ ps) (ns @ p # ps)" using q(5) by (simp add: list_emb_append_mono)
  ultimately show ?case unfolding step using IH q(2,4) by (auto intro: subseq_order.trans)
qed simp

text \<open>Normalisation on the grid: what it removes and what it keeps.\<close>

lemma normalizeRoutePoints_grid:
  assumes "grid_points ps" "ps \<noteq> []"
  shows "normal_route (normalizeRoutePoints ps)" "grid_points (normalizeRoutePoints ps)"
    "normalizeRoutePoints ps \<noteq> []"
    "hd (normalizeRoutePoints ps) = hd ps" "last (normalizeRoutePoints ps) = last ps"
    "subseq (normalizeRoutePoints ps) ps" "trace (normalizeRoutePoints ps) = trace ps"
proof -
  let ?d = "remdups_adj ps"
  obtain p qs where d: "?d = p # qs" using assms(2) by (cases "?d") auto
  have g: "grid_points ?d" using assms(1) by (simp add: grid_points_def)
  have n: "normalizeRoutePoints ps = foldl normalize_step [p] qs"
    using assms(1) d by (simp add: normalizeRoutePoints_def dedupe_grid normalize_step_def pop_collinear.simps)
  have "distinct_adj ?d" by simp
  then have da: "distinct_adj (last [p] # qs)" by (simp add: d)
  have gp: "grid_points qs" "grid_points [p]" using g d by auto
  have "normal_route [p]" by (simp add: normal_route_def)
  note L = normalize_loop_grid [OF gp(1) da this gp(2), simplified, folded d n]
  from L show "normal_route (normalizeRoutePoints ps)" "grid_points (normalizeRoutePoints ps)"
    "normalizeRoutePoints ps \<noteq> []" by auto
  have "hd ?d = hd ps" by (simp add: hd_remdups_adj)
  with L d show "hd (normalizeRoutePoints ps) = hd ps" by simp
  have "last ?d = last ps" by (simp add: last_remdups_adj)
  with L d show "last (normalizeRoutePoints ps) = last ps" by (auto split: if_splits)
  have "subseq ?d ps"  by (induction ps rule: remdups_adj.induct) auto
  with L d show "subseq (normalizeRoutePoints ps) ps" by (auto intro: subseq_order.trans)
  show "trace (normalizeRoutePoints ps) = trace ps" using L d trace_remdups_adj [of ps] by simp
qed

lemma normalize_loop_id:
  "normal_route (ns @ ps) \<Longrightarrow> grid_points (ns @ ps) \<Longrightarrow> foldl normalize_step ns ps = ns @ ps"
proof (induction ps arbitrary: ns)
  case (Cons p ps)
  have "pop_collinear ns p = ns"
  proof (cases "2 \<le> length ns")
    case True
    have "\<not> fwd ((ns @ p # ps) ! (length ns - 2)) ((ns @ p # ps) ! (length ns - 2 + 1)) ((ns @ p # ps) ! (length ns - 2 + 2))"
    proof -
      have "length ns - 2 + 2 < length (ns @ p # ps)" using True by simp
      with Cons.prems(1) show ?thesis unfolding normal_route_def by blast
    qed
    moreover have "length ns - 2 + 1 = length ns - 1" "length ns - 2 + 2 = length ns" "ns \<noteq> []" using True by auto
    ultimately have "\<not> fwd (ns ! (length ns - 2)) (last ns) p"
      by (simp add: nth_append last_conv_nth)
    moreover have "grid_point (ns ! (length ns - 2))" "grid_point (last ns)" "grid_point p"
      using Cons.prems(2) True \<open>ns \<noteq> []\<close> by (auto simp: grid_points_def)
    ultimately show ?thesis by (subst pop_collinear.simps) (simp add: collinearForward_grid)
  qed (subst pop_collinear.simps, simp)
  then show ?case using Cons.IH [of "ns @ [p]"] Cons.prems by (simp add: normalize_step_def)
qed simp

lemma normalizeRoutePoints_id: "normal_route ps \<Longrightarrow> grid_points ps \<Longrightarrow> normalizeRoutePoints ps = ps"
  using normalize_loop_id [of "[]" ps]
  by (simp add: normalizeRoutePoints_def dedupe_grid normal_route_def distinct_adj_altdef)

end
