(* ===== verification/Route_Rhythm.thy ===== *)
theory Route_Rhythm
  imports Routes
begin

text \<open>
  The rhythm floors and the budget metrics of routes, the endpoint sides, the outside bridge for
  near-parallel ports and the position of a label (\<open>renderers/shared/geometry.mjs\<close>).
\<close>

section \<open>Route rhythm\<close>

datatype position = Source_stub | Target_stub | Interior

definition segmentPosition :: "nat \<Rightarrow> nat \<Rightarrow> position" where
  "segmentPosition index segmentCount =
     (if index = 0 then Source_stub
      else if index = segmentCount - 1 then Target_stub
      else Interior)"

record routed =
  ro_relation :: "relation option"
  ro_index :: "nat option"
  ro_points :: "point list"

datatype rhythm_code = Micro_segment | Short_interior_segment

record rhythm_issue =
  ri_code :: rhythm_code
  ri_relation :: "relation option"
  ri_relationIndex :: nat
  ri_segmentIndex :: nat
  ri_position :: position
  ri_length :: real
  ri_start :: point
  ri_end :: point

definition manhattan :: "point \<Rightarrow> point \<Rightarrow> real" where
  "manhattan start end = \<bar>fst end - fst start\<bar> + \<bar>snd end - snd start\<bar>"

definition rhythm_code_for :: "real \<Rightarrow> real \<Rightarrow> real \<Rightarrow> position \<Rightarrow> rhythm_code option" where
  "rhythm_code_for interiorSegmentPx microSegmentPx len position =
     (if len < microSegmentPx - 1 / 10000 then Some Micro_segment
      else if position = Interior \<and> len < interiorSegmentPx - 1 / 10000 then Some Short_interior_segment
      else None)"

definition segment_rhythm_issue ::
  "real \<Rightarrow> real \<Rightarrow> routed \<Rightarrow> nat \<Rightarrow> nat \<Rightarrow> nat \<times> point \<times> point \<Rightarrow> rhythm_issue option" where
  "segment_rhythm_issue interiorSegmentPx microSegmentPx routed fallbackIndex segmentCount entry =
     (let segmentIndex = fst entry; start = fst (snd entry); end = snd (snd entry);
          len = manhattan start end
      in if len \<le> 1 / 10000 then None
         else
           (let position = segmentPosition segmentIndex segmentCount
            in case rhythm_code_for interiorSegmentPx microSegmentPx len position of
                 None \<Rightarrow> None
               | Some code \<Rightarrow> Some
                   \<lparr>ri_code = code,
                    ri_relation = ro_relation routed,
                    ri_relationIndex = (case ro_index routed of Some i \<Rightarrow> i | None \<Rightarrow> fallbackIndex),
                    ri_segmentIndex = segmentIndex,
                    ri_position = position,
                    ri_length = len,
                    ri_start = start,
                    ri_end = end\<rparr>))"

definition route_rhythm_issues :: "real \<Rightarrow> real \<Rightarrow> nat \<times> routed \<Rightarrow> rhythm_issue list" where
  "route_rhythm_issues interiorSegmentPx microSegmentPx entry =
     (let fallbackIndex = fst entry; routed = snd entry;
          points = normalizeRoutePoints (ro_points routed)
      in if length points < 2 then []
         else List.map_filter
                (segment_rhythm_issue interiorSegmentPx microSegmentPx routed fallbackIndex (length points - 1))
                (enumerate 0 (pairs points)))"

definition collectRouteRhythmIssues :: "routed list \<Rightarrow> real \<Rightarrow> real \<Rightarrow> rhythm_issue list" where
  "collectRouteRhythmIssues routedRelations interiorSegmentPx microSegmentPx =
     concat (map (route_rhythm_issues interiorSegmentPx microSegmentPx) (enumerate 0 routedRelations))"

section \<open>Budget metrics\<close>

record metrics =
  maxBends :: nat
  routesOverSuggestedBends :: nat
  maxStretch :: "real option"
  routesOverSuggestedStretch :: nat
  minSegmentPx :: "real option"
  minInteriorSegmentPx :: "real option"
  shortSegmentCount :: nat
  shortEndpointSegmentCount :: nat
  shortInteriorSegmentCount :: nat
  microSegmentCount :: nat

definition no_metrics :: metrics where
  "no_metrics =
     \<lparr>maxBends = 0, routesOverSuggestedBends = 0, maxStretch = None, routesOverSuggestedStretch = 0,
      minSegmentPx = None, minInteriorSegmentPx = None, shortSegmentCount = 0,
      shortEndpointSegmentCount = 0, shortInteriorSegmentCount = 0, microSegmentCount = 0\<rparr>"

text \<open>The update \<open>x = x == null ? v : f(x, v)\<close>.\<close>

definition upd_opt :: "(real \<Rightarrow> real \<Rightarrow> real) \<Rightarrow> real option \<Rightarrow> real \<Rightarrow> real option" where
  "upd_opt f old v = Some (case old of None \<Rightarrow> v | Some w \<Rightarrow> f w v)"

definition budget_segment ::
  "real \<Rightarrow> real \<Rightarrow> nat \<Rightarrow> real \<times> metrics \<Rightarrow> nat \<times> point \<times> point \<Rightarrow> real \<times> metrics" where
  "budget_segment segmentPx microSegmentPx segmentCount state entry =
     (let routeLength = fst state; m = snd state;
          index = fst entry; len = manhattan (fst (snd entry)) (snd (snd entry))
      in if len \<le> 1 / 10000 then state
         else
           (let position = segmentPosition index segmentCount;
                m1 = m\<lparr>minSegmentPx := upd_opt min (minSegmentPx m) len\<rparr>;
                m2 = (if position = Interior
                      then m1\<lparr>minInteriorSegmentPx := upd_opt min (minInteriorSegmentPx m1) len\<rparr> else m1);
                m3 = (if len < segmentPx
                      then (let m' = m2\<lparr>shortSegmentCount := shortSegmentCount m2 + 1\<rparr>
                            in if position = Interior
                               then m'\<lparr>shortInteriorSegmentCount := shortInteriorSegmentCount m' + 1\<rparr>
                               else m'\<lparr>shortEndpointSegmentCount := shortEndpointSegmentCount m' + 1\<rparr>)
                      else m2);
                m4 = (if len < microSegmentPx
                      then m3\<lparr>microSegmentCount := microSegmentCount m3 + 1\<rparr> else m3)
            in (routeLength + len, m4)))"

definition budget_route ::
  "nat \<Rightarrow> real \<Rightarrow> real \<Rightarrow> real \<Rightarrow> metrics \<Rightarrow> routed \<Rightarrow> metrics" where
  "budget_route bendsPerRelationship stretch segmentPx microSegmentPx m routed =
     (let points = normalizeRoutePoints (ro_points routed)
      in if length points < 2 then m
         else
           (let bends = length points - 2;
                m1 = m\<lparr>maxBends := max (maxBends m) bends\<rparr>;
                m2 = (if bendsPerRelationship < bends
                      then m1\<lparr>routesOverSuggestedBends := routesOverSuggestedBends m1 + 1\<rparr> else m1);
                (routeLength, m3) =
                  foldl (budget_segment segmentPx microSegmentPx (length points - 1)) (0, m2)
                    (enumerate 0 (pairs points));
                direct = manhattan (hd points) (last points)
            in if 1 / 10000 < direct
               then
                 (let routeStretch = routeLength / direct;
                      m4 = m3\<lparr>maxStretch := upd_opt max (maxStretch m3) routeStretch\<rparr>
                  in if stretch + 1 / 10000 < routeStretch
                     then m4\<lparr>routesOverSuggestedStretch := routesOverSuggestedStretch m4 + 1\<rparr>
                     else m4)
               else m3))"

definition routeBudgetMetrics :: "routed list \<Rightarrow> nat \<Rightarrow> real \<Rightarrow> real \<Rightarrow> real \<Rightarrow> metrics" where
  "routeBudgetMetrics routedRelations bendsPerRelationship stretch segmentPx microSegmentPx =
     foldl (budget_route bendsPerRelationship stretch segmentPx microSegmentPx) no_metrics routedRelations"

section \<open>Endpoint sides\<close>

datatype axis = Horizontal | Vertical

record side_rule =
  sr_axis :: axis
  sr_sourceSign :: real
  sr_targetSign :: real

definition ENDPOINT_SIDE_RULES :: "side \<Rightarrow> side_rule option" where
  "ENDPOINT_SIDE_RULES s =
     (case s of
        LeftS \<Rightarrow> Some \<lparr>sr_axis = Horizontal, sr_sourceSign = -1, sr_targetSign = 1\<rparr>
      | RightS \<Rightarrow> Some \<lparr>sr_axis = Horizontal, sr_sourceSign = 1, sr_targetSign = -1\<rparr>
      | TopS \<Rightarrow> Some \<lparr>sr_axis = Vertical, sr_sourceSign = -1, sr_targetSign = 1\<rparr>
      | BottomS \<Rightarrow> Some \<lparr>sr_axis = Vertical, sr_sourceSign = 1, sr_targetSign = -1\<rparr>
      | Auto \<Rightarrow> None)"

datatype endpoint = Source | Target

record side_issue =
  si_endpoint :: endpoint
  si_side :: side
  si_segmentIndex :: nat
  si_start :: point
  si_end :: point
  si_expectedAxis :: axis

definition endpointSideIssue :: "point list \<Rightarrow> endpoint \<Rightarrow> side option \<Rightarrow> side_issue option" where
  "endpointSideIssue points endpoint s =
     (case Option.bind s ENDPOINT_SIDE_RULES of
        None \<Rightarrow> None
      | Some rule \<Rightarrow>
          (let normalized = normalizeRoutePoints points
           in if length normalized < 2 then None
              else
                (let segmentIndex = (if endpoint = Source then 0 else length normalized - 2);
                     start = normalized ! segmentIndex;
                     end = normalized ! (segmentIndex + 1);
                     dx = fst end - fst start;
                     dy = snd end - snd start;
                     along = (if sr_axis rule = Horizontal then dx else dy);
                     across = (if sr_axis rule = Horizontal then dy else dx);
                     expectedSign = (if endpoint = Source then sr_sourceSign rule else sr_targetSign rule)
                 in if \<bar>across\<bar> \<le> 1 / 10000 \<and> 1 / 10000 < along * expectedSign then None
                    else Some \<lparr>si_endpoint = endpoint, si_side = the s, si_segmentIndex = segmentIndex,
                               si_start = start, si_end = end, si_expectedAxis = sr_axis rule\<rparr>)))"

definition routeHonorsEndpointSides :: "point list \<Rightarrow> side option \<Rightarrow> side option \<Rightarrow> bool" where
  "routeHonorsEndpointSides points from_side to_side \<longleftrightarrow>
     endpointSideIssue points Source from_side = None \<and> endpointSideIssue points Target to_side = None"

section \<open>The outside bridge for near-parallel ports\<close>

definition PORT_OUTWARD_VECTOR :: "side \<Rightarrow> point option" where
  "PORT_OUTWARD_VECTOR s =
     (case s of
        LeftS \<Rightarrow> Some (-1, 0)
      | RightS \<Rightarrow> Some (1, 0)
      | TopS \<Rightarrow> Some (0, -1)
      | BottomS \<Rightarrow> Some (0, 1)
      | Auto \<Rightarrow> None)"

definition verticalSides :: "side list" where "verticalSides = [TopS, BottomS]"
definition horizontalSides :: "side list" where "horizontalSides = [LeftS, RightS]"

definition bridge_candidates ::
  "point \<Rightarrow> point \<Rightarrow> side \<Rightarrow> side \<Rightarrow> point \<Rightarrow> point \<Rightarrow> real \<Rightarrow> real \<Rightarrow> point list list" where
  "bridge_candidates start end from_side to_side fromVector toVector endpointStubPx interiorSegmentPx =
     (let startStub = (fst start + fst fromVector * endpointStubPx, snd start + snd fromVector * endpointStubPx);
          endStub = (fst end + fst toVector * endpointStubPx, snd end + snd toVector * endpointStubPx);
          vertical =
            (if from_side \<in> set verticalSides \<and> to_side \<in> set verticalSides \<and>
                \<bar>fst start - fst end\<bar> < interiorSegmentPx
             then map (\<lambda>channel. [start, startStub, (channel, snd startStub), (channel, snd endStub), endStub, end])
                    [max (fst start) (fst end) + interiorSegmentPx, min (fst start) (fst end) - interiorSegmentPx]
             else []);
          horizontal =
            (if from_side \<in> set horizontalSides \<and> to_side \<in> set horizontalSides \<and>
                \<bar>snd start - snd end\<bar> < interiorSegmentPx
             then map (\<lambda>channel. [start, startStub, (fst startStub, channel), (fst endStub, channel), endStub, end])
                    [max (snd start) (snd end) + interiorSegmentPx, min (snd start) (snd end) - interiorSegmentPx]
             else [])
      in vertical @ horizontal)"

text \<open>\<open>accept\<close> is \<open>\<lambda>_. True\<close> when the caller passes no function.\<close>

definition automaticPortRhythmBridge ::
  "point \<Rightarrow> point \<Rightarrow> side \<Rightarrow> side \<Rightarrow> real \<Rightarrow> real \<Rightarrow> (point list \<Rightarrow> bool) \<Rightarrow> point list option" where
  "automaticPortRhythmBridge start end from_side to_side endpointStubPx interiorSegmentPx accept =
     (case (PORT_OUTWARD_VECTOR from_side, PORT_OUTWARD_VECTOR to_side) of
        (Some fromVector, Some toVector) \<Rightarrow>
          find (\<lambda>points.
                  routeHonorsEndpointSides points (Some from_side) (Some to_side) \<and>
                  collectRouteRhythmIssues
                    [\<lparr>ro_relation = None, ro_index = None, ro_points = points\<rparr>] interiorSegmentPx 8 = [] \<and>
                  accept points)
            (map normalizeRoutePoints
               (bridge_candidates start end from_side to_side fromVector toVector endpointStubPx interiorSegmentPx))
      | _ \<Rightarrow> None)"

section \<open>Label position\<close>

definition or_zero :: "real option \<Rightarrow> real" where
  "or_zero v = (case v of None \<Rightarrow> 0 | Some w \<Rightarrow> w)"

text \<open>
  \<open>None\<close> is the \<open>TypeError\<close> of reading \<open>points[-1]\<close> on an empty route (or \<open>points[1]\<close> on a single
  point).
\<close>

definition labelPoint :: "relation \<Rightarrow> point list \<Rightarrow> point option" where
  "labelPoint item points =
     (case labelAt item of
        Some p \<Rightarrow> Some p
      | None \<Rightarrow>
          if length points = 2
          then Some ((fst (points ! 0) + fst (points ! 1)) / 2 + or_zero (labelDx item),
                     snd (points ! 0) - 10 + or_zero (labelDy item))
          else
            (let segmentIndex = min (int (length points) - 2)
                                  (max 0 (case labelSegment item of None \<Rightarrow> 1 | Some i \<Rightarrow> i))
             in if segmentIndex < 0 then None
                else
                  (let a = points ! nat segmentIndex;
                       b = points ! (nat segmentIndex + 1)
                   in Some ((fst a + fst b) / 2 + or_zero (labelDx item),
                            (snd a + snd b) / 2 - 10 + or_zero (labelDy item)))))"

section \<open>The rhythm gate\<close>

lemma manhattan_grid: "grid_point p \<Longrightarrow> grid_point q \<Longrightarrow> on_grid (manhattan p q)"
proof -
  have abs_grid: "on_grid v \<Longrightarrow> on_grid \<bar>v\<bar>" for v
    by (auto simp: on_grid_def abs_if)
  assume "grid_point p" "grid_point q"
  then show ?thesis by (auto simp: manhattan_def grid_point_def intro!: on_grid_add abs_grid on_grid_diff)
qed

lemma manhattan_pos: "p \<noteq> q \<Longrightarrow> 0 < manhattan p q"
  by (auto simp: manhattan_def prod_eq_iff)

lemma manhattan_nonneg [simp]: "0 \<le> manhattan p q"
  by (simp add: manhattan_def)

lemma manhattan_triangle: "manhattan p r \<le> manhattan p q + manhattan q r"
  by (simp add: manhattan_def)

lemma grid_less: "on_grid u \<Longrightarrow> on_grid v \<Longrightarrow> u < v - 1 / 10000 \<longleftrightarrow> u < v"
  using grid_small_zero1 [of "v - u"] on_grid_diff [of v u] by fastforce

lemma set_enumerate_pairs:
  "set (enumerate 0 (pairs ns)) = (\<lambda>k. (k, ns ! k, ns ! (k + 1))) ` {k. k + 1 < length ns}"
proof (rule set_eqI)
  fix e
  show "e \<in> set (enumerate 0 (pairs ns)) \<longleftrightarrow> e \<in> (\<lambda>k. (k, ns ! k, ns ! (k + 1))) ` {k. k + 1 < length ns}"
    using nth_pairs [of _ ns]
    by (cases e) (auto simp: in_set_enumerate_eq less_diff_conv image_iff simp del: nth_pairs)
qed

text \<open>The floors a route has to meet: every segment, and every segment between two bends.\<close>

definition meets_floors :: "real \<Rightarrow> real \<Rightarrow> point list \<Rightarrow> bool" where
  "meets_floors interior micro ps \<longleftrightarrow>
     (\<forall>k. k + 1 < length ps \<longrightarrow>
        micro \<le> manhattan (ps ! k) (ps ! (k + 1)) \<and>
        (0 < k \<and> k + 2 < length ps \<longrightarrow> interior \<le> manhattan (ps ! k) (ps ! (k + 1))))"

lemma segment_rhythm_issue_grid:
  assumes "grid_point p" "grid_point q" "p \<noteq> q" "on_grid interior" "on_grid micro"
  shows "segment_rhythm_issue interior micro routed fb n (k, p, q) = None \<longleftrightarrow>
     micro \<le> manhattan p q \<and> (segmentPosition k n = Interior \<longrightarrow> interior \<le> manhattan p q)"
proof -
  have g: "on_grid (manhattan p q)" using assms by (simp add: manhattan_grid)
  then have "1 / 10000 < manhattan p q"
    using grid_small_zero1 [OF g] manhattan_pos [OF assms(3)] by fastforce
  then show ?thesis
    using grid_less [OF g assms(4)] grid_less [OF g assms(5)]
    by (auto simp: segment_rhythm_issue_def rhythm_code_for_def Let_def split: option.splits)
qed

lemma normalize_pairs_grid:
  assumes "grid_points ps" "k + 1 < length (normalizeRoutePoints ps)"
  defines "ns \<equiv> normalizeRoutePoints ps"
  shows "grid_point (ns ! k)" "grid_point (ns ! (k + 1))" "ns ! k \<noteq> ns ! (k + 1)"
proof -
  have "ps \<noteq> []" using assms(2) by (auto simp: normalizeRoutePoints_def)
  note n = normalizeRoutePoints_grid [OF assms(1) this, folded ns_def]
  show "grid_point (ns ! k)" "grid_point (ns ! (k + 1))"
    using n(2) assms(2) unfolding ns_def grid_points_def by (auto intro: nth_mem)
  show "ns ! k \<noteq> ns ! (k + 1)"
    using n(1) assms(2) unfolding ns_def normal_route_def by (auto dest: distinct_adj_nth)
qed

lemma route_rhythm_issues_Nil:
  assumes "grid_points (ro_points routed)" "on_grid interior" "on_grid micro"
  shows "route_rhythm_issues interior micro (fb, routed) = [] \<longleftrightarrow>
     meets_floors interior micro (normalizeRoutePoints (ro_points routed))"
proof -
  let ?ns = "normalizeRoutePoints (ro_points routed)"
  have pos: "segmentPosition k (length ?ns - 1) = Interior \<longleftrightarrow> 0 < k \<and> k + 2 < length ?ns"
    if "k + 1 < length ?ns" for k
    using that by (auto simp: segmentPosition_def)
  have el: "segment_rhythm_issue interior micro routed fb (length ?ns - 1) (k, ?ns ! k, ?ns ! (k + 1)) = None \<longleftrightarrow>
     micro \<le> manhattan (?ns ! k) (?ns ! (k + 1)) \<and>
     (0 < k \<and> k + 2 < length ?ns \<longrightarrow> interior \<le> manhattan (?ns ! k) (?ns ! (k + 1)))"
    if "k + 1 < length ?ns" for k
    using segment_rhythm_issue_grid [OF normalize_pairs_grid [OF assms(1) that] assms(2,3)] pos [OF that]
    by simp
  show ?thesis
  proof (cases "length ?ns < 2")
    case True
    then show ?thesis by (auto simp: route_rhythm_issues_def Let_def meets_floors_def)
  next
    case False
    then have "route_rhythm_issues interior micro (fb, routed) = [] \<longleftrightarrow>
      (\<forall>k. k + 1 < length ?ns \<longrightarrow>
         segment_rhythm_issue interior micro routed fb (length ?ns - 1) (k, ?ns ! k, ?ns ! (k + 1)) = None)"
      by (simp add: route_rhythm_issues_def Let_def map_filter_Nil_iff set_enumerate_pairs)
    with el show ?thesis by (auto simp: meets_floors_def)
  qed
qed

lemma collectRouteRhythmIssues_Nil:
  assumes "\<forall>routed\<in>set rs. grid_points (ro_points routed)" "on_grid interior" "on_grid micro"
  shows "collectRouteRhythmIssues rs interior micro = [] \<longleftrightarrow>
     (\<forall>routed\<in>set rs. meets_floors interior micro (normalizeRoutePoints (ro_points routed)))"
proof -
  have "collectRouteRhythmIssues rs interior micro = [] \<longleftrightarrow>
      (\<forall>i < length rs. route_rhythm_issues interior micro (i, rs ! i) = [])"
    by (auto simp: collectRouteRhythmIssues_def in_set_enumerate_eq)
  also have "\<dots> \<longleftrightarrow> (\<forall>i < length rs. meets_floors interior micro (normalizeRoutePoints (ro_points (rs ! i))))"
    using assms route_rhythm_issues_Nil by (metis nth_mem)
  finally show ?thesis by (simp add: all_set_conv_all_nth)
qed

section \<open>The metrics\<close>

definition entry_length :: "nat \<times> point \<times> point \<Rightarrow> real" where
  "entry_length e = manhattan (fst (snd e)) (snd (snd e))"

definition counted :: "(nat \<times> point \<times> point \<Rightarrow> bool) \<Rightarrow> (nat \<times> point \<times> point) list \<Rightarrow> nat" where
  "counted P es = length (filter (\<lambda>e. 1 / 10000 < entry_length e \<and> P e) es)"

lemma budget_segments_counts:
  fixes n :: nat and segmentPx micro :: real
  defines "f \<equiv> budget_segment segmentPx micro n"
  shows "microSegmentCount (snd (foldl f st es)) =
       microSegmentCount (snd st) + counted (\<lambda>e. entry_length e < micro) es"
    and "shortSegmentCount (snd (foldl f st es)) =
       shortSegmentCount (snd st) + counted (\<lambda>e. entry_length e < segmentPx) es"
    and "shortInteriorSegmentCount (snd (foldl f st es)) =
       shortInteriorSegmentCount (snd st) +
         counted (\<lambda>e. entry_length e < segmentPx \<and> segmentPosition (fst e) n = Interior) es"
    and "shortEndpointSegmentCount (snd (foldl f st es)) =
       shortEndpointSegmentCount (snd st) +
         counted (\<lambda>e. entry_length e < segmentPx \<and> segmentPosition (fst e) n \<noteq> Interior) es"
    and "maxStretch (snd (foldl f st es)) = maxStretch (snd st)"
    and "fst (foldl f st es) = fst st + sum_list (map entry_length (filter (\<lambda>e. 1 / 10000 < entry_length e) es))"
  unfolding f_def
  by (induction es arbitrary: st)
     (simp_all add: budget_segment_def Let_def counted_def entry_length_def not_le)

definition route_entries :: "routed \<Rightarrow> (nat \<times> point \<times> point) list" where
  "route_entries routed = enumerate 0 (pairs (normalizeRoutePoints (ro_points routed)))"

definition route_segments :: "routed \<Rightarrow> nat" where
  "route_segments routed = length (normalizeRoutePoints (ro_points routed)) - 1"

lemma short_route_entries: "length (normalizeRoutePoints (ro_points routed)) < 2 \<Longrightarrow> route_entries routed = []"
  by (auto simp: route_entries_def pairs_def numeral_2_eq_2 less_Suc_eq length_Suc_conv)

lemma budget_route_counts:
  fixes b :: nat and stretch segmentPx micro :: real
  defines "f \<equiv> budget_route b stretch segmentPx micro"
  shows "microSegmentCount (f m r) =
       microSegmentCount m + counted (\<lambda>e. entry_length e < micro) (route_entries r)"
    and "shortSegmentCount (f m r) =
       shortSegmentCount m + counted (\<lambda>e. entry_length e < segmentPx) (route_entries r)"
    and "shortInteriorSegmentCount (f m r) =
       shortInteriorSegmentCount m +
         counted (\<lambda>e. entry_length e < segmentPx \<and> segmentPosition (fst e) (route_segments r) = Interior) (route_entries r)"
    and "shortEndpointSegmentCount (f m r) =
       shortEndpointSegmentCount m +
         counted (\<lambda>e. entry_length e < segmentPx \<and> segmentPosition (fst e) (route_segments r) \<noteq> Interior) (route_entries r)"
  unfolding f_def
  using short_route_entries [of r]
  by (simp_all add: budget_route_def Let_def case_prod_beta budget_segments_counts counted_def route_segments_def
      flip: route_entries_def)

lemma metrics_counts:
  fixes b :: nat and stretch segmentPx micro :: real
  defines "F \<equiv> foldl (budget_route b stretch segmentPx micro)"
  shows "microSegmentCount (F m rs) =
       microSegmentCount m + (\<Sum>r\<leftarrow>rs. counted (\<lambda>e. entry_length e < micro) (route_entries r))"
    and "shortSegmentCount (F m rs) =
       shortSegmentCount m + (\<Sum>r\<leftarrow>rs. counted (\<lambda>e. entry_length e < segmentPx) (route_entries r))"
    and "shortInteriorSegmentCount (F m rs) =
       shortInteriorSegmentCount m + (\<Sum>r\<leftarrow>rs. counted (\<lambda>e. entry_length e < segmentPx \<and>
         segmentPosition (fst e) (route_segments r) = Interior) (route_entries r))"
    and "shortEndpointSegmentCount (F m rs) =
       shortEndpointSegmentCount m + (\<Sum>r\<leftarrow>rs. counted (\<lambda>e. entry_length e < segmentPx \<and>
         segmentPosition (fst e) (route_segments r) \<noteq> Interior) (route_entries r))"
  unfolding F_def by (induction rs arbitrary: m) (simp_all add: budget_route_counts)

lemma counted_split: "counted (\<lambda>e. P e \<and> Q e) es + counted (\<lambda>e. P e \<and> \<not> Q e) es = counted P es"
  unfolding counted_def by (induction es) auto

lemma counted_mono: "(\<And>e. P e \<Longrightarrow> Q e) \<Longrightarrow> counted P es \<le> counted Q es"
  unfolding counted_def by (induction es) (auto simp: le_Suc_eq)

lemma counted_0_iff: "counted P es = 0 \<longleftrightarrow> (\<forall>e\<in>set es. 1 / 10000 < entry_length e \<longrightarrow> \<not> P e)"
  by (auto simp: counted_def filter_empty_conv)

text \<open>Both totals count the same segments.\<close>

lemma short_split:
  defines "M \<equiv> \<lambda>rs b stretch segmentPx micro. routeBudgetMetrics rs b stretch segmentPx micro"
  shows "shortSegmentCount (M rs b stretch segmentPx micro) =
    shortEndpointSegmentCount (M rs b stretch segmentPx micro) + shortInteriorSegmentCount (M rs b stretch segmentPx micro)"
proof -
  have "(\<Sum>r\<leftarrow>rs. counted (\<lambda>e. entry_length e < segmentPx) (route_entries r)) =
     (\<Sum>r\<leftarrow>rs. counted (\<lambda>e. entry_length e < segmentPx \<and>
         segmentPosition (fst e) (route_segments r) \<noteq> Interior) (route_entries r)) +
     (\<Sum>r\<leftarrow>rs. counted (\<lambda>e. entry_length e < segmentPx \<and>
         segmentPosition (fst e) (route_segments r) = Interior) (route_entries r))"
    unfolding sum_list_addf [symmetric]
    by (intro arg_cong [where f = sum_list] map_cong refl)
       (subst counted_split [symmetric, where Q = "\<lambda>e. segmentPosition (fst e) _ = Interior"], rule add.commute)
  then show ?thesis by (simp add: M_def routeBudgetMetrics_def metrics_counts no_metrics_def)
qed

lemma micro_le_short:
  "micro \<le> segmentPx \<Longrightarrow>
     microSegmentCount (routeBudgetMetrics rs b stretch segmentPx micro) \<le>
     shortSegmentCount (routeBudgetMetrics rs b stretch segmentPx micro)"
  unfolding routeBudgetMetrics_def metrics_counts no_metrics_def
  by (simp, intro sum_list_mono counted_mono) simp

text \<open>On the grid every segment of a normal route counts.\<close>

lemma grid_entry:
  assumes "grid_points (ro_points r)" "e \<in> set (route_entries r)"
  shows "1 / 10000 < entry_length e" "on_grid (entry_length e)"
proof -
  obtain k where k: "k + 1 < length (normalizeRoutePoints (ro_points r))"
    "e = (k, normalizeRoutePoints (ro_points r) ! k, normalizeRoutePoints (ro_points r) ! (k + 1))"
    using assms(2) unfolding route_entries_def set_enumerate_pairs by blast
  note n = normalize_pairs_grid [OF assms(1) k(1)]
  then show g: "on_grid (entry_length e)" by (simp add: entry_length_def k(2) manhattan_grid)
  have "0 < entry_length e" using n(3) by (simp add: entry_length_def k(2) manhattan_pos)
  then show "1 / 10000 < entry_length e" using grid_small_zero1 [OF g] by fastforce
qed

lemma metrics_gate:
  fixes b :: nat and stretch :: real
  assumes "\<forall>r\<in>set rs. grid_points (ro_points r)" "on_grid interior" "on_grid micro"
  defines "M \<equiv> routeBudgetMetrics rs b stretch interior micro"
  shows "collectRouteRhythmIssues rs interior micro = [] \<longleftrightarrow>
    microSegmentCount M = 0 \<and> shortInteriorSegmentCount M = 0"
proof -
  have one: "meets_floors interior micro (normalizeRoutePoints (ro_points r)) \<longleftrightarrow>
      counted (\<lambda>e. entry_length e < micro) (route_entries r) = 0 \<and>
      counted (\<lambda>e. entry_length e < interior \<and> segmentPosition (fst e) (route_segments r) = Interior) (route_entries r) = 0"
    if "r \<in> set rs" for r
  proof -
    let ?ns = "normalizeRoutePoints (ro_points r)"
    have big: "1 / 10000 < entry_length e" if "e \<in> set (route_entries r)" for e
      using grid_entry(1) assms(1) \<open>r \<in> set rs\<close> that by blast
    have "counted P (route_entries r) = 0 \<longleftrightarrow>
        (\<forall>k. k + 1 < length ?ns \<longrightarrow> \<not> P (k, ?ns ! k, ?ns ! (k + 1)))" for P
      unfolding counted_0_iff using big unfolding route_entries_def set_enumerate_pairs by blast
    moreover have "segmentPosition k (route_segments r) = Interior \<longleftrightarrow> 0 < k \<and> k + 2 < length ?ns"
      if "k + 1 < length ?ns" for k
      using that by (auto simp: segmentPosition_def route_segments_def)
    ultimately show ?thesis
      unfolding meets_floors_def entry_length_def by (auto simp: not_less)
  qed
  show ?thesis
    unfolding collectRouteRhythmIssues_Nil [OF assms(1-3)] M_def routeBudgetMetrics_def metrics_counts no_metrics_def
    using one by (auto simp: sum_list_eq_0_iff)
qed

section \<open>Stretch\<close>

lemma path_length_ge:
  "ps \<noteq> [] \<Longrightarrow> manhattan (hd ps) (last ps) \<le> sum_list (map (\<lambda>(p, q). manhattan p q) (pairs ps))"
proof (induction ps rule: induct_list012)
  case (3 p q ps)
  then show ?case using manhattan_triangle [of p "last (q # ps)" q] by simp
qed (simp_all add: manhattan_def)

lemma route_length_ge:
  assumes "grid_points (ro_points r)" "2 \<le> length (normalizeRoutePoints (ro_points r))"
  shows "manhattan (hd (normalizeRoutePoints (ro_points r))) (last (normalizeRoutePoints (ro_points r))) \<le>
    sum_list (map entry_length (filter (\<lambda>e. 1 / 10000 < entry_length e) (route_entries r)))"
proof -
  let ?ns = "normalizeRoutePoints (ro_points r)"
  have "filter (\<lambda>e. 1 / 10000 < entry_length e) (route_entries r) = route_entries r"
    using grid_entry(1) [OF assms(1)] by (simp add: filter_id_conv)
  moreover have "map entry_length (route_entries r) = map (\<lambda>(p, q). manhattan p q) (pairs ?ns)"
    by (rule nth_equalityI) (simp_all add: route_entries_def entry_length_def case_prod_beta nth_enumerate_eq)
  moreover have "?ns \<noteq> []" using assms(2) by auto
  ultimately show ?thesis using path_length_ge [of ?ns] by simp
qed

lemma budget_route_stretch:
  "maxStretch (budget_route b stretch segmentPx micro m r) =
     (let ns = normalizeRoutePoints (ro_points r) in
      if 2 \<le> length ns \<and> 1 / 10000 < manhattan (hd ns) (last ns)
      then upd_opt max (maxStretch m)
        (sum_list (map entry_length (filter (\<lambda>e. 1 / 10000 < entry_length e) (route_entries r))) /
         manhattan (hd ns) (last ns))
      else maxStretch m)"
  by (simp add: budget_route_def Let_def case_prod_beta budget_segments_counts route_entries_def)

lemma stretch_ge_one:
  assumes "\<forall>r\<in>set rs. grid_points (ro_points r)"
    and "\<And>v. maxStretch m = Some v \<Longrightarrow> 1 \<le> v"
    and "maxStretch (foldl (budget_route b stretch segmentPx micro) m rs) = Some v"
  shows "1 \<le> v"
  using assms
proof (induction rs arbitrary: m)
  case (Cons r rs)
  let ?ns = "normalizeRoutePoints (ro_points r)"
  have "1 \<le> w" if w: "maxStretch (budget_route b stretch segmentPx micro m r) = Some w" for w
  proof (cases "2 \<le> length ?ns \<and> 1 / 10000 < manhattan (hd ?ns) (last ?ns)")
    case True
    let ?L = "sum_list (map entry_length (filter (\<lambda>e. 1 / 10000 < entry_length e) (route_entries r)))"
    have "manhattan (hd ?ns) (last ?ns) \<le> ?L"
      using route_length_ge [of r] Cons.prems(1) True by simp
    then have "1 \<le> ?L / manhattan (hd ?ns) (last ?ns)" using True by (simp add: le_divide_eq)
    then show ?thesis
      using w True Cons.prems(2)
      by (auto simp: budget_route_stretch Let_def upd_opt_def max_def split: if_splits option.splits)
  next
    case False
    then show ?thesis using w Cons.prems(2) by (auto simp: budget_route_stretch Let_def)
  qed
  then show ?case using Cons.IH [of "budget_route b stretch segmentPx micro m r"] Cons.prems by simp
qed auto


section \<open>Endpoint sides and the bridge\<close>

text \<open>The route leaves its source, or enters its target, along the outward normal of the side.\<close>

definition leaves_along :: "point \<Rightarrow> point \<Rightarrow> side \<Rightarrow> bool" where
  "leaves_along p q s \<longleftrightarrow>
     (\<exists>l > 0. PORT_OUTWARD_VECTOR s \<noteq> None \<and>
        q = (fst p + fst (the (PORT_OUTWARD_VECTOR s)) * l, snd p + snd (the (PORT_OUTWARD_VECTOR s)) * l))"

lemma leaves_along_simps:
  "leaves_along p q LeftS \<longleftrightarrow> snd q = snd p \<and> fst q < fst p"
  "leaves_along p q RightS \<longleftrightarrow> snd q = snd p \<and> fst p < fst q"
  "leaves_along p q TopS \<longleftrightarrow> fst q = fst p \<and> snd q < snd p"
  "leaves_along p q BottomS \<longleftrightarrow> fst q = fst p \<and> snd p < snd q"
  "\<not> leaves_along p q Auto"
proof -
  show "leaves_along p q LeftS \<longleftrightarrow> snd q = snd p \<and> fst q < fst p"
    by (auto simp: leaves_along_def PORT_OUTWARD_VECTOR_def prod_eq_iff intro: exI [of _ "fst p - fst q"])
  show "leaves_along p q RightS \<longleftrightarrow> snd q = snd p \<and> fst p < fst q"
    by (auto simp: leaves_along_def PORT_OUTWARD_VECTOR_def prod_eq_iff intro: exI [of _ "fst q - fst p"])
  show "leaves_along p q TopS \<longleftrightarrow> fst q = fst p \<and> snd q < snd p"
    by (auto simp: leaves_along_def PORT_OUTWARD_VECTOR_def prod_eq_iff intro: exI [of _ "snd p - snd q"])
  show "leaves_along p q BottomS \<longleftrightarrow> fst q = fst p \<and> snd p < snd q"
    by (auto simp: leaves_along_def PORT_OUTWARD_VECTOR_def prod_eq_iff intro: exI [of _ "snd q - snd p"])
qed (simp add: leaves_along_def PORT_OUTWARD_VECTOR_def)

lemma side_rule_test:
  assumes "grid_point p" "grid_point q" "ENDPOINT_SIDE_RULES s = Some rule"
  defines "dx \<equiv> fst q - fst p" and "dy \<equiv> snd q - snd p"
  defines "fw \<equiv> if sr_axis rule = Horizontal then dx else dy"
    and "sw \<equiv> if sr_axis rule = Horizontal then dy else dx"
  shows "\<bar>sw\<bar> \<le> 1 / 10000 \<and> 1 / 10000 < fw * sr_sourceSign rule \<longleftrightarrow> leaves_along p q s"
    and "\<bar>sw\<bar> \<le> 1 / 10000 \<and> 1 / 10000 < fw * sr_targetSign rule \<longleftrightarrow> leaves_along q p s"
proof -
  have g: "on_grid dx" "on_grid dy" using assms(1,2) by (auto simp: dx_def dy_def grid_point_def intro: on_grid_diff)
  have far: "1 / 10000 < \<bar>v\<bar> \<longleftrightarrow> v \<noteq> 0" if "on_grid v" for v using grid_small_zero1 [OF that] by fastforce
  have t: "\<bar>v\<bar> \<le> 1 / 10000 \<longleftrightarrow> v = 0" "1 / 10000 < v \<longleftrightarrow> 0 < v" "1 / 10000 < - v \<longleftrightarrow> v < 0" if "on_grid v" for v
    using far [OF that] by (auto simp: abs_if split: if_splits)
  have la: "leaves_along p q LeftS \<longleftrightarrow> dy = 0 \<and> dx < 0" "leaves_along p q RightS \<longleftrightarrow> dy = 0 \<and> 0 < dx"
    "leaves_along p q TopS \<longleftrightarrow> dx = 0 \<and> dy < 0" "leaves_along p q BottomS \<longleftrightarrow> dx = 0 \<and> 0 < dy"
    "leaves_along q p LeftS \<longleftrightarrow> dy = 0 \<and> 0 < dx" "leaves_along q p RightS \<longleftrightarrow> dy = 0 \<and> dx < 0"
    "leaves_along q p TopS \<longleftrightarrow> dx = 0 \<and> 0 < dy" "leaves_along q p BottomS \<longleftrightarrow> dx = 0 \<and> dy < 0"
    by (auto simp: leaves_along_simps dx_def dy_def)
  have m: "v * - 1 = - v" "v * 1 = v" for v :: real by simp_all
  note tt = t [OF g(1)] t [OF g(2)]
  show "\<bar>sw\<bar> \<le> 1 / 10000 \<and> 1 / 10000 < fw * sr_sourceSign rule \<longleftrightarrow> leaves_along p q s"
    using assms(3) unfolding fw_def sw_def
    by (cases s) (auto simp only: ENDPOINT_SIDE_RULES_def side.case option.inject option.distinct
        side_rule.simps axis.distinct if_True if_False refl tt m la split: if_splits)
  show "\<bar>sw\<bar> \<le> 1 / 10000 \<and> 1 / 10000 < fw * sr_targetSign rule \<longleftrightarrow> leaves_along q p s"
    using assms(3) unfolding fw_def sw_def
    by (cases s) (auto simp only: ENDPOINT_SIDE_RULES_def side.case option.inject option.distinct
        side_rule.simps axis.distinct if_True if_False refl tt m la split: if_splits)
qed

lemma endpointSideIssue_source:
  assumes "grid_points ps" "2 \<le> length (normalizeRoutePoints ps)" "s \<noteq> Auto"
  shows "endpointSideIssue ps Source (Some s) = None \<longleftrightarrow>
     leaves_along (normalizeRoutePoints ps ! 0) (normalizeRoutePoints ps ! 1) s"
proof -
  let ?n = "normalizeRoutePoints ps"
  have g: "grid_point (?n ! 0)" "grid_point (?n ! 1)" using normalize_pairs_grid [OF assms(1), of 0] assms(2) by auto
  obtain rule where r: "ENDPOINT_SIDE_RULES s = Some rule"
    using assms(3) by (cases s) (auto simp: ENDPOINT_SIDE_RULES_def)
  show ?thesis
    using assms(2) r unfolding side_rule_test(1) [OF g r, symmetric]
    by (simp add: endpointSideIssue_def Let_def)
qed

lemma endpointSideIssue_target:
  assumes "grid_points ps" "2 \<le> length (normalizeRoutePoints ps)" "s \<noteq> Auto"
  defines "n \<equiv> normalizeRoutePoints ps"
  shows "endpointSideIssue ps Target (Some s) = None \<longleftrightarrow> leaves_along (last n) (n ! (length n - 2)) s"
proof -
  have "n \<noteq> []" using assms(2) by (auto simp: n_def)
  then have i: "n ! (length n - 2 + 1) = last n"
    using assms(2) last_conv_nth [of n] by (auto simp: n_def Suc_diff_Suc numeral_2_eq_2)
  have g: "grid_point (n ! (length n - 2))" "grid_point (last n)"
    using normalize_pairs_grid [OF assms(1), of "length n - 2"] assms(2) i by (auto simp: n_def)
  obtain rule where r: "ENDPOINT_SIDE_RULES s = Some rule"
    using assms(3) by (cases s) (auto simp: ENDPOINT_SIDE_RULES_def)
  show ?thesis
    using assms(2) r i unfolding side_rule_test(2) [OF g r, symmetric]
    by (simp add: endpointSideIssue_def Let_def flip: n_def)
qed

lemma normalize_short: "length (normalizeRoutePoints ps) < 2 \<Longrightarrow> endpointSideIssue ps e s = None"
  by (auto simp: endpointSideIssue_def Let_def split: option.splits)

lemma bridge_candidate_ends:
  assumes "c \<in> set (bridge_candidates start end fs ts fv tv stub interior)"
  shows "c \<noteq> []" "hd c = start" "last c = end"
  using assms by (auto simp: bridge_candidates_def Let_def split: if_splits)

lemma bridge_candidate_grid:
  assumes "c \<in> set (bridge_candidates start end fs ts fv tv stub interior)"
    and "PORT_OUTWARD_VECTOR fs = Some fv" "PORT_OUTWARD_VECTOR ts = Some tv"
    and "grid_point start" "grid_point end" "on_grid stub" "on_grid interior"
  shows "grid_points c"
proof -
  have neg: "on_grid v \<Longrightarrow> on_grid (- v)" for v by (simp add: on_grid_def)
  have m: "on_grid u \<Longrightarrow> on_grid v \<Longrightarrow> on_grid (max u v)" "on_grid u \<Longrightarrow> on_grid v \<Longrightarrow> on_grid (min u v)" for u v
    by (auto simp: max_def min_def)
  have v: "on_grid (fst fv * stub)" "on_grid (snd fv * stub)" "on_grid (fst tv * stub)" "on_grid (snd tv * stub)"
    using assms(2,3,6) by (auto simp: PORT_OUTWARD_VECTOR_def on_grid_def split: side.splits)
  show ?thesis
    using assms(1,4-7) v
    by (auto simp: bridge_candidates_def Let_def grid_point_def split: if_splits
        intro!: on_grid_add on_grid_diff m)
qed

lemma automaticPortRhythmBridge_sound:
  assumes "automaticPortRhythmBridge start end fs ts stub interior accept = Some ps"
    and "grid_point start" "grid_point end" "on_grid stub" "on_grid interior"
  shows "hd ps = start \<and> last ps = end \<and> normal_route ps \<and> meets_floors interior 8 ps \<and> accept ps \<and>
    (2 \<le> length ps \<longrightarrow> leaves_along start (ps ! 1) fs \<and> leaves_along end (ps ! (length ps - 2)) ts)"
proof -
  obtain fv tv where v: "PORT_OUTWARD_VECTOR fs = Some fv" "PORT_OUTWARD_VECTOR ts = Some tv"
    using assms(1) by (auto simp: automaticPortRhythmBridge_def split: option.splits)
  let ?P = "\<lambda>points. routeHonorsEndpointSides points (Some fs) (Some ts) \<and>
     collectRouteRhythmIssues [\<lparr>ro_relation = None, ro_index = None, ro_points = points\<rparr>] interior 8 = [] \<and> accept points"
  have f: "find ?P (map normalizeRoutePoints (bridge_candidates start end fs ts fv tv stub interior)) = Some ps"
    using assms(1) v by (simp add: automaticPortRhythmBridge_def)
  then have P: "?P ps" and "ps \<in> normalizeRoutePoints ` set (bridge_candidates start end fs ts fv tv stub interior)"
    by (auto simp: find_Some_iff)
  then obtain c where c: "c \<in> set (bridge_candidates start end fs ts fv tv stub interior)" "ps = normalizeRoutePoints c"
    by blast
  note g = bridge_candidate_grid [OF c(1) v assms(2-5)]
  note n = normalizeRoutePoints_grid [OF g bridge_candidate_ends(1) [OF c(1)], folded c(2)]
  have id: "normalizeRoutePoints ps = ps" using n by (simp add: normalizeRoutePoints_id)
  have "on_grid 8" by (simp add: on_grid_def)
  then have fl: "meets_floors interior 8 ps"
    using P n(2) assms(5) collectRouteRhythmIssues_Nil
      [of "[\<lparr>ro_relation = None, ro_index = None, ro_points = ps\<rparr>]" interior 8] id by simp
  have ne: "fs \<noteq> Auto" "ts \<noteq> Auto" using v by (auto simp: PORT_OUTWARD_VECTOR_def)
  have "leaves_along start (ps ! 1) fs \<and> leaves_along end (ps ! (length ps - 2)) ts" if l: "2 \<le> length ps"
    using P endpointSideIssue_source [OF n(2) _ ne(1)] endpointSideIssue_target [OF n(2) _ ne(2)] l id n
      bridge_candidate_ends(2,3) [OF c(1)]
    by (auto simp: routeHonorsEndpointSides_def hd_conv_nth)
  then show ?thesis using n fl P bridge_candidate_ends [OF c(1)] by simp
qed

lemma labelPoint_defined: "labelPoint item points \<noteq> None \<longleftrightarrow> labelAt item \<noteq> None \<or> 2 \<le> length points"
  by (auto simp: labelPoint_def Let_def split: option.splits)

lemma labelPoint_segment:
  assumes "labelAt item = None" "3 \<le> length points"
  obtains i where "i + 1 < length points"
    "labelPoint item points =
       Some ((fst (points ! i) + fst (points ! (i + 1))) / 2 + or_zero (labelDx item),
             (snd (points ! i) + snd (points ! (i + 1))) / 2 - 10 + or_zero (labelDy item))"
proof -
  let ?i = "min (int (length points) - 2) (max 0 (case labelSegment item of None \<Rightarrow> 1 | Some i \<Rightarrow> i))"
  have "0 \<le> ?i" "nat ?i + 1 < length points" using assms(2) by (auto simp: nat_less_iff)
  then show ?thesis using assms by (intro that [of "nat ?i"]) (auto simp: labelPoint_def Let_def)
qed

end
