(* ===== verification/Port_Spread.thy ===== *)
theory Port_Spread
  imports Route_Rhythm "HOL-Library.Product_Lexorder" "HOL-Library.Multiset"
begin

text \<open>
  \<open>automaticPortSpread\<close> of \<open>renderers/shared/geometry.mjs\<close>: relationships that share an automatic
  midpoint anchor are grouped by box and side, ordered by the position of the other end, and their
  ports are spread evenly along the side.
\<close>

section \<open>Spreading automatic ports\<close>

datatype map_endpoint = From_end | To_end

record port_item =
  it_relation :: relation
  it_endpoint :: map_endpoint
  it_rect :: box
  it_side :: side
  it_counterpart :: box

record ports =
  port_from :: "point option"
  port_to :: "point option"

definition side_name :: "side \<Rightarrow> jstring" where
  "side_name s =
     (case s of LeftS \<Rightarrow> js ''left'' | RightS \<Rightarrow> js ''right'' | TopS \<Rightarrow> js ''top''
      | BottomS \<Rightarrow> js ''bottom'' | Auto \<Rightarrow> js ''auto'')"

text \<open>A \<open>Map\<close> that keeps insertion order: \<open>groups.get(key) || []\<close>, push, \<open>groups.set\<close>.\<close>

fun group_add :: "jstring \<Rightarrow> 'a \<Rightarrow> (jstring \<times> 'a list) list \<Rightarrow> (jstring \<times> 'a list) list" where
  "group_add k v [] = [(k, [v])]"
| "group_add k v ((k', vs) # gs) = (if k' = k then (k', vs @ [v]) # gs else (k', vs) # group_add k v gs)"

definition add_port ::
  "(jstring \<times> port_item list) list \<Rightarrow> port_item \<Rightarrow> (jstring \<times> port_item list) list" where
  "add_port groups item = group_add (bid (it_rect item) @ [0] @ side_name (it_side item)) item groups"

text \<open>
  The optional callback \<open>sideFor\<close> returns a side or nothing; with no callback it is
  \<open>\<lambda>_ _. None\<close>.
\<close>

definition port_items ::
  "(jstring \<rightharpoonup> box) \<Rightarrow> (relation \<Rightarrow> endpoint \<Rightarrow> side option) \<Rightarrow> relation \<Rightarrow> port_item list" where
  "port_items boxes sideFor relation =
     (if truthy (rel_route relation) \<and> rel_route relation \<noteq> Some (js ''auto'') then []
      else if via relation \<noteq> None \<or> channelX relation \<noteq> None \<or> channelY relation \<noteq> None \<or>
              labelAt relation \<noteq> None then []
      else
        (case (boxes (rel_from relation), boxes (rel_to relation)) of
           (Some from, Some to) \<Rightarrow>
             (let from_side = chosenSide (fromSide relation)
                    (case sideFor relation Source of Some s \<Rightarrow> s | None \<Rightarrow> defaultFromSide from to);
                  to_side = chosenSide (toSide relation)
                    (case sideFor relation Target of Some s \<Rightarrow> s | None \<Rightarrow> defaultToSide from to)
              in [\<lparr>it_relation = relation, it_endpoint = From_end, it_rect = from, it_side = from_side,
                   it_counterpart = to\<rparr>,
                  \<lparr>it_relation = relation, it_endpoint = To_end, it_rect = to, it_side = to_side,
                   it_counterpart = from\<rparr>])
         | _ \<Rightarrow> []))"

definition relation_sort_key :: "relation \<Rightarrow> jstring" where
  "relation_sort_key r =
     or_empty (rel_id r) @ [0] @ rel_from r @ [0] @ rel_to r @ [0] @ or_empty (rel_label r)"

definition sort_port_items :: "bool \<Rightarrow> port_item list \<Rightarrow> port_item list" where
  "sort_port_items verticalSide =
     sort_key (\<lambda>item. (if verticalSide then bcy (it_counterpart item) else bcx (it_counterpart item),
                       relation_sort_key (it_relation item)))"

definition port_spacing :: "bool \<Rightarrow> real \<Rightarrow> real \<Rightarrow> port_item list \<Rightarrow> real" where
  "port_spacing verticalSide gutter maxSpacing items =
     (let extent = (if verticalSide then rheight (it_rect (hd items)) else rwidth (it_rect (hd items)));
          usable = max 0 (extent - gutter * 2)
      in min maxSpacing (usable / (real (length items) - 1)))"

definition port_point :: "bool \<Rightarrow> real \<Rightarrow> nat \<Rightarrow> nat \<Rightarrow> port_item \<Rightarrow> point" where
  "port_point verticalSide spacing n index item =
     (let offset = (real index - (real n - 1) / 2) * spacing;
          p = anchor (it_rect item) (it_side item)
      in if verticalSide then (fst p, snd p + offset) else (fst p + offset, snd p))"

definition set_port :: "(nat \<rightharpoonup> ports) \<Rightarrow> port_item \<Rightarrow> point \<Rightarrow> (nat \<rightharpoonup> ports)" where
  "set_port spread item p =
     (let endpoints = (case spread (oid (it_relation item)) of
                         None \<Rightarrow> \<lparr>port_from = None, port_to = None\<rparr> | Some e \<Rightarrow> e)
      in spread(oid (it_relation item) \<mapsto>
           (if it_endpoint item = From_end then endpoints\<lparr>port_from := Some p\<rparr>
            else endpoints\<lparr>port_to := Some p\<rparr>)))"

definition spread_group :: "real \<Rightarrow> real \<Rightarrow> (nat \<rightharpoonup> ports) \<Rightarrow> port_item list \<Rightarrow> (nat \<rightharpoonup> ports)" where
  "spread_group gutter maxSpacing spread items0 =
     (if length items0 < 2 then spread
      else
        (let verticalSide = (it_side (hd items0) = LeftS \<or> it_side (hd items0) = RightS);
             items = sort_port_items verticalSide items0;
             spacing = port_spacing verticalSide gutter maxSpacing items
         in if \<not> 0 < spacing then spread
            else foldl (\<lambda>acc entry.
                          set_port acc (snd entry)
                            (port_point verticalSide spacing (length items) (fst entry) (snd entry)))
                   spread (enumerate 0 items)))"

definition port_groups ::
  "relation list \<Rightarrow> (jstring \<rightharpoonup> box) \<Rightarrow> (relation \<Rightarrow> endpoint \<Rightarrow> side option) \<Rightarrow>
     (jstring \<times> port_item list) list" where
  "port_groups relations boxes sideFor =
     foldl add_port [] (concat (map (port_items boxes sideFor) relations))"

definition automaticPortSpread ::
  "relation list \<Rightarrow> (jstring \<rightharpoonup> box) \<Rightarrow> real \<Rightarrow> real \<Rightarrow>
     (relation \<Rightarrow> endpoint \<Rightarrow> side option) \<Rightarrow> (nat \<rightharpoonup> ports)" where
  "automaticPortSpread relations boxes gutter maxSpacing sideFor =
     foldl (spread_group gutter maxSpacing) Map.empty (map snd (port_groups relations boxes sideFor))"

section \<open>What the spread assigns\<close>

definition port_key :: "port_item \<Rightarrow> jstring" where
  "port_key item = bid (it_rect item) @ [0] @ side_name (it_side item)"

definition ident :: "port_item \<Rightarrow> nat \<times> map_endpoint" where
  "ident item = (oid (it_relation item), it_endpoint item)"

definition port_at :: "(nat \<rightharpoonup> ports) \<Rightarrow> nat \<times> map_endpoint \<Rightarrow> point option" where
  "port_at spread e =
     Option.bind (spread (fst e)) (\<lambda>ps. if snd e = From_end then port_from ps else port_to ps)"

lemma port_at_set_port:
  "port_at (set_port spread item p) e = (if e = ident item then Some p else port_at spread e)"
  by (cases "it_endpoint item"; cases e; cases "snd e")
     (auto simp: port_at_def set_port_def ident_def Let_def split: option.splits)

lemma group_add_mem:
  "(k', vs') \<in> set (group_add k v gs) \<Longrightarrow>
     (k', vs') \<in> set gs \<or> k' = k \<and> (\<exists>vs. vs' = vs @ [v] \<and> (vs = [] \<or> (k, vs) \<in> set gs))"
  by (induction gs) (auto split: if_splits)

lemma mset_group_add:
  "mset (concat (map snd (group_add k v gs))) = add_mset v (mset (concat (map snd gs)))"
  by (induction gs) auto

text \<open>Every group holds items of one key, and together the groups hold every item once.\<close>

definition keyed :: "(jstring \<times> port_item list) list \<Rightarrow> bool" where
  "keyed gs \<longleftrightarrow> (\<forall>(k, vs)\<in>set gs. \<forall>item\<in>set vs. port_key item = k)"

lemma keyed_add: "keyed gs \<Longrightarrow> keyed (add_port gs item)"
  unfolding keyed_def add_port_def
  by (auto dest!: group_add_mem simp: port_key_def) blast+

lemma add_ports:
  "keyed gs \<Longrightarrow> keyed (foldl add_port gs items) \<and>
     mset (concat (map snd (foldl add_port gs items))) = mset (concat (map snd gs)) + mset items"
proof (induction items arbitrary: gs)
  case (Cons item items)
  from Cons.IH [OF keyed_add [OF Cons.prems, of item]] show ?case
    by (simp add: add_port_def mset_group_add)
qed simp

lemma port_groups_spec:
  "keyed (port_groups relations boxes sideFor)"
  "mset (concat (map snd (port_groups relations boxes sideFor))) =
     mset (concat (map (port_items boxes sideFor) relations))"
  using add_ports [of "[]"] by (simp_all add: port_groups_def keyed_def)

lemma port_items_ident:
  "item \<in> set (port_items boxes sideFor r) \<Longrightarrow> it_relation item = r"
  by (auto simp: port_items_def Let_def split: if_splits option.splits)

lemma port_items_distinct: "distinct (map ident (port_items boxes sideFor r))"
  by (auto simp: port_items_def Let_def ident_def split: option.splits)

lemma all_items_distinct:
  "distinct (map oid relations) \<Longrightarrow> distinct (map ident (concat (map (port_items boxes sideFor) relations)))"
proof (induction relations)
  case (Cons r rs)
  let ?rest = "concat (map (port_items boxes sideFor) rs)"
  have "ident x \<noteq> ident y" if "x \<in> set (port_items boxes sideFor r)" "y \<in> set ?rest" for x y
  proof -
    have "it_relation x = r" using that(1) by (rule port_items_ident)
    moreover note y = that(2)
    then obtain r' where "r' \<in> set rs" "y \<in> set (port_items boxes sideFor r')" by auto
    then have "oid (it_relation y) \<in> oid ` set rs" using port_items_ident by blast
    ultimately show ?thesis using Cons.prems by (auto simp: ident_def)
  qed
  then have "set (map ident (port_items boxes sideFor r)) \<inter> set (map ident ?rest) = {}" by fastforce
  then show ?case
    using Cons port_items_distinct [of boxes sideFor r]
    by (simp only: list.map concat.simps map_append distinct_append) simp
qed simp

lemma distinct_map_mset: "mset vs = mset ws \<Longrightarrow> distinct (map f vs) \<longleftrightarrow> distinct (map f ws)"
  by (metis mset_map mset_eq_imp_distinct_iff)

lemma groups_distinct:
  "distinct (map oid relations) \<Longrightarrow>
     distinct (map ident (concat (map snd (port_groups relations boxes sideFor))))"
  using all_items_distinct distinct_map_mset [OF port_groups_spec(2)] by blast

section \<open>One group\<close>

lemma foldl_set_ports_other:
  "e \<notin> ident ` set items \<Longrightarrow>
   port_at (foldl (\<lambda>acc entry. set_port acc (snd entry) (f (fst entry) (snd entry))) spread (enumerate n items)) e =
     port_at spread e"
  by (induction items arbitrary: spread n) (auto simp: port_at_set_port)

lemma foldl_set_ports_nth:
  "distinct (map ident items) \<Longrightarrow> i < length items \<Longrightarrow>
   port_at (foldl (\<lambda>acc entry. set_port acc (snd entry) (f (fst entry) (snd entry))) spread (enumerate n items))
     (ident (items ! i)) = Some (f (n + i) (items ! i))"
proof (induction items arbitrary: spread n i)
  case (Cons item items)
  show ?case
  proof (cases i)
    case 0
    with Cons.prems(1) show ?thesis by (simp add: foldl_set_ports_other port_at_set_port)
  next
    case (Suc j)
    with Cons.IH [of j _ "Suc n"] Cons.prems show ?thesis by simp
  qed
qed simp

definition vertical_side :: "port_item list \<Rightarrow> bool" where
  "vertical_side grp \<longleftrightarrow> it_side (hd grp) = LeftS \<or> it_side (hd grp) = RightS"

definition sorted_items :: "port_item list \<Rightarrow> port_item list" where
  "sorted_items grp = sort_port_items (vertical_side grp) grp"

definition grp_spacing :: "real \<Rightarrow> real \<Rightarrow> port_item list \<Rightarrow> real" where
  "grp_spacing gutter maxSpacing grp = port_spacing (vertical_side grp) gutter maxSpacing (sorted_items grp)"

definition is_spread :: "real \<Rightarrow> real \<Rightarrow> port_item list \<Rightarrow> bool" where
  "is_spread gutter maxSpacing grp \<longleftrightarrow> 2 \<le> length grp \<and> 0 < grp_spacing gutter maxSpacing grp"

lemma set_sorted_items [simp]: "set (sorted_items grp) = set grp"
  "length (sorted_items grp) = length grp"
  by (simp_all add: sorted_items_def sort_port_items_def)

lemma spread_group_eq:
  "spread_group gutter maxSpacing spread grp =
     (if is_spread gutter maxSpacing grp
      then foldl (\<lambda>acc entry. set_port acc (snd entry)
             (port_point (vertical_side grp) (grp_spacing gutter maxSpacing grp) (length grp) (fst entry) (snd entry)))
           spread (enumerate 0 (sorted_items grp))
      else spread)"
  by (simp add: spread_group_def Let_def is_spread_def grp_spacing_def sorted_items_def vertical_side_def
      sort_port_items_def)

lemma distinct_sorted_items: "distinct (map ident grp) \<Longrightarrow> distinct (map ident (sorted_items grp))"
  using distinct_map_mset [of "sorted_items grp" grp ident] by (simp add: sorted_items_def sort_port_items_def)

lemma spread_groups_other:
  "e \<notin> ident ` set (concat grps) \<Longrightarrow>
     port_at (foldl (spread_group gutter maxSpacing) spread grps) e = port_at spread e"
  by (induction grps arbitrary: spread) (simp_all add: spread_group_eq foldl_set_ports_other image_Un)

lemma spread_groups_nth:
  assumes "distinct (map ident (concat grps))" "grp \<in> set grps" "is_spread gutter maxSpacing grp" "i < length grp"
  shows "port_at (foldl (spread_group gutter maxSpacing) spread grps) (ident (sorted_items grp ! i)) =
     Some (port_point (vertical_side grp) (grp_spacing gutter maxSpacing grp) (length grp) i (sorted_items grp ! i))"
  using assms
proof (induction grps arbitrary: spread)
  case (Cons g grps)
  show ?case
  proof (cases "grp \<in> set grps")
    case True
    with Cons show ?thesis by simp
  next
    case False
    with Cons.prems have g: "g = grp" by simp
    have "ident (sorted_items grp ! i) \<in> ident ` set grp"
      using Cons.prems(4) by (metis imageI nth_mem set_sorted_items)
    then have "ident (sorted_items grp ! i) \<notin> ident ` set (concat grps)"
      using Cons.prems(1) g by auto
    moreover have "distinct (map ident (sorted_items grp))"
      using Cons.prems(1) g by (simp add: distinct_sorted_items)
    ultimately show ?thesis
      using Cons.prems(3,4)
      by (simp add: g spread_groups_other) (simp add: spread_group_eq foldl_set_ports_nth)
  qed
qed simp

section \<open>Position of the ports\<close>

definition centred :: "box \<Rightarrow> bool" where
  "centred b \<longleftrightarrow> bcx b = rx b + rwidth b / 2 \<and> bcy b = ry b + rheight b / 2"

definition along :: "side \<Rightarrow> point \<Rightarrow> real" where
  "along s p = (if s = LeftS \<or> s = RightS then snd p else fst p)"

definition counterpart_coordinate :: "port_item \<Rightarrow> real" where
  "counterpart_coordinate item =
     (if it_side item = LeftS \<or> it_side item = RightS then bcy (it_counterpart item) else bcx (it_counterpart item))"

definition on_side :: "real \<Rightarrow> box \<Rightarrow> side \<Rightarrow> point \<Rightarrow> bool" where
  "on_side gutter b s p \<longleftrightarrow>
     (case s of
        LeftS \<Rightarrow> fst p = rx b \<and> ry b + gutter \<le> snd p \<and> snd p \<le> ry b + rheight b - gutter
      | RightS \<Rightarrow> fst p = rx b + rwidth b \<and> ry b + gutter \<le> snd p \<and> snd p \<le> ry b + rheight b - gutter
      | TopS \<Rightarrow> snd p = ry b \<and> rx b + gutter \<le> fst p \<and> fst p \<le> rx b + rwidth b - gutter
      | BottomS \<Rightarrow> snd p = ry b + rheight b \<and> rx b + gutter \<le> fst p \<and> fst p \<le> rx b + rwidth b - gutter
      | Auto \<Rightarrow> True)"

lemma offset_bound:
  fixes n i :: nat
  assumes "i < n" "2 \<le> n" "0 < sp" "sp \<le> usable / (real n - 1)"
  shows "\<bar>(real i - (real n - 1) / 2) * sp\<bar> \<le> usable / 2"
proof -
  have "real i + 1 \<le> real n" using assms(1) by linarith
  then have "\<bar>real i - (real n - 1) / 2\<bar> \<le> (real n - 1) / 2" by (simp add: abs_le_iff field_simps)
  then have "\<bar>(real i - (real n - 1) / 2) * sp\<bar> \<le> (real n - 1) / 2 * sp"
    using assms(3) by (simp add: abs_mult mult_right_mono)
  also have "(real n - 1) * sp \<le> usable" using assms(2,4) by (simp add: le_divide_eq mult.commute)
  then have "(real n - 1) / 2 * sp \<le> usable / 2" by simp
  finally show ?thesis .
qed

lemma side_name_inj: "side_name s = side_name t \<Longrightarrow> s = t"
  by (cases s; cases t) (simp_all add: side_name_def)

lemma side_name_no_nul: "0 \<notin> set (side_name s)"
  by (cases s) (simp_all add: side_name_def)

lemma append_nul_inj: "0 \<notin> set u \<Longrightarrow> 0 \<notin> set v \<Longrightarrow> s @ [0::nat] @ u = t @ [0] @ v \<Longrightarrow> s = t \<and> u = v"
  by (auto simp: append_eq_append_conv2 append_eq_Cons_conv Cons_eq_append_conv)

lemma port_key_inj: "port_key a = port_key b \<Longrightarrow> bid (it_rect a) = bid (it_rect b) \<and> it_side a = it_side b"
  unfolding port_key_def using append_nul_inj side_name_no_nul side_name_inj by blast

text \<open>A table of boxes stores each box under its own id.\<close>

definition box_table :: "(jstring \<rightharpoonup> box) \<Rightarrow> bool" where
  "box_table boxes \<longleftrightarrow> (\<forall>k b. boxes k = Some b \<longrightarrow> bid b = k \<and> centred b)"

lemma port_items_rect:
  "box_table boxes \<Longrightarrow> item \<in> set (port_items boxes sideFor r) \<Longrightarrow>
     boxes (bid (it_rect item)) = Some (it_rect item) \<and> centred (it_rect item)"
  by (auto simp: port_items_def box_table_def Let_def split: if_splits option.splits)

lemma group_uniform:
  assumes "box_table boxes" "(k, grp) \<in> set (port_groups relations boxes sideFor)" "a \<in> set grp" "b \<in> set grp"
  shows "it_rect a = it_rect b \<and> it_side a = it_side b \<and> centred (it_rect a)"
proof -
  have "set (concat (map snd (port_groups relations boxes sideFor))) =
      set (concat (map (port_items boxes sideFor) relations))"
    using port_groups_spec(2) by (metis set_mset_mset)
  then have src: "\<exists>r. item \<in> set (port_items boxes sideFor r)" if "item \<in> set grp" for item
    using that assms(2) by fastforce
  have "port_key a = k" "port_key b = k"
    using port_groups_spec(1) [of relations boxes sideFor] assms(2-4) by (auto simp: keyed_def)
  then have "bid (it_rect a) = bid (it_rect b)" "it_side a = it_side b" using port_key_inj by metis+
  then show ?thesis using src [OF assms(3)] src [OF assms(4)] port_items_rect [OF assms(1)] by (metis option.inject)
qed

lemma sorted_items_coordinate:
  assumes "\<forall>a\<in>set grp. \<forall>b\<in>set grp. it_side a = it_side b" "i \<le> j" "j < length grp"
  shows "counterpart_coordinate (sorted_items grp ! i) \<le> counterpart_coordinate (sorted_items grp ! j)"
proof -
  let ?k = "\<lambda>item. (if vertical_side grp then bcy (it_counterpart item) else bcx (it_counterpart item),
                       relation_sort_key (it_relation item))"
  have cc: "counterpart_coordinate item = fst (?k item)" if "item \<in> set grp" for item
  proof -
    have "hd grp \<in> set grp" using that by (cases grp) auto
    then have "it_side item = it_side (hd grp)" using assms(1) that by blast
    then show ?thesis by (simp add: counterpart_coordinate_def vertical_side_def)
  qed
  have "sorted (map ?k (sorted_items grp))"
    unfolding sorted_items_def sort_port_items_def by (rule sorted_sort_key)
  then have "?k (sorted_items grp ! i) \<le> ?k (sorted_items grp ! j)"
    using sorted_nth_mono [OF _ assms(2)] assms(3,2) by fastforce
  then have "fst (?k (sorted_items grp ! i)) \<le> fst (?k (sorted_items grp ! j))"
    unfolding less_eq_prod_def by auto
  moreover have "sorted_items grp ! i \<in> set grp" "sorted_items grp ! j \<in> set grp"
    using assms(2,3) nth_mem [of i "sorted_items grp"] nth_mem [of j "sorted_items grp"] by auto
  ultimately show ?thesis using cc by simp
qed


lemma port_point_on_side:
  assumes "centred (it_rect item)" "it_side item \<noteq> Auto" "i < n" "2 \<le> n"
    and "vs = (it_side item = LeftS \<or> it_side item = RightS)"
    and "usable = (if vs then rheight (it_rect item) else rwidth (it_rect item)) - gutter * 2"
    and "0 < sp" "sp \<le> max 0 usable / (real n - 1)"
  shows "on_side gutter (it_rect item) (it_side item) (port_point vs sp n i item)"
proof -
  have "0 < usable"
  proof (rule ccontr)
    assume "\<not> 0 < usable"
    with assms(7,8) show False by simp
  qed
  then have "\<bar>(real i - (real n - 1) / 2) * sp\<bar> \<le> usable / 2"
    using offset_bound [OF assms(3,4,7), of usable] assms(8) by simp
  moreover define off where "off = (real i - (real n - 1) / 2) * sp"
  ultimately have "- (usable / 2) \<le> off" "off \<le> usable / 2" by linarith+
  then show ?thesis
    using assms(1,2,5,6) unfolding port_point_def off_def [symmetric]
    by (cases "it_side item") (simp_all add: on_side_def anchor_def centred_def Let_def field_simps)
qed

lemma port_point_along:
  assumes "it_rect a = it_rect b" "it_side a = it_side b" "vs = (it_side a = LeftS \<or> it_side a = RightS)"
  shows "along (it_side a) (port_point vs sp n j b) - along (it_side a) (port_point vs sp n i a) =
     (real j - real i) * sp"
  using assms by (simp add: along_def port_point_def Let_def algebra_simps)

text \<open>
  The spread of one group: every port lies on its side inside the gutters, the ports of different
  relationships are at least one spacing apart, and they are in the order of the other ends.
\<close>

lemma spread_group_ports:
  assumes "box_table boxes" "distinct (map oid relations)"
    and "(k, grp) \<in> set (port_groups relations boxes sideFor)" "is_spread gutter maxSpacing grp"
    and "a \<in> set grp" "b \<in> set grp" "it_side a \<noteq> Auto"
  defines "S \<equiv> automaticPortSpread relations boxes gutter maxSpacing sideFor"
  obtains p q where "port_at S (ident a) = Some p" "port_at S (ident b) = Some q"
    "on_side gutter (it_rect a) (it_side a) p" "on_side gutter (it_rect a) (it_side a) q"
    "a \<noteq> b \<Longrightarrow> grp_spacing gutter maxSpacing grp \<le> \<bar>along (it_side a) p - along (it_side a) q\<bar>"
    "counterpart_coordinate a < counterpart_coordinate b \<Longrightarrow> along (it_side a) p < along (it_side a) q"
proof -
  let ?items = "sorted_items grp" and ?n = "length grp"
  let ?sp = "grp_spacing gutter maxSpacing grp"
  obtain i where i: "i < ?n" "?items ! i = a" using assms(5) by (metis in_set_conv_nth set_sorted_items)
  obtain j where j: "j < ?n" "?items ! j = b" using assms(6) by (metis in_set_conv_nth set_sorted_items)
  have u: "it_rect x = it_rect y \<and> it_side x = it_side y \<and> centred (it_rect x)" if "x \<in> set grp" "y \<in> set grp" for x y
    using group_uniform [OF assms(1,3) that] .
  have ne: "grp \<noteq> []" "?items \<noteq> []" using assms(5) i(1) by (auto simp flip: length_greater_0_conv)
  then have h: "hd grp \<in> set grp" "hd ?items \<in> set grp" using hd_in_set [of ?items] by auto
  have vs: "vertical_side grp = (it_side a = LeftS \<or> it_side a = RightS)"
    using u [OF h(1) assms(5)] by (simp add: vertical_side_def)
  have sp: "0 < ?sp" "2 \<le> ?n" using assms(4) by (auto simp: is_spread_def)
  have "?sp \<le> max 0 ((if vertical_side grp then rheight (it_rect a) else rwidth (it_rect a)) - gutter * 2) / (real ?n - 1)"
    using u [OF h(2) assms(5)] by (simp add: grp_spacing_def port_spacing_def Let_def)
  note side = port_point_on_side [OF _ _ _ sp(2) _ refl sp(1)]
  have d: "distinct (map ident (concat (map snd (port_groups relations boxes sideFor))))"
    using groups_distinct [OF assms(2)] .
  have g: "grp \<in> set (map snd (port_groups relations boxes sideFor))" using assms(3) by force
  define p where "p = port_point (vertical_side grp) ?sp ?n i a"
  define q where "q = port_point (vertical_side grp) ?sp ?n j b"
  have P: "port_at S (ident a) = Some p" "port_at S (ident b) = Some q"
    using spread_groups_nth [OF d g assms(4) i(1)] spread_groups_nth [OF d g assms(4) j(1)] i(2) j(2)
    by (simp_all add: S_def automaticPortSpread_def p_def q_def)
  have ub: "it_rect b = it_rect a" "it_side b = it_side a" "centred (it_rect a)"
    using u [OF assms(6,5)] by auto
  have O: "on_side gutter (it_rect a) (it_side a) p" "on_side gutter (it_rect a) (it_side a) q"
    unfolding p_def q_def
    using side [OF ub(3) assms(7) i(1) vs] side [of b j, unfolded ub, OF ub(3) assms(7) j(1) vs]
      u [OF h(2) assms(5)]
    by (simp_all add: grp_spacing_def port_spacing_def Let_def)
  have df: "along (it_side a) q - along (it_side a) p = (real j - real i) * ?sp"
    unfolding p_def q_def using port_point_along [OF ub(1) [symmetric] ub(2) [symmetric] vs] .
  have far: "?sp \<le> \<bar>along (it_side a) p - along (it_side a) q\<bar>" if "a \<noteq> b"
  proof -
    have "i \<noteq> j" using that i j by auto
    then have "1 \<le> \<bar>real j - real i\<bar>" by linarith
    then have "?sp \<le> \<bar>(real j - real i) * ?sp\<bar>" using sp(1) by (simp add: abs_mult)
    with df show ?thesis by (metis abs_minus_commute)
  qed
  have ord: "along (it_side a) p < along (it_side a) q" if c: "counterpart_coordinate a < counterpart_coordinate b"
  proof -
    have "\<forall>x\<in>set grp. \<forall>y\<in>set grp. it_side x = it_side y" using u by blast
    from sorted_items_coordinate [OF this, of j i] have "i < j"
      using c i j by (cases "j \<le> i") auto
    then have "0 < (real j - real i) * ?sp" using sp(1) by simp
    with df show ?thesis by linarith
  qed
  show ?thesis by (rule that [OF P O far ord])
qed

end
