(* ===== verification/Route_Gates.thy ===== *)
theory Route_Gates
  imports Port_Spread
begin

text \<open>
  The mechanical quality gates of \<open>renderers/shared/geometry.mjs\<close>. A gate returns its problems: the
  records hold what \<open>recordDiagnostic\<close> receives (code, subject, evidence, supported fix), from which
  the source also builds the message text of the same problem; the text itself is not modelled.

  \<open>pathFor\<close> is the renderer's routing function; \<open>None\<close> is a relationship without a route. The
  environment variable \<open>ARCHIFY_QUALITY_PROFILE\<close> is the argument \<open>env\<close>.
\<close>

section \<open>Subjects and diagnostics\<close>

record subject =
  sj_diagramType :: jstring
  sj_collection :: jstring
  sj_index :: nat
  sj_id :: "jstring option"
  sj_from :: "jstring option"
  sj_to :: "jstring option"

definition keep_truthy :: "jstring option \<Rightarrow> jstring option" where
  "keep_truthy s = (if truthy s then s else None)"

definition relationshipSubject :: "jstring \<Rightarrow> jstring \<Rightarrow> nat \<Rightarrow> relation option \<Rightarrow> subject" where
  "relationshipSubject diagramType relationCollection relationIndex relation =
     \<lparr>sj_diagramType = diagramType, sj_collection = relationCollection, sj_index = relationIndex,
      sj_id = Option.bind relation (\<lambda>r. keep_truthy (rel_id r)),
      sj_from = Option.bind relation (\<lambda>r. keep_truthy (Some (rel_from r))),
      sj_to = Option.bind relation (\<lambda>r. keep_truthy (Some (rel_to r)))\<rparr>"

datatype evidence =
    Ev_endpoint_side side_issue bool
  | Ev_through_node jstring jstring nat point point real
  | Ev_crossing subject point nat nat
  | Ev_corridor subject real real point point nat nat
  | Ev_border_run jstring "jstring option" "jstring option" jstring nat real point point
  | Ev_rhythm nat position real real point point
  | Ev_label_clearance jstring subject nat real real rect point point

datatype gate_code =
    Endpoint_side_direction
  | Edge_through_node
  | Proper_crossing
  | Ambiguous_corridor
  | Container_border_run
  | Rhythm rhythm_code
  | Label_route_clearance

record problem =
  pr_code :: gate_code
  pr_subject :: subject
  pr_evidence :: evidence
  pr_fix :: jstring

record gate_context =
  gc_diagramType :: jstring
  gc_collection :: jstring
  gc_routeHint :: jstring

definition gate_problem :: "gate_context \<Rightarrow> gate_code \<Rightarrow> nat \<Rightarrow> relation option \<Rightarrow> evidence \<Rightarrow> problem" where
  "gate_problem ctx code relationIndex relation ev =
     \<lparr>pr_code = code,
      pr_subject = relationshipSubject (gc_diagramType ctx) (gc_collection ctx) relationIndex relation,
      pr_evidence = ev, pr_fix = gc_routeHint ctx\<rparr>"

text \<open>\<open>Math.round(value * 10) / 10\<close>.\<close>

definition round1 :: "real \<Rightarrow> real" where
  "round1 v = of_int (js_round (v * 10)) / 10"

definition qualityProfileForGate ::
  "jstring option \<Rightarrow> jstring option \<Rightarrow> bool \<Rightarrow> jstring option" where
  "qualityProfileForGate env profile profileIsAuthoritative =
     (if profileIsAuthoritative then profile else if truthy env then env else profile)"

definition is_showcase :: "jstring option \<Rightarrow> jstring option \<Rightarrow> bool \<Rightarrow> bool" where
  "is_showcase env profile authoritative \<longleftrightarrow>
     qualityProfileForGate env profile authoritative = Some (js ''showcase'')"

definition collectEligibleRoutedRelations ::
  "relation list \<Rightarrow> jstring set option \<Rightarrow> (relation \<Rightarrow> point list option) \<Rightarrow> routed list" where
  "collectEligibleRoutedRelations relations endpointIds pathFor =
     List.map_filter
       (\<lambda>(relationIndex, relation).
          if (case endpointIds of None \<Rightarrow> False
              | Some ids \<Rightarrow> rel_from relation \<notin> ids \<or> rel_to relation \<notin> ids)
          then None
          else Some \<lparr>ro_relation = Some relation, ro_index = Some relationIndex,
                     ro_points = (case pathFor relation of None \<Rightarrow> [] | Some ps \<Rightarrow> ps)\<rparr>)
       (enumerate 0 relations)"

section \<open>Endpoint sides\<close>

definition authored_side :: "side option \<Rightarrow> side option" where
  "authored_side s = (if s = None \<or> s = Some Auto then None else s)"

definition hasAuthoredRouteGeometry :: "relation \<Rightarrow> bool" where
  "hasAuthoredRouteGeometry relation \<longleftrightarrow>
     truthy (rel_route relation) \<and> rel_route relation \<noteq> Some (js ''auto'') \<or> via relation \<noteq> None"

definition endpoint_checks ::
  "relation \<Rightarrow> point list \<Rightarrow> (relation \<Rightarrow> side option) \<Rightarrow> (relation \<Rightarrow> side option) \<Rightarrow>
     (side_issue \<times> bool) list" where
  "endpoint_checks relation points fromSideFor toSideFor =
     (let authoredFromSide = authored_side (fromSide relation);
          authoredToSide = authored_side (toSide relation);
          inferredFromSide = (if hasAuthoredRouteGeometry relation then None else fromSideFor relation);
          inferredToSide = (if hasAuthoredRouteGeometry relation then None else toSideFor relation);
          from_side = (case authoredFromSide of None \<Rightarrow> inferredFromSide | s \<Rightarrow> s);
          to_side = (case authoredToSide of None \<Rightarrow> inferredToSide | s \<Rightarrow> s)
      in (case endpointSideIssue points Source from_side of
            None \<Rightarrow> [] | Some issue \<Rightarrow> [(issue, authoredFromSide \<noteq> None)]) @
         (case endpointSideIssue points Target to_side of
            None \<Rightarrow> [] | Some issue \<Rightarrow> [(issue, authoredToSide \<noteq> None)]))"

definition cleanEndpointSideProblems ::
  "gate_context \<Rightarrow> relation list \<Rightarrow> jstring set \<Rightarrow> (relation \<Rightarrow> point list option) \<Rightarrow>
     (relation \<Rightarrow> side option) \<Rightarrow> (relation \<Rightarrow> side option) \<Rightarrow> (relation \<Rightarrow> nat \<Rightarrow> bool) \<Rightarrow> problem list" where
  "cleanEndpointSideProblems ctx relations endpointIds pathFor fromSideFor toSideFor shouldCheckRelation =
     concat (map
       (\<lambda>(relationIndex, relation).
          if rel_from relation \<notin> endpointIds \<or> rel_to relation \<notin> endpointIds then []
          else if \<not> shouldCheckRelation relation relationIndex then []
          else case pathFor relation of
              None \<Rightarrow> []
            | Some points \<Rightarrow>
                if length points < 2 then []
                else map (\<lambda>(issue, authored).
                            gate_problem ctx Endpoint_side_direction relationIndex (Some relation)
                              (Ev_endpoint_side issue authored))
                       (endpoint_checks relation points fromSideFor toSideFor))
       (enumerate 0 relations))"

section \<open>Relationships through nodes\<close>

definition flow_hit :: "point list \<Rightarrow> box \<Rightarrow> real \<Rightarrow> nat option" where
  "flow_hit points obstacle clearance =
     find_index (\<lambda>seg. segmentIntersectsRect seg obstacle clearance) (pairs points)"

definition flow_problem ::
  "gate_context \<Rightarrow> jstring \<Rightarrow> real \<Rightarrow> nat \<Rightarrow> relation \<Rightarrow> point list \<Rightarrow> box \<Rightarrow> problem option" where
  "flow_problem ctx obstacleKind clearance relationIndex relation points obstacle =
     (if bid obstacle \<in> {rel_from relation, rel_to relation} then None
      else case flow_hit points obstacle clearance of
          None \<Rightarrow> None
        | Some hitSegment \<Rightarrow> Some
            (gate_problem ctx Edge_through_node relationIndex (Some relation)
               (Ev_through_node obstacleKind (bid obstacle) hitSegment
                  (points ! hitSegment) (points ! (hitSegment + 1)) clearance)))"

definition cleanFlowProblems ::
  "gate_context \<Rightarrow> relation list \<Rightarrow> box list \<Rightarrow> (relation \<Rightarrow> point list option) \<Rightarrow> jstring \<Rightarrow> real \<Rightarrow>
     problem list" where
  "cleanFlowProblems ctx relations obstacles pathFor obstacleKind clearance =
     concat (map
       (\<lambda>(relationIndex, relation).
          if rel_from relation \<notin> bid ` set obstacles \<or> rel_to relation \<notin> bid ` set obstacles then []
          else case pathFor relation of
              None \<Rightarrow> []
            | Some points \<Rightarrow>
                if length points < 2 then []
                else List.map_filter
                       (flow_problem ctx obstacleKind clearance relationIndex relation points) obstacles)
       (enumerate 0 relations))"

section \<open>Crossings\<close>

record analysis_segment =
  an_start :: point
  an_end :: point
  an_segmentIndex :: nat
  an_sourceSegments :: "(point \<times> point \<times> nat) list"

definition segmentsContinueForward :: "point \<Rightarrow> point \<Rightarrow> point \<Rightarrow> point \<Rightarrow> bool" where
  "segmentsContinueForward firstStart firstEnd secondStart secondEnd =
     (let epsilon = 1 / 10000
      in if epsilon < \<bar>fst firstEnd - fst secondStart\<bar> \<or> epsilon < \<bar>snd firstEnd - snd secondStart\<bar> then False
         else
           (let u = (fst firstEnd - fst firstStart, snd firstEnd - snd firstStart);
                v = (fst secondEnd - fst secondStart, snd secondEnd - snd secondStart);
                firstLength = hypot (fst u) (snd u);
                secondLength = hypot (fst v) (snd v)
            in if firstLength \<le> epsilon \<or> secondLength \<le> epsilon then False
               else if epsilon < \<bar>fst u * snd v - snd u * fst v\<bar> then False
               else epsilon < fst u * fst v + snd u * snd v))"

definition analysis_step ::
  "analysis_segment list \<Rightarrow> nat \<times> point \<times> point \<Rightarrow> analysis_segment list" where
  "analysis_step segments entry =
     (let segmentIndex = fst entry; start = fst (snd entry); end = snd (snd entry);
          sourceSegment = (start, end, segmentIndex)
      in if segments \<noteq> [] \<and>
            segmentsContinueForward (an_start (last segments)) (an_end (last segments)) start end
         then butlast segments @
                [(last segments)\<lparr>an_end := end,
                   an_sourceSegments := an_sourceSegments (last segments) @ [sourceSegment]\<rparr>]
         else segments @
                [\<lparr>an_start = start, an_end = end, an_segmentIndex = segmentIndex,
                  an_sourceSegments = [sourceSegment]\<rparr>])"

definition forwardCollinearAnalysisSegments :: "point list \<Rightarrow> analysis_segment list" where
  "forwardCollinearAnalysisSegments points = foldl analysis_step [] (enumerate 0 (pairs points))"

definition authoredAnalysisSegments :: "point list \<Rightarrow> analysis_segment list" where
  "authoredAnalysisSegments points =
     map (\<lambda>(segmentIndex, start, end).
            \<lparr>an_start = start, an_end = end, an_segmentIndex = segmentIndex,
             an_sourceSegments = [(start, end, segmentIndex)]\<rparr>)
       (enumerate 0 (pairs points))"

definition sourceSegmentIndexAtPoint :: "analysis_segment \<Rightarrow> point \<Rightarrow> nat" where
  "sourceSegmentIndexAtPoint seg p =
     (case find (\<lambda>(start, end, _). pointLiesOnSegment p start end) (an_sourceSegments seg) of
        Some (_, _, i) \<Rightarrow> i
      | None \<Rightarrow> an_segmentIndex seg)"

record crossing_route =
  cr_relation :: relation
  cr_index :: nat
  cr_segments :: "analysis_segment list"

definition share_endpoint :: "relation \<Rightarrow> relation \<Rightarrow> bool" where
  "share_endpoint left right \<longleftrightarrow>
     (\<exists>i\<in>set [rel_from left, rel_to left]. i = rel_from right \<or> i = rel_to right)"

definition crossing_hit :: "crossing_route \<Rightarrow> crossing_route \<Rightarrow> (point \<times> nat \<times> nat) option" where
  "crossing_hit left right =
     first_some
       (\<lambda>(leftSegment, rightSegment).
          map_option
            (\<lambda>p. (p, sourceSegmentIndexAtPoint leftSegment p, sourceSegmentIndexAtPoint rightSegment p))
            (properSegmentIntersection (an_start leftSegment) (an_end leftSegment)
               (an_start rightSegment) (an_end rightSegment)))
       (List.product (cr_segments left) (cr_segments right))"

definition crossing_routes ::
  "relation list \<Rightarrow> jstring set \<Rightarrow> (relation \<Rightarrow> point list option) \<Rightarrow> bool \<Rightarrow> crossing_route list" where
  "crossing_routes relations endpointIds pathFor mergeForwardCollinearWaypoints =
     List.map_filter
       (\<lambda>(index, relation).
          if rel_from relation \<notin> endpointIds \<or> rel_to relation \<notin> endpointIds then None
          else case pathFor relation of
              None \<Rightarrow> None
            | Some points \<Rightarrow>
                if length points < 2 then None
                else Some \<lparr>cr_relation = relation, cr_index = index,
                           cr_segments = (if mergeForwardCollinearWaypoints
                                          then forwardCollinearAnalysisSegments points
                                          else authoredAnalysisSegments points)\<rparr>)
       (enumerate 0 relations)"

definition cleanCrossingProblems ::
  "gate_context \<Rightarrow> jstring option \<Rightarrow> relation list \<Rightarrow> jstring set \<Rightarrow> (relation \<Rightarrow> point list option) \<Rightarrow>
     jstring option \<Rightarrow> bool \<Rightarrow> bool \<Rightarrow> problem list" where
  "cleanCrossingProblems ctx env relations endpointIds pathFor profile profileIsAuthoritative
     mergeForwardCollinearWaypoints =
     (if \<not> is_showcase env profile profileIsAuthoritative then []
      else List.map_filter
        (\<lambda>(left, right).
           if share_endpoint (cr_relation left) (cr_relation right) then None
           else case crossing_hit left right of
               None \<Rightarrow> None
             | Some (p, leftSegment, rightSegment) \<Rightarrow> Some
                 (gate_problem ctx Proper_crossing (cr_index left) (Some (cr_relation left))
                    (Ev_crossing
                       (relationshipSubject (gc_diagramType ctx) (gc_collection ctx) (cr_index right)
                          (Some (cr_relation right)))
                       p leftSegment rightSegment)))
        (ordered_pairs (crossing_routes relations endpointIds pathFor mergeForwardCollinearWaypoints)))"

section \<open>Ambiguous corridors\<close>

record corridor_route =
  co_relation :: relation
  co_index :: nat
  co_points :: "point list"

record corridor_hit =
  ch_left :: corridor_route
  ch_right :: corridor_route
  ch_leftSegment :: nat
  ch_rightSegment :: nat
  ch_overlapLength :: real
  ch_overlapStart :: point
  ch_overlapEnd :: point

definition corridor_routes :: "routed list \<Rightarrow> corridor_route list" where
  "corridor_routes routedRelations =
     List.map_filter
       (\<lambda>(fallbackIndex, entry).
          case ro_relation entry of
            None \<Rightarrow> None
          | Some relation \<Rightarrow>
              (let points = normalizeRoutePoints (ro_points entry)
               in if length points < 2 then None
                  else Some \<lparr>co_relation = relation,
                             co_index = (case ro_index entry of Some i \<Rightarrow> i | None \<Rightarrow> fallbackIndex),
                             co_points = points\<rparr>))
       (enumerate 0 routedRelations)"

definition corridor_step ::
  "corridor_route \<Rightarrow> corridor_route \<Rightarrow> real \<Rightarrow> corridor_hit option \<Rightarrow>
     (nat \<times> point \<times> point) \<times> (nat \<times> point \<times> point) \<Rightarrow> corridor_hit option" where
  "corridor_step left right minOverlapPx longest segs =
     (let leftSegment = fst (fst segs); rightSegment = fst (snd segs)
      in case collinearAxisOverlap (fst (snd (fst segs))) (snd (snd (fst segs)))
                (fst (snd (snd segs))) (snd (snd (snd segs))) of
           None \<Rightarrow> longest
         | Some ov \<Rightarrow>
             if ov_length ov + 1 / 10000 < minOverlapPx then longest
             else if (case longest of None \<Rightarrow> True
                      | Some h \<Rightarrow> ch_overlapLength h + 1 / 10000 < ov_length ov)
             then Some \<lparr>ch_left = left, ch_right = right, ch_leftSegment = leftSegment,
                        ch_rightSegment = rightSegment, ch_overlapLength = ov_length ov,
                        ch_overlapStart = ov_start ov, ch_overlapEnd = ov_end ov\<rparr>
             else longest)"

definition corridor_longest :: "corridor_route \<Rightarrow> corridor_route \<Rightarrow> real \<Rightarrow> corridor_hit option" where
  "corridor_longest left right minOverlapPx =
     foldl (corridor_step left right minOverlapPx) None
       (List.product (enumerate 0 (pairs (co_points left))) (enumerate 0 (pairs (co_points right))))"

definition collectAmbiguousCorridors :: "routed list \<Rightarrow> real \<Rightarrow> corridor_hit list" where
  "collectAmbiguousCorridors routedRelations minOverlapPx =
     List.map_filter
       (\<lambda>(left, right).
          if share_endpoint (co_relation left) (co_relation right) then None
          else corridor_longest left right minOverlapPx)
       (ordered_pairs (corridor_routes routedRelations))"

definition cleanAmbiguousCorridorProblems ::
  "gate_context \<Rightarrow> jstring option \<Rightarrow> relation list \<Rightarrow> jstring set option \<Rightarrow>
     (relation \<Rightarrow> point list option) \<Rightarrow> jstring option \<Rightarrow> bool \<Rightarrow> real \<Rightarrow> problem list" where
  "cleanAmbiguousCorridorProblems ctx env relations endpointIds pathFor profile authoritative minOverlapPx =
     (if \<not> is_showcase env profile authoritative then []
      else map
        (\<lambda>hit. gate_problem ctx Ambiguous_corridor (co_index (ch_left hit)) (Some (co_relation (ch_left hit)))
                 (Ev_corridor
                    (relationshipSubject (gc_diagramType ctx) (gc_collection ctx) (co_index (ch_right hit))
                       (Some (co_relation (ch_right hit))))
                    (round1 (ch_overlapLength hit)) minOverlapPx (ch_overlapStart hit) (ch_overlapEnd hit)
                    (ch_leftSegment hit) (ch_rightSegment hit)))
        (collectAmbiguousCorridors
           (collectEligibleRoutedRelations relations endpointIds pathFor) minOverlapPx))"

section \<open>Border runs\<close>

datatype frame_shape = Frame_line point point | Frame_rect rect real

record frame =
  fr_shape :: frame_shape
  fr_kind :: "jstring option"
  fr_label :: "jstring option"
  fr_id :: "jstring option"

datatype border_side = Line_side | Top_side | Right_side | Bottom_side | Left_side

definition frameBorderSegments :: "frame \<Rightarrow> (border_side \<times> point \<times> point) list" where
  "frameBorderSegments frame =
     (case fr_shape frame of
        Frame_line start end \<Rightarrow> [(Line_side, start, end)]
      | Frame_rect r rad \<Rightarrow>
          if rwidth r \<le> 0 \<or> rheight r \<le> 0 then []
          else
            (let radius = max 0 (min (min rad (rwidth r / 2)) (rheight r / 2));
                 left = rx r; right = rx r + rwidth r;
                 top = ry r; bottom = ry r + rheight r
             in filter (\<lambda>(_, start, end). 1 / 10000 < hypot (fst end - fst start) (snd end - snd start))
                  [(Top_side, (left + radius, top), (right - radius, top)),
                   (Right_side, (right, top + radius), (right, bottom - radius)),
                   (Bottom_side, (right - radius, bottom), (left + radius, bottom)),
                   (Left_side, (left, bottom - radius), (left, top + radius))]))"

record interval =
  in_low :: real
  in_high :: real

definition merge_step :: "interval list \<Rightarrow> interval \<Rightarrow> interval list" where
  "merge_step merged iv =
     (if merged \<noteq> [] \<and> in_low iv \<le> in_high (last merged) + 1 / 10000
      then butlast merged @ [(last merged)\<lparr>in_high := max (in_high (last merged)) (in_high iv)\<rparr>]
      else merged @ [iv])"

definition overlap_interval :: "nat \<Rightarrow> overlap \<Rightarrow> interval" where
  "overlap_interval axis ov =
     \<lparr>in_low = min (coord axis (ov_start ov)) (coord axis (ov_end ov)),
      in_high = max (coord axis (ov_start ov)) (coord axis (ov_end ov))\<rparr>"

text \<open>The merged runs, each with its interval.\<close>

definition mergeBorderOverlaps :: "overlap list \<Rightarrow> point \<Rightarrow> point \<Rightarrow> (interval \<times> overlap) list" where
  "mergeBorderOverlaps overlaps border_start border_end =
     (let horizontal = (\<bar>snd border_start - snd border_end\<bar> \<le> 1 / 10000);
          axis = (if horizontal then 0 else 1);
          fixed = (if horizontal then snd border_start else fst border_start);
          sorted_ivs = sort_key (\<lambda>iv. (in_low iv, in_high iv)) (map (overlap_interval axis) overlaps);
          merged = foldl merge_step [] sorted_ivs
      in map (\<lambda>iv. (iv,
                \<lparr>ov_length = in_high iv - in_low iv,
                 ov_start = (if horizontal then (in_low iv, fixed) else (fixed, in_low iv)),
                 ov_end = (if horizontal then (in_high iv, fixed) else (fixed, in_high iv))\<rparr>))
           merged)"

text \<open>Renderers pass \<open>points\<close>; the artifact checker passes the straight \<open>segments\<close> of a path.\<close>

record bordered = routed +
  ro_segments :: "segment list option"

record border_hit =
  bh_routed :: bordered
  bh_frame :: frame
  bh_frameIndex :: nat
  bh_side :: border_side
  bh_segmentIndex :: nat
  bh_overlapLength :: real
  bh_overlapStart :: point
  bh_overlapEnd :: point

definition border_overlaps :: "segment list \<Rightarrow> point \<Rightarrow> point \<Rightarrow> (overlap \<times> nat) list" where
  "border_overlaps routeSegments border_start border_end =
     List.map_filter
       (\<lambda>(segmentIndex, start, end).
          case collinearAxisOverlap start end border_start border_end of
            None \<Rightarrow> None
          | Some ov \<Rightarrow> if ov_length ov \<le> 1 / 10000 then None else Some (ov, segmentIndex))
       (enumerate 0 routeSegments)"

definition border_hit_for ::
  "bordered \<Rightarrow> segment list \<Rightarrow> nat \<Rightarrow> frame \<Rightarrow> border_side \<times> point \<times> point \<Rightarrow> border_hit option" where
  "border_hit_for routed routeSegments frameIndex frame border =
     (let overlaps = border_overlaps routeSegments (fst (snd border)) (snd (snd border))
      in if overlaps = [] then None
         else
           (let merged = mergeBorderOverlaps (map fst overlaps) (fst (snd border)) (snd (snd border));
                longest = snd (hd (sort_key (\<lambda>m. (- ov_length (snd m), in_low (fst m))) merged))
            in Some \<lparr>bh_routed = routed, bh_frame = frame, bh_frameIndex = frameIndex, bh_side = fst border,
                     bh_segmentIndex = Min (set (map snd overlaps)),
                     bh_overlapLength = sum_list (map (\<lambda>m. ov_length (snd m)) merged),
                     bh_overlapStart = ov_start longest,
                     bh_overlapEnd = ov_end longest\<rparr>))"

definition collectBorderRuns :: "bordered list \<Rightarrow> frame list \<Rightarrow> border_hit list" where
  "collectBorderRuns routedRelations frames =
     concat (map
       (\<lambda>routed.
          (let routeSegments = (case ro_segments routed of Some segs \<Rightarrow> segs | None \<Rightarrow> pairs (ro_points routed))
           in if routeSegments = [] then []
              else concat (map
                (\<lambda>(frameIndex, frame).
                   List.map_filter (border_hit_for routed routeSegments frameIndex frame)
                     (frameBorderSegments frame))
                (enumerate 0 frames))))
       routedRelations)"

definition side_text :: "border_side \<Rightarrow> jstring" where
  "side_text s = (case s of Line_side \<Rightarrow> js ''line'' | Top_side \<Rightarrow> js ''top'' | Right_side \<Rightarrow> js ''right''
     | Bottom_side \<Rightarrow> js ''bottom'' | Left_side \<Rightarrow> js ''left'')"

text \<open>\<open>hit.frame?.kind || hit.frame?.shape || 'frame'\<close>.\<close>

definition frame_kind_text :: "frame \<Rightarrow> jstring" where
  "frame_kind_text frame =
     (if truthy (fr_kind frame) then the (fr_kind frame)
      else case fr_shape frame of Frame_line _ _ \<Rightarrow> js ''line'' | Frame_rect _ _ \<Rightarrow> js ''frame'')"

definition cleanBorderRunProblems ::
  "gate_context \<Rightarrow> jstring option \<Rightarrow> relation list \<Rightarrow> jstring set option \<Rightarrow> frame list \<Rightarrow>
     (relation \<Rightarrow> point list option) \<Rightarrow> jstring option \<Rightarrow> bool \<Rightarrow> problem list" where
  "cleanBorderRunProblems ctx env relations endpointIds frames pathFor profile authoritative =
     (if \<not> truthy (qualityProfileForGate env profile authoritative) then []
      else map
        (\<lambda>hit. gate_problem ctx Container_border_run (the (ro_index (bh_routed hit))) (ro_relation (bh_routed hit))
                 (Ev_border_run (frame_kind_text (bh_frame hit)) (fr_id (bh_frame hit)) (fr_label (bh_frame hit))
                    (side_text (bh_side hit)) (bh_segmentIndex hit) (round1 (bh_overlapLength hit))
                    (bh_overlapStart hit) (bh_overlapEnd hit)))
        (collectBorderRuns
           (map (\<lambda>r. routed.extend r \<lparr>ro_segments = None\<rparr>)
              (collectEligibleRoutedRelations relations endpointIds pathFor)) frames))"

section \<open>Rhythm\<close>

definition cleanRouteRhythmProblems ::
  "gate_context \<Rightarrow> jstring option \<Rightarrow> relation list \<Rightarrow> jstring set option \<Rightarrow>
     (relation \<Rightarrow> point list option) \<Rightarrow> jstring option \<Rightarrow> bool \<Rightarrow> real \<Rightarrow> real \<Rightarrow> problem list" where
  "cleanRouteRhythmProblems ctx env relations endpointIds pathFor profile authoritative interiorSegmentPx
     microSegmentPx =
     (if \<not> is_showcase env profile authoritative then []
      else map
        (\<lambda>hit. gate_problem ctx (Rhythm (ri_code hit)) (ri_relationIndex hit) (ri_relation hit)
                 (Ev_rhythm (ri_segmentIndex hit) (ri_position hit) (round1 (ri_length hit))
                    (if ri_code hit = Micro_segment then microSegmentPx else interiorSegmentPx)
                    (ri_start hit) (ri_end hit)))
        (collectRouteRhythmIssues (collectEligibleRoutedRelations relations endpointIds pathFor)
           interiorSegmentPx microSegmentPx))"

section \<open>Labels and foreign routes\<close>

datatype identity = Id_key jstring | Id_id jstring | Id_index nat

text \<open>
  The three prefixes \<open>key:\<close>, \<open>id:\<close> and \<open>index:\<close> of the source keep the three kinds of identity apart.
\<close>

definition relationshipIdentity :: "relation option \<Rightarrow> nat \<Rightarrow> identity" where
  "relationshipIdentity relation relationIndex =
     (case relation of
        None \<Rightarrow> Id_index relationIndex
      | Some r \<Rightarrow>
          (case rel_key r of
             Some k \<Rightarrow> Id_key k
           | None \<Rightarrow>
               if truthy (rel_id r) then Id_id (rel_from r @ [0] @ rel_to r @ [0] @ the (rel_id r))
               else Id_index relationIndex))"

definition sameRelationship :: "relation option \<Rightarrow> relation option \<Rightarrow> bool" where
  "sameRelationship left right =
     (case (left, right) of
        (Some l, Some r) \<Rightarrow>
          if oid l = oid r then True
          else if rel_key l \<noteq> None \<and> rel_key r \<noteq> None then rel_key l = rel_key r
          else truthy (rel_id l) \<and> truthy (rel_id r) \<and> rel_id l = rel_id r \<and>
               rel_from l = rel_from r \<and> rel_to l = rel_to r
      | _ \<Rightarrow> False)"

record label_entry =
  le_rect :: rect
  le_relation :: "relation option"
  le_index :: "nat option"
  le_label :: "jstring option"

record label_route =
  lr_relation :: "relation option"
  lr_index :: nat
  lr_points :: "point list"

record nearest =
  ne_clearance :: real
  ne_intersectionLength :: "real option"
  ne_segmentIndex :: nat
  ne_start :: point
  ne_end :: point

record label_hit =
  lh_label :: label_entry
  lh_labelRelationIndex :: nat
  lh_other :: label_route
  lh_nearest :: nearest
  lh_threshold :: real

text \<open>Keeping the first entry of every identity: \<open>seen\<close> is the \<open>Set\<close> of the loop.\<close>

fun first_by :: "('a \<Rightarrow> identity) \<Rightarrow> identity list \<Rightarrow> 'a list \<Rightarrow> 'a list" where
  "first_by f seen [] = []"
| "first_by f seen (v # vs) =
     (if f v \<in> set seen then first_by f seen vs else v # first_by f (f v # seen) vs)"

definition label_routes :: "routed list \<Rightarrow> label_route list" where
  "label_routes routedRelations =
     first_by (\<lambda>route. relationshipIdentity (lr_relation route) (lr_index route)) []
       (List.map_filter
          (\<lambda>(fallbackIndex, entry).
             (let points = normalizeRoutePoints (ro_points entry)
              in if length points < 2 then None
                 else Some \<lparr>lr_relation = ro_relation entry,
                            lr_index = (case ro_index entry of Some i \<Rightarrow> i | None \<Rightarrow> fallbackIndex),
                            lr_points = points\<rparr>))
          (enumerate 0 routedRelations))"

definition nearest_step :: "rect \<Rightarrow> nearest option \<Rightarrow> nat \<times> point \<times> point \<Rightarrow> nearest option" where
  "nearest_step rect best entry =
     (case segmentRectClearance (snd entry) rect of
        None \<Rightarrow> best
      | Some clearance \<Rightarrow>
          if (case best of None \<Rightarrow> True | Some b \<Rightarrow> clearance < ne_clearance b)
          then Some \<lparr>ne_clearance = clearance,
                     ne_intersectionLength = segmentRectIntersectionLength (snd entry) rect,
                     ne_segmentIndex = fst entry, ne_start = fst (snd entry), ne_end = snd (snd entry)\<rparr>
          else best)"

definition nearest_segment :: "rect \<Rightarrow> point list \<Rightarrow> nearest option" where
  "nearest_segment rect points = foldl (nearest_step rect) None (enumerate 0 (pairs points))"

definition label_route_hit :: "real \<Rightarrow> nat \<Rightarrow> label_entry \<Rightarrow> label_route \<Rightarrow> label_hit option" where
  "label_route_hit threshold relationIndex label route =
     (if relationIndex = lr_index route \<or> sameRelationship (le_relation label) (lr_relation route) then None
      else case nearest_segment (le_rect label) (lr_points route) of
          None \<Rightarrow> None
        | Some near \<Rightarrow>
            if threshold \<le> ne_clearance near + 1 / 10000 then None
            else Some \<lparr>lh_label = label, lh_labelRelationIndex = relationIndex, lh_other = route,
                       lh_nearest = near, lh_threshold = threshold\<rparr>)"

definition label_index :: "nat \<times> label_entry \<Rightarrow> nat" where
  "label_index entry = (case le_index (snd entry) of Some i \<Rightarrow> i | None \<Rightarrow> fst entry)"

definition collectLabelRouteClearance :: "label_entry list \<Rightarrow> routed list \<Rightarrow> real \<Rightarrow> label_hit list" where
  "collectLabelRouteClearance labels routedRelations threshold =
     (if threshold < 0 then []
      else concat (map
        (\<lambda>entry. List.map_filter (label_route_hit threshold (label_index entry) (snd entry))
                   (label_routes routedRelations))
        (first_by (\<lambda>entry. relationshipIdentity (le_relation (snd entry)) (label_index entry)) []
           (filter (\<lambda>(_, label). valid_rect (le_rect label)) (enumerate 0 labels)))))"

definition cleanLabelRouteClearanceProblems ::
  "gate_context \<Rightarrow> jstring option \<Rightarrow> relation list \<Rightarrow> label_entry list \<Rightarrow> jstring set option \<Rightarrow>
     (relation \<Rightarrow> point list option) \<Rightarrow> jstring option \<Rightarrow> bool \<Rightarrow> real \<Rightarrow> problem list" where
  "cleanLabelRouteClearanceProblems ctx env relations labels endpointIds pathFor profile authoritative threshold =
     (if \<not> is_showcase env profile authoritative then []
      else map
        (\<lambda>hit. gate_problem ctx Label_route_clearance (lh_labelRelationIndex hit) (le_relation (lh_label hit))
                 (Ev_label_clearance
                    (if truthy (le_label (lh_label hit)) then the (le_label (lh_label hit))
                     else or_empty (Option.bind (le_relation (lh_label hit)) rel_label))
                    (relationshipSubject (gc_diagramType ctx) (gc_collection ctx) (lr_index (lh_other hit))
                       (lr_relation (lh_other hit)))
                    (ne_segmentIndex (lh_nearest hit)) (round1 (ne_clearance (lh_nearest hit))) threshold
                    (le_rect (lh_label hit)) (ne_start (lh_nearest hit)) (ne_end (lh_nearest hit))))
        (collectLabelRouteClearance labels
           (collectEligibleRoutedRelations relations endpointIds pathFor) threshold))"

section \<open>The profile of a gate\<close>

text \<open>
  The contract every optional gate shares: it depends on its profile arguments only through the
  effective profile, and it reports nothing when that profile does not activate it.
\<close>

locale quality_gate =
  fixes active :: "jstring option \<Rightarrow> bool"
    and gate :: "jstring option \<Rightarrow> jstring option \<Rightarrow> bool \<Rightarrow> problem list"
  assumes effective: "gate env profile authoritative = gate None (qualityProfileForGate env profile authoritative) True"
    and inactive: "\<not> active profile \<Longrightarrow> gate None profile True = []"
begin

lemma silent: "\<not> active (qualityProfileForGate env profile authoritative) \<Longrightarrow> gate env profile authoritative = []"
  using inactive effective by metis

lemma authoritative_ignores_env: "gate env profile True = gate None profile True"
  using effective [of env profile True] by (simp add: qualityProfileForGate_def)

lemma env_overrides: "truthy env \<Longrightarrow> gate env profile False = gate env profile' False"
  using effective [of env profile False] effective [of env profile' False]
  by (simp add: qualityProfileForGate_def)

lemma env_unset: "\<not> truthy env \<Longrightarrow> gate env profile False = gate None profile True"
  using effective [of env profile False] by (simp add: qualityProfileForGate_def)

end

abbreviation showcase_active :: "jstring option \<Rightarrow> bool" where
  "showcase_active p \<equiv> p = Some (js ''showcase'')"

lemma effective_idem [simp]: "qualityProfileForGate None (qualityProfileForGate env p a) True = qualityProfileForGate env p a"
  by (simp add: qualityProfileForGate_def)

interpretation crossing_gate: quality_gate showcase_active
  "\<lambda>env profile authoritative. cleanCrossingProblems ctx env relations ids pathFor profile authoritative merge"
  for ctx relations ids pathFor merge
  by unfold_locales (simp_all add: cleanCrossingProblems_def is_showcase_def qualityProfileForGate_def)

interpretation corridor_gate: quality_gate showcase_active
  "\<lambda>env profile authoritative. cleanAmbiguousCorridorProblems ctx env relations ids pathFor profile authoritative px"
  for ctx relations ids pathFor px
  by unfold_locales (simp_all add: cleanAmbiguousCorridorProblems_def is_showcase_def qualityProfileForGate_def)

interpretation rhythm_gate: quality_gate showcase_active
  "\<lambda>env profile authoritative. cleanRouteRhythmProblems ctx env relations ids pathFor profile authoritative i m"
  for ctx relations ids pathFor i m
  by unfold_locales (simp_all add: cleanRouteRhythmProblems_def is_showcase_def qualityProfileForGate_def)

interpretation label_gate: quality_gate showcase_active
  "\<lambda>env profile authoritative.
     cleanLabelRouteClearanceProblems ctx env relations labels ids pathFor profile authoritative threshold"
  for ctx relations labels ids pathFor threshold
  by unfold_locales (simp_all add: cleanLabelRouteClearanceProblems_def is_showcase_def qualityProfileForGate_def)

interpretation border_gate: quality_gate truthy
  "\<lambda>env profile authoritative. cleanBorderRunProblems ctx env relations ids frames pathFor profile authoritative"
  for ctx relations ids frames pathFor
  by unfold_locales (simp_all add: cleanBorderRunProblems_def qualityProfileForGate_def)

section \<open>The clean-flow gate is exact\<close>

lemma trace_segments:
  "2 \<le> length ps \<Longrightarrow> p \<in> trace ps \<longleftrightarrow> (\<exists>seg\<in>set (pairs ps). on_seg p (fst seg) (snd seg))"
proof -
  assume "2 \<le> length ps"
  then have "\<exists>seg\<in>set (pairs ps). on_seg p (fst seg) (snd seg)" if "p \<in> set ps"
    using that
  proof (induction ps rule: induct_list012)
    case (3 a b ps)
    then show ?case by (cases ps) auto
  qed auto
  then show ?thesis by (simp add: trace_def case_prod_beta) blast
qed

lemma flow_hit_None:
  assumes "grid_points points" "2 \<le> length points" "grid_rect obstacle" "valid_rect obstacle"
    "on_grid clearance" "0 \<le> clearance"
  shows "flow_hit points obstacle clearance = None \<longleftrightarrow>
     (\<forall>p\<in>trace points. \<not> pointInBox p (expand_rect obstacle clearance))"
proof -
  have seg: "segmentIntersectsRect seg obstacle clearance \<longleftrightarrow>
      (\<exists>p. on_seg p (fst seg) (snd seg) \<and> pointInBox p (expand_rect obstacle clearance))"
    if "seg \<in> set (pairs points)" for seg
  proof (rule segmentIntersectsRect_exact)
    have "fst seg \<in> set points" "snd seg \<in> set points" using that set_pairs_subset [of "fst seg" "snd seg" points] by auto
    then show "grid_point (fst seg)" "grid_point (snd seg)" using assms(1) by (auto simp: grid_points_def)
  qed (use assms in auto)
  have "flow_hit points obstacle clearance = None \<longleftrightarrow>
      (\<forall>seg\<in>set (pairs points). \<not> (\<exists>p. on_seg p (fst seg) (snd seg) \<and> pointInBox p (expand_rect obstacle clearance)))"
    using seg by (simp add: flow_hit_def)
  then show ?thesis using trace_segments [OF assms(2)] by blast
qed

lemma flow_problem_None: "flow_problem ctx kind clearance i r ps b = None \<longleftrightarrow>
    (bid b \<noteq> rel_from r \<and> bid b \<noteq> rel_to r \<longrightarrow> flow_hit ps b clearance = None)"
  by (auto simp: flow_problem_def split: option.splits)

lemma cleanFlowProblems_exact:
  assumes paths: "\<And>r ps. r \<in> set relations \<Longrightarrow> pathFor r = Some ps \<Longrightarrow> grid_points ps"
    and boxes: "\<And>b. b \<in> set obstacles \<Longrightarrow> grid_rect b \<and> valid_rect b"
    and cl: "on_grid clearance" "0 \<le> clearance"
  shows "cleanFlowProblems ctx relations obstacles pathFor kind clearance = [] \<longleftrightarrow>
    (\<forall>r\<in>set relations. \<forall>ps. pathFor r = Some ps \<and> 2 \<le> length ps \<and>
        rel_from r \<in> bid ` set obstacles \<and> rel_to r \<in> bid ` set obstacles \<longrightarrow>
      (\<forall>b\<in>set obstacles. bid b \<noteq> rel_from r \<and> bid b \<noteq> rel_to r \<longrightarrow>
         (\<forall>p\<in>trace ps. \<not> pointInBox p (expand_rect b clearance))))"
proof -
  let ?ok = "\<lambda>r. \<forall>ps. pathFor r = Some ps \<and> 2 \<le> length ps \<and>
        rel_from r \<in> bid ` set obstacles \<and> rel_to r \<in> bid ` set obstacles \<longrightarrow>
      (\<forall>b\<in>set obstacles. bid b \<noteq> rel_from r \<and> bid b \<noteq> rel_to r \<longrightarrow> flow_hit ps b clearance = None)"
  have "cleanFlowProblems ctx relations obstacles pathFor kind clearance = [] \<longleftrightarrow>
      (\<forall>i < length relations. ?ok (relations ! i))"
    unfolding cleanFlowProblems_def concat_map_Nil_iff ball_enumerate prod.case
  proof (intro all_cong1 imp_cong refl)
    fix i
    show "(if rel_from (relations ! i) \<notin> bid ` set obstacles \<or> rel_to (relations ! i) \<notin> bid ` set obstacles
        then [] else case pathFor (relations ! i) of None \<Rightarrow> []
          | Some points \<Rightarrow> if length points < 2 then []
              else List.map_filter (flow_problem ctx kind clearance i (relations ! i) points) obstacles) = [] \<longleftrightarrow>
        ?ok (relations ! i)"
      using flow_problem_None [of ctx kind clearance i "relations ! i"]
      by (cases "pathFor (relations ! i)") (simp_all add: map_filter_Nil_iff not_less imp_conjL)
  qed
  also have "\<dots> \<longleftrightarrow> (\<forall>r\<in>set relations. ?ok r)" by (simp add: all_set_conv_all_nth)
  also have "\<dots> \<longleftrightarrow> (\<forall>r\<in>set relations. \<forall>ps. pathFor r = Some ps \<and> 2 \<le> length ps \<and>
        rel_from r \<in> bid ` set obstacles \<and> rel_to r \<in> bid ` set obstacles \<longrightarrow>
      (\<forall>b\<in>set obstacles. bid b \<noteq> rel_from r \<and> bid b \<noteq> rel_to r \<longrightarrow>
         (\<forall>p\<in>trace ps. \<not> pointInBox p (expand_rect b clearance))))"
    using flow_hit_None [OF paths] boxes cl by meson
  finally show ?thesis .
qed

section \<open>Proper crossings\<close>

text \<open>A point strictly inside two segments that are not parallel.\<close>

definition crosses_at :: "point \<Rightarrow> point \<Rightarrow> point \<Rightarrow> point \<Rightarrow> point \<Rightarrow> bool" where
  "crosses_at p a b c d \<longleftrightarrow>
     (\<exists>t s. 0 < t \<and> t < 1 \<and> 0 < s \<and> s < 1 \<and>
        p = (fst a + t * (fst b - fst a), snd a + t * (snd b - snd a)) \<and>
        p = (fst c + s * (fst d - fst c), snd c + s * (snd d - snd c))) \<and>
     (fst b - fst a) * (snd d - snd c) \<noteq> (snd b - snd a) * (fst d - fst c)"

lemma grid_cross_small:
  assumes "grid_point a" "grid_point b" "grid_point c"
  shows "1 / 10000 < crossProduct a b c \<longleftrightarrow> 0 < crossProduct a b c"
    "crossProduct a b c < - (1 / 10000) \<longleftrightarrow> crossProduct a b c < 0"
proof -
  have "4096 * crossProduct a b c \<in> \<int>"
    using assms unfolding crossProduct_def right_diff_distrib grid_point_def
    by (intro Ints_diff grid_prod_ints on_grid_diff) auto
  note z = grid_small_zero [OF this]
  show "1 / 10000 < crossProduct a b c \<longleftrightarrow> 0 < crossProduct a b c"
    "crossProduct a b c < - (1 / 10000) \<longleftrightarrow> crossProduct a b c < 0"
    using z by linarith+
qed

lemma grid_det_small:
  assumes "grid_point a" "grid_point b" "grid_point c" "grid_point d"
  defines "D \<equiv> (fst a - fst b) * (snd c - snd d) - (snd a - snd b) * (fst c - fst d)"
  shows "\<bar>D\<bar> < 1 / 10000 \<longleftrightarrow> D = 0"
proof -
  have "4096 * D \<in> \<int>"
    using assms(1-4) unfolding D_def right_diff_distrib [of 4096] grid_point_def
    by (intro Ints_diff grid_prod_ints on_grid_diff) auto
  then show ?thesis using grid_small_zero [of D] by fastforce
qed

lemma cross_difference:
  "crossProduct c d a - crossProduct c d b =
     (fst a - fst b) * (snd c - snd d) - (snd a - snd b) * (fst c - fst d)"
  "crossProduct a b d - crossProduct a b c =
     (fst a - fst b) * (snd c - snd d) - (snd a - snd b) * (fst c - fst d)"
  by (simp_all add: crossProduct_def algebra_simps)

lemma properSegmentIntersection_grid:
  assumes g: "grid_point a" "grid_point b" "grid_point c" "grid_point d"
  shows "properSegmentIntersection a b c d = Some p \<longleftrightarrow> crosses_at p a b c d"
proof -
  define C1 where "C1 = crossProduct a b c"
  define C2 where "C2 = crossProduct a b d"
  define C3 where "C3 = crossProduct c d a"
  define C4 where "C4 = crossProduct c d b"
  define D where "D = (fst a - fst b) * (snd c - snd d) - (snd a - snd b) * (fst c - fst d)"
  have D3: "C3 - C4 = D" and D1: "C2 - C1 = D"
    unfolding C1_def C2_def C3_def C4_def D_def by (rule cross_difference)+
  note small = grid_cross_small [OF g(1,2,3), folded C1_def] grid_cross_small [OF g(1,2,4), folded C2_def]
    grid_cross_small [OF g(3,4,1), folded C3_def] grid_cross_small [OF g(3,4,2), folded C4_def]
    grid_det_small [OF g, folded D_def]
  let ?q = "((fst a * snd b - snd a * fst b) * (fst c - fst d) - (fst a - fst b) * (fst c * snd d - snd c * fst d),
             (fst a * snd b - snd a * fst b) * (snd c - snd d) - (snd a - snd b) * (fst c * snd d - snd c * fst d))"
  have psi: "properSegmentIntersection a b c d =
      (if (0 < C1 \<and> C2 < 0 \<or> C1 < 0 \<and> 0 < C2) \<and> (0 < C3 \<and> C4 < 0 \<or> C3 < 0 \<and> 0 < C4) \<and> D \<noteq> 0
       then Some (fst ?q / D, snd ?q / D) else None)"
    unfolding properSegmentIntersection_def Let_def C1_def [symmetric] C2_def [symmetric] C3_def [symmetric]
      C4_def [symmetric] D_def [symmetric] small
    by auto
  have q: "fst ?q = D * fst a + C3 * (fst b - fst a)" "snd ?q = D * snd a + C3 * (snd b - snd a)"
    "fst ?q = D * fst c - C1 * (fst d - fst c)" "snd ?q = D * snd c - C1 * (snd d - snd c)"
    by (simp_all add: D_def C3_def C1_def crossProduct_def algebra_simps)
  show ?thesis
  proof
    assume "properSegmentIntersection a b c d = Some p"
    then have o: "0 < C1 \<and> C2 < 0 \<or> C1 < 0 \<and> 0 < C2" "0 < C3 \<and> C4 < 0 \<or> C3 < 0 \<and> 0 < C4" "D \<noteq> 0"
      and p: "p = (fst ?q / D, snd ?q / D)"
      unfolding psi by (auto split: if_splits)
    have t: "0 < C3 / D" "C3 / D < 1" using o(2) D3 by (auto simp: field_simps)
    have s: "0 < - C1 / D" "- C1 / D < 1" using o(1) D1 by (auto simp: field_simps)
    have "p = (fst a + C3 / D * (fst b - fst a), snd a + C3 / D * (snd b - snd a))"
      using o(3) unfolding p q(1,2) by (simp add: field_simps)
    moreover have "p = (fst c + - C1 / D * (fst d - fst c), snd c + - C1 / D * (snd d - snd c))"
      using o(3) unfolding p q(3,4) by (simp add: field_simps)
    moreover have "(fst b - fst a) * (snd d - snd c) \<noteq> (snd b - snd a) * (fst d - fst c)"
      using o(3) by (simp add: D_def algebra_simps)
    ultimately show "crosses_at p a b c d" unfolding crosses_at_def using t s by blast
  next
    assume "crosses_at p a b c d"
    then obtain t s where ts: "0 < t" "t < 1" "0 < s" "s < 1"
      and pt: "p = (fst a + t * (fst b - fst a), snd a + t * (snd b - snd a))"
      and ps: "p = (fst c + s * (fst d - fst c), snd c + s * (snd d - snd c))"
      and np: "(fst b - fst a) * (snd d - snd c) \<noteq> (snd b - snd a) * (fst d - fst c)"
      unfolding crosses_at_def by blast
    have nz: "D \<noteq> 0" using np by (simp add: D_def algebra_simps)
    have "(1 - s) * C1 + s * C2 = 0"
      using cross_on_line [of a b t] cross_affine [of a b c s d] pt ps by (simp add: C1_def C2_def)
    then have C1: "C1 = - s * D" unfolding D1 [symmetric] by (simp add: algebra_simps)
    have "(1 - t) * C3 + t * C4 = 0"
      using cross_on_line [of c d s] cross_affine [of c d a t b] pt ps by (simp add: C3_def C4_def)
    then have C3: "C3 = t * D" unfolding D3 [symmetric] by (simp add: algebra_simps)
    have C2: "C2 = (1 - s) * D" using D1 C1 by (simp add: algebra_simps)
    have C4: "C4 = - ((1 - t) * D)" using D3 C3 by (simp add: algebra_simps)
    have "0 < C1 \<and> C2 < 0 \<or> C1 < 0 \<and> 0 < C2" "0 < C3 \<and> C4 < 0 \<or> C3 < 0 \<and> 0 < C4"
      using nz ts unfolding C1 C2 C3 C4 by (auto simp: zero_less_mult_iff mult_less_0_iff)
    moreover have "fst ?q / D = fst p" "snd ?q / D = snd p"
      using nz unfolding q(1,2) C3 pt by (simp_all add: field_simps)
    ultimately show "properSegmentIntersection a b c d = Some p" unfolding psi using nz by simp
  qed
qed

end
