(* ===== verification/Gate_Laws.thy ===== *)
theory Gate_Laws
  imports Route_Gates
begin

text \<open>
  What the gates of \<open>Route_Gates\<close> report, stated over the routes themselves: the crossing gate against
  \<open>crosses_at\<close>, the corridor search against every pair of segments, the label gate against the smallest
  clearance of a route, and the merged runs along a border against the overlaps they join.
\<close>

section \<open>The crossing gate is exact\<close>

lemma ordered_pairs_map_filter:
  "(v, w) \<in> set (ordered_pairs (List.map_filter f vs)) \<longleftrightarrow>
     (\<exists>a b. (a, b) \<in> set (ordered_pairs vs) \<and> f a = Some v \<and> f b = Some w)"
proof (induction vs)
  case (Cons u us)
  show ?case
  proof (cases "f u")
    case None
    then show ?thesis using Cons by (auto simp: List.map_filter_def)
  next
    case (Some u')
    then have "List.map_filter f (u # us) = u' # List.map_filter f us" by (simp add: List.map_filter_def)
    moreover have "(v, w) \<in> set (map (Pair u') (List.map_filter f us)) \<longleftrightarrow>
        v = u' \<and> (\<exists>b\<in>set us. f b = Some w)" by (auto simp: image_iff set_map_filter_iff)
    moreover have "(\<exists>a b. (a, b) \<in> set (ordered_pairs (u # us)) \<and> f a = Some v \<and> f b = Some w) \<longleftrightarrow>
        v = u' \<and> (\<exists>b\<in>set us. f b = Some w) \<or>
        (\<exists>a b. (a, b) \<in> set (ordered_pairs us) \<and> f a = Some v \<and> f b = Some w)"
      using Some by auto
    ultimately show ?thesis using Cons by simp
  qed
qed (simp add: List.map_filter_def)

lemma ordered_pairs_enumerate:
  "(e, e') \<in> set (ordered_pairs (enumerate 0 vs)) \<longleftrightarrow>
     fst e < fst e' \<and> fst e' < length vs \<and> snd e = vs ! fst e \<and> snd e' = vs ! fst e'"
proof -
  have "(\<exists>i j. i < j \<and> j < length vs \<and> enumerate 0 vs ! i = e \<and> enumerate 0 vs ! j = e') \<longleftrightarrow>
      (\<exists>i j. i < j \<and> j < length vs \<and> (i, vs ! i) = e \<and> (j, vs ! j) = e')"
    using nth_enumerate_eq [of _ vs 0] by (metis add_0 order_less_trans)
  then show ?thesis by (cases e; cases e') (auto simp: set_ordered_pairs)
qed

text \<open>Two routes of the crossing loop.\<close>

lemma ball_ordered_pairs_map_filter:
  "(\<forall>e\<in>set (ordered_pairs (List.map_filter f (enumerate 0 vs))). P e) \<longleftrightarrow>
     (\<forall>i j v w. i < j \<and> j < length vs \<and> f (i, vs ! i) = Some v \<and> f (j, vs ! j) = Some w \<longrightarrow> P (v, w))"
  (is "?l \<longleftrightarrow> ?r")
proof
  assume ?l
  then show ?r by (force simp: ordered_pairs_map_filter ordered_pairs_enumerate)
next
  assume r: ?r
  show ?l
  proof
    fix e assume e: "e \<in> set (ordered_pairs (List.map_filter f (enumerate 0 vs)))"
    obtain v w where vw: "e = (v, w)" by (cases e)
    with e obtain a b where "(a, b) \<in> set (ordered_pairs (enumerate 0 vs))" "f a = Some v" "f b = Some w"
      by (auto simp: ordered_pairs_map_filter)
    then show "P e" using r unfolding vw ordered_pairs_enumerate by (metis prod.collapse)
  qed
qed

lemma not_Some_prod: "(\<exists>a b c d. v = Some ((a, b), c, d)) \<longleftrightarrow> v \<noteq> None"
  by (cases v) auto

text \<open>A relationship the crossing gate looks at: both ends known, a route of at least one segment.\<close>

definition gate_route :: "jstring set \<Rightarrow> (relation \<Rightarrow> point list option) \<Rightarrow> relation \<Rightarrow> point list \<Rightarrow> bool" where
  "gate_route ids pathFor r ps \<longleftrightarrow> rel_from r \<in> ids \<and> rel_to r \<in> ids \<and> pathFor r = Some ps \<and> 2 \<le> length ps"

lemma crossing_hit_None:
  "crossing_hit left right = None \<longleftrightarrow>
     (\<forall>s\<in>set (cr_segments left). \<forall>t\<in>set (cr_segments right).
        properSegmentIntersection (an_start s) (an_end s) (an_start t) (an_end t) = None)"
  by (auto simp: crossing_hit_def)

lemma set_authored: "(\<lambda>s. (an_start s, an_end s)) ` set (authoredAnalysisSegments ps) = set (pairs ps)"
proof -
  have "map (\<lambda>s. (an_start s, an_end s)) (authoredAnalysisSegments ps) = map snd (enumerate 0 (pairs ps))"
    by (simp add: authoredAnalysisSegments_def comp_def case_prod_beta)
  then show ?thesis by (metis list.set_map map_snd_enumerate)
qed

lemma grid_points_pairs: "grid_points ps \<Longrightarrow> (a, b) \<in> set (pairs ps) \<Longrightarrow> grid_point a \<and> grid_point b"
  using set_pairs_subset [of a b ps] by (auto simp: grid_points_def)

lemma authored_hit_None:
  assumes "grid_points ps" "grid_points qs"
  shows "crossing_hit \<lparr>cr_relation = r, cr_index = i, cr_segments = authoredAnalysisSegments ps\<rparr>
       \<lparr>cr_relation = r', cr_index = i', cr_segments = authoredAnalysisSegments qs\<rparr> = None \<longleftrightarrow>
     (\<forall>(a, b)\<in>set (pairs ps). \<forall>(c, d)\<in>set (pairs qs). \<nexists>p. crosses_at p a b c d)"
proof -
  have "(\<forall>s\<in>set (authoredAnalysisSegments ps). \<forall>t\<in>set (authoredAnalysisSegments qs).
        properSegmentIntersection (an_start s) (an_end s) (an_start t) (an_end t) = None) \<longleftrightarrow>
      (\<forall>(a, b)\<in>set (pairs ps). \<forall>(c, d)\<in>set (pairs qs). properSegmentIntersection a b c d = None)"
    unfolding set_authored [symmetric] by simp
  also have "\<dots> \<longleftrightarrow> (\<forall>(a, b)\<in>set (pairs ps). \<forall>(c, d)\<in>set (pairs qs). \<nexists>p. crosses_at p a b c d)"
    using grid_points_pairs [OF assms(1)] grid_points_pairs [OF assms(2)] properSegmentIntersection_grid
    by (fastforce simp: not_Some_eq [symmetric] simp del: not_Some_eq not_None_eq)
  finally show ?thesis by (simp add: crossing_hit_None)
qed

lemma cleanCrossingProblems_exact:
  assumes sc: "is_showcase env profile authoritative"
    and paths: "\<And>r ps. r \<in> set relations \<Longrightarrow> pathFor r = Some ps \<Longrightarrow> grid_points ps"
  shows "cleanCrossingProblems ctx env relations ids pathFor profile authoritative False = [] \<longleftrightarrow>
    (\<forall>i j ps qs. i < j \<and> j < length relations \<and> gate_route ids pathFor (relations ! i) ps \<and>
        gate_route ids pathFor (relations ! j) qs \<and> \<not> share_endpoint (relations ! i) (relations ! j) \<longrightarrow>
      (\<forall>(a, b)\<in>set (pairs ps). \<forall>(c, d)\<in>set (pairs qs). \<nexists>p. crosses_at p a b c d))"
proof -
  let ?R = "\<lambda>i ps. \<lparr>cr_relation = relations ! i, cr_index = i, cr_segments = authoredAnalysisSegments ps\<rparr>"
  let ?f = "\<lambda>(index, relation).
          if rel_from relation \<notin> ids \<or> rel_to relation \<notin> ids then None
          else case pathFor relation of None \<Rightarrow> None
            | Some points \<Rightarrow> if length points < 2 then None
                else Some \<lparr>cr_relation = relation, cr_index = index, cr_segments = authoredAnalysisSegments points\<rparr>"
  have f: "?f (i, relations ! i) = Some R \<longleftrightarrow> (\<exists>ps. gate_route ids pathFor (relations ! i) ps \<and> R = ?R i ps)" for i R
    by (auto simp: gate_route_def split: option.splits)
  have "cleanCrossingProblems ctx env relations ids pathFor profile authoritative False = [] \<longleftrightarrow>
      (\<forall>e\<in>set (ordered_pairs (List.map_filter ?f (enumerate 0 relations))).
         \<not> share_endpoint (cr_relation (fst e)) (cr_relation (snd e)) \<longrightarrow> crossing_hit (fst e) (snd e) = None)"
    unfolding cleanCrossingProblems_def crossing_routes_def if_False
    by (subst if_not_P, simp add: sc, subst map_filter_Nil_iff, rule ball_cong [OF refl])
      (simp add: case_prod_beta not_Some_prod split: option.splits)
  also have "\<dots> \<longleftrightarrow> (\<forall>i j ps qs. i < j \<and> j < length relations \<and> gate_route ids pathFor (relations ! i) ps \<and>
        gate_route ids pathFor (relations ! j) qs \<and> \<not> share_endpoint (relations ! i) (relations ! j) \<longrightarrow>
        crossing_hit (?R i ps) (?R j qs) = None)"
    unfolding ball_ordered_pairs_map_filter f
    by (intro iffI allI impI, drule_tac x = i in spec, drule_tac x = j in spec,
        drule_tac x = "?R i ps" in spec, drule_tac x = "?R j qs" in spec) auto
  also have "\<dots> \<longleftrightarrow> (\<forall>i j ps qs. i < j \<and> j < length relations \<and> gate_route ids pathFor (relations ! i) ps \<and>
        gate_route ids pathFor (relations ! j) qs \<and> \<not> share_endpoint (relations ! i) (relations ! j) \<longrightarrow>
      (\<forall>(a, b)\<in>set (pairs ps). \<forall>(c, d)\<in>set (pairs qs). \<nexists>p. crosses_at p a b c d))"
  proof (intro all_cong1 imp_cong refl)
    fix i j ps qs
    assume "i < j \<and> j < length relations \<and> gate_route ids pathFor (relations ! i) ps \<and>
        gate_route ids pathFor (relations ! j) qs \<and> \<not> share_endpoint (relations ! i) (relations ! j)"
    then have "grid_points ps" "grid_points qs"
      using paths [of "relations ! i"] paths [of "relations ! j"] by (auto simp: gate_route_def)
    then show "crossing_hit (?R i ps) (?R j qs) = None \<longleftrightarrow>
      (\<forall>(a, b)\<in>set (pairs ps). \<forall>(c, d)\<in>set (pairs qs). \<nexists>p. crosses_at p a b c d)"
      by (rule authored_hit_None)
  qed
  finally show ?thesis .
qed

section \<open>The longest shared corridor\<close>

lemma corridor_loop:
  assumes "foldl (corridor_step left right px) acc es = res"
  shows "(res = None \<longleftrightarrow> acc = None \<and> (\<forall>e\<in>set es. \<forall>ov.
            collinearAxisOverlap (fst (snd (fst e))) (snd (snd (fst e))) (fst (snd (snd e))) (snd (snd (snd e))) = Some ov
            \<longrightarrow> ov_length ov + 1 / 10000 < px)) \<and>
     (\<forall>h. res = Some h \<longrightarrow>
        (\<forall>h'. acc = Some h' \<longrightarrow> ch_overlapLength h' \<le> ch_overlapLength h) \<and>
        (\<forall>e\<in>set es. \<forall>ov.
            collinearAxisOverlap (fst (snd (fst e))) (snd (snd (fst e))) (fst (snd (snd e))) (snd (snd (snd e))) = Some ov
            \<longrightarrow> px \<le> ov_length ov + 1 / 10000 \<longrightarrow> ov_length ov \<le> ch_overlapLength h + 1 / 10000) \<and>
        (acc = Some h \<or> (\<exists>e\<in>set es. \<exists>ov.
            collinearAxisOverlap (fst (snd (fst e))) (snd (snd (fst e))) (fst (snd (snd e))) (snd (snd (snd e))) = Some ov
            \<and> px \<le> ov_length ov + 1 / 10000 \<and>
            h = \<lparr>ch_left = left, ch_right = right, ch_leftSegment = fst (fst e), ch_rightSegment = fst (snd e),
                 ch_overlapLength = ov_length ov, ch_overlapStart = ov_start ov, ch_overlapEnd = ov_end ov\<rparr>)))"
  using assms
proof (induction es arbitrary: acc)
  case Nil
  then show ?case by auto
next
  case (Cons e es)
  define acc' where "acc' = corridor_step left right px acc e"
  have "foldl (corridor_step left right px) acc' es = res" using Cons.prems by (simp add: acc'_def)
  note IH = Cons.IH [OF this]
  show ?case
    using IH unfolding acc'_def corridor_step_def Let_def
    by (auto split: option.splits if_splits)
qed

section \<open>The nearest segment of a route\<close>

lemma segmentRectClearance_defined: "segmentRectClearance seg r = None \<longleftrightarrow> \<not> valid_rect r"
  by (auto simp: segmentRectClearance_def valid_rect_def Let_def)

lemma fold_min_nonneg: "(0::real) \<le> b \<Longrightarrow> (\<And>v. v \<in> set vs \<Longrightarrow> 0 \<le> v) \<Longrightarrow> 0 \<le> fold min vs b"
  by (induction vs arbitrary: b) auto

lemma pointSegmentDistance_nonneg: "0 \<le> pointSegmentDistance p a b"
  by (simp add: pointSegmentDistance_def Let_def)

lemma pointRectDistance_nonneg: "0 \<le> pointRectDistance p r"
  by (simp add: pointRectDistance_def Let_def)

lemma segmentRectClearance_nonneg: "segmentRectClearance seg r = Some c \<Longrightarrow> 0 \<le> c"
proof -
  assume c: "segmentRectClearance seg r = Some c"
  have "0 \<le> fold min (map (\<lambda>corner. pointSegmentDistance corner a b) cs)
      (min (pointRectDistance a r) (pointRectDistance b r))" for a b cs
    by (rule fold_min_nonneg) (auto simp: pointSegmentDistance_nonneg pointRectDistance_nonneg)
  then show ?thesis using c unfolding segmentRectClearance_def Let_def
    by (metis option.distinct(1) option.inject order_refl)
qed

lemma nearest_loop:
  assumes v: "valid_rect r"
  defines "cl \<equiv> \<lambda>e. the (segmentRectClearance (snd e) r)"
  defines "near_of \<equiv> \<lambda>e. \<lparr>ne_clearance = cl e, ne_intersectionLength = segmentRectIntersectionLength (snd e) r,
      ne_segmentIndex = fst e, ne_start = fst (snd e), ne_end = snd (snd e)\<rparr>"
  shows "foldl (nearest_step r) (Some (near_of e0)) es =
     Some (near_of (foldl (\<lambda>b e. if cl e < cl b then e else b) e0 es))"
proof (induction es arbitrary: e0)
  case (Cons e es)
  have "nearest_step r (Some (near_of e0)) e = Some (near_of (if cl e < cl e0 then e else e0))"
    using v segmentRectClearance_defined [of "snd e" r]
    by (auto simp: nearest_step_def near_of_def cl_def split: option.splits)
  then show ?case using Cons by simp
qed simp

lemma foldl_argmin:
  fixes cl :: "'a \<Rightarrow> real"
  defines "sel \<equiv> foldl (\<lambda>b e. if cl e < cl b then e else b)"
  shows "sel e0 es \<in> set (e0 # es) \<and> (\<forall>e\<in>set (e0 # es). cl (sel e0 es) \<le> cl e)"
proof (induction es arbitrary: e0)
  case (Cons e es)
  show ?case using Cons [of "if cl e < cl e0 then e else e0"] unfolding sel_def by (fastforce split: if_splits)
qed (simp add: sel_def)

lemma nearest_segment_None: "valid_rect r \<Longrightarrow> 2 \<le> length ps \<Longrightarrow> nearest_segment r ps \<noteq> None"
proof -
  assume v: "valid_rect r" "2 \<le> length ps"
  then obtain e es where e: "enumerate 0 (pairs ps) = e # es"
    using length_pairs [of ps] by (cases "pairs ps") auto
  have "nearest_step r None e \<noteq> None"
    using v segmentRectClearance_defined [of "snd e" r] by (auto simp: nearest_step_def split: option.splits)
  moreover have "acc \<noteq> None \<Longrightarrow> foldl (nearest_step r) acc es \<noteq> None" for acc
    by (induction es arbitrary: acc) (auto simp: nearest_step_def split: option.splits)
  ultimately show ?thesis unfolding nearest_segment_def e by simp
qed

text \<open>The reported clearance is the smallest over the segments, and the reported segment attains it.\<close>

lemma nearest_segment_minimum:
  assumes v: "valid_rect r" and n: "nearest_segment r ps = Some near"
  shows "ne_segmentIndex near < length ps - 1"
    "(ne_start near, ne_end near) = pairs ps ! ne_segmentIndex near"
    "segmentRectClearance (ne_start near, ne_end near) r = Some (ne_clearance near)"
    "ne_intersectionLength near = segmentRectIntersectionLength (ne_start near, ne_end near) r"
    "\<And>seg c. seg \<in> set (pairs ps) \<Longrightarrow> segmentRectClearance seg r = Some c \<Longrightarrow> ne_clearance near \<le> c"
proof -
  define cl where "cl = (\<lambda>e :: nat \<times> segment. the (segmentRectClearance (snd e) r))"
  define near_of where "near_of = (\<lambda>e :: nat \<times> segment. \<lparr>ne_clearance = cl e,
      ne_intersectionLength = segmentRectIntersectionLength (snd e) r,
      ne_segmentIndex = fst e, ne_start = fst (snd e), ne_end = snd (snd e)\<rparr>)"
  obtain e es where e: "enumerate 0 (pairs ps) = e # es"
    using n by (cases "enumerate 0 (pairs ps)") (auto simp: nearest_segment_def)
  have first: "nearest_step r None e = Some (near_of e)"
    using v segmentRectClearance_defined [of "snd e" r]
    by (auto simp: nearest_step_def near_of_def cl_def split: option.splits)
  define m where "m = foldl (\<lambda>b e. if cl e < cl b then e else b) e es"
  have near: "near = near_of m"
    using n nearest_loop [OF v, of e es] unfolding nearest_segment_def e
    by (simp add: first m_def) (simp add: near_of_def cl_def)
  have m: "m \<in> set (enumerate 0 (pairs ps))" "\<forall>e\<in>set (enumerate 0 (pairs ps)). cl m \<le> cl e"
    using foldl_argmin [of cl e es] unfolding e m_def by auto
  have def: "segmentRectClearance (snd e) r = Some (cl e)" for e
    using v segmentRectClearance_defined [of "snd e" r] by (auto simp: cl_def)
  show "ne_segmentIndex near < length ps - 1" "(ne_start near, ne_end near) = pairs ps ! ne_segmentIndex near"
    using m(1) by (auto simp: near near_of_def in_set_enumerate_eq)
  show "segmentRectClearance (ne_start near, ne_end near) r = Some (ne_clearance near)"
    "ne_intersectionLength near = segmentRectIntersectionLength (ne_start near, ne_end near) r"
    using def [of m] by (simp_all add: near near_of_def)
  fix seg c assume "seg \<in> set (pairs ps)" "segmentRectClearance seg r = Some c"
  then show "ne_clearance near \<le> c"
    using m(2) unfolding ball_enumerate by (auto simp: near near_of_def cl_def in_set_conv_nth)
qed

lemma label_route_hit_None:
  assumes "valid_rect (le_rect label)" "2 \<le> length (lr_points route)"
  shows "label_route_hit threshold i label route = None \<longleftrightarrow>
     i = lr_index route \<or> sameRelationship (le_relation label) (lr_relation route) \<or>
     (\<forall>seg\<in>set (pairs (lr_points route)). \<forall>c. segmentRectClearance seg (le_rect label) = Some c \<longrightarrow>
        threshold \<le> c + 1 / 10000)"
proof -
  obtain near where n: "nearest_segment (le_rect label) (lr_points route) = Some near"
    using nearest_segment_None [OF assms] by blast
  note m = nearest_segment_minimum [OF assms(1) n]
  have "(ne_start near, ne_end near) \<in> set (pairs (lr_points route))" using m(1,2) by simp
  then have "threshold \<le> ne_clearance near + 1 / 10000 \<longleftrightarrow>
      (\<forall>seg\<in>set (pairs (lr_points route)). \<forall>c. segmentRectClearance seg (le_rect label) = Some c \<longrightarrow>
        threshold \<le> c + 1 / 10000)"
    using m(3,5) by (meson add_right_mono order_trans)
  then show ?thesis using n by (simp add: label_route_hit_def)
qed

section \<open>Runs along a border\<close>

text \<open>Merged intervals are separated by gaps, and they cover exactly what was given.\<close>

fun gapped :: "interval list \<Rightarrow> bool" where
  "gapped (iv # iv' # ivs) \<longleftrightarrow> in_high iv + 1 / 10000 < in_low iv' \<and> gapped (iv' # ivs)"
| "gapped ivs \<longleftrightarrow> True"

lemma gapped_snoc: "gapped (ivs @ [iv]) \<longleftrightarrow>
    gapped ivs \<and> (ivs \<noteq> [] \<longrightarrow> in_high (last ivs) + 1 / 10000 < in_low iv)"
  by (induction ivs rule: gapped.induct) auto

definition covers :: "interval list \<Rightarrow> real \<Rightarrow> bool" where
  "covers ivs v \<longleftrightarrow> (\<exists>iv\<in>set ivs. in_low iv \<le> v \<and> v \<le> in_high iv)"

definition merges :: "interval list \<Rightarrow> interval list \<Rightarrow> bool" where
  "merges ivs res \<longleftrightarrow> gapped res \<and> (\<forall>iv\<in>set res. in_low iv < in_high iv) \<and>
     (\<forall>v. covers ivs v \<longrightarrow> covers res v) \<and>
     in_low ` set res \<subseteq> in_low ` set ivs \<and> in_high ` set res \<subseteq> in_high ` set ivs"

lemma merges_trans:
  "merges ivs' res \<Longrightarrow> (\<And>v. covers ivs v \<Longrightarrow> covers ivs' v) \<Longrightarrow> in_low ` set ivs' \<subseteq> in_low ` set ivs \<Longrightarrow>
     in_high ` set ivs' \<subseteq> in_high ` set ivs \<Longrightarrow> merges ivs res"
  unfolding merges_def by (elim conjE, intro conjI) (simp_all add: subset_trans)

lemma covers_append: "covers (ivs @ ivs') v \<longleftrightarrow> covers ivs v \<or> covers ivs' v"
  by (auto simp: covers_def)

lemma merge_loop:
  assumes "sorted (map in_low ivs)" "\<forall>iv\<in>set ivs. in_low iv < in_high iv"
    "gapped acc" "\<forall>iv\<in>set acc. in_low iv < in_high iv"
    "acc \<noteq> [] \<Longrightarrow> \<forall>iv\<in>set ivs. in_low (last acc) \<le> in_low iv"
  shows "merges (acc @ ivs) (foldl merge_step acc ivs)"
  using assms
proof (induction ivs arbitrary: acc)
  case Nil
  then show ?case by (simp add: merges_def)
next
  case (Cons iv ivs)
  show ?case
  proof (cases "acc \<noteq> [] \<and> in_low iv \<le> in_high (last acc) + 1 / 10000")
    case True
    obtain pre l where a: "acc = pre @ [l]" using True by (cases acc rule: rev_cases) auto
    let ?l = "l\<lparr>in_high := max (in_high l) (in_high iv)\<rparr>"
    have step: "merge_step acc iv = pre @ [?l]" using True by (simp add: merge_step_def a)
    have low: "in_low l \<le> in_low iv" "in_low iv \<le> in_high l + 1 / 10000"
      using Cons.prems(5) True by (auto simp: a)
    have l: "in_low l < in_high l" "in_low iv < in_high iv" using Cons.prems(2,4) by (auto simp: a)
    have "merges ((pre @ [?l]) @ ivs) (foldl merge_step (pre @ [?l]) ivs)"
    proof (rule Cons.IH)
      show "gapped (pre @ [?l])" using Cons.prems(3) by (simp add: a gapped_snoc)
      show "\<forall>j\<in>set (pre @ [?l]). in_low j < in_high j" using Cons.prems(4) by (auto simp: a)
      show "\<forall>j\<in>set ivs. in_low (last (pre @ [?l])) \<le> in_low j" using Cons.prems(5) by (simp add: a)
    qed (use Cons.prems(1,2) in auto)
    then show ?thesis unfolding foldl_Cons step
    proof (rule merges_trans)
      fix v assume v: "covers (acc @ iv # ivs) v"
      have "covers [l, iv] v \<Longrightarrow> covers [?l] v" using low by (auto simp: covers_def)
      moreover have "covers pre v \<or> covers [l, iv] v \<or> covers ivs v" using v by (auto simp: a covers_def)
      ultimately show "covers ((pre @ [?l]) @ ivs) v" unfolding covers_append by blast
    qed (auto simp: a max_def)
  next
    case False
    then have step: "merge_step acc iv = acc @ [iv]" by (auto simp: merge_step_def)
    have "merges ((acc @ [iv]) @ ivs) (foldl merge_step (acc @ [iv]) ivs)"
      using Cons.prems False by (intro Cons.IH) (auto simp: gapped_snoc)
    then show ?thesis by (simp add: step)
  qed
qed

text \<open>The merged runs of a border, as overlaps: none shorter than the overlaps they join, all within the border.\<close>

lemma gapped_disjoint:
  "gapped ivs \<Longrightarrow> \<forall>iv\<in>set ivs. in_low iv < in_high iv \<Longrightarrow> i < j \<Longrightarrow> j < length ivs \<Longrightarrow>
     in_high (ivs ! i) < in_low (ivs ! j)"
proof (induction ivs arbitrary: i j rule: gapped.induct)
  case (1 iv iv' ivs)
  have IH: "a < b \<Longrightarrow> b < length (iv' # ivs) \<Longrightarrow> in_high ((iv' # ivs) ! a) < in_low ((iv' # ivs) ! b)" for a b
    using 1 by simp
  obtain k where k: "j = Suc k" using 1(4) by (cases j) auto
  show ?case
  proof (cases i)
    case 0
    have "in_low iv' \<le> in_low ((iv' # ivs) ! k)"
    proof (cases k)
      case (Suc k')
      then have "in_high iv' < in_low ((iv' # ivs) ! k)" using IH [of 0 k] 1(5) k by simp
      moreover have "in_low iv' < in_high iv'" using 1(3) by simp
      ultimately show ?thesis by simp
    qed simp
    then show ?thesis using 0 k 1(2) by simp
  next
    case (Suc i')
    then show ?thesis using IH [of i' k] 1(4,5) k by simp
  qed
qed simp_all

lemma gapped_total:
  "gapped ivs \<Longrightarrow> \<forall>iv\<in>set ivs. in_low iv < in_high iv \<and> lo \<le> in_low iv \<and> in_high iv \<le> hi \<Longrightarrow> lo \<le> hi \<Longrightarrow>
     sum_list (map (\<lambda>iv. in_high iv - in_low iv) ivs) \<le> hi - lo"
proof (induction ivs arbitrary: lo rule: gapped.induct)
  case (1 iv iv' ivs)
  have "in_low iv' \<le> in_low k" if k: "k \<in> set (iv' # ivs)" for k
  proof -
    obtain n where n: "n < length (iv' # ivs)" "k = (iv' # ivs) ! n" using k by (metis in_set_conv_nth)
    have "gapped (iv' # ivs)" "\<forall>iv\<in>set (iv' # ivs). in_low iv < in_high iv" using 1(2,3) by simp_all
    then have "n = 0 \<or> in_high iv' < in_low k" using gapped_disjoint [of "iv' # ivs" 0 n] n by (cases n) auto
    moreover have "in_low iv' < in_high iv'" using 1(3) by simp
    ultimately show ?thesis using n by auto
  qed
  then have "sum_list (map (\<lambda>iv. in_high iv - in_low iv) (iv' # ivs)) \<le> hi - in_low iv'"
    using 1(2,3) by (intro 1(1)) force+
  then show ?case using 1(2,3) by auto
qed auto

text \<open>A border that runs along one axis.\<close>

definition axis_border :: "point \<Rightarrow> point \<Rightarrow> bool" where
  "axis_border s e \<longleftrightarrow> grid_point s \<and> grid_point e \<and> s \<noteq> e \<and> (fst s = fst e \<or> snd s = snd e)"

definition border_axis :: "point \<Rightarrow> point \<Rightarrow> nat" where
  "border_axis s e = (if \<bar>snd s - snd e\<bar> \<le> 1 / 10000 then 0 else 1)"

lemma axis_border_cases:
  assumes "axis_border s e"
  shows "border_axis s e = 0 \<and> snd s = snd e \<and> 1 / 10000 < \<bar>fst s - fst e\<bar> \<or>
    border_axis s e = 1 \<and> fst s = fst e \<and> 1 / 10000 < \<bar>snd s - snd e\<bar>"
proof -
  have g: "on_grid (fst s - fst e)" "on_grid (snd s - snd e)"
    using assms by (auto simp: axis_border_def grid_point_def intro: grid_intros)
  have "fst s \<noteq> fst e \<Longrightarrow> 1 / 10000 < \<bar>fst s - fst e\<bar>" "snd s \<noteq> snd e \<Longrightarrow> 1 / 10000 < \<bar>snd s - snd e\<bar>"
    using grid_small_zero1 [OF g(1)] grid_small_zero1 [OF g(2)] by force+
  then show ?thesis using assms by (auto simp: axis_border_def border_axis_def prod_eq_iff)
qed

lemma axis_overlap_0:
  assumes "collinearAxisOverlap p q s e = Some ov" "(\<bar>fst s - fst e\<bar> \<le> 1 / 10000) = False"
  shows "fst (ov_start ov) = max (min (fst p) (fst q)) (min (fst s) (fst e)) \<and>
    fst (ov_end ov) = min (max (fst p) (fst q)) (max (fst s) (fst e)) \<and>
    fst (ov_start ov) < fst (ov_end ov)"
proof -
  define lo where "lo = max (min (fst p) (fst q)) (min (fst s) (fst e))"
  define hi where "hi = min (max (fst p) (fst q)) (max (fst s) (fst e))"
  define H where "H \<longleftrightarrow> \<bar>snd p - snd q\<bar> \<le> 1 / 10000 \<and> \<bar>snd s - snd e\<bar> \<le> 1 / 10000 \<and> \<bar>snd p - snd s\<bar> \<le> 1 / 10000"
  have "(if \<not> H then None else if hi - lo \<le> 1 / 10000 then None
      else Some \<lparr>ov_length = hi - lo, ov_start = (lo, snd p), ov_end = (hi, snd p)\<rparr>) = Some ov"
    using assms(1) unfolding collinearAxisOverlap_def Let_def assms(2) H_def [symmetric]
    by (cases H; simp only: simp_thms if_True if_False coord_def lo_def hi_def)
  then have "H" "\<not> hi - lo \<le> 1 / 10000" "ov = \<lparr>ov_length = hi - lo, ov_start = (lo, snd p), ov_end = (hi, snd p)\<rparr>"
    by (auto split: if_splits)
  then show ?thesis unfolding lo_def [symmetric] hi_def [symmetric] by simp
qed

lemma axis_overlap_1:
  assumes "collinearAxisOverlap p q s e = Some ov" "(\<bar>snd s - snd e\<bar> \<le> 1 / 10000) = False"
  shows "snd (ov_start ov) = max (min (snd p) (snd q)) (min (snd s) (snd e)) \<and>
    snd (ov_end ov) = min (max (snd p) (snd q)) (max (snd s) (snd e)) \<and>
    snd (ov_start ov) < snd (ov_end ov)"
proof -
  define lo where "lo = max (min (snd p) (snd q)) (min (snd s) (snd e))"
  define hi where "hi = min (max (snd p) (snd q)) (max (snd s) (snd e))"
  define V where "V \<longleftrightarrow> \<bar>fst p - fst q\<bar> \<le> 1 / 10000 \<and> \<bar>fst s - fst e\<bar> \<le> 1 / 10000 \<and> \<bar>fst p - fst s\<bar> \<le> 1 / 10000"
  have "(if \<not> V then None else if hi - lo \<le> 1 / 10000 then None
      else Some \<lparr>ov_length = hi - lo, ov_start = (fst p, lo), ov_end = (fst p, hi)\<rparr>) = Some ov"
    using assms(1) unfolding collinearAxisOverlap_def Let_def assms(2) V_def [symmetric]
    by (cases V; simp only: simp_thms if_True if_False coord_def lo_def hi_def one_neq_zero)
  then have "V" "\<not> hi - lo \<le> 1 / 10000" "ov = \<lparr>ov_length = hi - lo, ov_start = (fst p, lo), ov_end = (fst p, hi)\<rparr>"
    by (auto split: if_splits)
  then show ?thesis unfolding lo_def [symmetric] hi_def [symmetric] by simp
qed

lemma border_overlap_interval:
  assumes b: "axis_border s e" and o: "(ov, i) \<in> set (border_overlaps segs s e)"
  defines "a \<equiv> border_axis s e"
  shows "min (coord a s) (coord a e) \<le> in_low (overlap_interval a ov)"
    "in_low (overlap_interval a ov) < in_high (overlap_interval a ov)"
    "in_high (overlap_interval a ov) \<le> max (coord a s) (coord a e)"
proof -
  obtain p q where c: "collinearAxisOverlap p q s e = Some ov" and l: "1 / 10000 < ov_length ov"
    using o unfolding border_overlaps_def set_map_filter_iff
    by (auto split: option.splits if_splits)
  define lo where "lo = max (min (coord a p) (coord a q)) (min (coord a s) (coord a e))"
  define hi where "hi = min (max (coord a p) (coord a q)) (max (coord a s) (coord a e))"
  have "coord a (ov_start ov) = lo \<and> coord a (ov_end ov) = hi \<and> lo < hi"
    using axis_border_cases [OF b]
  proof (elim disjE conjE)
    assume "border_axis s e = 0" "1 / 10000 < \<bar>fst s - fst e\<bar>"
    then have a: "a = 0" "(\<bar>fst s - fst e\<bar> \<le> 1 / 10000) = False" by (simp_all add: a_def)
    have z: "coord 0 = (fst :: point \<Rightarrow> real)" by (rule ext) (simp add: coord_def)
    note o = axis_overlap_0 [OF c a(2)]
    show ?thesis unfolding lo_def hi_def a z using o by (elim conjE) (intro conjI; linarith)
  next
    assume "border_axis s e = 1" "1 / 10000 < \<bar>snd s - snd e\<bar>"
    then have a: "a = 1" "(\<bar>snd s - snd e\<bar> \<le> 1 / 10000) = False" by (simp_all add: a_def)
    have z: "coord 1 = (snd :: point \<Rightarrow> real)" by (rule ext) (simp add: coord_def)
    note o = axis_overlap_1 [OF c a(2)]
    show ?thesis unfolding lo_def hi_def a z using o by (elim conjE) (intro conjI; linarith)
  qed
  then show "min (coord a s) (coord a e) \<le> in_low (overlap_interval a ov)"
    "in_low (overlap_interval a ov) < in_high (overlap_interval a ov)"
    "in_high (overlap_interval a ov) \<le> max (coord a s) (coord a e)"
    by (auto simp: overlap_interval_def lo_def hi_def)
qed

lemma border_total_length:
  "axis_border s e \<Longrightarrow> max (coord (border_axis s e) s) (coord (border_axis s e) e) -
     min (coord (border_axis s e) s) (coord (border_axis s e) e) = manhattan s e"
  using axis_border_cases [of s e] by (auto simp: coord_def manhattan_def)

lemma merged_intervals:
  assumes b: "axis_border s e" and ovs: "set ovs \<subseteq> fst ` set (border_overlaps segs s e)"
  defines "a \<equiv> border_axis s e"
  shows "merges (sort_key (\<lambda>iv. (in_low iv, in_high iv)) (map (overlap_interval a) ovs))
      (map fst (mergeBorderOverlaps ovs s e))"
proof -
  let ?ivs = "sort_key (\<lambda>iv. (in_low iv, in_high iv)) (map (overlap_interval a) ovs)"
  have "merges ([] @ ?ivs) (foldl merge_step [] ?ivs)"
  proof (rule merge_loop)
    have "sorted (map (\<lambda>iv. (in_low iv, in_high iv)) ?ivs)" by simp
    then show "sorted (map in_low ?ivs)"
      unfolding sorted_map by (rule sorted_wrt_mono_rel [rotated]) auto
    show "\<forall>iv\<in>set ?ivs. in_low iv < in_high iv"
      using border_overlap_interval(2) [OF b] ovs by (fastforce simp: a_def)
  qed auto
  then show ?thesis
    by (simp add: mergeBorderOverlaps_def a_def border_axis_def Let_def comp_def)
qed

lemma sum_list_positive: "vs \<noteq> [] \<Longrightarrow> (\<And>v. v \<in> set vs \<Longrightarrow> f v > 0) \<Longrightarrow> (0::real) < sum_list (map f vs)"
proof (induction vs)
  case (Cons v vs)
  then show ?case by (cases "vs = []") (auto intro: add_pos_pos)
qed simp

lemma border_hit_bounds:
  assumes b: "axis_border s e" and h: "border_hit_for r segs k f (sd, s, e) = Some hit"
  shows "0 < bh_overlapLength hit" "bh_overlapLength hit \<le> manhattan s e"
    "bh_segmentIndex hit < length segs"
proof -
  let ?o = "border_overlaps segs s e"
  let ?m = "mergeBorderOverlaps (map fst ?o) s e"
  define a where "a = border_axis s e"
  let ?ivs = "sort_key (\<lambda>iv. (in_low iv, in_high iv)) (map (overlap_interval a) (map fst ?o))"
  have ne: "?o \<noteq> []" and len: "bh_overlapLength hit = sum_list (map (\<lambda>m. ov_length (snd m)) ?m)"
    and si: "bh_segmentIndex hit = Min (set (map snd ?o))"
    using h by (auto simp: border_hit_for_def Let_def split: if_splits)
  have mg: "merges ?ivs (map fst ?m)" using merged_intervals [OF b, of "map fst ?o" segs] by (simp add: a_def)
  have sum: "sum_list (map (\<lambda>m. ov_length (snd m)) ?m) = sum_list (map (\<lambda>iv. in_high iv - in_low iv) (map fst ?m))"
    by (simp add: mergeBorderOverlaps_def Let_def comp_def)
  have bnd: "\<forall>iv\<in>set (map fst ?m). in_low iv < in_high iv \<and> min (coord a s) (coord a e) \<le> in_low iv \<and>
      in_high iv \<le> max (coord a s) (coord a e)"
  proof
    fix iv assume iv: "iv \<in> set (map fst ?m)"
    then have "in_low iv < in_high iv" "in_low iv \<in> in_low ` set ?ivs" "in_high iv \<in> in_high ` set ?ivs"
      using mg unfolding merges_def by blast+
    then show "in_low iv < in_high iv \<and> min (coord a s) (coord a e) \<le> in_low iv \<and>
        in_high iv \<le> max (coord a s) (coord a e)"
      using border_overlap_interval [OF b] unfolding a_def by fastforce
  qed
  have "sum_list (map (\<lambda>iv. in_high iv - in_low iv) (map fst ?m)) \<le> max (coord a s) (coord a e) - min (coord a s) (coord a e)"
    using mg bnd by (intro gapped_total) (auto simp: merges_def)
  then show "bh_overlapLength hit \<le> manhattan s e"
    using border_total_length [OF b] unfolding len sum a_def by simp
  have "?m \<noteq> []"
  proof
    assume "?m = []"
    moreover obtain iv where "iv \<in> set ?ivs"
    proof -
      have "set ?ivs \<noteq> {}" using ne by simp
      then show thesis using that by (meson all_not_in_conv)
    qed
    moreover have "in_low iv < in_high iv" if "iv \<in> set ?ivs" for iv
      using that border_overlap_interval(2) [OF b] unfolding a_def by fastforce
    ultimately have "covers ?ivs (in_low iv)" unfolding covers_def by fastforce
    then have "covers (map fst ?m) (in_low iv)" using mg unfolding merges_def by blast
    then show False using \<open>?m = []\<close> by (simp add: covers_def)
  qed
  then have "0 < sum_list (map (\<lambda>iv. in_high iv - in_low iv) (map fst ?m))"
    using bnd by (intro sum_list_positive) (auto simp del: map_map)
  then show "0 < bh_overlapLength hit" unfolding len sum .
  have "Min (set (map snd ?o)) \<in> set (map snd ?o)" using ne by (intro Min_in) auto
  moreover have "\<forall>j\<in>set (map snd ?o). j < length segs"
    by (auto simp: border_overlaps_def set_map_filter_iff in_set_enumerate_eq split: option.splits if_splits)
  ultimately show "bh_segmentIndex hit < length segs" unfolding si by blast
qed

end
