(* ===== verification/Geometry_Properties.thy ===== *)
theory Geometry_Properties
  imports Gate_Laws
begin

text \<open>
  The properties of the shared geometry, stated over the definitions of \<open>Geometry_Core\<close>, \<open>Routes\<close>,
  \<open>Route_Rhythm\<close> and \<open>Route_Gates\<close>, each with an instance at a concrete diagram.
\<close>

lemma normal_route_eval [simp]:
  "normal_route [a]"
  "normal_route [a, b] \<longleftrightarrow> a \<noteq> b"
  "normal_route (a # b # c # ps) \<longleftrightarrow> a \<noteq> b \<and> \<not> fwd a b c \<and> normal_route (b # c # ps)"
proof -
  have *: "(\<forall>i. i + 2 < length (a # b # c # ps) \<longrightarrow> P i) \<longleftrightarrow> P 0 \<and> (\<forall>i. i + 2 < length (b # c # ps) \<longrightarrow> P (Suc i))" for P
    by (auto simp: all_conj_distrib) (metis Suc_less_eq add_Suc not0_implies_Suc)
  show "normal_route (a # b # c # ps) \<longleftrightarrow> a \<noteq> b \<and> \<not> fwd a b c \<and> normal_route (b # c # ps)"
    unfolding normal_route_def * by auto
qed (simp_all add: normal_route_def)

lemmas grid_eval = grid_points_def grid_point_def grid_rect_def on_grid_def valid_rect_def

text \<open>
  C15: On the coordinate grid \<open>segmentIntersectsRect\<close> is exact, whatever the epsilons of its orientation
  tests: it answers true precisely when some point of the closed segment lies in the rectangle grown by
  the gap on every side.
\<close>

theorem segmentIntersectsRect_iff_common_point:
  assumes "grid_point (fst seg)" "grid_point (snd seg)" "grid_rect rect" "valid_rect rect"
    and "on_grid gap" "0 \<le> gap"
  shows "segmentIntersectsRect seg rect gap \<longleftrightarrow>
     (\<exists>p. on_seg p (fst seg) (snd seg) \<and> pointInBox p (expand_rect rect gap))"
  by (rule segmentIntersectsRect_exact [OF assms])

theorem segmentIntersectsRect_witness:
  "segmentIntersectsRect ((0, 0), (10, 3)) \<lparr>rx = 4, ry = 3, rwidth = 2, rheight = 2\<rparr> 2"
proof -
  have "on_seg (5, 3 / 2) (0, 0) (10, 3)" unfolding on_seg_def by (rule exI [of _ "1 / 2"]) simp
  moreover have "pointInBox (5, 3 / 2) (expand_rect \<lparr>rx = 4, ry = 3, rwidth = 2, rheight = 2\<rparr> 2)"
    by (simp add: pointInBox_def expand_rect_def)
  ultimately show ?thesis
    using segmentIntersectsRect_iff_common_point
      [of "((0, 0), (10, 3))" "\<lparr>rx = 4, ry = 3, rwidth = 2, rheight = 2\<rparr>" 2]
    by (auto simp: grid_eval)
qed

text \<open>
  Normalising a route on the grid keeps its two ends and its drawn curve, drops way points only, and
  leaves no repeated point and no way point between two forward runs of the same straight line.
\<close>

theorem normalizeRoutePoints_keeps_curve:
  assumes "grid_points ps" "ps \<noteq> []"
  shows "hd (normalizeRoutePoints ps) = hd ps \<and> last (normalizeRoutePoints ps) = last ps \<and>
    trace (normalizeRoutePoints ps) = trace ps \<and> subseq (normalizeRoutePoints ps) ps \<and>
    normal_route (normalizeRoutePoints ps)"
  using normalizeRoutePoints_grid [OF assms] by simp

theorem normalizeRoutePoints_witness:
  "hd (normalizeRoutePoints [(0, 0), (5, 0), (5, 0), (9, 0), (9, 4)]) = hd [(0, 0), (5, 0), (5, 0), (9, 0), (9, 4)] \<and>
   last (normalizeRoutePoints [(0, 0), (5, 0), (5, 0), (9, 0), (9, 4)]) = last [(0, 0), (5, 0), (5, 0), (9, 0), (9, 4)] \<and>
   trace (normalizeRoutePoints [(0, 0), (5, 0), (5, 0), (9, 0), (9, 4)]) = trace [(0, 0), (5, 0), (5, 0), (9, 0), (9, 4)] \<and>
   subseq (normalizeRoutePoints [(0, 0), (5, 0), (5, 0), (9, 0), (9, 4)]) [(0, 0), (5, 0), (5, 0), (9, 0), (9, 4)] \<and>
   normal_route (normalizeRoutePoints [(0, 0), (5, 0), (5, 0), (9, 0), (9, 4)])"
  by (rule normalizeRoutePoints_keeps_curve) (simp_all add: grid_eval)



definition plain_relation :: "nat \<Rightarrow> jstring \<Rightarrow> jstring \<Rightarrow> relation" where
  "plain_relation n u v = \<lparr>oid = n, rel_key = None, rel_id = None, rel_from = u, rel_to = v, rel_label = None,
     fromSide = None, toSide = None, rel_route = None, via = None, channelX = None, channelY = None,
     labelAt = None, labelDx = None, labelDy = None, labelSegment = None\<rparr>"











text \<open>
  The label gate asks about the smallest clearance of a route: for a rectangle with a size and a route
  of at least one segment, a foreign label is reported exactly when some segment of the route comes closer
  to it than the threshold.
\<close>

theorem label_route_hit_iff_too_close:
  assumes "valid_rect (le_rect label)" "2 \<le> length (lr_points route)"
  shows "label_route_hit threshold i label route = None \<longleftrightarrow>
     i = lr_index route \<or> sameRelationship (le_relation label) (lr_relation route) \<or>
     (\<forall>seg\<in>set (pairs (lr_points route)). \<forall>c. segmentRectClearance seg (le_rect label) = Some c \<longrightarrow>
        threshold \<le> c + 1 / 10000)"
  by (rule label_route_hit_None [OF assms])

theorem label_route_hit_witness:
  "label_route_hit 4 0
     \<lparr>le_rect = \<lparr>rx = 0, ry = 0, rwidth = 10, rheight = 10\<rparr>, le_relation = None, le_index = Some 0, le_label = None\<rparr>
     \<lparr>lr_relation = None, lr_index = 1, lr_points = [(5, -20), (5, 40)]\<rparr> \<noteq> None"
proof -
  have "segmentIntersectsRect ((5, -20), (5, 40)) \<lparr>rx = 0, ry = 0, rwidth = 10, rheight = 10\<rparr> 0"
    by (simp add: segmentIntersectsRect_def expand_rect_def pointInBox_def segmentsIntersect_def orientation_def
        crossProduct_def Let_def)
  then show ?thesis
    by (subst label_route_hit_iff_too_close)
      (auto simp: valid_rect_def sameRelationship_def segmentRectClearance_def)
qed

text \<open>
  A border run is measured once: overlaps of one route with the same side of a frame are merged before
  they are added up, so the reported length is positive and never exceeds the side, and the reported
  segment is one of the route.
\<close>

theorem border_hit_length_within_border:
  assumes "axis_border s e" and "border_hit_for r segs k f (sd, s, e) = Some hit"
  shows "0 < bh_overlapLength hit \<and> bh_overlapLength hit \<le> manhattan s e \<and> bh_segmentIndex hit < length segs"
  using border_hit_bounds [OF assms] by blast

definition sample_bordered :: bordered where
  "sample_bordered = \<lparr>ro_relation = None, ro_index = Some 0, ro_points = [(0, 0), (6, 0), (4, 0), (9, 0)], ro_segments = None\<rparr>"

definition sample_frame :: frame where
  "sample_frame = \<lparr>fr_shape = Frame_rect \<lparr>rx = 0, ry = 0, rwidth = 10, rheight = 20\<rparr> 0, fr_kind = None,
     fr_label = None, fr_id = None\<rparr>"

theorem border_hit_witness:
  "0 < bh_overlapLength (the (border_hit_for sample_bordered [((0, 0), (6, 0)), ((4, 0), (9, 0))] 0 sample_frame (Top_side, (0, 0), (10, 0))))"
proof -
  have "border_overlaps [((0, 0), (6, 0)), ((4, 0), (9, 0))] (0, 0) (10, 0) \<noteq> []"
    by (simp add: border_overlaps_def collinearAxisOverlap_def coord_def Let_def List.map_filter_def)
  then obtain hit where "border_hit_for sample_bordered [((0, 0), (6, 0)), ((4, 0), (9, 0))] 0 sample_frame (Top_side, (0, 0), (10, 0)) = Some hit"
    by (simp add: border_hit_for_def Let_def)
  then show ?thesis
    using border_hit_length_within_border [of "(0, 0)" "(10, 0)"] by (simp add: axis_border_def grid_eval)
qed

lemma product_enumerate_nth:
  "e \<in> set (List.product (enumerate 0 vs) (enumerate 0 ws)) \<Longrightarrow>
     fst (fst e) < length vs \<and> fst (snd e) < length ws \<and>
     snd (fst e) = vs ! fst (fst e) \<and> snd (snd e) = ws ! fst (snd e)"
  by (cases e) (auto simp: in_set_enumerate_eq)

lemma product_enumerate_mem:
  "s \<in> set vs \<Longrightarrow> t \<in> set ws \<Longrightarrow>
     \<exists>e\<in>set (List.product (enumerate 0 vs) (enumerate 0 ws)). snd (fst e) = s \<and> snd (snd e) = t"
proof -
  assume "s \<in> set vs" "t \<in> set ws"
  then obtain i j where "i < length vs" "vs ! i = s" "j < length ws" "ws ! j = t" by (auto simp: in_set_conv_nth)
  then show ?thesis by (intro bexI [of _ "((i, s), (j, t))"]) (auto simp: in_set_enumerate_eq)
qed

lemma corridor_longest_spec:
  "case corridor_longest left right px of
     None \<Rightarrow> \<forall>s\<in>set (pairs (co_points left)). \<forall>t\<in>set (pairs (co_points right)). \<forall>ov.
       collinearAxisOverlap (fst s) (snd s) (fst t) (snd t) = Some ov \<longrightarrow> ov_length ov + 1 / 10000 < px
   | Some h \<Rightarrow>
       (\<exists>ov. collinearAxisOverlap (co_points left ! ch_leftSegment h) (co_points left ! (ch_leftSegment h + 1))
              (co_points right ! ch_rightSegment h) (co_points right ! (ch_rightSegment h + 1)) = Some ov \<and>
            ch_overlapLength h = ov_length ov \<and> px \<le> ov_length ov + 1 / 10000) \<and>
       (\<forall>s\<in>set (pairs (co_points left)). \<forall>t\<in>set (pairs (co_points right)). \<forall>ov.
          collinearAxisOverlap (fst s) (snd s) (fst t) (snd t) = Some ov \<longrightarrow> px \<le> ov_length ov + 1 / 10000 \<longrightarrow>
          ov_length ov \<le> ch_overlapLength h + 1 / 10000)"
proof -
  let ?es = "List.product (enumerate 0 (pairs (co_points left))) (enumerate 0 (pairs (co_points right)))"
  note loop = corridor_loop [of left right px None ?es, OF refl, folded corridor_longest_def]
  show ?thesis
  proof (cases "corridor_longest left right px")
    case None
    then have "\<forall>e\<in>set ?es. \<forall>ov. collinearAxisOverlap (fst (snd (fst e))) (snd (snd (fst e))) (fst (snd (snd e)))
        (snd (snd (snd e))) = Some ov \<longrightarrow> ov_length ov + 1 / 10000 < px"
      using loop by blast
    then show ?thesis unfolding None option.case using product_enumerate_mem by (metis (no_types))
  next
    case (Some h)
    have "\<forall>e\<in>set ?es. \<forall>ov. collinearAxisOverlap (fst (snd (fst e))) (snd (snd (fst e))) (fst (snd (snd e)))
        (snd (snd (snd e))) = Some ov \<longrightarrow> px \<le> ov_length ov + 1 / 10000 \<longrightarrow> ov_length ov \<le> ch_overlapLength h + 1 / 10000"
      using loop Some by blast
    then have all: "\<forall>s\<in>set (pairs (co_points left)). \<forall>t\<in>set (pairs (co_points right)). \<forall>ov.
          collinearAxisOverlap (fst s) (snd s) (fst t) (snd t) = Some ov \<longrightarrow> px \<le> ov_length ov + 1 / 10000 \<longrightarrow>
          ov_length ov \<le> ch_overlapLength h + 1 / 10000"
      using product_enumerate_mem by (metis (no_types))
    obtain e ov where e: "e \<in> set ?es" "collinearAxisOverlap (fst (snd (fst e))) (snd (snd (fst e))) (fst (snd (snd e)))
        (snd (snd (snd e))) = Some ov" "px \<le> ov_length ov + 1 / 10000"
        "h = \<lparr>ch_left = left, ch_right = right, ch_leftSegment = fst (fst e), ch_rightSegment = fst (snd e),
             ch_overlapLength = ov_length ov, ch_overlapStart = ov_start ov, ch_overlapEnd = ov_end ov\<rparr>"
      using loop Some by blast
    have "collinearAxisOverlap (co_points left ! ch_leftSegment h) (co_points left ! (ch_leftSegment h + 1))
          (co_points right ! ch_rightSegment h) (co_points right ! (ch_rightSegment h + 1)) = Some ov \<and>
        ch_overlapLength h = ov_length ov \<and> px \<le> ov_length ov + 1 / 10000"
      using e(2-4) product_enumerate_nth [OF e(1)] by (simp add: nth_pairs less_diff_conv)
    then show ?thesis using all unfolding Some option.case by blast
  qed
qed

text \<open>
  The corridor search reports the longest overlap: a reported hit stems from a pair of segments of the
  two routes, and no pair of segments overlaps by more than it (up to the epsilon); nothing is reported
  exactly when every overlap stays under the floor.
\<close>

theorem corridor_longest_is_longest:
  "case corridor_longest left right px of
     None \<Rightarrow> \<forall>s\<in>set (pairs (co_points left)). \<forall>t\<in>set (pairs (co_points right)). \<forall>ov.
       collinearAxisOverlap (fst s) (snd s) (fst t) (snd t) = Some ov \<longrightarrow> ov_length ov + 1 / 10000 < px
   | Some h \<Rightarrow>
       (\<exists>ov. collinearAxisOverlap (co_points left ! ch_leftSegment h) (co_points left ! (ch_leftSegment h + 1))
              (co_points right ! ch_rightSegment h) (co_points right ! (ch_rightSegment h + 1)) = Some ov \<and>
            ch_overlapLength h = ov_length ov \<and> px \<le> ov_length ov + 1 / 10000) \<and>
       (\<forall>s\<in>set (pairs (co_points left)). \<forall>t\<in>set (pairs (co_points right)). \<forall>ov.
          collinearAxisOverlap (fst s) (snd s) (fst t) (snd t) = Some ov \<longrightarrow> px \<le> ov_length ov + 1 / 10000 \<longrightarrow>
          ov_length ov \<le> ch_overlapLength h + 1 / 10000)"
  by (rule corridor_longest_spec)

definition east_corridor :: corridor_route where
  "east_corridor = \<lparr>co_relation = plain_relation 0 (js ''a'') (js ''b''), co_index = 0, co_points = [(0, 0), (40, 0)]\<rparr>"

definition west_corridor :: corridor_route where
  "west_corridor = \<lparr>co_relation = plain_relation 1 (js ''c'') (js ''d''), co_index = 1, co_points = [(20, 0), (80, 0)]\<rparr>"

theorem corridor_longest_witness:
  "\<exists>h. corridor_longest east_corridor west_corridor 16 = Some h \<and> 20 \<le> ch_overlapLength h + 1 / 10000"
proof -
  have "collinearAxisOverlap (0, 0) (40, 0) (20, 0) (80, 0) = Some \<lparr>ov_length = 20, ov_start = (20, 0), ov_end = (40, 0)\<rparr>"
    by (simp add: collinearAxisOverlap_def coord_def)
  then show ?thesis
    using corridor_longest_is_longest [of east_corridor west_corridor 16]
    by (auto simp: east_corridor_def west_corridor_def split: option.splits)
qed



text \<open>
  The budget metrics and the rhythm gate agree: on the grid there is no rhythm problem exactly when the
  metrics count neither a micro segment nor a short interior segment.
\<close>

theorem rhythm_gate_agrees_with_metrics:
  assumes "\<forall>r\<in>set rs. grid_points (ro_points r)" "on_grid interior" "on_grid micro"
  shows "collectRouteRhythmIssues rs interior micro = [] \<longleftrightarrow>
    microSegmentCount (routeBudgetMetrics rs b stretch interior micro) = 0 \<and>
    shortInteriorSegmentCount (routeBudgetMetrics rs b stretch interior micro) = 0"
  by (rule metrics_gate [OF assms])


theorem rhythm_gate_witness:
  "microSegmentCount (routeBudgetMetrics [\<lparr>ro_relation = None, ro_index = None, ro_points = [(0, 0), (40, 0)]\<rparr>] 2 2 32 8) = 0"
proof -
  let ?r = "\<lparr>ro_relation = None, ro_index = None, ro_points = [(0, 0), (40, 0)]\<rparr>"
  have n: "normalizeRoutePoints [(0, 0), (40, 0)] = [(0, 0), (40, 0)]"
    by (rule normalizeRoutePoints_id) (simp_all add: fwd_def crossProduct_def grid_eval)
  have r: "collectRouteRhythmIssues [?r] 32 8 = []"
    by (simp add: collectRouteRhythmIssues_def route_rhythm_issues_def n segment_rhythm_issue_def manhattan_def
      rhythm_code_for_def segmentPosition_def List.map_filter_def)
  from rhythm_gate_agrees_with_metrics [of "[?r]" 32 8 2 2] r show ?thesis by (simp add: grid_eval)
qed

end
