(* ===== verification/Json.thy ===== *)
theory Json
  imports Prelude "HOL-Library.Monad_Syntax"
begin

text \<open>
  JSON documents as the sources see them after \<open>JSON.parse\<close>, and the small helpers several modules
  share: property access, \<open>isPlainObject\<close>, exact key sets, string joins and splits, and the error
  monad in which a JavaScript function that may throw is written (\<open>Inl\<close> is the thrown error).

  The members of an object are listed in the order of \<open>Object.keys\<close>; a parsed object has no key twice.
\<close>

section \<open>Values\<close>

datatype json =
    JNull
  | JBool bool
  | JNum real
  | JStr jstring
  | JArr "json list"
  | JObj "(jstring \<times> json) list"

text \<open>\<open>value[key]\<close>; \<open>None\<close> is \<open>undefined\<close>.\<close>

fun get :: "json \<Rightarrow> jstring \<Rightarrow> json option" where
  "get (JObj kvs) k = map_of kvs k"
| "get _ k = None"

fun isPlainObject :: "json \<Rightarrow> bool" where
  "isPlainObject (JObj _) = True"
| "isPlainObject _ = False"

fun object_keys :: "json \<Rightarrow> jstring list" where
  "object_keys (JObj kvs) = map fst kvs"
| "object_keys _ = []"

fun is_string :: "json \<Rightarrow> bool" where
  "is_string (JStr _) = True"
| "is_string _ = False"

fun truthy_value :: "json \<Rightarrow> bool" where
  "truthy_value JNull = False"
| "truthy_value (JBool b) = b"
| "truthy_value (JNum v) = (v \<noteq> 0)"
| "truthy_value (JStr s) = (s \<noteq> [])"
| "truthy_value _ = True"

text \<open>\<open>owner?.key\<close> and a collection that may be absent.\<close>

definition get_opt :: "json option \<Rightarrow> jstring \<Rightarrow> json option" where
  "get_opt v k = Option.bind v (\<lambda>w. get w k)"

fun items_of :: "json option \<Rightarrow> json list" where
  "items_of (Some (JArr vs)) = vs"
| "items_of _ = []"

definition set_member :: "json \<Rightarrow> jstring \<Rightarrow> json \<Rightarrow> json" where
  "set_member v k w =
     (case v of JObj kvs \<Rightarrow> JObj (if k \<in> set (map fst kvs) then map (\<lambda>(i, u). (i, if i = k then w else u)) kvs else kvs @ [(k, w)])
      | _ \<Rightarrow> v)"

definition delete_member :: "json \<Rightarrow> jstring \<Rightarrow> json" where
  "delete_member v k = (case v of JObj kvs \<Rightarrow> JObj (filter (\<lambda>(i, u). i \<noteq> k) kvs) | _ \<Rightarrow> v)"

lemma get_delete_member: "get (delete_member v k) i = (if i = k then None else get v i)"
proof (cases v)
  case (JObj kvs)
  have "map_of (filter (\<lambda>(j, u). j \<noteq> k) kvs) i = (if i = k then None else map_of kvs i)"
    by (induction kvs) auto
  then show ?thesis using JObj by (simp add: delete_member_def)
qed (simp_all add: delete_member_def)

lemma get_set_member: "isPlainObject v \<Longrightarrow> get (set_member v k w) i = (if i = k then Some w else get v i)"
proof (cases v)
  case (JObj kvs)
  have upd: "map_of (map (\<lambda>(j, u). (j, if j = k then w else u)) kvs) i =
      (if i = k then (if k \<in> set (map fst kvs) then Some w else None) else map_of kvs i)"
    by (induction kvs) (auto, metis fst_conv image_eqI)
  have "map_of (kvs @ [(k, w)]) i = (if i = k then Some w else map_of kvs i)" if "k \<notin> set (map fst kvs)"
  proof -
    have "map_of kvs k = None" using that by (simp add: map_of_eq_None_iff)
    then show ?thesis by (simp add: map_add_def split: option.splits)
  qed
  note app = this
  show ?thesis
  proof (cases "k \<in> set (map fst kvs)")
    case True
    then have "set_member v k w = JObj (map (\<lambda>(j, u). (j, if j = k then w else u)) kvs)" by (simp add: JObj set_member_def)
    then show ?thesis using JObj upd True by simp
  next
    case False
    then have "set_member v k w = JObj (kvs @ [(k, w)])" by (simp add: JObj set_member_def)
    then show ?thesis using JObj app [OF False] by (simp del: map_of_append)
  qed
qed simp_all

lemma isPlainObject_members [simp]:
  "isPlainObject (delete_member v k) = isPlainObject v" "isPlainObject (set_member v k w) = isPlainObject v"
  by (cases v; simp add: delete_member_def set_member_def)+

section \<open>Joining and splitting\<close>

fun join :: "jstring \<Rightarrow> jstring list \<Rightarrow> jstring" where
  "join sep [] = []"
| "join sep [s] = s"
| "join sep (s # t # ss) = s @ sep @ join sep (t # ss)"

fun split_on :: "nat \<Rightarrow> jstring \<Rightarrow> jstring list" where
  "split_on c [] = [[]]"
| "split_on c (u # us) =
     (if u = c then [] # split_on c us else (u # hd (split_on c us)) # tl (split_on c us))"

lemma split_on_not_Nil [simp]: "split_on c s \<noteq> []"
  by (induction s) auto

lemma join_split_on: "join [c] (split_on c s) = s"
proof (induction s)
  case (Cons u us)
  obtain p ps where "split_on c us = p # ps" using split_on_not_Nil by (metis list.exhaust)
  then show ?case using Cons by (cases ps) auto
qed simp

lemma split_on_no_sep: "c \<notin> set s \<Longrightarrow> split_on c s = [s]"
  by (induction s) auto

lemma split_on_append: "c \<notin> set s \<Longrightarrow> split_on c (s @ c # t) = s # split_on c t"
  by (induction s) auto

lemma split_on_join: "ss \<noteq> [] \<Longrightarrow> \<forall>s\<in>set ss. c \<notin> set s \<Longrightarrow> split_on c (join [c] ss) = ss"
  by (induction "[c]" ss rule: join.induct) (auto simp: split_on_no_sep split_on_append)

lemma split_on_pieces: "s \<in> set (split_on c u) \<Longrightarrow> c \<notin> set s"
proof (induction u arbitrary: s)
  case (Cons v u)
  then show ?case by (cases "split_on c u") (auto split: if_splits)
qed simp

text \<open>\<open>Object.keys(value).sort().join('\0') === [...expected].sort().join('\0')\<close>.\<close>

definition hasExactKeys :: "json \<Rightarrow> jstring list \<Rightarrow> bool" where
  "hasExactKeys v expected \<longleftrightarrow>
     isPlainObject v \<and> join [0] (sort (object_keys v)) = join [0] (sort expected)"

definition hasOnlyKeys :: "json \<Rightarrow> jstring list \<Rightarrow> bool" where
  "hasOnlyKeys v allowed \<longleftrightarrow> (\<forall>k\<in>set (object_keys v). k \<in> set allowed)"

section \<open>Texts\<close>

text \<open>\<open>String.prototype.trim\<close> and its white space.\<close>

definition js_space :: "nat \<Rightarrow> bool" where
  "js_space c \<longleftrightarrow> c \<in> {9, 10, 11, 12, 13, 32, 160, 5760, 8232, 8233, 8239, 8287, 12288, 65279} \<or> 8192 \<le> c \<and> c \<le> 8202"

definition js_trim :: "jstring \<Rightarrow> jstring" where
  "js_trim s = rev (dropWhile js_space (rev (dropWhile js_space s)))"

text \<open>\<open>toLowerCase\<close> on ASCII letters, where no other letter can produce the compared text.\<close>

definition ascii_lower :: "nat \<Rightarrow> nat" where
  "ascii_lower c = (if 65 \<le> c \<and> c \<le> 90 then c + 32 else c)"

text \<open>\<open>String(value)\<close>.\<close>

fun string_of :: "(real \<Rightarrow> jstring) \<Rightarrow> json \<Rightarrow> jstring" where
  "string_of nt JNull = js ''null''"
| "string_of nt (JBool b) = (if b then js ''true'' else js ''false'')"
| "string_of nt (JNum v) = nt v"
| "string_of nt (JStr s) = s"
| "string_of nt (JArr vs) = join (js '','') (map (\<lambda>v. if v = JNull then [] else string_of nt v) vs)"
| "string_of nt (JObj _) = js ''[object Object]''"

definition template_text :: "(real \<Rightarrow> jstring) \<Rightarrow> json option \<Rightarrow> jstring" where
  "template_text nt v = (case v of None \<Rightarrow> js ''undefined'' | Some w \<Rightarrow> string_of nt w)"

text \<open>\<open>String(value || '')\<close>.\<close>

definition or_text :: "(real \<Rightarrow> jstring) \<Rightarrow> json option \<Rightarrow> jstring" where
  "or_text nt v = (case v of None \<Rightarrow> [] | Some w \<Rightarrow> if truthy_value w then string_of nt w else [])"

text \<open>\<open>...(value === undefined ? {} : { key: value })\<close>, and a member copied from another object.\<close>

definition optional_member :: "jstring \<Rightarrow> json option \<Rightarrow> (jstring \<times> json) list" where
  "optional_member k v = (case v of None \<Rightarrow> [] | Some w \<Rightarrow> [(k, w)])"

definition copied_member :: "json \<Rightarrow> jstring \<Rightarrow> (jstring \<times> json) list" where
  "copied_member owner k = (case get owner k of None \<Rightarrow> [] | Some v \<Rightarrow> [(k, v)])"

section \<open>Functions that may throw\<close>

type_synonym ('e, 'a) result = "'e + 'a"

fun bind_result :: "'e + 'a \<Rightarrow> ('a \<Rightarrow> 'e + 'b) \<Rightarrow> 'e + 'b" where
  "bind_result (Inl e) f = Inl e"
| "bind_result (Inr v) f = f v"

lemma bind_result_Inr: "bind_result r f = Inr w \<longleftrightarrow> (\<exists>v. r = Inr v \<and> f v = Inr w)"
  by (cases r) auto

text \<open>\<open>if (test) throw error\<close>.\<close>

definition throw_if :: "bool \<Rightarrow> 'e \<Rightarrow> 'e + unit" where
  "throw_if b e = (if b then Inl e else Inr ())"

lemma throw_if_Inr [simp]: "throw_if b e = Inr u \<longleftrightarrow> \<not> b"
  by (simp add: throw_if_def)

lemma bind_throw_if [simp]: "bind_result (throw_if b e) f = Inr w \<longleftrightarrow> \<not> b \<and> f () = Inr w"
  by (simp add: throw_if_def)

text \<open>\<open>try { ... } catch { return fallback }\<close>.\<close>

definition catch_with :: "'e + 'a \<Rightarrow> 'a \<Rightarrow> 'a" where
  "catch_with r fallback = (case r of Inl _ \<Rightarrow> fallback | Inr v \<Rightarrow> v)"

end
