(* ===== verification/Update_Contract.thy ===== *)
theory Update_Contract
  imports Json "HOL-Library.Product_Lexorder"
begin

text \<open>
  The release contract of \<open>scripts/update-contract.mjs\<close>: semantic versions and their precedence, the
  validation of the local release record and of the stable update manifest. Every function that throws
  \<open>UpdateContractError\<close> returns a sum; the constructors of \<open>contract_error\<close> are the throw sites.
\<close>

section \<open>Constants and errors\<close>

definition SKILL_ID :: jstring where "SKILL_ID = js ''archify''"
definition EXPECTED_REPOSITORY :: jstring where
  "EXPECTED_REPOSITORY = js ''https://github.com/tt-a1i/archify''"
definition DEFAULT_MANIFEST_URL :: jstring where
  "DEFAULT_MANIFEST_URL = js ''https://tt-a1i.github.io/archify/skill-updates/archify/stable.json''"

datatype contract_error =
    Invalid_semver
  | Not_utc_seconds
  | Not_calendar_instant
  | Invalid_local_identity
  | Channel_mismatch
  | Notes_require_stable
  | Notes_outside_path
  | Invalid_stable_identity
  | Invalid_summary
  | Invalid_severity
  | Invalid_transport

section \<open>Characters\<close>

definition is_digit :: "nat \<Rightarrow> bool" where
  "is_digit c \<longleftrightarrow> 48 \<le> c \<and> c \<le> 57"

definition ident_char :: "nat \<Rightarrow> bool" where
  "ident_char c \<longleftrightarrow> is_digit c \<or> 65 \<le> c \<and> c \<le> 90 \<or> 97 \<le> c \<and> c \<le> 122 \<or> c = 45"

definition hex_char :: "nat \<Rightarrow> bool" where
  "hex_char c \<longleftrightarrow> 97 \<le> c \<and> c \<le> 102 \<or> is_digit c"

text \<open>\<open>/^\d+$/\<close>.\<close>

definition is_numeric :: "jstring \<Rightarrow> bool" where
  "is_numeric s \<longleftrightarrow> s \<noteq> [] \<and> (\<forall>c\<in>set s. is_digit c)"

text \<open>\<open>(0|[1-9]\d*)\<close>.\<close>

definition canonical_numeric :: "jstring \<Rightarrow> bool" where
  "canonical_numeric s \<longleftrightarrow> is_numeric s \<and> (hd s = 48 \<longrightarrow> length s = 1)"

section \<open>Semantic versions\<close>

record semver =
  sv_core :: "jstring list"
  sv_prerelease :: "jstring list option"
  sv_build :: "jstring list option"

definition read_numeric :: "jstring \<Rightarrow> (jstring \<times> jstring) option" where
  "read_numeric s =
     (let d = takeWhile is_digit s
      in if canonical_numeric d then Some (d, dropWhile is_digit s) else None)"

fun expect :: "nat \<Rightarrow> jstring \<Rightarrow> jstring option" where
  "expect c [] = None"
| "expect c (u # us) = (if u = c then Some us else None)"

text \<open>\<open>[0-9A-Za-z-]+(?:\.[0-9A-Za-z-]+)*\<close>, with the pieces of \<open>split('.')\<close>.\<close>

definition read_identifiers :: "jstring \<Rightarrow> jstring list option" where
  "read_identifiers s =
     (let ids = split_on 46 s
      in if \<forall>i\<in>set ids. i \<noteq> [] \<and> (\<forall>c\<in>set i. ident_char c) then Some ids else None)"

definition read_suffix :: "jstring \<Rightarrow> (jstring list option \<times> jstring list option) option" where
  "read_suffix s =
     (case s of
        [] \<Rightarrow> Some (None, None)
      | c # t \<Rightarrow>
          if c = 45 then do {
            pre \<leftarrow> read_identifiers (takeWhile (\<lambda>u. u \<noteq> 43) t);
            (case dropWhile (\<lambda>u. u \<noteq> 43) t of
               [] \<Rightarrow> Some (Some pre, None)
             | _ # b \<Rightarrow> do { build \<leftarrow> read_identifiers b; Some (Some pre, Some build) })
          }
          else if c = 43 then do { build \<leftarrow> read_identifiers t; Some (None, Some build) }
          else None)"

text \<open>\<open>SEMVER.exec(value)\<close>, as the groups the source reads.\<close>

definition semver_match :: "jstring \<Rightarrow> semver option" where
  "semver_match s = do {
     (major, s1) \<leftarrow> read_numeric s;
     s2 \<leftarrow> expect 46 s1;
     (minor, s3) \<leftarrow> read_numeric s2;
     s4 \<leftarrow> expect 46 s3;
     (patch, s5) \<leftarrow> read_numeric s4;
     (pre, build) \<leftarrow> read_suffix s5;
     Some \<lparr>sv_core = [major, minor, patch], sv_prerelease = pre, sv_build = build\<rparr>
   }"

definition leading_zero :: "jstring \<Rightarrow> bool" where
  "leading_zero identifier \<longleftrightarrow> is_numeric identifier \<and> 1 < length identifier \<and> hd identifier = 48"

definition parseSemver :: "json \<Rightarrow> contract_error + semver" where
  "parseSemver value =
     (case value of
        JStr s \<Rightarrow>
          if 128 < length s then Inl Invalid_semver
          else (case semver_match s of
                  None \<Rightarrow> Inl Invalid_semver
                | Some v \<Rightarrow>
                    if \<exists>ids. sv_prerelease v = Some ids \<and> list_ex leading_zero ids then Inl Invalid_semver
                    else Inr v)
      | _ \<Rightarrow> Inl Invalid_semver)"

definition compareNumericIdentifiers :: "jstring \<Rightarrow> jstring \<Rightarrow> int" where
  "compareNumericIdentifiers left right =
     (if length left \<noteq> length right then if length left < length right then -1 else 1
      else if left = right then 0
      else if left < right then -1 else 1)"

fun compare_identifiers :: "jstring list \<Rightarrow> jstring list \<Rightarrow> int" where
  "compare_identifiers [] [] = 0"
| "compare_identifiers [] (r # rs) = -1"
| "compare_identifiers (l # ls) [] = 1"
| "compare_identifiers (l # ls) (r # rs) =
     (if l = r then compare_identifiers ls rs
      else if is_numeric l \<and> is_numeric r then compareNumericIdentifiers l r
      else if is_numeric l \<noteq> is_numeric r then if is_numeric l then -1 else 1
      else if l < r then -1 else 1)"

definition comparePrerelease :: "jstring list option \<Rightarrow> jstring list option \<Rightarrow> int" where
  "comparePrerelease left right =
     (case (left, right) of
        (None, None) \<Rightarrow> 0
      | (None, Some _) \<Rightarrow> 1
      | (Some _, None) \<Rightarrow> -1
      | (Some l, Some r) \<Rightarrow> compare_identifiers l r)"

fun compare_core :: "jstring list \<Rightarrow> jstring list \<Rightarrow> int" where
  "compare_core (l # ls) (r # rs) =
     (if compareNumericIdentifiers l r \<noteq> 0 then compareNumericIdentifiers l r else compare_core ls rs)"
| "compare_core _ _ = 0"

definition compare_parsed :: "semver \<Rightarrow> semver \<Rightarrow> int" where
  "compare_parsed left right =
     (let c = compare_core (sv_core left) (sv_core right)
      in if c \<noteq> 0 then c else comparePrerelease (sv_prerelease left) (sv_prerelease right))"

definition compareSemver :: "json \<Rightarrow> json \<Rightarrow> contract_error + int" where
  "compareSemver leftValue rightValue =
     bind_result (parseSemver leftValue) (\<lambda>left.
     bind_result (parseSemver rightValue) (\<lambda>right. Inr (compare_parsed left right)))"

definition releaseChannelForVersion :: "json \<Rightarrow> contract_error + jstring" where
  "releaseChannelForVersion value =
     bind_result (parseSemver value) (\<lambda>v.
       Inr (if sv_prerelease v \<noteq> None then js ''development'' else js ''stable''))"

definition isStableCoreVersion :: "json \<Rightarrow> bool" where
  "isStableCoreVersion value =
     (case parseSemver value of
        Inl _ \<Rightarrow> False
      | Inr v \<Rightarrow> sv_prerelease v = None \<and> sv_build v = None)"

section \<open>Publication times\<close>

definition digits2 :: "jstring \<Rightarrow> nat" where
  "digits2 s = foldl (\<lambda>n c. 10 * n + (c - 48)) 0 s"

text \<open>\<open>/^\d{4}-\d{2}-\d{2}T\d{2}:\d{2}:\d{2}Z$/\<close>, with the six numbers.\<close>

definition utc_fields :: "jstring \<Rightarrow> (nat \<times> nat \<times> nat \<times> nat \<times> nat \<times> nat) option" where
  "utc_fields s =
     (if length s = 20 \<and>
         (\<forall>i\<in>{0, 1, 2, 3, 5, 6, 8, 9, 11, 12, 14, 15, 17, 18}. is_digit (s ! i)) \<and>
         s ! 4 = 45 \<and> s ! 7 = 45 \<and> s ! 10 = 84 \<and> s ! 13 = 58 \<and> s ! 16 = 58 \<and> s ! 19 = 90
      then Some (digits2 (take 4 s), digits2 (take 2 (drop 5 s)), digits2 (take 2 (drop 8 s)),
                 digits2 (take 2 (drop 11 s)), digits2 (take 2 (drop 14 s)), digits2 (take 2 (drop 17 s)))
      else None)"

definition leap_year :: "nat \<Rightarrow> bool" where
  "leap_year y \<longleftrightarrow> y mod 4 = 0 \<and> (y mod 100 \<noteq> 0 \<or> y mod 400 = 0)"

definition days_in_month :: "nat \<Rightarrow> nat \<Rightarrow> nat" where
  "days_in_month y m =
     (if m \<in> {4, 6, 9, 11} then 30 else if m = 2 then if leap_year y then 29 else 28 else 31)"

text \<open>
  \<open>Date.parse\<close> followed by \<open>toISOString\<close> gives back the same text exactly for a calendar instant: a date
  outside the calendar is not finite or rolls over into another one (as does hour 24).
\<close>

fun calendar_instant :: "nat \<times> nat \<times> nat \<times> nat \<times> nat \<times> nat \<Rightarrow> bool" where
  "calendar_instant (y, m, d, h, mi, sec) \<longleftrightarrow>
     1 \<le> m \<and> m \<le> 12 \<and> 1 \<le> d \<and> d \<le> days_in_month y m \<and> h \<le> 23 \<and> mi \<le> 59 \<and> sec \<le> 59"

definition validateCanonicalUtcTimestamp :: "json \<Rightarrow> contract_error + jstring" where
  "validateCanonicalUtcTimestamp value =
     (case value of
        JStr s \<Rightarrow>
          (case utc_fields s of
             None \<Rightarrow> Inl Not_utc_seconds
           | Some f \<Rightarrow> if calendar_instant f then Inr s else Inl Not_calendar_instant)
      | _ \<Rightarrow> Inl Not_utc_seconds)"

section \<open>Release records\<close>

record local_release =
  lo_channel :: jstring
  lo_version :: jstring

text \<open>
  The other fields of the returned record are the constants they were compared with. A member read from
  a document that lacks it is \<open>undefined\<close> (\<open>None\<close>); the exact key sets exclude that case.
\<close>

definition validateLocalRelease :: "json \<Rightarrow> contract_error + local_release" where
  "validateLocalRelease value =
     bind_result (throw_if
       (\<not> hasExactKeys value [js ''schemaVersion'', js ''skillId'', js ''channel'', js ''version'', js ''source'',
            js ''updateManifestUrl''] \<or>
        get value (js ''schemaVersion'') \<noteq> Some (JNum 1) \<or>
        get value (js ''skillId'') \<noteq> Some (JStr SKILL_ID) \<or>
        (case get value (js ''source'') of
           None \<Rightarrow> True
         | Some source \<Rightarrow> \<not> hasExactKeys source [js ''repository''] \<or>
             get source (js ''repository'') \<noteq> Some (JStr EXPECTED_REPOSITORY)) \<or>
        get value (js ''updateManifestUrl'') \<noteq> Some (JStr DEFAULT_MANIFEST_URL)) Invalid_local_identity)
     (\<lambda>_. case get value (js ''version'') of
        Some (JStr version) \<Rightarrow>
          bind_result (releaseChannelForVersion (JStr version)) (\<lambda>expectedChannel.
            if get value (js ''channel'') \<noteq> Some (JStr expectedChannel) then Inl Channel_mismatch
            else Inr \<lparr>lo_channel = expectedChannel, lo_version = version\<rparr>)
      | _ \<Rightarrow> Inl Invalid_semver)"

definition release_notes_prefix :: jstring where
  "release_notes_prefix = js ''https://github.com/tt-a1i/archify/releases/tag/v''"

definition validateReleaseNotesUrl :: "json option \<Rightarrow> jstring \<Rightarrow> contract_error + jstring" where
  "validateReleaseNotesUrl value version =
     (if \<not> isStableCoreVersion (JStr version) then Inl Notes_require_stable
      else if value \<noteq> Some (JStr (release_notes_prefix @ version)) then Inl Notes_outside_path
      else Inr (release_notes_prefix @ version))"

text \<open>
  \<open>RegExp.prototype.test\<close> converts its argument to a string: a string is itself, an array is the
  comma-separated list of its elements, so an array of one element has the text of that element. The
  other values (numbers, booleans, \<open>null\<close>, objects, longer arrays) have no text that consists of 40 or
  64 hexadecimal digits, nor one that starts with \<open>sha256:\<close>; for them the test is false (\<open>None\<close>).
\<close>

fun tested_text :: "json \<Rightarrow> jstring option" where
  "tested_text (JStr s) = Some s"
| "tested_text (JArr [v]) = tested_text v"
| "tested_text _ = None"

definition hex_test :: "nat \<Rightarrow> json option \<Rightarrow> bool" where
  "hex_test n v \<longleftrightarrow>
     (case Option.bind v tested_text of None \<Rightarrow> False | Some s \<Rightarrow> length s = n \<and> list_all hex_char s)"

text \<open>\<open>CONTROL_OR_BIDI\<close>: control characters and bidirectional overrides.\<close>

definition control_or_bidi :: "nat \<Rightarrow> bool" where
  "control_or_bidi c \<longleftrightarrow> c \<le> 31 \<or> 127 \<le> c \<and> c \<le> 159 \<or> 8234 \<le> c \<and> c \<le> 8238 \<or> 8294 \<le> c \<and> c \<le> 8297"

record stable_manifest =
  sm_version :: jstring
  sm_publishedAt :: jstring
  sm_treeSha :: json
  sm_sha256 :: json
  sm_summary :: jstring
  sm_releaseNotes :: jstring
  sm_severity :: jstring

definition stable_identity_ok :: "json \<Rightarrow> jstring \<Rightarrow> bool" where
  "stable_identity_ok value version \<longleftrightarrow>
     get value (js ''schemaVersion'') = Some (JNum 1) \<and>
     get value (js ''skillId'') = Some (JStr SKILL_ID) \<and>
     get value (js ''channel'') = Some (JStr (js ''stable'')) \<and>
     isStableCoreVersion (JStr version) \<and>
     (case get value (js ''source'') of
        None \<Rightarrow> False
      | Some source \<Rightarrow>
          hasExactKeys source [js ''repository'', js ''ref'', js ''treeSha''] \<and>
          get source (js ''repository'') = Some (JStr EXPECTED_REPOSITORY) \<and>
          get source (js ''ref'') = Some (JStr (js ''v'' @ version)) \<and>
          hex_test 40 (get source (js ''treeSha''))) \<and>
     (case get value (js ''artifact'') of
        None \<Rightarrow> False
      | Some artifact \<Rightarrow>
          hasExactKeys artifact [js ''sha256''] \<and> hex_test 64 (get artifact (js ''sha256'')))"

definition summary_ok :: "jstring \<Rightarrow> bool" where
  "summary_ok s \<longleftrightarrow> \<not> (length s < 1 \<or> 160 < length s \<or> list_ex control_or_bidi s)"

definition validateStableUpdateManifest :: "json \<Rightarrow> contract_error + stable_manifest" where
  "validateStableUpdateManifest value =
     (if \<not> hasExactKeys value [js ''schemaVersion'', js ''skillId'', js ''channel'', js ''version'',
          js ''publishedAt'', js ''source'', js ''artifact'', js ''summary'', js ''releaseNotes'', js ''severity'']
      then Inl Invalid_stable_identity
      else case get value (js ''version'') of
        Some (JStr version) \<Rightarrow>
          if \<not> stable_identity_ok value version then Inl Invalid_stable_identity
          else
            bind_result (case get value (js ''publishedAt'') of None \<Rightarrow> Inl Not_utc_seconds
                         | Some t \<Rightarrow> validateCanonicalUtcTimestamp t) (\<lambda>publishedAt.
            case get value (js ''summary'') of
              Some (JStr summary) \<Rightarrow>
                bind_result (throw_if (\<not> summary_ok summary) Invalid_summary) (\<lambda>_.
                bind_result (validateReleaseNotesUrl (get value (js ''releaseNotes'')) version) (\<lambda>notes.
                case get value (js ''severity'') of
                  Some (JStr severity) \<Rightarrow>
                    if severity \<notin> {js ''normal'', js ''security''} then Inl Invalid_severity
                    else Inr \<lparr>sm_version = version, sm_publishedAt = publishedAt,
                              sm_treeSha = the (get (the (get value (js ''source''))) (js ''treeSha'')),
                              sm_sha256 = the (get (the (get value (js ''artifact''))) (js ''sha256'')),
                              sm_summary = summary, sm_releaseNotes = notes, sm_severity = severity\<rparr>
                | _ \<Rightarrow> Inl Invalid_severity))
            | _ \<Rightarrow> Inl Invalid_summary)
      | _ \<Rightarrow> Inl Invalid_stable_identity)"

section \<open>Precedence is a linear order on keys\<close>

definition cmp :: "'a::linorder \<Rightarrow> 'a \<Rightarrow> int" where
  "cmp u v = (if u < v then -1 else if u = v then 0 else 1)"

lemma cmp_simps [simp]:
  "cmp u v = 0 \<longleftrightarrow> u = v" "cmp u u = 0" "0 < cmp u v \<longleftrightarrow> v < u" "cmp u v < 0 \<longleftrightarrow> u < v"
  "cmp u v \<le> 0 \<longleftrightarrow> u \<le> v"
  by (auto simp: cmp_def)

lemma cmp_antisym: "cmp v u = - cmp u v"
  by (auto simp: cmp_def)

lemma cmp_Cons: "cmp (u # us) (v # vs) = (if u = v then cmp us vs else cmp u v)"
  by (auto simp: cmp_def)

lemma cmp_Pair: "cmp (a, b) (c, d) = (if a = c then cmp b d else cmp a c)"
  by (auto simp: cmp_def)

definition numeric_key :: "jstring \<Rightarrow> nat \<times> jstring" where
  "numeric_key s = (length s, s)"

definition identifier_key :: "jstring \<Rightarrow> nat \<times> nat \<times> jstring" where
  "identifier_key s = (if is_numeric s then (0, numeric_key s) else (1, 0, s))"

lemma identifier_key_inj: "identifier_key s = identifier_key t \<longleftrightarrow> s = t"
  by (auto simp: identifier_key_def numeric_key_def split: if_splits)

lemma compareNumericIdentifiers_key: "compareNumericIdentifiers s t = cmp (numeric_key s) (numeric_key t)"
  by (auto simp: compareNumericIdentifiers_def numeric_key_def cmp_def)

lemma compare_identifiers_key: "compare_identifiers ls rs = cmp (map identifier_key ls) (map identifier_key rs)"
proof (induction ls rs rule: compare_identifiers.induct)
  case (4 l ls r rs)
  then show ?case
    by (auto simp: cmp_Cons identifier_key_inj compareNumericIdentifiers_key)
       (auto simp: cmp_def identifier_key_def)
qed (simp_all add: cmp_def)

lemma compare_core_key:
  "length ls = length rs \<Longrightarrow> compare_core ls rs = cmp (map numeric_key ls) (map numeric_key rs)"
  by (induction ls rs rule: list_induct2) (auto simp: cmp_Cons compareNumericIdentifiers_key)

text \<open>
  The precedence of a version: its core, then whether it is a release, then its prerelease identifiers;
  build metadata does not take part.
\<close>

definition precedence :: "semver \<Rightarrow> (nat \<times> jstring) list \<times> nat \<times> (nat \<times> nat \<times> jstring) list" where
  "precedence v =
     (map numeric_key (sv_core v),
      case sv_prerelease v of None \<Rightarrow> (1, []) | Some ids \<Rightarrow> (0, map identifier_key ids))"

lemma compare_parsed_precedence:
  "length (sv_core u) = length (sv_core v) \<Longrightarrow> compare_parsed u v = cmp (precedence u) (precedence v)"
  by (auto simp: compare_parsed_def precedence_def cmp_Pair compare_core_key comparePrerelease_def
      compare_identifiers_key Let_def split: option.splits)
     (auto simp: cmp_def)

text \<open>On canonical numerals the order on keys is the order of the numbers.\<close>

definition numeral_value :: "jstring \<Rightarrow> nat" where
  "numeral_value s = foldl (\<lambda>n c. 10 * n + (c - 48)) 0 s"

lemma numeral_value_snoc: "numeral_value (s @ [c]) = 10 * numeral_value s + (c - 48)"
  by (simp add: numeral_value_def)

lemma numeral_value_bound: "\<forall>c\<in>set s. is_digit c \<Longrightarrow> numeral_value s < 10 ^ length s"
proof (induction s rule: rev_induct)
  case (snoc c s)
  then have "numeral_value s < 10 ^ length s" "c - 48 \<le> 9" by (auto simp: is_digit_def)
  then show ?case by (simp add: numeral_value_snoc)
qed (simp add: numeral_value_def)

lemma numeral_value_Cons:
  "numeral_value (c # s) = (c - 48) * 10 ^ length s + numeral_value s"
  by (induction s rule: rev_induct)
    (simp_all add: numeral_value_def numeral_value_snoc [unfolded numeral_value_def] add_mult_distrib2 flip: append_Cons)

lemma numeral_value_less:
  "length s = length t \<Longrightarrow> \<forall>c\<in>set s. is_digit c \<Longrightarrow> \<forall>c\<in>set t. is_digit c \<Longrightarrow> s < t \<Longrightarrow> numeral_value s < numeral_value t"
proof (induction s t rule: list_induct2)
  case (Cons c s d t)
  show ?case
  proof (cases "c = d")
    case True
    then show ?thesis using Cons by (simp add: numeral_value_Cons)
  next
    case False
    then have "c < d" using Cons.prems by simp
    then have "Suc (c - 48) \<le> d - 48" using Cons.prems by (auto simp: is_digit_def)
    then have "Suc (c - 48) * 10 ^ length s \<le> (d - 48) * 10 ^ length t"
      using Cons.hyps by (simp only: mult_le_mono1)
    moreover have "numeral_value s < 10 ^ length s" using Cons.prems by (intro numeral_value_bound) simp
    ultimately show ?thesis by (simp add: numeral_value_Cons)
  qed
qed simp

lemma numeral_value_longer:
  assumes "canonical_numeric s" "canonical_numeric t" "length s < length t"
  shows "numeral_value s < numeral_value t"
proof -
  have s: "s \<noteq> []" using assms(1) by (simp add: canonical_numeric_def is_numeric_def)
  obtain d u where t: "t = d # u" "u \<noteq> []" "is_digit d" "d \<noteq> 48"
    using assms(2,3) s by (cases t; cases "tl t") (auto simp: canonical_numeric_def is_numeric_def)
  have "numeral_value s < 10 ^ length s" using assms(1) by (intro numeral_value_bound) (simp add: canonical_numeric_def is_numeric_def)
  also have "\<dots> \<le> 10 ^ length u" using assms(3) t by (intro power_increasing) auto
  also have "\<dots> \<le> (d - 48) * 10 ^ length u" using t by (auto simp: is_digit_def)
  also have "\<dots> \<le> numeral_value t" by (simp add: t numeral_value_Cons)
  finally show ?thesis .
qed

lemma compareNumericIdentifiers_value:
  assumes "canonical_numeric s" "canonical_numeric t"
  shows "compareNumericIdentifiers s t = cmp (numeral_value s) (numeral_value t)"
proof -
  have d: "\<forall>c\<in>set s. is_digit c" "\<forall>c\<in>set t. is_digit c"
    using assms by (auto simp: canonical_numeric_def is_numeric_def)
  have "length s = length t \<Longrightarrow> s \<noteq> t \<Longrightarrow> \<not> s < t \<Longrightarrow> numeral_value t < numeral_value s"
    using numeral_value_less [of t s] d by (metis linorder_less_linear)
  moreover have "length s = length t \<Longrightarrow> s < t \<Longrightarrow> numeral_value s < numeral_value t"
    using numeral_value_less d by blast
  moreover have "length s < length t \<Longrightarrow> numeral_value s < numeral_value t"
    "length t < length s \<Longrightarrow> numeral_value t < numeral_value s"
    using numeral_value_longer assms by blast+
  ultimately show ?thesis
    by (cases "length s" "length t" rule: linorder_cases) (auto simp: compareNumericIdentifiers_def cmp_def)
qed

section \<open>Versions and their text\<close>

definition valid_identifiers :: "jstring list \<Rightarrow> bool" where
  "valid_identifiers ids \<longleftrightarrow> ids \<noteq> [] \<and> (\<forall>i\<in>set ids. i \<noteq> [] \<and> (\<forall>c\<in>set i. ident_char c))"

definition valid_semver :: "semver \<Rightarrow> bool" where
  "valid_semver v \<longleftrightarrow>
     length (sv_core v) = 3 \<and> list_all canonical_numeric (sv_core v) \<and>
     (\<forall>ids. sv_prerelease v = Some ids \<longrightarrow> valid_identifiers ids \<and> \<not> list_ex leading_zero ids) \<and>
     (\<forall>ids. sv_build v = Some ids \<longrightarrow> valid_identifiers ids)"

definition render_semver :: "semver \<Rightarrow> jstring" where
  "render_semver v =
     join [46] (sv_core v) @
     (case sv_prerelease v of None \<Rightarrow> [] | Some ids \<Rightarrow> 45 # join [46] ids) @
     (case sv_build v of None \<Rightarrow> [] | Some ids \<Rightarrow> 43 # join [46] ids)"

lemma ident_char_not [simp]: "\<not> ident_char 46" "\<not> ident_char 43"
  by (simp_all add: ident_char_def is_digit_def)

lemma set_join: "set (join sep ss) \<subseteq> set sep \<union> \<Union> (set ` set ss)"
  by (induction sep ss rule: join.induct) auto

lemma valid_join_no_plus: "valid_identifiers ids \<Longrightarrow> 43 \<notin> set (join [46] ids)"
  using set_join [of "[46]" ids] by (fastforce simp: valid_identifiers_def)

lemma read_identifiers_join: "valid_identifiers ids \<Longrightarrow> read_identifiers (join [46] ids) = Some ids"
proof -
  assume v: "valid_identifiers ids"
  then have "split_on 46 (join [46] ids) = ids"
    by (intro split_on_join) (use ident_char_not(1) in \<open>unfold valid_identifiers_def, blast+\<close>)
  then show ?thesis using v by (simp add: read_identifiers_def valid_identifiers_def)
qed

lemma read_identifiers_Some: "read_identifiers s = Some ids \<Longrightarrow> valid_identifiers ids \<and> join [46] ids = s"
  by (auto simp: read_identifiers_def valid_identifiers_def Let_def join_split_on split: if_splits)

lemma read_numeric_append:
  "canonical_numeric d \<Longrightarrow> (r = [] \<or> \<not> is_digit (hd r)) \<Longrightarrow> read_numeric (d @ r) = Some (d, r)"
proof -
  assume d: "canonical_numeric d" and r: "r = [] \<or> \<not> is_digit (hd r)"
  have all: "\<And>c. c \<in> set d \<Longrightarrow> is_digit c" using d by (simp add: canonical_numeric_def is_numeric_def)
  have "takeWhile is_digit (d @ r) = d" "dropWhile is_digit (d @ r) = r"
    using r all by (cases r; simp)+
  then show ?thesis using d by (simp add: read_numeric_def)
qed

lemma read_numeric_Some: "read_numeric s = Some (d, r) \<Longrightarrow> canonical_numeric d \<and> s = d @ r"
  by (auto simp: read_numeric_def Let_def split: if_splits)

lemma expect_Some [simp]: "expect c s = Some r \<longleftrightarrow> s = c # r"
  by (cases s) auto

lemma not_digit_sep [simp]: "\<not> is_digit 46" "\<not> is_digit 45" "\<not> is_digit 43"
  by (simp_all add: is_digit_def)

definition render_suffix :: "jstring list option \<Rightarrow> jstring list option \<Rightarrow> jstring" where
  "render_suffix pre build =
     (case pre of None \<Rightarrow> [] | Some ids \<Rightarrow> 45 # join [46] ids) @
     (case build of None \<Rightarrow> [] | Some ids \<Rightarrow> 43 # join [46] ids)"

lemma takeWhile_no_plus: "43 \<notin> set p \<Longrightarrow> takeWhile (\<lambda>u. u \<noteq> 43) (p @ 43 # b) = p \<and> dropWhile (\<lambda>u. u \<noteq> 43) (p @ 43 # b) = 43 # b"
  by (induction p) auto

lemma takeWhile_no_plus_end: "43 \<notin> set p \<Longrightarrow> takeWhile (\<lambda>u. u \<noteq> 43) p = p \<and> dropWhile (\<lambda>u. u \<noteq> 43) p = []"
  by (induction p) auto

lemma read_suffix_render:
  assumes "\<forall>ids. pre = Some ids \<longrightarrow> valid_identifiers ids" "\<forall>ids. build = Some ids \<longrightarrow> valid_identifiers ids"
  shows "read_suffix (render_suffix pre build) = Some (pre, build)"
  using assms
  by (cases pre; cases build)
    (auto simp: read_suffix_def render_suffix_def read_identifiers_join takeWhile_no_plus takeWhile_no_plus_end
      valid_join_no_plus)

lemma read_suffix_Some:
  assumes "read_suffix s = Some (pre, build)"
  shows "s = render_suffix pre build \<and> (\<forall>ids. pre = Some ids \<longrightarrow> valid_identifiers ids) \<and>
    (\<forall>ids. build = Some ids \<longrightarrow> valid_identifiers ids)"
proof (cases s)
  case Nil
  then show ?thesis using assms by (auto simp: read_suffix_def render_suffix_def)
next
  case (Cons c t)
  consider "c = 45" | "c = 43" using assms Cons by (auto simp: read_suffix_def split: if_splits)
  then show ?thesis
  proof cases
    case 1
    let ?p = "takeWhile (\<lambda>u. u \<noteq> 43) t" and ?r = "dropWhile (\<lambda>u. u \<noteq> 43) t"
    obtain ids where i: "read_identifiers ?p = Some ids" "pre = Some ids"
      using assms Cons 1 by (auto simp: read_suffix_def split: list.splits Option.bind_splits)
    note ids = read_identifiers_Some [OF i(1)]
    show ?thesis
    proof (cases ?r)
      case Nil
      then have "build = None" using assms \<open>s = c # t\<close> 1 i Nil unfolding read_suffix_def by (simp only: list.case if_True simp_thms bind.bind_lunit) auto
      moreover have "t = ?p" using Nil takeWhile_dropWhile_id [of "\<lambda>u. u \<noteq> 43" t] by (metis append_Nil2)
      ultimately show ?thesis using ids i(2) Cons 1 by (auto simp: render_suffix_def)
    next
      case (Cons d b)
      then have d: "d = 43" using hd_dropWhile [of "\<lambda>u. u \<noteq> 43" t] by auto
      obtain ids' where b: "read_identifiers b = Some ids'" "build = Some ids'"
        using assms \<open>s = c # t\<close> 1 i Cons by (auto simp: read_suffix_def split: Option.bind_splits)
      have "t = join [46] ids @ 43 # join [46] ids'"
        using takeWhile_dropWhile_id [of "\<lambda>u. u \<noteq> 43" t] Cons d ids read_identifiers_Some [OF b(1)] by simp
      then show ?thesis using ids read_identifiers_Some [OF b(1)] i(2) b(2) \<open>s = c # t\<close> 1 by (simp add: render_suffix_def)
    qed
  next
    case 2
    then obtain ids where "read_identifiers t = Some ids" "pre = None" "build = Some ids"
      using assms Cons by (auto simp: read_suffix_def split: Option.bind_splits)
    then show ?thesis using read_identifiers_Some [of t ids] Cons 2 by (auto simp: render_suffix_def)
  qed
qed

lemma parseSemver_render:
  assumes "valid_semver v" "length (render_semver v) \<le> 128"
  shows "parseSemver (JStr (render_semver v)) = Inr v"
proof -
  obtain a b c where abc: "sv_core v = [a, b, c]"
    using assms(1) by (auto simp: valid_semver_def numeral_3_eq_3 length_Suc_conv)
  have can: "canonical_numeric a" "canonical_numeric b" "canonical_numeric c"
    using assms(1) by (auto simp: valid_semver_def abc)
  let ?x = "render_suffix (sv_prerelease v) (sv_build v)"
  have r: "render_semver v = a @ 46 # b @ 46 # c @ ?x" by (simp add: render_semver_def abc render_suffix_def)
  have x: "?x = [] \<or> \<not> is_digit (hd ?x)" by (auto simp: render_suffix_def split: option.splits)
  have "read_suffix ?x = Some (sv_prerelease v, sv_build v)"
    using assms(1) by (intro read_suffix_render) (auto simp: valid_semver_def)
  then have "semver_match (render_semver v) = Some v"
    unfolding semver_match_def r using can x
    by (simp add: read_numeric_append flip: abc)
  then show ?thesis using assms by (auto simp: parseSemver_def valid_semver_def)
qed

lemma parseSemver_Inr:
  assumes "parseSemver (JStr s) = Inr v"
  shows "render_semver v = s \<and> valid_semver v \<and> length s \<le> 128"
proof -
  have m: "semver_match s = Some v" and z: "\<And>ids. sv_prerelease v = Some ids \<Longrightarrow> \<not> list_ex leading_zero ids"
    and l: "length s \<le> 128"
    using assms by (auto simp: parseSemver_def split: if_splits option.splits)
  obtain a s1 b s3 c s5 pre build where
    h: "read_numeric s = Some (a, 46 # s1)" "read_numeric s1 = Some (b, 46 # s3)" "read_numeric s3 = Some (c, s5)"
      "read_suffix s5 = Some (pre, build)"
      "v = \<lparr>sv_core = [a, b, c], sv_prerelease = pre, sv_build = build\<rparr>"
    using m by (auto simp: semver_match_def split: Option.bind_splits prod.splits)
  show ?thesis
    using read_numeric_Some [OF h(1)] read_numeric_Some [OF h(2)] read_numeric_Some [OF h(3)] read_suffix_Some [OF h(4)] z l
    by (auto simp: h(5) render_semver_def render_suffix_def valid_semver_def)
qed

lemma parseSemver_string: "parseSemver w = Inr v \<Longrightarrow> \<exists>s. w = JStr s"
  by (cases w) (auto simp: parseSemver_def)

lemma compareSemver_precedence:
  assumes "parseSemver a = Inr u" "parseSemver b = Inr v"
  shows "compareSemver a b = Inr (cmp (precedence u) (precedence v))"
proof -
  have "length (sv_core u) = 3" "length (sv_core v) = 3"
    using parseSemver_string [OF assms(1)] parseSemver_string [OF assms(2)] parseSemver_Inr assms
    by (auto simp: valid_semver_def)
  then show ?thesis using assms by (simp add: compareSemver_def compare_parsed_precedence)
qed

end
