(* ===== verification/Update_State.thy ===== *)
theory Update_State
  imports Update_Contract
begin

text \<open>
  The state of the update checker (\<open>scripts/check-update.mjs\<close>): the cached record, its validation and
  its transitions, the results reported to the user, the bounded manifest download, and the two entry
  points \<open>checkForUpdate\<close> and \<open>acknowledgeUpdate\<close> over the answers of the file system and the network.

  \<^item> \<open>dateParse\<close> and \<open>toIso\<close> stand for \<open>Date.parse\<close> and \<open>Date.prototype.toISOString\<close>; times are whole
    milliseconds.
  \<^item> \<open>decodeJson\<close> stands for the UTF-8 decoder followed by \<open>JSON.parse\<close> on the downloaded bytes.
\<close>

section \<open>The cached state\<close>

record candidate =
  ca_version :: jstring
  ca_targetDigest :: json
  ca_severity :: jstring
  ca_releaseNotes :: jstring

record update_state =
  us_installedVersion :: "jstring option"
  us_nextCheckAt :: "jstring option"
  us_consecutiveFailures :: nat
  us_offeredDigests :: "jstring list"
  us_acknowledgedDigests :: "jstring list"
  us_candidate :: "candidate option"

definition MAX_CACHE_STATE_BYTES :: nat where "MAX_CACHE_STATE_BYTES = 64 * 1024"
definition CHECK_TTL_MS :: int where "CHECK_TTL_MS = 72 * 60 * 60 * 1000"
definition MAX_CACHE_HORIZON_MS :: int where "MAX_CACHE_HORIZON_MS = 311040000"
definition FIRST_FAILURE_DELAY_MS :: int where "FIRST_FAILURE_DELAY_MS = 6 * 60 * 60 * 1000"
definition LATER_FAILURE_DELAY_MS :: int where "LATER_FAILURE_DELAY_MS = 24 * 60 * 60 * 1000"
definition LONGEST_ISO_TIMESTAMP :: jstring where
  "LONGEST_ISO_TIMESTAMP = js ''+275760-09-13T00:00:00.000Z''"

text \<open>\<open>/^sha256:[a-f0-9]{64}$/\<close>.\<close>

definition digest_text :: "jstring \<Rightarrow> bool" where
  "digest_text s \<longleftrightarrow> take 7 s = js ''sha256:'' \<and> length s = 71 \<and> list_all hex_char (drop 7 s)"

definition digest_test :: "json option \<Rightarrow> bool" where
  "digest_test v \<longleftrightarrow> (case Option.bind v tested_text of None \<Rightarrow> False | Some s \<Rightarrow> digest_text s)"

text \<open>\<open>digests.includes(value)\<close>: strict equality, so only a string can be included.\<close>

definition includes_digest :: "jstring list \<Rightarrow> json \<Rightarrow> bool" where
  "includes_digest digests v \<longleftrightarrow> (case v of JStr s \<Rightarrow> s \<in> set digests | _ \<Rightarrow> False)"

definition validateCachedCandidate :: "json option \<Rightarrow> candidate option" where
  "validateCachedCandidate value =
     (case value of
        None \<Rightarrow> None
      | Some v \<Rightarrow>
          if \<not> isPlainObject v \<or>
             \<not> hasOnlyKeys v [js ''version'', js ''targetDigest'', js ''severity'', js ''releaseNotes'']
          then None
          else (case (get v (js ''version''), get v (js ''severity'')) of
                  (Some (JStr version), Some (JStr severity)) \<Rightarrow>
                    if \<not> isStableCoreVersion (JStr version) then None
                    else if \<not> digest_test (get v (js ''targetDigest'')) \<or>
                            severity \<notin> {js ''normal'', js ''security''} then None
                    else (case validateReleaseNotesUrl (get v (js ''releaseNotes'')) version of
                            Inl _ \<Rightarrow> None
                          | Inr notes \<Rightarrow>
                              Some \<lparr>ca_version = version, ca_targetDigest = the (get v (js ''targetDigest'')),
                                    ca_severity = severity, ca_releaseNotes = notes\<rparr>)
                | _ \<Rightarrow> None))"

definition emptyState :: "jstring option \<Rightarrow> update_state" where
  "emptyState installedVersion =
     \<lparr>us_installedVersion = installedVersion, us_nextCheckAt = None, us_consecutiveFailures = 0,
      us_offeredDigests = [], us_acknowledgedDigests = [], us_candidate = None\<rparr>"

section \<open>The encoded size\<close>

text \<open>The bytes \<open>JSON.stringify\<close> and UTF-8 spend on a string, quotes excluded.\<close>

fun string_bytes :: "jstring \<Rightarrow> nat" where
  "string_bytes [] = 0"
| "string_bytes (c # cs) =
     (if c = 34 \<or> c = 92 \<or> c \<in> {8, 9, 10, 12, 13} then 2 + string_bytes cs
      else if c < 32 then 6 + string_bytes cs
      else if c < 128 then 1 + string_bytes cs
      else if c < 2048 then 2 + string_bytes cs
      else if 55296 \<le> c \<and> c \<le> 56319 then
        (case cs of
           d # ds \<Rightarrow> if 56320 \<le> d \<and> d \<le> 57343 then 4 + string_bytes ds else 6 + string_bytes cs
         | [] \<Rightarrow> 6)
      else if 56320 \<le> c \<and> c \<le> 57343 then 6 + string_bytes cs
      else 3 + string_bytes cs)"

fun decimal_digits :: "nat \<Rightarrow> nat" where
  "decimal_digits n = (if n < 10 then 1 else 1 + decimal_digits (n div 10))"

declare decimal_digits.simps [simp del]

text \<open>The text of a value; the only numbers of a state are natural numbers below \<open>2 ^ 53\<close>.\<close>

fun json_bytes :: "json \<Rightarrow> nat" where
  "json_bytes JNull = 4"
| "json_bytes (JBool b) = (if b then 4 else 5)"
| "json_bytes (JNum v) = decimal_digits (nat \<lfloor>v\<rfloor>)"
| "json_bytes (JStr s) = 2 + string_bytes s"
| "json_bytes (JArr vs) = 2 + (length vs - 1) + sum_list (map json_bytes vs)"
| "json_bytes (JObj kvs) = 2 + (length kvs - 1) + sum_list (map (\<lambda>(k, v). 3 + string_bytes k + json_bytes v) kvs)"

definition candidate_json :: "candidate \<Rightarrow> json" where
  "candidate_json c =
     JObj [(js ''version'', JStr (ca_version c)), (js ''targetDigest'', ca_targetDigest c),
           (js ''severity'', JStr (ca_severity c)), (js ''releaseNotes'', JStr (ca_releaseNotes c))]"

definition string_or_null :: "jstring option \<Rightarrow> json" where
  "string_or_null s = (case s of None \<Rightarrow> JNull | Some t \<Rightarrow> JStr t)"

definition state_json :: "update_state \<Rightarrow> json" where
  "state_json s =
     JObj ([(js ''schemaVersion'', JNum 1), (js ''skillId'', JStr SKILL_ID),
            (js ''installedVersion'', string_or_null (us_installedVersion s)),
            (js ''check'', JObj [(js ''nextCheckAt'', string_or_null (us_nextCheckAt s)),
                                 (js ''consecutiveFailures'', JNum (real (us_consecutiveFailures s)))]),
            (js ''notification'', JObj [(js ''offeredDigests'', JArr (map JStr (us_offeredDigests s))),
                                        (js ''acknowledgedDigests'', JArr (map JStr (us_acknowledgedDigests s)))])] @
           (case us_candidate s of None \<Rightarrow> [] | Some c \<Rightarrow> [(js ''candidate'', candidate_json c)]))"

text \<open>\<open>encodeBoundedState\<close> returns a buffer or \<open>null\<close>; the file holds the text and a line feed.\<close>

definition encodeBoundedState :: "update_state \<Rightarrow> json option" where
  "encodeBoundedState s =
     (if json_bytes (state_json s) + 1 \<le> MAX_CACHE_STATE_BYTES then Some (state_json s) else None)"

definition stateAfterAcknowledgement :: "update_state \<Rightarrow> jstring \<Rightarrow> update_state" where
  "stateAfterAcknowledgement s targetDigest =
     s\<lparr>us_offeredDigests := filter (\<lambda>d. d \<noteq> targetDigest) (us_offeredDigests s),
       us_acknowledgedDigests :=
         (if targetDigest \<in> set (us_acknowledgedDigests s) then us_acknowledgedDigests s
          else us_acknowledgedDigests s @ [targetDigest])\<rparr>"

definition stateWithFailureCheck :: "update_state \<Rightarrow> jstring \<Rightarrow> nat \<Rightarrow> bool \<Rightarrow> update_state" where
  "stateWithFailureCheck s nextCheckAt failures withdrawCandidate =
     (let failed = s\<lparr>us_nextCheckAt := Some nextCheckAt, us_consecutiveFailures := failures\<rparr>
      in if withdrawCandidate then failed\<lparr>us_candidate := None\<rparr> else failed)"

text \<open>The loop over the offered digests, with the state after the acknowledgements so far.\<close>

fun acknowledgements_fit :: "update_state \<Rightarrow> jstring list \<Rightarrow> bool" where
  "acknowledgements_fit s [] = True"
| "acknowledgements_fit s (d # ds) =
     (let s' = stateAfterAcknowledgement s d
      in if encodeBoundedState s' = None \<or>
            encodeBoundedState (stateWithFailureCheck s' LONGEST_ISO_TIMESTAMP 2 False) = None
         then False else acknowledgements_fit s' ds)"

definition encodeRecoverableState :: "update_state \<Rightarrow> json option" where
  "encodeRecoverableState s =
     (case encodeBoundedState s of
        None \<Rightarrow> None
      | Some encoded \<Rightarrow>
          if encodeBoundedState (stateWithFailureCheck s LONGEST_ISO_TIMESTAMP 2 False) = None then None
          else if acknowledgements_fit s (us_offeredDigests s) then Some encoded else None)"

section \<open>Reading a cached state\<close>

text \<open>\<open>[...new Set(values)]\<close>: first occurrences, in order.\<close>

fun unique_from :: "'a list \<Rightarrow> 'a list \<Rightarrow> 'a list" where
  "unique_from seen [] = []"
| "unique_from seen (v # vs) = (if v \<in> set seen then unique_from seen vs else v # unique_from (v # seen) vs)"

definition unique :: "'a list \<Rightarrow> 'a list" where
  "unique vs = unique_from [] vs"

fun digest_list :: "json option \<Rightarrow> jstring list option" where
  "digest_list (Some (JArr vs)) =
     (if \<forall>v\<in>set vs. is_string v \<and> digest_test (Some v) then Some (map (\<lambda>v. the (tested_text v)) vs) else None)"
| "digest_list _ = None"

fun string_or_null_test :: "json option \<Rightarrow> jstring option option" where
  "string_or_null_test (Some JNull) = Some None"
| "string_or_null_test (Some (JStr s)) = Some (Some s)"
| "string_or_null_test _ = None"

text \<open>\<open>Number.isSafeInteger(v) && v >= 0\<close>.\<close>

fun safe_natural :: "json option \<Rightarrow> nat option" where
  "safe_natural (Some (JNum v)) = (if v = of_int \<lfloor>v\<rfloor> \<and> 0 \<le> v \<and> v \<le> 2 ^ 53 - 1 then Some (nat \<lfloor>v\<rfloor>) else None)"
| "safe_natural _ = None"

definition newer :: "jstring \<Rightarrow> jstring \<Rightarrow> bool" where
  "newer v w \<longleftrightarrow> (case compareSemver (JStr v) (JStr w) of Inl _ \<Rightarrow> False | Inr c \<Rightarrow> 0 < c)"

definition candidate_announced :: "update_state \<Rightarrow> candidate \<Rightarrow> bool" where
  "candidate_announced s c \<longleftrightarrow>
     includes_digest (us_offeredDigests s) (ca_targetDigest c) \<or>
     includes_digest (us_acknowledgedDigests s) (ca_targetDigest c)"

definition normalizeState :: "json \<Rightarrow> jstring option \<Rightarrow> update_state option" where
  "normalizeState value installedVersion =
     (if \<not> isPlainObject value \<or> get value (js ''schemaVersion'') \<noteq> Some (JNum 1) \<or>
         get value (js ''skillId'') \<noteq> Some (JStr SKILL_ID) then None
      else do {
        recorded \<leftarrow> string_or_null_test (get value (js ''installedVersion''));
        check \<leftarrow> get value (js ''check'');
        notification \<leftarrow> get value (js ''notification'');
        nextCheckAt \<leftarrow> string_or_null_test (get check (js ''nextCheckAt''));
        failures \<leftarrow> safe_natural (get check (js ''consecutiveFailures''));
        let effective = (if installedVersion \<noteq> None then installedVersion else recorded);
        if installedVersion \<noteq> None \<and> recorded \<noteq> installedVersion \<or> \<not> isPlainObject check \<or>
           \<not> isPlainObject notification \<or>
           (\<exists>v e. effective = Some v \<and> parseSemver (JStr v) = Inl e) then None
        else do {
          offered \<leftarrow> digest_list (get notification (js ''offeredDigests''));
          acknowledged \<leftarrow> digest_list (get notification (js ''acknowledgedDigests''));
          let state = \<lparr>us_installedVersion = effective, us_nextCheckAt = nextCheckAt,
                       us_consecutiveFailures = failures, us_offeredDigests = unique offered,
                       us_acknowledgedDigests = unique acknowledged, us_candidate = None\<rparr>;
          let candidate = validateCachedCandidate (get value (js ''candidate''));
          if get value (js ''candidate'') \<noteq> None \<and> candidate = None then None
          else if (\<exists>c v. candidate = Some c \<and> effective = Some v \<and> newer (ca_version c) v \<and>
                     \<not> candidate_announced state c) then None
          else
            (let final = state\<lparr>us_candidate := candidate\<rparr>
             in if encodeRecoverableState final \<noteq> None then Some final else None)
        }
      })"

section \<open>Results\<close>

record notification =
  no_eventKey :: jstring
  no_installedVersion :: jstring
  no_latestVersion :: jstring
  no_targetDigest :: json
  no_severity :: jstring
  no_releaseNotes :: jstring

datatype silence =
    Runtime_unavailable | Invalid_local_release | Invalid_clock | Cache_unavailable | Cache_valid | Current
  | Already_notified | Check_in_progress | Invalid_manifest | Check_failed | Invalid_acknowledgement

datatype outcome = Silent silence | Update_available notification | Acknowledged jstring

definition eventKeyForDigest :: "jstring \<Rightarrow> jstring" where
  "eventKeyForDigest targetDigest = SKILL_ID @ js ''@'' @ targetDigest"

definition digestForEventKey :: "jstring \<Rightarrow> jstring option" where
  "digestForEventKey eventKey =
     (let prefix = SKILL_ID @ js ''@''
      in if take (length prefix) eventKey \<noteq> prefix then None
         else
           (let digest = drop (length prefix) eventKey
            in if digest_text digest then Some digest else None))"

text \<open>The template literal turns the digest into its text.\<close>

definition notification_for :: "local_release \<Rightarrow> candidate \<Rightarrow> notification" where
  "notification_for localRelease c =
     \<lparr>no_eventKey = eventKeyForDigest (the (tested_text (ca_targetDigest c))),
      no_installedVersion = lo_version localRelease, no_latestVersion = ca_version c,
      no_targetDigest = ca_targetDigest c, no_severity = ca_severity c, no_releaseNotes = ca_releaseNotes c\<rparr>"

definition resultForCandidate :: "local_release \<Rightarrow> update_state \<Rightarrow> outcome" where
  "resultForCandidate localRelease s =
     (case us_candidate s of
        None \<Rightarrow> Silent Cache_valid
      | Some c \<Rightarrow>
          if \<not> newer (ca_version c) (lo_version localRelease) then Silent Current
          else if includes_digest (us_acknowledgedDigests s) (ca_targetDigest c) then Silent Already_notified
          else Update_available (notification_for localRelease c))"

section \<open>Schedules\<close>

text \<open>
  \<open>boundedRandom\<close> is the clamped draw; \<open>Number(random()) || 0\<close> turns \<open>NaN\<close> into 0, so the model's draw
  is a number.
\<close>

definition nextSuccessfulCheck :: "(int \<Rightarrow> jstring) \<Rightarrow> int \<Rightarrow> real \<Rightarrow> jstring" where
  "nextSuccessfulCheck toIso nowMs draw =
     (let boundedRandom = min 1 (max 0 draw);
          multiplier = 8 / 10 + boundedRandom * (4 / 10)
      in toIso (nowMs + js_round (of_int CHECK_TTL_MS * multiplier)))"

definition nextFailedCheck :: "(int \<Rightarrow> jstring) \<Rightarrow> int \<Rightarrow> nat \<Rightarrow> jstring" where
  "nextFailedCheck toIso nowMs failures =
     toIso (nowMs + (if failures \<le> 1 then FIRST_FAILURE_DELAY_MS else LATER_FAILURE_DELAY_MS))"

definition stateAfterFailedCheck :: "(int \<Rightarrow> jstring) \<Rightarrow> update_state \<Rightarrow> int \<Rightarrow> bool \<Rightarrow> update_state" where
  "stateAfterFailedCheck toIso s nowMs withdrawCandidate =
     (let failures = min (us_consecutiveFailures s + 1) 2
      in stateWithFailureCheck s (nextFailedCheck toIso nowMs failures) failures withdrawCandidate)"

definition freshStateResult ::
  "(jstring \<Rightarrow> int option) \<Rightarrow> local_release \<Rightarrow> update_state \<Rightarrow> int \<Rightarrow> outcome option" where
  "freshStateResult dateParse localRelease s nowMs =
     (case dateParse (or_empty (us_nextCheckAt s)) of
        None \<Rightarrow> None
      | Some nextCheckAt \<Rightarrow>
          if nowMs < nextCheckAt \<and> nextCheckAt \<le> nowMs + MAX_CACHE_HORIZON_MS
          then Some (resultForCandidate localRelease s) else None)"

section \<open>The bounded download\<close>

definition MAX_RESPONSE_BYTES :: nat where "MAX_RESPONSE_BYTES = 32 * 1024"

text \<open>\<open>rs_contentLength\<close> is \<open>Number(header)\<close>, \<open>None\<close> when it is not finite; a missing header gives 0.\<close>

record response =
  rs_status :: nat
  rs_contentType :: "jstring option"
  rs_contentLength :: "real option"
  rs_body :: "nat list list option"

datatype fetch_error = Contract contract_error | Request_failed

fun read_chunks :: "nat list \<Rightarrow> nat list list \<Rightarrow> nat list option" where
  "read_chunks received [] = Some received"
| "read_chunks received (chunk # chunks) =
     (if MAX_RESPONSE_BYTES < length received + length chunk then None
      else read_chunks (received @ chunk) chunks)"

definition readBoundedBody :: "response \<Rightarrow> fetch_error + nat list" where
  "readBoundedBody response =
     (if (case rs_contentLength response of None \<Rightarrow> False | Some n \<Rightarrow> real MAX_RESPONSE_BYTES < n)
      then Inl (Contract Invalid_transport)
      else case rs_body response of
          None \<Rightarrow> Inl (Contract Invalid_transport)
        | Some chunks \<Rightarrow>
            (case read_chunks [] chunks of
               None \<Rightarrow> Inl (Contract Invalid_transport)
             | Some bytes \<Rightarrow> Inr bytes))"

definition media_type :: "jstring \<Rightarrow> jstring" where
  "media_type header = map ascii_lower (js_trim (takeWhile (\<lambda>c. c \<noteq> 59) header))"

definition validateManifest :: "json \<Rightarrow> contract_error + candidate" where
  "validateManifest value =
     bind_result (validateStableUpdateManifest value) (\<lambda>manifest.
       Inr \<lparr>ca_version = sm_version manifest,
            ca_targetDigest = JStr (js ''sha256:'' @ the (tested_text (sm_sha256 manifest))),
            ca_severity = sm_severity manifest, ca_releaseNotes = sm_releaseNotes manifest\<rparr>)"

text \<open>\<open>None\<close> as the response is a rejected request or the timeout winning the race.\<close>

definition fetchCandidate ::
  "(nat list \<Rightarrow> json option) \<Rightarrow> jstring \<Rightarrow> response option \<Rightarrow> fetch_error + candidate" where
  "fetchCandidate decodeJson manifestUrl answer =
     (if manifestUrl \<noteq> DEFAULT_MANIFEST_URL then Inl (Contract Invalid_transport)
      else case answer of
          None \<Rightarrow> Inl Request_failed
        | Some response \<Rightarrow>
            if rs_status response \<noteq> 200 then Inl Request_failed
            else if (case rs_contentType response of None \<Rightarrow> True
                     | Some t \<Rightarrow> media_type t \<noteq> js ''application/json'') then Inl (Contract Invalid_transport)
            else bind_result (readBoundedBody response) (\<lambda>bytes.
              case decodeJson bytes of
                None \<Rightarrow> Inl (Contract Invalid_transport)
              | Some decoded \<Rightarrow>
                  (case validateManifest decoded of Inl e \<Rightarrow> Inl (Contract e) | Inr c \<Rightarrow> Inr c)))"

section \<open>Committing a state\<close>

text \<open>
  What the cache answers during \<open>commitOperation\<close>: \<open>None\<close> and \<open>False\<close> are operations that throw;
  \<open>Fenced_meanwhile\<close> is a write that failed and whose operation was found fenced.
\<close>

datatype write_answer = Written | Fenced_meanwhile | Write_failed

record commit_answers =
  cm_owns_before :: "bool option"
  cm_fences :: bool
  cm_owns_after :: "bool option"
  cm_state :: "update_state option"
  cm_cancels :: bool
  cm_write :: write_answer

record decision =
  de_state :: "update_state option"
  de_result :: outcome
  de_fallback :: "(update_state \<times> outcome) option"

record commit_result =
  cr_fenced :: bool
  cr_result :: outcome
  cr_committed :: "update_state option"

definition cancelled :: "commit_answers \<Rightarrow> bool \<Rightarrow> outcome \<Rightarrow> commit_result option" where
  "cancelled a fenced result =
     (if cm_cancels a then Some \<lparr>cr_fenced = fenced, cr_result = result, cr_committed = None\<rparr> else None)"

definition commit_state :: "commit_answers \<Rightarrow> decision \<Rightarrow> commit_result option" where
  "commit_state a d =
     (case de_state d of
        None \<Rightarrow> cancelled a False (de_result d)
      | Some s \<Rightarrow>
          (let chosen =
             (if encodeRecoverableState s \<noteq> None then Some (s, de_result d)
              else case de_fallback d of
                  None \<Rightarrow> None
                | Some (f, r) \<Rightarrow> if encodeRecoverableState f \<noteq> None then Some (f, r) else None)
           in case chosen of
                None \<Rightarrow> cancelled a False (Silent Cache_unavailable)
              | Some (c, r) \<Rightarrow>
                  (case cm_write a of
                     Written \<Rightarrow> Some \<lparr>cr_fenced = False, cr_result = r, cr_committed = Some c\<rparr>
                   | Fenced_meanwhile \<Rightarrow>
                       Some \<lparr>cr_fenced = True, cr_result = Silent Check_in_progress, cr_committed = None\<rparr>
                   | Write_failed \<Rightarrow> None)))"

text \<open>\<open>None\<close> is an exception that leaves \<open>commitOperation\<close>.\<close>

definition commitOperation :: "commit_answers \<Rightarrow> (update_state \<Rightarrow> decision) \<Rightarrow> commit_result option" where
  "commitOperation a mutate =
     (case cm_owns_before a of
        None \<Rightarrow> None
      | Some False \<Rightarrow> cancelled a True (Silent Check_in_progress)
      | Some True \<Rightarrow>
          if \<not> cm_fences a then None
          else (case cm_owns_after a of
                  None \<Rightarrow> None
                | Some False \<Rightarrow> cancelled a True (Silent Check_in_progress)
                | Some True \<Rightarrow>
                    (case cm_state a of None \<Rightarrow> None | Some s \<Rightarrow> commit_state a (mutate s))))"

section \<open>Checking for an update\<close>

datatype acquire_answer = Acquire_throws | Not_acquired | Acquired

record check_answers =
  ce_fetchable :: bool
  ce_release :: "json option"
  ce_now :: "int option"
  ce_prepared :: bool
  ce_state_first :: "update_state option"
  ce_acquire :: acquire_answer
  ce_state_lost :: "update_state option"
  ce_state_again :: "update_state option"
  ce_cancels :: bool
  ce_owns_first :: "bool option"
  ce_token_valid :: bool
  ce_owns_again :: "bool option"
  ce_answer :: "response option"
  ce_commit :: commit_answers
  ce_draw :: real

text \<open>The cached candidate is reported after all when its digest has been offered.\<close>

definition cached_offer :: "local_release \<Rightarrow> update_state option \<Rightarrow> outcome" where
  "cached_offer localRelease cached =
     (case cached of
        None \<Rightarrow> Silent Cache_unavailable
      | Some s \<Rightarrow>
          (case us_candidate s of
             Some c \<Rightarrow> if includes_digest (us_offeredDigests s) (ca_targetDigest c)
                       then resultForCandidate localRelease s else Silent Check_in_progress
           | None \<Rightarrow> Silent Check_in_progress))"

definition resultAfterLosingOperation :: "check_answers \<Rightarrow> local_release \<Rightarrow> outcome" where
  "resultAfterLosingOperation a localRelease =
     (if \<not> ce_cancels a then Silent Cache_unavailable else cached_offer localRelease (ce_state_lost a))"

definition failure_decision :: "(int \<Rightarrow> jstring) \<Rightarrow> int \<Rightarrow> silence \<Rightarrow> update_state \<Rightarrow> decision" where
  "failure_decision toIso nowMs reason current =
     \<lparr>de_state = Some (stateAfterFailedCheck toIso current nowMs False), de_result = Silent reason,
      de_fallback = None\<rparr>"

text \<open>The mutation of the success path; a new digest is pushed when the result is an update.\<close>

definition success_decision ::
  "(int \<Rightarrow> jstring) \<Rightarrow> int \<Rightarrow> real \<Rightarrow> local_release \<Rightarrow> candidate \<Rightarrow> update_state \<Rightarrow> decision" where
  "success_decision toIso nowMs draw localRelease fetched current =
     (let next = current\<lparr>us_candidate := Some fetched,
                         us_nextCheckAt := Some (nextSuccessfulCheck toIso nowMs draw),
                         us_consecutiveFailures := 0\<rparr>;
          result = resultForCandidate localRelease next;
          offered = (case result of
                       Update_available _ \<Rightarrow>
                         if includes_digest (us_offeredDigests next) (ca_targetDigest fetched) then us_offeredDigests next
                         else us_offeredDigests next @ [the (tested_text (ca_targetDigest fetched))]
                     | _ \<Rightarrow> us_offeredDigests next)
      in \<lparr>de_state = Some (next\<lparr>us_offeredDigests := offered\<rparr>), de_result = result,
          de_fallback = Some (stateAfterFailedCheck toIso current nowMs True, Silent Cache_unavailable)\<rparr>)"

definition committed_outcome :: "commit_result option \<Rightarrow> outcome \<times> update_state option" where
  "committed_outcome r =
     (case r of None \<Rightarrow> (Silent Cache_unavailable, None) | Some c \<Rightarrow> (cr_result c, cr_committed c))"

definition fetch_and_commit ::
  "(nat list \<Rightarrow> json option) \<Rightarrow> (int \<Rightarrow> jstring) \<Rightarrow> check_answers \<Rightarrow> local_release \<Rightarrow> int \<Rightarrow>
     outcome \<times> update_state option" where
  "fetch_and_commit decodeJson toIso a localRelease nowMs =
     (case fetchCandidate decodeJson DEFAULT_MANIFEST_URL (ce_answer a) of
        Inl e \<Rightarrow>
          committed_outcome (commitOperation (ce_commit a)
            (failure_decision toIso nowMs
               (case e of Contract _ \<Rightarrow> Invalid_manifest | Request_failed \<Rightarrow> Check_failed)))
      | Inr c \<Rightarrow>
          committed_outcome (commitOperation (ce_commit a)
            (success_decision toIso nowMs (ce_draw a) localRelease c)))"

text \<open>
  The result reported, and the state the call committed, if any. The manifest URL fetched is that of the
  release record, which \<open>validateLocalRelease\<close> has compared with the constant.
\<close>

definition checkForUpdate ::
  "(nat list \<Rightarrow> json option) \<Rightarrow> (jstring \<Rightarrow> int option) \<Rightarrow> (int \<Rightarrow> jstring) \<Rightarrow> check_answers \<Rightarrow>
     outcome \<times> update_state option" where
  "checkForUpdate decodeJson dateParse toIso a =
     (if \<not> ce_fetchable a then (Silent Runtime_unavailable, None)
      else case (case ce_release a of None \<Rightarrow> None | Some v \<Rightarrow>
                   (case validateLocalRelease v of Inl _ \<Rightarrow> None | Inr r \<Rightarrow> Some r)) of
        None \<Rightarrow> (Silent Invalid_local_release, None)
      | Some localRelease \<Rightarrow>
        (case ce_now a of
          None \<Rightarrow> (Silent Invalid_clock, None)
        | Some nowMs \<Rightarrow>
          (case (if ce_prepared a then ce_state_first a else None) of
            None \<Rightarrow> (Silent Cache_unavailable, None)
          | Some s \<Rightarrow>
            (case freshStateResult dateParse localRelease s nowMs of
              Some r \<Rightarrow> (r, None)
            | None \<Rightarrow>
              (case ce_acquire a of
                Acquire_throws \<Rightarrow> (Silent Cache_unavailable, None)
              | Not_acquired \<Rightarrow> (cached_offer localRelease (ce_state_lost a), None)
              | Acquired \<Rightarrow>
                (case ce_state_again a of
                  None \<Rightarrow> (Silent Cache_unavailable, None)
                | Some s' \<Rightarrow>
                  (case freshStateResult dateParse localRelease s' nowMs of
                    Some r \<Rightarrow> (if ce_cancels a then r else Silent Cache_unavailable, None)
                  | None \<Rightarrow>
                    (case ce_owns_first a of
                      None \<Rightarrow> (Silent Cache_unavailable, None)
                    | Some False \<Rightarrow> (resultAfterLosingOperation a localRelease, None)
                    | Some True \<Rightarrow>
                        if \<not> ce_token_valid a then (Silent Cache_unavailable, None)
                        else (case ce_owns_again a of
                                None \<Rightarrow> (Silent Cache_unavailable, None)
                              | Some False \<Rightarrow> (resultAfterLosingOperation a localRelease, None)
                              | Some True \<Rightarrow> fetch_and_commit decodeJson toIso a localRelease nowMs))))))))) "

section \<open>Acknowledging an update\<close>

text \<open>
  One round of the acknowledgement loop; \<open>ak_retries\<close> is the answer of \<open>waitUntilRetry\<close>. The rounds are
  a list; running out of rounds is \<open>None\<close>.
\<close>

record ack_round =
  ak_acquire :: acquire_answer
  ak_commit :: commit_answers
  ak_retries :: bool

definition acknowledge_decision :: "jstring \<Rightarrow> jstring \<Rightarrow> update_state \<Rightarrow> decision" where
  "acknowledge_decision eventKey targetDigest s =
     (if targetDigest \<notin> set (us_offeredDigests s) \<and> targetDigest \<notin> set (us_acknowledgedDigests s)
      then \<lparr>de_state = None, de_result = Silent Invalid_acknowledgement, de_fallback = None\<rparr>
      else \<lparr>de_state = Some (stateAfterAcknowledgement s targetDigest), de_result = Acknowledged eventKey,
            de_fallback = None\<rparr>)"

fun acknowledge_rounds :: "jstring \<Rightarrow> jstring \<Rightarrow> ack_round list \<Rightarrow> (outcome \<times> update_state option) option" where
  "acknowledge_rounds eventKey targetDigest [] = None"
| "acknowledge_rounds eventKey targetDigest (a # as) =
     (case ak_acquire a of
        Acquire_throws \<Rightarrow> Some (Silent Cache_unavailable, None)
      | Not_acquired \<Rightarrow>
          if ak_retries a then acknowledge_rounds eventKey targetDigest as
          else Some (Silent Check_in_progress, None)
      | Acquired \<Rightarrow>
          (case commitOperation (ak_commit a) (acknowledge_decision eventKey targetDigest) of
             None \<Rightarrow> Some (Silent Cache_unavailable, None)
           | Some c \<Rightarrow>
               if \<not> cr_fenced c then Some (cr_result c, cr_committed c)
               else if ak_retries a then acknowledge_rounds eventKey targetDigest as
               else Some (Silent Check_in_progress, None)))"

definition acknowledgeUpdate ::
  "json option \<Rightarrow> bool \<Rightarrow> bool \<Rightarrow> jstring \<Rightarrow> ack_round list \<Rightarrow> (outcome \<times> update_state option) option" where
  "acknowledgeUpdate release prepared clock_finite eventKey rounds =
     (case digestForEventKey eventKey of
        None \<Rightarrow> Some (Silent Invalid_acknowledgement, None)
      | Some targetDigest \<Rightarrow>
          (case (case release of None \<Rightarrow> None | Some v \<Rightarrow>
                   (case validateLocalRelease v of Inl _ \<Rightarrow> None | Inr r \<Rightarrow> Some r)) of
             None \<Rightarrow> Some (Silent Invalid_local_release, None)
           | Some localRelease \<Rightarrow>
               if \<not> prepared then Some (Silent Cache_unavailable, None)
               else if \<not> clock_finite then Some (Silent Invalid_acknowledgement, None)
               else acknowledge_rounds eventKey targetDigest rounds))"

end
