(* ===== verification/Update_Laws.thy ===== *)
theory Update_Laws
  imports Update_State
begin

text \<open>
  The laws of the cached update state: the capacity the encoder reserves, the invariant of a state that
  was read or committed, the round trip through the cache file, and what the two entry points report.
\<close>

section \<open>The capacity reserved for acknowledgements and failures\<close>

lemma hex_char_bounds: "hex_char c \<Longrightarrow> 48 \<le> c \<and> c \<le> 102 \<and> c \<noteq> 92"
  by (auto simp: hex_char_def is_digit_def)

lemma string_bytes_plain: "(\<And>c. c \<in> set s \<Longrightarrow> 35 \<le> c \<and> c < 128 \<and> c \<noteq> 92) \<Longrightarrow> string_bytes s = length s"
proof (induction s)
  case (Cons c s)
  then have "35 \<le> c" "c < 128" "c \<noteq> 92" by auto
  then have "\<not> (c = 34 \<or> c = 92 \<or> c \<in> {8, 9, 10, 12, 13})" "\<not> c < 32" "c < 128" by auto
  with Cons show ?case by simp
qed simp

lemma digest_bytes: "digest_text d \<Longrightarrow> string_bytes d = 71"
proof -
  assume d: "digest_text d"
  then have e: "d = js ''sha256:'' @ drop 7 d" by (metis append_take_drop_id digest_text_def)
  have "string_bytes d = length d"
  proof (rule string_bytes_plain)
    fix c assume "c \<in> set d"
    then have "c \<in> set (js ''sha256:'') \<or> c \<in> set (drop 7 d)" by (subst (asm) e) simp
    then show "35 \<le> c \<and> c < 128 \<and> c \<noteq> 92"
    proof
      assume "c \<in> set (drop 7 d)"
      then have "hex_char c" using d by (simp add: digest_text_def list_all_iff)
      then show ?thesis using hex_char_bounds [of c] by simp
    qed auto
  qed
  then show ?thesis using d by (simp add: digest_text_def)
qed

text \<open>The bytes of a list of \<open>n\<close> digests, brackets excluded.\<close>

definition digests_bytes :: "nat \<Rightarrow> nat" where
  "digests_bytes n = 73 * n + (n - 1)"

definition frame_bytes :: "update_state \<Rightarrow> nat" where
  "frame_bytes s = json_bytes (state_json (s\<lparr>us_offeredDigests := [], us_acknowledgedDigests := []\<rparr>))"

lemma digest_array_bytes:
  "\<forall>d\<in>set ds. digest_text d \<Longrightarrow> json_bytes (JArr (map JStr ds)) = 2 + digests_bytes (length ds)"
proof -
  assume d: "\<forall>d\<in>set ds. digest_text d"
  have "sum_list (map json_bytes (map JStr ds)) = sum_list (map (\<lambda>_. 73) ds)"
    using d digest_bytes by (simp add: comp_def cong: map_cong)
  then show ?thesis by (simp add: digests_bytes_def sum_list_triv)
qed

definition digests_ok :: "update_state \<Rightarrow> bool" where
  "digests_ok s \<longleftrightarrow> distinct (us_offeredDigests s) \<and> distinct (us_acknowledgedDigests s) \<and>
     (\<forall>d\<in>set (us_offeredDigests s) \<union> set (us_acknowledgedDigests s). digest_text d)"

definition offered_set :: "update_state \<Rightarrow> jstring set" where
  "offered_set s = set (us_offeredDigests s)"

definition acked_set :: "update_state \<Rightarrow> jstring set" where
  "acked_set s = set (us_acknowledgedDigests s)"

definition lists_bytes :: "jstring set \<Rightarrow> jstring set \<Rightarrow> nat" where
  "lists_bytes offered acked = digests_bytes (card offered) + digests_bytes (card acked)"

lemma state_bytes:
  assumes "digests_ok s"
  shows "json_bytes (state_json s) = frame_bytes s + lists_bytes (offered_set s) (acked_set s)"
proof -
  have "card (offered_set s) = length (us_offeredDigests s)" "card (acked_set s) = length (us_acknowledgedDigests s)"
    using assms by (simp_all add: offered_set_def acked_set_def digests_ok_def distinct_card)
  moreover have "json_bytes (JArr (map JStr (us_offeredDigests s))) = 2 + digests_bytes (length (us_offeredDigests s))"
    "json_bytes (JArr (map JStr (us_acknowledgedDigests s))) = 2 + digests_bytes (length (us_acknowledgedDigests s))"
    using assms digest_array_bytes by (simp_all add: digests_ok_def del: json_bytes.simps)
  ultimately show ?thesis
    by (simp add: frame_bytes_def lists_bytes_def state_json_def split: option.splits)
qed

definition failed :: "update_state \<Rightarrow> update_state" where
  "failed s = stateWithFailureCheck s LONGEST_ISO_TIMESTAMP 2 False"

lemma failed_fields [simp]:
  "us_offeredDigests (failed s) = us_offeredDigests s" "us_acknowledgedDigests (failed s) = us_acknowledgedDigests s"
  "offered_set (failed s) = offered_set s" "acked_set (failed s) = acked_set s" "digests_ok (failed s) = digests_ok s"
  by (simp_all add: failed_def stateWithFailureCheck_def offered_set_def acked_set_def digests_ok_def)

definition capacity_bytes :: "update_state \<Rightarrow> nat" where
  "capacity_bytes s = max (frame_bytes s) (frame_bytes (failed s)) + 1"

definition fits :: "update_state \<Rightarrow> bool" where
  "fits s \<longleftrightarrow> encodeBoundedState s \<noteq> None \<and> encodeBoundedState (failed s) \<noteq> None"

lemma fits_bytes:
  "digests_ok s \<Longrightarrow> fits s \<longleftrightarrow> capacity_bytes s + lists_bytes (offered_set s) (acked_set s) \<le> MAX_CACHE_STATE_BYTES"
  by (auto simp: fits_def encodeBoundedState_def capacity_bytes_def state_bytes)

lemma acked_fields:
  assumes "digests_ok s" "digest_text d"
  defines "s' \<equiv> stateAfterAcknowledgement s d"
  shows "digests_ok s'" "offered_set s' = offered_set s - {d}" "acked_set s' = insert d (acked_set s)"
    "capacity_bytes s' = capacity_bytes s"
  using assms
  by (auto simp: stateAfterAcknowledgement_def digests_ok_def offered_set_def acked_set_def capacity_bytes_def
      frame_bytes_def failed_def stateWithFailureCheck_def)

lemma ball_from_1: "(\<forall>k\<in>{1..Suc n}. P k) \<longleftrightarrow> P 1 \<and> (\<forall>k\<in>{1..n}. P (Suc k))"
proof -
  have "{1..Suc n} = insert 1 (Suc ` {1..n})" by (simp add: image_Suc_atLeastAtMost) (auto simp: atLeastAtMost_insertL)
  then show ?thesis by (simp only: ball_simps)
qed

lemma acknowledgements_fit_iff:
  assumes "digests_ok s" "\<forall>d\<in>set ds. digest_text d"
  shows "acknowledgements_fit s ds \<longleftrightarrow>
    (\<forall>k \<in> {1..length ds}. capacity_bytes s +
       lists_bytes (offered_set s - set (take k ds)) (acked_set s \<union> set (take k ds)) \<le> MAX_CACHE_STATE_BYTES)"
  using assms
proof (induction ds arbitrary: s)
  case (Cons d ds)
  let ?s = "stateAfterAcknowledgement s d"
  note f = acked_fields [of s d]
  have ok: "digests_ok ?s" "digest_text d" using Cons.prems f by auto
  have "acknowledgements_fit s (d # ds) \<longleftrightarrow> fits ?s \<and> acknowledgements_fit ?s ds"
    by (auto simp: Let_def fits_def failed_def)
  also have "fits ?s \<longleftrightarrow> capacity_bytes s + lists_bytes (offered_set s - {d}) (insert d (acked_set s)) \<le> MAX_CACHE_STATE_BYTES"
    using fits_bytes [OF ok(1)] f Cons.prems by simp
  also have "acknowledgements_fit ?s ds \<longleftrightarrow>
    (\<forall>k \<in> {1..length ds}. capacity_bytes s +
       lists_bytes (offered_set s - {d} - set (take k ds)) (insert d (acked_set s) \<union> set (take k ds)) \<le> MAX_CACHE_STATE_BYTES)"
    using Cons.IH [OF ok(1)] Cons.prems f by simp
  finally have "acknowledgements_fit s (d # ds) \<longleftrightarrow>
      capacity_bytes s + lists_bytes (offered_set s - {d}) (insert d (acked_set s)) \<le> MAX_CACHE_STATE_BYTES \<and>
      (\<forall>k \<in> {1..length ds}. capacity_bytes s +
         lists_bytes (offered_set s - set (take (Suc k) (d # ds))) (acked_set s \<union> set (take (Suc k) (d # ds)))
           \<le> MAX_CACHE_STATE_BYTES)"
    by (simp add: Diff_insert2 [symmetric] insert_commute)
  then show ?case unfolding list.size(4) add_Suc_right add_0_right ball_from_1 by simp
qed simp

lemma digests_bytes_middle:
  assumes "finite offered" "finite acked" "S \<subseteq> offered"
  shows "lists_bytes (offered - S) (acked \<union> S) \<le>
    max (lists_bytes offered acked) (lists_bytes {} (acked \<union> offered))"
proof (cases "S = {} \<or> S = offered")
  case True
  then show ?thesis by auto
next
  case False
  have fS: "finite S" using assms by (auto intro: finite_subset)
  let ?x = "card (offered - S)" and ?y = "card (acked \<union> S)"
  have xy: "1 \<le> ?x" "1 \<le> ?y"
    using False assms fS by (auto simp: Suc_le_eq card_gt_0_iff)
  have "?x = card offered - card S" using assms(3) fS by (simp add: card_Diff_subset)
  moreover have "card S \<le> card offered" using assms by (simp add: card_mono)
  moreover have "?y \<le> card acked + card S" by (rule card_Un_le)
  ultimately have "?x + ?y \<le> card offered + card acked" by simp
  moreover have "1 \<le> card offered" using xy(1) assms(1) card_mono [of offered "offered - S"] by auto
  ultimately show ?thesis using xy by (auto simp: lists_bytes_def digests_bytes_def)
qed

lemma recoverable_iff:
  assumes "digests_ok s"
  shows "encodeRecoverableState s \<noteq> None \<longleftrightarrow>
    capacity_bytes s + lists_bytes (offered_set s) (acked_set s) \<le> MAX_CACHE_STATE_BYTES \<and>
    (offered_set s \<noteq> {} \<longrightarrow>
       capacity_bytes s + lists_bytes {} (acked_set s \<union> offered_set s) \<le> MAX_CACHE_STATE_BYTES)"
proof -
  let ?ds = "us_offeredDigests s"
  have dt: "\<forall>d\<in>set ?ds. digest_text d" using assms by (simp add: digests_ok_def)
  have "encodeRecoverableState s \<noteq> None \<longleftrightarrow> acknowledgements_fit s ?ds \<and> fits s"
    by (auto simp: encodeRecoverableState_def fits_def failed_def split: option.splits)
  also have "acknowledgements_fit s ?ds \<and> fits s \<longleftrightarrow> fits s \<and> (offered_set s \<noteq> {} \<longrightarrow>
       capacity_bytes s + lists_bytes {} (acked_set s \<union> offered_set s) \<le> MAX_CACHE_STATE_BYTES)"
  proof (cases "?ds = []")
    case True
    then show ?thesis by (simp add: offered_set_def)
  next
    case False
    have "capacity_bytes s + lists_bytes (offered_set s - set (take k ?ds)) (acked_set s \<union> set (take k ?ds)) \<le> MAX_CACHE_STATE_BYTES"
      if "fits s" "capacity_bytes s + lists_bytes {} (acked_set s \<union> offered_set s) \<le> MAX_CACHE_STATE_BYTES" for k
    proof -
      have "lists_bytes (offered_set s - set (take k ?ds)) (acked_set s \<union> set (take k ?ds)) \<le>
          max (lists_bytes (offered_set s) (acked_set s)) (lists_bytes {} (acked_set s \<union> offered_set s))"
        by (rule digests_bytes_middle) (auto simp: offered_set_def acked_set_def set_take_subset dest: in_set_takeD)
      then show ?thesis using that fits_bytes [OF assms] by auto
    qed
    moreover have last: "length ?ds \<in> {1..length ?ds}" using False by (simp add: Suc_le_eq)
    moreover have ne: "offered_set s \<noteq> {}" using False by (simp add: offered_set_def)
    moreover have "capacity_bytes s + lists_bytes {} (acked_set s \<union> offered_set s) \<le> MAX_CACHE_STATE_BYTES"
      if "\<forall>k\<in>{1..length ?ds}. capacity_bytes s +
        lists_bytes (offered_set s - set (take k ?ds)) (acked_set s \<union> set (take k ?ds)) \<le> MAX_CACHE_STATE_BYTES"
      using bspec [OF that last] by (simp add: offered_set_def)
    ultimately show ?thesis
      unfolding acknowledgements_fit_iff [OF assms dt] by blast
  qed
  finally show ?thesis using fits_bytes [OF assms] by (auto simp: conj_commute)
qed

text \<open>An offered update can always be acknowledged: the room for it is reserved.\<close>

lemma acknowledgement_recoverable:
  assumes "digests_ok s" "encodeRecoverableState s \<noteq> None" "d \<in> offered_set s \<union> acked_set s"
  shows "encodeRecoverableState (stateAfterAcknowledgement s d) \<noteq> None"
proof -
  have dt: "digest_text d" using assms(1,3) by (auto simp: digests_ok_def offered_set_def acked_set_def)
  note f = acked_fields [OF assms(1) dt]
  note r = assms(2) [unfolded recoverable_iff [OF assms(1)]]
  show ?thesis
  proof (cases "d \<in> offered_set s")
    case True
    have "lists_bytes (offered_set s - {d}) (acked_set s \<union> {d}) \<le>
        max (lists_bytes (offered_set s) (acked_set s)) (lists_bytes {} (acked_set s \<union> offered_set s))"
      using True by (intro digests_bytes_middle) (auto simp: offered_set_def acked_set_def)
    moreover have "insert d (acked_set s) \<union> (offered_set s - {d}) = acked_set s \<union> offered_set s" using True by auto
    ultimately show ?thesis using r True unfolding recoverable_iff [OF f(1)] f(2-4) by auto
  next
    case False
    then have "offered_set s - {d} = offered_set s" "insert d (acked_set s) = acked_set s" using assms(3) by auto
    then show ?thesis using r unfolding recoverable_iff [OF f(1)] f(2-4) by simp
  qed
qed

text \<open>A failed check can always be recorded, when its timestamp is no longer than the longest one.\<close>

lemma failure_recoverable:
  assumes "digests_ok s" "encodeRecoverableState s \<noteq> None" "string_bytes t \<le> 27" "n < 10"
  shows "encodeRecoverableState (stateWithFailureCheck s t n False) \<noteq> None"
proof -
  let ?s = "stateWithFailureCheck s t n False"
  have ok: "digests_ok ?s" "offered_set ?s = offered_set s" "acked_set ?s = acked_set s"
    using assms(1) by (simp_all add: stateWithFailureCheck_def digests_ok_def offered_set_def acked_set_def)
  have long: "string_bytes LONGEST_ISO_TIMESTAMP = 27" by (simp add: LONGEST_ISO_TIMESTAMP_def)
  have "frame_bytes ?s \<le> frame_bytes (failed s)"
    using assms(3,4) long
    by (simp add: frame_bytes_def failed_def stateWithFailureCheck_def state_json_def string_or_null_def
        decimal_digits.simps [of n] decimal_digits.simps [of 2] split: option.splits)
  moreover have "failed ?s = failed s" by (simp add: failed_def stateWithFailureCheck_def)
  ultimately have "capacity_bytes ?s \<le> capacity_bytes s" by (simp add: capacity_bytes_def)
  then show ?thesis
    using assms(2) unfolding recoverable_iff [OF assms(1)] recoverable_iff [OF ok(1)] ok(2,3) by auto
qed

section \<open>The invariant of a state\<close>

definition wf_candidate :: "candidate \<Rightarrow> bool" where
  "wf_candidate c \<longleftrightarrow>
     isStableCoreVersion (JStr (ca_version c)) \<and> digest_test (Some (ca_targetDigest c)) \<and>
     ca_severity c \<in> {js ''normal'', js ''security''} \<and> ca_releaseNotes c = release_notes_prefix @ ca_version c"

definition wf_state :: "jstring \<Rightarrow> update_state \<Rightarrow> bool" where
  "wf_state v s \<longleftrightarrow>
     us_installedVersion s = Some v \<and> (\<exists>p. parseSemver (JStr v) = Inr p) \<and> digests_ok s \<and>
     us_consecutiveFailures s \<le> 2 ^ 53 - 1 \<and>
     (\<forall>c. us_candidate s = Some c \<longrightarrow> wf_candidate c \<and> (newer (ca_version c) v \<longrightarrow> candidate_announced s c)) \<and>
     encodeRecoverableState s \<noteq> None"

lemma unique_from_spec: "distinct (unique_from seen vs) \<and> set (unique_from seen vs) = set vs - set seen"
  by (induction vs arbitrary: seen) auto

lemma distinct_unique [simp]: "distinct (unique vs)" and set_unique [simp]: "set (unique vs) = set vs"
  using unique_from_spec [of "[]" vs] by (simp_all add: unique_def)

lemma unique_from_id: "distinct vs \<Longrightarrow> set vs \<inter> set seen = {} \<Longrightarrow> unique_from seen vs = vs"
  by (induction vs arbitrary: seen) auto

lemma unique_id: "distinct vs \<Longrightarrow> unique vs = vs"
  by (simp add: unique_def unique_from_id)

lemma digest_test_string [simp]: "digest_test (Some (JStr s)) = digest_text s"
  by (simp add: digest_test_def)

lemma digest_list_Some: "digest_list v = Some ds \<Longrightarrow> \<forall>d\<in>set ds. digest_text d"
proof (induction v rule: digest_list.induct)
  case (1 vs)
  then have vs: "\<forall>v\<in>set vs. is_string v \<and> digest_test (Some v)" "ds = map (\<lambda>v. the (tested_text v)) vs"
    by (auto split: if_splits)
  have "digest_text (the (tested_text v))" if "v \<in> set vs" for v
    using vs(1) that by (cases v) auto
  then show ?case using vs(2) by auto
qed auto

lemma digest_list_strings: "\<forall>d\<in>set ds. digest_text d \<Longrightarrow> digest_list (Some (JArr (map JStr ds))) = Some ds"
  by (simp add: comp_def)

lemma validateReleaseNotesUrl_Inr:
  "validateReleaseNotesUrl v w = Inr n \<longleftrightarrow>
     isStableCoreVersion (JStr w) \<and> v = Some (JStr (release_notes_prefix @ w)) \<and> n = release_notes_prefix @ w"
  by (auto simp: validateReleaseNotesUrl_def)

lemma digest_test_the: "digest_test v \<Longrightarrow> digest_test (Some (the v))"
  by (cases v) (simp_all add: digest_test_def)

lemma validateCachedCandidate_Some: "validateCachedCandidate v = Some c \<Longrightarrow> wf_candidate c"
  unfolding validateCachedCandidate_def
  by (auto simp: wf_candidate_def validateReleaseNotesUrl_Inr digest_test_the simp del: js_simps
      split: option.splits if_splits json.splits sum.splits)

lemma validateCachedCandidate_json: "wf_candidate c \<Longrightarrow> validateCachedCandidate (Some (candidate_json c)) = Some c"
  by (simp add: validateCachedCandidate_def wf_candidate_def candidate_json_def hasOnlyKeys_def validateReleaseNotesUrl_def)

lemma safe_natural_real: "n \<le> 2 ^ 53 - 1 \<Longrightarrow> safe_natural (Some (JNum (real n))) = Some n"
proof -
  assume "n \<le> 2 ^ 53 - 1"
  then have "real n \<le> 2 ^ 53 - 1" by simp
  then show ?thesis by simp
qed

lemma string_or_null_test_back [simp]: "string_or_null_test (Some (string_or_null s)) = Some s"
  by (cases s) (simp_all add: string_or_null_def)

lemma get_state_json:
  "get (state_json s) (js ''schemaVersion'') = Some (JNum 1)"
  "get (state_json s) (js ''skillId'') = Some (JStr SKILL_ID)"
  "get (state_json s) (js ''installedVersion'') = Some (string_or_null (us_installedVersion s))"
  "get (state_json s) (js ''check'') = Some (JObj [(js ''nextCheckAt'', string_or_null (us_nextCheckAt s)),
     (js ''consecutiveFailures'', JNum (real (us_consecutiveFailures s)))])"
  "get (state_json s) (js ''notification'') = Some (JObj [(js ''offeredDigests'', JArr (map JStr (us_offeredDigests s))),
     (js ''acknowledgedDigests'', JArr (map JStr (us_acknowledgedDigests s)))])"
  "get (state_json s) (js ''candidate'') = map_option candidate_json (us_candidate s)"
  "isPlainObject (state_json s)"
  by (simp_all add: state_json_def split: option.splits)

lemma safe_natural_bound: "safe_natural v = Some n \<Longrightarrow> n \<le> 2 ^ 53 - 1"
  by (induction v rule: safe_natural.induct) (auto split: if_splits simp: le_nat_floor nat_le_iff floor_le_iff)


lemma if_Some_iff:
  "(if P then None else w) = Some u \<longleftrightarrow> \<not> P \<and> w = Some u"
  "(if P then Some t else None) = Some u \<longleftrightarrow> P \<and> t = u"
  by auto

text \<open>What a successful \<open>normalizeState\<close> has read.\<close>

lemma normalizeState_Some:
  assumes "normalizeState value (Some v) = Some s"
  shows "\<exists>next n off ack failures offered acknowledged cand p.
    safe_natural failures = Some n \<and> digest_list offered = Some off \<and> digest_list acknowledged = Some ack \<and>
    parseSemver (JStr v) = Inr p \<and>
    s = \<lparr>us_installedVersion = Some v, us_nextCheckAt = next, us_consecutiveFailures = n,
         us_offeredDigests = unique off, us_acknowledgedDigests = unique ack,
         us_candidate = validateCachedCandidate cand\<rparr> \<and>
    (\<forall>c. us_candidate s = Some c \<longrightarrow> newer (ca_version c) v \<longrightarrow> candidate_announced s c) \<and>
    encodeRecoverableState s \<noteq> None"
proof -
  obtain check notification recorded "next" n off ack where
    h: "safe_natural (get check (js ''consecutiveFailures'')) = Some n"
      "digest_list (get notification (js ''offeredDigests'')) = Some off"
      "digest_list (get notification (js ''acknowledgedDigests'')) = Some ack"
      "\<not> (\<exists>w e. Some v = Some w \<and> parseSemver (JStr w) = Inl e)"
    and c: "\<not> (\<exists>c w. validateCachedCandidate (get value (js ''candidate'')) = Some c \<and> Some v = Some w \<and>
        newer (ca_version c) w \<and> \<not> candidate_announced \<lparr>us_installedVersion = Some v, us_nextCheckAt = next, us_consecutiveFailures = n,
         us_offeredDigests = unique off, us_acknowledgedDigests = unique ack, us_candidate = None\<rparr> c)"
    and s: "encodeRecoverableState s \<noteq> None" "s = \<lparr>us_installedVersion = Some v, us_nextCheckAt = next, us_consecutiveFailures = n,
         us_offeredDigests = unique off, us_acknowledgedDigests = unique ack,
         us_candidate = validateCachedCandidate (get value (js ''candidate''))\<rparr>"
    using assms unfolding normalizeState_def Let_def bind_eq_Some_conv if_Some_iff
    by (elim exE conjE) (simp del: js_simps)
  obtain p where "parseSemver (JStr v) = Inr p" using h(4) by (cases "parseSemver (JStr v)") auto
  moreover have "\<forall>c. us_candidate s = Some c \<longrightarrow> newer (ca_version c) v \<longrightarrow> candidate_announced s c"
    using c s(2) by (auto simp: candidate_announced_def)
  ultimately show ?thesis using h(1-3) s by blast
qed

lemma normalizeState_wf:
  assumes "normalizeState value (Some v) = Some s"
  shows "wf_state v s"
proof -
  obtain "next" n off ack failures offered acknowledged cand p where
    h: "safe_natural failures = Some n" "digest_list offered = Some off" "digest_list acknowledged = Some ack"
      "parseSemver (JStr v) = Inr p"
      "s = \<lparr>us_installedVersion = Some v, us_nextCheckAt = next, us_consecutiveFailures = n,
         us_offeredDigests = unique off, us_acknowledgedDigests = unique ack,
         us_candidate = validateCachedCandidate cand\<rparr>"
      "\<forall>c. us_candidate s = Some c \<longrightarrow> newer (ca_version c) v \<longrightarrow> candidate_announced s c"
      "encodeRecoverableState s \<noteq> None"
    using normalizeState_Some [OF assms] by blast
  have "digests_ok s" using digest_list_Some [OF h(2)] digest_list_Some [OF h(3)] by (auto simp: digests_ok_def h(5))
  moreover have "us_consecutiveFailures s \<le> 2 ^ 53 - 1" using safe_natural_bound [OF h(1)] by (simp add: h(5))
  moreover have "us_candidate s = Some c \<Longrightarrow> wf_candidate c" for c
    using validateCachedCandidate_Some [of cand c] by (simp add: h(5))
  ultimately show ?thesis using h(4,6,7) by (auto simp: wf_state_def h(5) simp del: power_numeral)
qed

text \<open>Writing a state and reading it back.\<close>

lemma normalizeState_roundtrip:
  assumes "wf_state v s"
  shows "normalizeState (state_json s) (Some v) = Some s"
proof -
  obtain nx n off ack cand where s: "s = \<lparr>us_installedVersion = Some v, us_nextCheckAt = nx,
      us_consecutiveFailures = n, us_offeredDigests = off, us_acknowledgedDigests = ack, us_candidate = cand\<rparr>"
    using assms by (cases s) (auto simp: wf_state_def)
  have w: "\<not> (\<exists>w e. Some v = Some w \<and> parseSemver (JStr w) = Inl e)" "digests_ok s"
    "n \<le> 2 ^ 53 - 1" "encodeRecoverableState s \<noteq> None" "\<And>c. cand = Some c \<Longrightarrow> wf_candidate c"
    "\<And>c. cand = Some c \<Longrightarrow> newer (ca_version c) v \<Longrightarrow> candidate_announced s c"
    using assms by (auto simp: wf_state_def s)
  have d: "digest_list (Some (JArr (map JStr off))) = Some off" "digest_list (Some (JArr (map JStr ack))) = Some ack"
    "unique off = off" "unique ack = ack"
    using w(2) by (auto simp: s digests_ok_def unique_id intro!: digest_list_strings simp del: digest_list.simps)
  have c: "validateCachedCandidate (map_option candidate_json cand) = cand"
    using w(5) validateCachedCandidate_json by (cases cand) (auto simp: validateCachedCandidate_def)
  have g: "get (JObj [(js ''nextCheckAt'', x), (js ''consecutiveFailures'', y)]) (js ''nextCheckAt'') = Some x"
    "get (JObj [(js ''nextCheckAt'', x), (js ''consecutiveFailures'', y)]) (js ''consecutiveFailures'') = Some y"
    "get (JObj [(js ''offeredDigests'', x), (js ''acknowledgedDigests'', y)]) (js ''offeredDigests'') = Some x"
    "get (JObj [(js ''offeredDigests'', x), (js ''acknowledgedDigests'', y)]) (js ''acknowledgedDigests'') = Some y" for x y
    by simp_all
  have a: "\<not> (\<exists>c w. cand = Some c \<and> Some v = Some w \<and> newer (ca_version c) w \<and>
      \<not> candidate_announced \<lparr>us_installedVersion = Some v, us_nextCheckAt = nx, us_consecutiveFailures = n,
         us_offeredDigests = off, us_acknowledgedDigests = ack, us_candidate = None\<rparr> c)"
    using w(6) by (auto simp: candidate_announced_def s)
  have r: "\<lparr>us_installedVersion = Some v, us_nextCheckAt = nx, us_consecutiveFailures = n,
      us_offeredDigests = off, us_acknowledgedDigests = ack, us_candidate = None\<rparr>\<lparr>us_candidate := cand\<rparr> = s"
    by (simp add: s)
  have f: "us_installedVersion s = Some v" "us_nextCheckAt s = nx" "us_consecutiveFailures s = n"
    "us_offeredDigests s = off" "us_acknowledgedDigests s = ack" "us_candidate s = cand" by (simp_all add: s)
  have ne: "(map_option candidate_json cand \<noteq> None \<and> cand = None) = False" by (cases cand) simp_all
  show ?thesis
    unfolding normalizeState_def Let_def get_state_json f g safe_natural_real [OF w(3)] string_or_null_test_back
      bind.bind_lunit d c if_True option.distinct if_P [OF option.distinct(2)]
    using w(1) w(4) [unfolded s] a by (cases cand) (simp_all del: js_simps add: get_state_json(7) s)
qed

end
