(* ===== verification/Iso_Time.thy ===== *)
theory Iso_Time
  imports Update_Contract
begin

text \<open>
  Timestamps: \<open>Date.prototype.toISOString\<close> and \<open>Date.parse\<close> on the texts it produces, for the years
  1970 to 9999, over the calendar of \<open>Update_Contract\<close>. The checker schedules its next check with them.
  A text of another form is not one the checker wrote; \<open>parse_iso\<close> answers \<open>None\<close> (\<open>NaN\<close>) for it, and the
  laws of the checker hold for every parser that reads these texts back (locale \<open>iso_clock\<close>).
\<close>

section \<open>Days and calendar dates\<close>

definition year_days :: "nat \<Rightarrow> nat" where
  "year_days y = (if leap_year y then 366 else 365)"

function split_year :: "nat \<Rightarrow> nat \<Rightarrow> nat \<times> nat" where
  "split_year y d = (if d < year_days y then (y, d) else split_year (Suc y) (d - year_days y))"
  by pat_completeness auto
termination
  by (relation "measure snd") (auto simp: year_days_def)

declare split_year.simps [simp del]

function split_month :: "nat \<Rightarrow> nat \<Rightarrow> nat \<Rightarrow> nat \<times> nat" where
  "split_month y m d =
     (if d < days_in_month y m \<or> 12 \<le> m then (m, d) else split_month y (Suc m) (d - days_in_month y m))"
  by pat_completeness auto
termination
  by (relation "measure (\<lambda>(y, m, d). 12 - m)") auto

declare split_month.simps [simp del]

definition days_to_year :: "nat \<Rightarrow> nat" where
  "days_to_year y = sum_list (map year_days [1970..<y])"

definition days_to_month :: "nat \<Rightarrow> nat \<Rightarrow> nat" where
  "days_to_month y m = sum_list (map (days_in_month y) [1..<m])"

lemma split_year_spec:
  "split_year y d = (y', r) \<Longrightarrow>
     y \<le> y' \<and> r < year_days y' \<and> d = sum_list (map year_days [y..<y']) + r \<and> 365 * (y' - y) \<le> d"
proof (induction y d rule: split_year.induct)
  case (1 y d)
  show ?case
  proof (cases "d < year_days y")
    case True
    then show ?thesis using 1(2) by (simp add: split_year.simps [of y d])
  next
    case False
    then have "split_year (Suc y) (d - year_days y) = (y', r)" using 1(2) by (simp add: split_year.simps [of y d])
    note IH = 1(1) [OF False this]
    then have "[y..<y'] = y # [Suc y..<y']" by (simp add: upt_conv_Cons)
    moreover have "365 \<le> year_days y" by (simp add: year_days_def)
    ultimately show ?thesis using IH False by auto
  qed
qed

lemma split_month_spec:
  "split_month y m d = (m', r) \<Longrightarrow> m \<le> 12 \<Longrightarrow> d < sum_list (map (days_in_month y) [m..<13]) \<Longrightarrow>
     m \<le> m' \<and> m' \<le> 12 \<and> r < days_in_month y m' \<and> d = sum_list (map (days_in_month y) [m..<m']) + r"
proof (induction y m d rule: split_month.induct)
  case (1 y m d)
  have up: "[m..<13] = m # [Suc m..<13]" using 1(3) by (simp add: upt_conv_Cons)
  show ?case
  proof (cases "d < days_in_month y m \<or> 12 \<le> m")
    case True
    then have "m' = m" "r = d" using 1(2) by (simp_all add: split_month.simps [of y m d])
    moreover have "d < days_in_month y m"
    proof (cases "m = 12")
      case True
      then show ?thesis using 1(4) by (simp add: upt_conv_Cons)
    qed (use \<open>d < days_in_month y m \<or> 12 \<le> m\<close> 1(3) in auto)
    ultimately show ?thesis using 1(3) by simp
  next
    case False
    then have s: "split_month y (Suc m) (d - days_in_month y m) = (m', r)" using 1(2) by (simp add: split_month.simps [of y m d])
    have "d - days_in_month y m < sum_list (map (days_in_month y) [Suc m..<13])" using 1(4) False unfolding up list.map sum_list.Cons by linarith
    note IH = 1(1) [OF False s _ this]
    then have IH: "Suc m \<le> m'" "m' \<le> 12" "r < days_in_month y m'"
      "d - days_in_month y m = sum_list (map (days_in_month y) [Suc m..<m']) + r" using False by auto
    then have "[m..<m'] = m # [Suc m..<m']" by (simp add: upt_conv_Cons)
    then show ?thesis using IH False by auto
  qed
qed

lemma months_of_year: "sum_list (map (days_in_month y) [1..<13]) = year_days y"
  by (simp add: year_days_def days_in_month_def upt_conv_Cons)

section \<open>Text\<close>

fun pad :: "nat \<Rightarrow> nat \<Rightarrow> jstring" where
  "pad 0 n = []"
| "pad (Suc w) n = pad w (n div 10) @ [48 + n mod 10]"

lemma length_pad [simp]: "length (pad w n) = w"
  by (induction w arbitrary: n) auto

lemma digits2_pad: "n < 10 ^ w \<Longrightarrow> digits2 (pad w n) = n"
  by (induction w arbitrary: n) (auto simp: digits2_def less_mult_imp_div_less)

lemma pad_digits: "c \<in> set (pad w n) \<Longrightarrow> is_digit c"
  by (induction w arbitrary: n) (auto simp: is_digit_def)

definition DAY_MS :: nat where "DAY_MS = 86400000"

text \<open>\<open>new Date(t).toISOString()\<close>.\<close>

definition iso_text :: "int \<Rightarrow> jstring" where
  "iso_text t =
     (let n = nat t;
          (y, rest) = split_year 1970 (n div DAY_MS);
          (m, d) = split_month y 1 rest;
          ms = n mod DAY_MS
      in pad 4 y @ 45 # pad 2 m @ 45 # pad 2 (d + 1) @ 84 # pad 2 (ms div 3600000) @ 58 #
         pad 2 (ms div 60000 mod 60) @ 58 # pad 2 (ms div 1000 mod 60) @ 46 # pad 3 (ms mod 1000) @ [90])"

text \<open>\<open>Date.parse\<close> on a text of that form.\<close>

definition parse_iso :: "jstring \<Rightarrow> int option" where
  "parse_iso s =
     (if length s \<noteq> 24 \<or> s ! 19 \<noteq> 46 \<or> s ! 23 \<noteq> 90 \<or> \<not> list_all is_digit (take 3 (drop 20 s)) then None
      else case utc_fields (take 19 s @ [90]) of
          None \<Rightarrow> None
        | Some (y, m, d, h, mi, sec) \<Rightarrow>
            if \<not> calendar_instant (y, m, d, h, mi, sec) \<or> y < 1970 then None
            else Some (int ((days_to_year y + days_to_month y m + (d - 1)) * DAY_MS +
                   h * 3600000 + mi * 60000 + sec * 1000 + digits2 (take 3 (drop 20 s)))))"

definition MAX_TIME :: int where "MAX_TIME = 253000000000000"

lemma utc_fields_chars:
  "utc_fields [a1, a2, a3, a4, 45, b1, b2, 45, c1, c2, 84, d1, d2, 58, e1, e2, 58, f1, f2, 90] =
     (if list_all is_digit [a1, a2, a3, a4, b1, b2, c1, c2, d1, d2, e1, e2, f1, f2]
      then Some (digits2 [a1, a2, a3, a4], digits2 [b1, b2], digits2 [c1, c2], digits2 [d1, d2],
                 digits2 [e1, e2], digits2 [f1, f2])
      else None)"
  by (simp add: utc_fields_def)

lemma length2: "length s = 2 \<Longrightarrow> \<exists>a b. s = [a, b]" and length4: "length s = 4 \<Longrightarrow> \<exists>a b c d. s = [a, b, c, d]"
  by (auto simp: numeral_eq_Suc length_Suc_conv)

lemma utc_fields_pads:
  assumes "y < 10 ^ 4" "m < 10 ^ 2" "d < 10 ^ 2" "h < 10 ^ 2" "mi < 10 ^ 2" "sec < 10 ^ 2"
  shows "utc_fields (pad 4 y @ 45 # pad 2 m @ 45 # pad 2 d @ 84 # pad 2 h @ 58 # pad 2 mi @ 58 # pad 2 sec @ [90]) =
     Some (y, m, d, h, mi, sec)"
proof -
  obtain a1 a2 a3 a4 where y: "pad 4 y = [a1, a2, a3, a4]" using length4 [of "pad 4 y"] by auto
  obtain b1 b2 where m: "pad 2 m = [b1, b2]" using length2 [of "pad 2 m"] by auto
  obtain c1 c2 where d: "pad 2 d = [c1, c2]" using length2 [of "pad 2 d"] by auto
  obtain d1 d2 where h: "pad 2 h = [d1, d2]" using length2 [of "pad 2 h"] by auto
  obtain e1 e2 where mi: "pad 2 mi = [e1, e2]" using length2 [of "pad 2 mi"] by auto
  obtain f1 f2 where sec: "pad 2 sec = [f1, f2]" using length2 [of "pad 2 sec"] by auto
  note val = digits2_pad [OF assms(1)] digits2_pad [OF assms(2)] digits2_pad [OF assms(3)]
    digits2_pad [OF assms(4)] digits2_pad [OF assms(5)] digits2_pad [OF assms(6)]
  have "list_all is_digit (pad 4 y @ pad 2 m @ pad 2 d @ pad 2 h @ pad 2 mi @ pad 2 sec)"
    using pad_digits by (auto simp: list_all_iff)
  then show ?thesis using val unfolding y m d h mi sec by (simp add: utc_fields_chars)
qed

lemma parse_iso_text:
  assumes "0 \<le> t" "t \<le> MAX_TIME"
  shows "parse_iso (iso_text t) = Some t"
proof -
  define n where "n = nat t"
  obtain y rest where y: "split_year 1970 (n div DAY_MS) = (y, rest)" by fastforce
  obtain m d where md: "split_month y 1 rest = (m, d)" by fastforce
  define ms where "ms = n mod DAY_MS"
  note ys = split_year_spec [OF y]
  have ms: "m \<ge> 1" "m \<le> 12" "d < days_in_month y m" "rest = days_to_month y m + d"
    using split_month_spec [OF md] ys months_of_year [of y] by (simp_all add: days_to_month_def)
  have n: "n \<le> 253000000000000" using assms by (simp add: n_def MAX_TIME_def)
  have "n div DAY_MS \<le> 2928240" using div_le_mono [OF n, of DAY_MS] by (simp add: DAY_MS_def)
  then have "365 * (y - 1970) \<le> 2928240" using ys by linarith
  then have y4: "y < 10 ^ 4" "1970 \<le> y" using ys by (auto simp: less_diff_conv2)
  have dim: "days_in_month y m \<le> 31" by (simp add: days_in_month_def)
  have msb: "ms < 86400000" by (simp add: ms_def DAY_MS_def)
  let ?h = "ms div 3600000" and ?mi = "ms div 60000 mod 60" and ?s = "ms div 1000 mod 60" and ?x = "ms mod 1000"
  have b: "m < 10 ^ 2" "d + 1 < 10 ^ 2" "?h < 10 ^ 2" "?mi < 10 ^ 2" "?s < 10 ^ 2" "?x < 10 ^ 3" "?h \<le> 23"
    using ms dim msb by (auto simp: less_mult_imp_div_less intro: order_less_trans)
  let ?front = "pad 4 y @ 45 # pad 2 m @ 45 # pad 2 (d + 1) @ 84 # pad 2 ?h @ 58 # pad 2 ?mi @ 58 # pad 2 ?s"
  have txt_eq: "iso_text t = ?front @ 46 # pad 3 ?x @ [90]"
    by (simp add: iso_text_def Let_def y md [unfolded One_nat_def] n_def [symmetric] ms_def)
  have len: "length ?front = 19" by simp
  have parts: "length (iso_text t) = 24" "iso_text t ! 19 = 46" "iso_text t ! 23 = 90" "take 3 (drop 20 (iso_text t)) = pad 3 ?x"
    "take 19 (iso_text t) = ?front"
    unfolding txt_eq by (simp_all add: nth_append)
  have "calendar_instant (y, m, d + 1, ?h, ?mi, ?s)" using ms b by auto
  moreover have "list_all is_digit (pad 3 ?x)" using pad_digits by (auto simp: list_all_iff)
  moreover have "utc_fields (?front @ [90]) = Some (y, m, d + 1, ?h, ?mi, ?s)"
    using utc_fields_pads [OF y4(1) b(1-5)] by simp
  ultimately have "parse_iso (iso_text t) = Some (int ((days_to_year y + days_to_month y m + d) * DAY_MS +
      ?h * 3600000 + ?mi * 60000 + ?s * 1000 + ?x))"
    unfolding parse_iso_def parts using y4(2) b(6) by (simp add: digits2_pad)
  moreover have clock: "?h * 3600000 + ?mi * 60000 + ?s * 1000 + ?x = ms"
  proof -
    have "ms div 60000 = ms div 1000 div 60" "ms div 3600000 = ms div 60000 div 60" by (simp_all flip: div_mult2_eq)
    then have "ms div 60000 = 60 * ?h + ?mi" "ms div 1000 = 60 * (ms div 60000) + ?s" by simp_all
    moreover have "ms = 1000 * (ms div 1000) + ?x" by simp
    ultimately show ?thesis by linarith
  qed
  ultimately have "parse_iso (iso_text t) = Some (int ((days_to_year y + days_to_month y m + d) * DAY_MS + ms))"
    by (metis (no_types, lifting) add.assoc)
  moreover have "days_to_year y + days_to_month y m + d = n div DAY_MS" using ys ms(4) by (simp add: days_to_year_def)
  ultimately show ?thesis using assms(1) by (simp add: ms_def n_def)
qed

lemma iso_text_length: "length (iso_text t) = 24"
  by (simp add: iso_text_def Let_def split: prod.splits)

end
