(* ===== verification/Update_Checks.thy ===== *)
theory Update_Checks
  imports Update_Laws Iso_Time
begin

text \<open>
  What \<open>checkForUpdate\<close> and \<open>acknowledgeUpdate\<close> report and commit, over every answer of the file system
  and the network. The laws of the clock's text are the locale \<open>iso_clock\<close>; \<open>Iso_Time\<close> provides them.
\<close>

section \<open>The clock\<close>

locale iso_clock =
  fixes dateParse :: "jstring \<Rightarrow> int option"
    and toIso :: "int \<Rightarrow> jstring"
    and max_time :: int
  assumes parse_toIso: "0 \<le> t \<Longrightarrow> t \<le> max_time \<Longrightarrow> dateParse (toIso t) = Some t"
    and toIso_bytes: "string_bytes (toIso t) \<le> 27"
begin

text \<open>The delay after a successful check lies between 0.8 and 1.2 of the time to live.\<close>

lemma success_window:
  assumes "0 \<le> nowMs" "nowMs + MAX_CACHE_HORIZON_MS \<le> max_time"
  obtains t where "dateParse (nextSuccessfulCheck toIso nowMs draw) = Some t"
    "nowMs + 207360000 \<le> t" "t \<le> nowMs + MAX_CACHE_HORIZON_MS"
proof -
  define r where "r = min 1 (max 0 draw)"
  have r: "0 \<le> r" "r \<le> 1" by (auto simp: r_def)
  define k where "k = js_round (of_int CHECK_TTL_MS * (8 / 10 + r * (4 / 10)))"
  have "207360000 \<le> k" "k \<le> MAX_CACHE_HORIZON_MS"
    using r by (auto simp: k_def js_round_def CHECK_TTL_MS_def MAX_CACHE_HORIZON_MS_def le_floor_iff floor_le_iff field_simps)
  then have "dateParse (nextSuccessfulCheck toIso nowMs draw) = Some (nowMs + k)"
    using parse_toIso [of "nowMs + k"] assms unfolding nextSuccessfulCheck_def Let_def r_def [symmetric] k_def [symmetric]
    by simp
  then show ?thesis using \<open>207360000 \<le> k\<close> \<open>k \<le> MAX_CACHE_HORIZON_MS\<close> by (intro that) auto
qed

lemma failure_window:
  assumes "0 \<le> nowMs" "nowMs + MAX_CACHE_HORIZON_MS \<le> max_time"
  shows "dateParse (nextFailedCheck toIso nowMs n) =
    Some (nowMs + (if n \<le> 1 then FIRST_FAILURE_DELAY_MS else LATER_FAILURE_DELAY_MS))"
  using assms
  by (auto simp: nextFailedCheck_def FIRST_FAILURE_DELAY_MS_def LATER_FAILURE_DELAY_MS_def MAX_CACHE_HORIZON_MS_def
      intro!: parse_toIso)

end

interpretation iso_calendar: iso_clock parse_iso iso_text MAX_TIME
proof
  show "0 \<le> t \<Longrightarrow> t \<le> MAX_TIME \<Longrightarrow> parse_iso (iso_text t) = Some t" for t
    by (rule parse_iso_text)
  show "string_bytes (iso_text t) \<le> 27" for t
  proof -
    have "35 \<le> c \<and> c < 128 \<and> c \<noteq> 92" if "c \<in> set (iso_text t)" for c
      using that pad_digits by (auto simp: iso_text_def Let_def is_digit_def split: prod.splits dest!: pad_digits)
    then show ?thesis using string_bytes_plain [of "iso_text t"] iso_text_length [of t] by simp
  qed
qed

section \<open>Commits\<close>

lemma commitOperation_committed:
  assumes "commitOperation a mutate = Some r" "cr_committed r = Some s"
  obtains cur where "cm_state a = Some cur" "encodeRecoverableState s \<noteq> None" "\<not> cr_fenced r"
    "de_state (mutate cur) = Some s \<and> cr_result r = de_result (mutate cur) \<or>
     de_fallback (mutate cur) = Some (s, cr_result r)"
  using assms
  by (auto simp: commitOperation_def commit_state_def cancelled_def Let_def
      split: option.splits bool.splits if_splits prod.splits write_answer.splits)

lemma commitOperation_result:
  assumes "commitOperation a mutate = Some r" "cr_committed r = None"
  shows "cr_result r \<in> {Silent Check_in_progress, Silent Cache_unavailable} \<or>
    (\<exists>cur. cm_state a = Some cur \<and> de_state (mutate cur) = None \<and> cr_result r = de_result (mutate cur))"
  using assms
  by (auto simp: commitOperation_def commit_state_def cancelled_def Let_def
      split: option.splits bool.splits if_splits prod.splits write_answer.splits)

section \<open>What is fetched\<close>

lemma hex_test_the: "hex_test n v \<Longrightarrow> hex_test n (Some (the v))"
  by (cases v) (simp_all add: hex_test_def)

lemma stable_identity_hex:
  "stable_identity_ok v w \<Longrightarrow>
     hex_test 40 (get (the (get v (js ''source''))) (js ''treeSha'')) \<and>
     hex_test 64 (get (the (get v (js ''artifact''))) (js ''sha256''))"
  by (auto simp: stable_identity_ok_def simp del: js_simps split: option.splits)

lemma validateCanonicalUtcTimestamp_Inr:
  "validateCanonicalUtcTimestamp v = Inr t \<longleftrightarrow> v = JStr t \<and> (\<exists>f. utc_fields t = Some f \<and> calendar_instant f)"
  by (cases v) (auto simp: validateCanonicalUtcTimestamp_def split: option.splits if_splits)

lemma if_Inl_iff: "(if P then Inl e else w) = Inr u \<longleftrightarrow> \<not> P \<and> w = Inr u"
  by auto

lemma case_string_iff: "(case v of JStr t \<Rightarrow> f t | _ \<Rightarrow> Inl e) = Inr u \<longleftrightarrow> (\<exists>t. v = JStr t \<and> f t = Inr u)"
  by (cases v) auto

lemma get_bind_iff: "(case v of None \<Rightarrow> Inl e | Some t \<Rightarrow> f t) = Inr u \<longleftrightarrow> (\<exists>t. v = Some t \<and> f t = Inr u)"
  by (auto split: option.splits)

lemma validateStableUpdateManifest_Inr:
  assumes "validateStableUpdateManifest v = Inr m"
  shows "isStableCoreVersion (JStr (sm_version m)) \<and> sm_releaseNotes m = release_notes_prefix @ sm_version m \<and>
    sm_severity m \<in> {js ''normal'', js ''security''} \<and> summary_ok (sm_summary m) \<and>
    (\<exists>f. utc_fields (sm_publishedAt m) = Some f \<and> calendar_instant f) \<and>
    hex_test 40 (Some (sm_treeSha m)) \<and> hex_test 64 (Some (sm_sha256 m))"
proof -
  obtain w t sm sev where
    h: "stable_identity_ok v w" "validateCanonicalUtcTimestamp t = Inr (sm_publishedAt m)" "summary_ok sm"
      "validateReleaseNotesUrl (get v (js ''releaseNotes'')) w = Inr (sm_releaseNotes m)"
      "sev \<in> {js ''normal'', js ''security''}" "sm_version m = w" "sm_summary m = sm" "sm_severity m = sev"
      "sm_treeSha m = the (get (the (get v (js ''source''))) (js ''treeSha''))"
      "sm_sha256 m = the (get (the (get v (js ''artifact''))) (js ''sha256''))"
    using assms unfolding validateStableUpdateManifest_def if_Inl_iff case_string_iff bind_result_Inr throw_if_Inr not_not
      get_bind_iff
    by (elim exE conjE) (auto simp del: js_simps)
  have "isStableCoreVersion (JStr w)" using h(1) by (simp add: stable_identity_ok_def)
  then show ?thesis
    using h(2-10) hex_test_the stable_identity_hex [OF h(1)]
    by (simp add: validateCanonicalUtcTimestamp_Inr validateReleaseNotesUrl_Inr del: js_simps)
qed

lemma tested_hex_digest: "hex_test 64 (Some v) \<Longrightarrow> digest_text (js ''sha256:'' @ the (tested_text v))"
  by (auto simp: hex_test_def digest_text_def split: option.splits)

lemma fetchCandidate_Inr:
  assumes "fetchCandidate decodeJson url answer = Inr c"
  shows "wf_candidate c \<and> (\<exists>d. ca_targetDigest c = JStr d \<and> digest_text d)"
proof -
  obtain decoded m where m: "validateStableUpdateManifest decoded = Inr m"
    and c: "c = \<lparr>ca_version = sm_version m, ca_targetDigest = JStr (js ''sha256:'' @ the (tested_text (sm_sha256 m))),
            ca_severity = sm_severity m, ca_releaseNotes = sm_releaseNotes m\<rparr>"
    using assms unfolding fetchCandidate_def
    by (auto simp: bind_result_Inr validateManifest_def simp del: js_simps split: if_splits option.splits sum.splits)
  note v = validateStableUpdateManifest_Inr [OF m]
  then show ?thesis using tested_hex_digest [of "sm_sha256 m"] by (simp add: wf_candidate_def c del: js_simps)
qed

section \<open>States the checker commits\<close>

lemma wf_failed:
  assumes "wf_state v cur" "encodeRecoverableState (stateAfterFailedCheck toIso cur nowMs w) \<noteq> None"
  shows "wf_state v (stateAfterFailedCheck toIso cur nowMs w)"
  using assms
  by (auto simp: wf_state_def stateAfterFailedCheck_def stateWithFailureCheck_def digests_ok_def candidate_announced_def
      Let_def)

lemma includes_digest_string [simp]: "includes_digest ds (JStr d) \<longleftrightarrow> d \<in> set ds"
  by (simp add: includes_digest_def)

lemma resultForCandidate_update:
  "resultForCandidate lr s = Update_available n \<longleftrightarrow>
     (\<exists>c. us_candidate s = Some c \<and> newer (ca_version c) (lo_version lr) \<and>
        \<not> includes_digest (us_acknowledgedDigests s) (ca_targetDigest c) \<and> n = notification_for lr c)"
  by (auto simp: resultForCandidate_def split: option.splits)

lemma wf_success:
  assumes "wf_state (lo_version lr) cur" "wf_candidate c" "ca_targetDigest c = JStr d" "digest_text d"
    and "de_state (success_decision toIso nowMs draw lr c cur) = Some s" "encodeRecoverableState s \<noteq> None"
  shows "wf_state (lo_version lr) s"
proof -
  let ?next = "cur\<lparr>us_candidate := Some c, us_nextCheckAt := Some (nextSuccessfulCheck toIso nowMs draw),
      us_consecutiveFailures := 0\<rparr>"
  have s: "s = ?next\<lparr>us_offeredDigests :=
      (case resultForCandidate lr ?next of
         Update_available _ \<Rightarrow> if d \<in> set (us_offeredDigests cur) then us_offeredDigests cur else us_offeredDigests cur @ [d]
       | _ \<Rightarrow> us_offeredDigests cur)\<rparr>"
    using assms(5) by (cases "resultForCandidate lr ?next") (auto simp: success_decision_def Let_def assms(3))
  have ok: "digests_ok s" using assms(1,4) by (auto simp: s wf_state_def digests_ok_def split: outcome.splits)
  have "candidate_announced s c" if n: "newer (ca_version c) (lo_version lr)"
  proof (cases "d \<in> set (us_acknowledgedDigests cur)")
    case True
    then show ?thesis by (simp add: candidate_announced_def s assms(3))
  next
    case False
    then have "resultForCandidate lr ?next = Update_available (notification_for lr c)"
      using n assms(3) by (simp add: resultForCandidate_def)
    then show ?thesis by (simp add: candidate_announced_def s assms(3))
  qed
  moreover have "us_installedVersion s = us_installedVersion cur" "us_consecutiveFailures s = 0" "us_candidate s = Some c"
    by (simp_all add: s)
  ultimately show ?thesis using assms(1,2,6) ok by (simp add: wf_state_def)
qed

text \<open>An update that is reported from a state of the invariant has its digest on the offered list.\<close>

lemma update_offered:
  assumes "wf_state (lo_version lr) s" "resultForCandidate lr s = Update_available n"
  obtains d where "digestForEventKey (no_eventKey n) = Some d" "d \<in> set (us_offeredDigests s)"
    "d \<notin> set (us_acknowledgedDigests s)" "no_eventKey n = eventKeyForDigest d" "newer (no_latestVersion n) (lo_version lr)"
proof -
  obtain c where c: "us_candidate s = Some c" "newer (ca_version c) (lo_version lr)"
    "\<not> includes_digest (us_acknowledgedDigests s) (ca_targetDigest c)" "n = notification_for lr c"
    using assms(2) by (auto simp: resultForCandidate_update)
  then have "includes_digest (us_offeredDigests s) (ca_targetDigest c)"
    using assms(1) by (auto simp: wf_state_def candidate_announced_def)
  then obtain d where d: "ca_targetDigest c = JStr d" "d \<in> set (us_offeredDigests s)"
    by (auto simp: includes_digest_def split: json.splits)
  then have "digest_text d" using assms(1) by (auto simp: wf_state_def digests_ok_def)
  then have "digestForEventKey (no_eventKey n) = Some d"
    by (simp add: digestForEventKey_def eventKeyForDigest_def c(4) notification_for_def d(1) SKILL_ID_def)
  then show ?thesis using that d c by (simp add: notification_for_def)
qed

section \<open>The two entry points\<close>

definition reads :: "check_answers \<Rightarrow> update_state set" where
  "reads a = set_option (ce_state_first a) \<union> set_option (ce_state_lost a) \<union> set_option (ce_state_again a) \<union>
     set_option (cm_state (ce_commit a))"

definition quiet :: "outcome \<Rightarrow> bool" where
  "quiet r \<longleftrightarrow> (\<exists>q. r = Silent q)"

lemma fresh_cases: "freshStateResult p lr s now = Some r \<Longrightarrow> r = resultForCandidate lr s"
  by (auto simp: freshStateResult_def split: option.splits if_splits)

lemma cached_offer_cases: "quiet (cached_offer lr s) \<or> (\<exists>t. s = Some t \<and> cached_offer lr s = resultForCandidate lr t)"
  by (auto simp: cached_offer_def quiet_def split: option.splits)

lemma losing_cases:
  "quiet (resultAfterLosingOperation a lr) \<or>
     (\<exists>t. ce_state_lost a = Some t \<and> resultAfterLosingOperation a lr = resultForCandidate lr t)"
  using cached_offer_cases [of lr "ce_state_lost a"] by (auto simp: resultAfterLosingOperation_def quiet_def)

lemma checkForUpdate_cases:
  assumes "ce_release a = Some v" "validateLocalRelease v = Inr lr"
  obtains q where "checkForUpdate dec p i a = (Silent q, None)"
  | s where "s \<in> reads a" "checkForUpdate dec p i a = (resultForCandidate lr s, None)"
  | now where "ce_now a = Some now" "checkForUpdate dec p i a = fetch_and_commit dec i a lr now"
proof -
  have l: "(\<exists>q. resultAfterLosingOperation a lr = Silent q) \<or> (\<exists>s\<in>reads a. resultAfterLosingOperation a lr = resultForCandidate lr s)"
    using losing_cases [of a lr] by (auto simp: quiet_def reads_def)
  have c: "(\<exists>q. cached_offer lr (ce_state_lost a) = Silent q) \<or> (\<exists>s\<in>reads a. cached_offer lr (ce_state_lost a) = resultForCandidate lr s)"
    using cached_offer_cases [of lr "ce_state_lost a"] by (auto simp: quiet_def reads_def)
  have f: "freshStateResult p lr s now = Some r \<Longrightarrow> ce_state_first a = Some s \<or> ce_state_again a = Some s \<Longrightarrow>
      \<exists>s\<in>reads a. r = resultForCandidate lr s" for s now r
    using fresh_cases by (fastforce simp: reads_def)
  have "(\<exists>q. checkForUpdate dec p i a = (Silent q, None)) \<or>
    (\<exists>s\<in>reads a. checkForUpdate dec p i a = (resultForCandidate lr s, None)) \<or>
    (\<exists>now. ce_now a = Some now \<and> checkForUpdate dec p i a = fetch_and_commit dec i a lr now)"
    using l c f unfolding checkForUpdate_def assms option.case sum.case
    by (auto split: option.splits if_splits acquire_answer.splits bool.splits)
  then show ?thesis using that by blast
qed

lemma resultForCandidate_cong:
  "us_candidate s = us_candidate t \<Longrightarrow> us_acknowledgedDigests s = us_acknowledgedDigests t \<Longrightarrow>
     resultForCandidate lr s = resultForCandidate lr t"
  by (simp add: resultForCandidate_def split: option.splits)

lemma fetch_and_commit_spec:
  assumes "\<forall>s\<in>reads a. wf_state (lo_version lr) s" "fetch_and_commit dec i a lr now = (r, committed)"
  shows "(\<forall>s. committed = Some s \<longrightarrow> wf_state (lo_version lr) s) \<and>
    (quiet r \<or> (\<exists>s. committed = Some s \<and> r = resultForCandidate lr s))"
proof (cases "fetchCandidate dec DEFAULT_MANIFEST_URL (ce_answer a)")
  case (Inl e)
  let ?m = "failure_decision i now (case e of Contract _ \<Rightarrow> Invalid_manifest | Request_failed \<Rightarrow> Check_failed)"
  have o: "(r, committed) = committed_outcome (commitOperation (ce_commit a) ?m)"
    using assms(2) Inl by (simp add: fetch_and_commit_def)
  show ?thesis
  proof (cases "commitOperation (ce_commit a) ?m")
    case None
    then show ?thesis using o by (simp add: committed_outcome_def quiet_def)
  next
    case (Some c)
    then have rc: "r = cr_result c" "committed = cr_committed c" using o by (simp_all add: committed_outcome_def)
    show ?thesis
    proof (cases "cr_committed c")
      case None
      then show ?thesis using commitOperation_result [OF Some None] rc by (auto simp: quiet_def failure_decision_def)
    next
      case s: (Some s)
      obtain cur where cur: "cm_state (ce_commit a) = Some cur" "encodeRecoverableState s \<noteq> None"
        "de_state (?m cur) = Some s \<and> cr_result c = de_result (?m cur) \<or> de_fallback (?m cur) = Some (s, cr_result c)"
        using commitOperation_committed [OF Some s] .
      then have s': "s = stateAfterFailedCheck i cur now False" "quiet r" using rc by (auto simp: failure_decision_def quiet_def)
      have "wf_state (lo_version lr) cur" using assms(1) cur(1) by (simp add: reads_def)
      then show ?thesis using wf_failed cur(2) s' rc s by auto
    qed
  qed
next
  case (Inr cand)
  let ?m = "success_decision i now (ce_draw a) lr cand"
  have o: "(r, committed) = committed_outcome (commitOperation (ce_commit a) ?m)"
    using assms(2) Inr by (simp add: fetch_and_commit_def)
  obtain d where d: "wf_candidate cand" "ca_targetDigest cand = JStr d" "digest_text d"
    using fetchCandidate_Inr [OF Inr] by blast
  show ?thesis
  proof (cases "commitOperation (ce_commit a) ?m")
    case None
    then show ?thesis using o by (simp add: committed_outcome_def quiet_def)
  next
    case (Some c)
    then have rc: "r = cr_result c" "committed = cr_committed c" using o by (simp_all add: committed_outcome_def)
    show ?thesis
    proof (cases "cr_committed c")
      case None
      then show ?thesis using commitOperation_result [OF Some None] rc by (auto simp: quiet_def success_decision_def Let_def)
    next
      case s: (Some s)
      obtain cur where cur: "cm_state (ce_commit a) = Some cur" "encodeRecoverableState s \<noteq> None"
        "de_state (?m cur) = Some s \<and> cr_result c = de_result (?m cur) \<or> de_fallback (?m cur) = Some (s, cr_result c)"
        using commitOperation_committed [OF Some s] .
      have w: "wf_state (lo_version lr) cur" using assms(1) cur(1) by (simp add: reads_def)
      from cur(3) show ?thesis
      proof
        assume m: "de_state (?m cur) = Some s \<and> cr_result c = de_result (?m cur)"
        let ?next = "cur\<lparr>us_candidate := Some cand, us_nextCheckAt := Some (nextSuccessfulCheck i now (ce_draw a)),
          us_consecutiveFailures := 0\<rparr>"
        have "resultForCandidate lr s = resultForCandidate lr ?next"
          using m by (intro resultForCandidate_cong) (auto simp: success_decision_def Let_def)
        moreover have "cr_result c = resultForCandidate lr ?next" using m by (simp add: success_decision_def Let_def)
        ultimately show ?thesis using wf_success [OF w d] m cur(2) rc s by auto
      next
        assume "de_fallback (?m cur) = Some (s, cr_result c)"
        then have "s = stateAfterFailedCheck i cur now True" "cr_result c = Silent Cache_unavailable"
          by (simp_all add: success_decision_def Let_def)
        moreover from this have "quiet r" using rc by (simp add: quiet_def)
        ultimately show ?thesis using wf_failed w cur(2) rc s by auto
      qed
    qed
  qed
qed

lemma checkForUpdate_spec:
  assumes "ce_release a = Some v" "validateLocalRelease v = Inr lr" "\<forall>s\<in>reads a. wf_state (lo_version lr) s"
    and "checkForUpdate dec p i a = (r, committed)"
  shows "(\<forall>s. committed = Some s \<longrightarrow> wf_state (lo_version lr) s) \<and>
    (quiet r \<or> (\<exists>s. (committed = Some s \<or> committed = None \<and> s \<in> reads a) \<and> r = resultForCandidate lr s))"
proof (rule checkForUpdate_cases [OF assms(1,2), of dec p i])
  fix q assume "checkForUpdate dec p i a = (Silent q, None)"
  then show ?thesis using assms(4) by (auto simp: quiet_def)
next
  fix s assume "s \<in> reads a" "checkForUpdate dec p i a = (resultForCandidate lr s, None)"
  then show ?thesis using assms(4) by auto
next
  fix now assume "checkForUpdate dec p i a = fetch_and_commit dec i a lr now"
  then show ?thesis using fetch_and_commit_spec [OF assms(3), of dec i now r committed] assms(4) by auto
qed

section \<open>Acknowledging what was reported\<close>

text \<open>A round in which every step of the commit succeeds on the state \<open>s\<close>.\<close>

definition undisturbed :: "ack_round \<Rightarrow> update_state \<Rightarrow> bool" where
  "undisturbed r s \<longleftrightarrow> ak_acquire r = Acquired \<and> cm_owns_before (ak_commit r) = Some True \<and> cm_fences (ak_commit r) \<and>
     cm_owns_after (ak_commit r) = Some True \<and> cm_state (ak_commit r) = Some s \<and> cm_write (ak_commit r) = Written"

lemma wf_acknowledged:
  assumes "wf_state v s" "d \<in> offered_set s \<union> acked_set s"
  shows "wf_state v (stateAfterAcknowledgement s d)"
proof -
  have ok: "digests_ok s" "digest_text d" using assms by (auto simp: wf_state_def digests_ok_def offered_set_def acked_set_def)
  have "candidate_announced (stateAfterAcknowledgement s d) c" if "candidate_announced s c" for c
    using that by (auto simp: candidate_announced_def includes_digest_def stateAfterAcknowledgement_def split: json.splits)
  moreover have "us_candidate (stateAfterAcknowledgement s d) = us_candidate s"
    "us_installedVersion (stateAfterAcknowledgement s d) = us_installedVersion s"
    "us_consecutiveFailures (stateAfterAcknowledgement s d) = us_consecutiveFailures s"
    by (simp_all add: stateAfterAcknowledgement_def)
  ultimately show ?thesis
    using assms acked_fields(1) [OF ok] acknowledgement_recoverable [OF ok(1) _ assms(2)] by (simp add: wf_state_def)
qed

lemma acknowledge_reported:
  assumes "validateLocalRelease v = Inr lr" "wf_state (lo_version lr) s"
    and "resultForCandidate lr s = Update_available n" "undisturbed r s"
  shows "\<exists>s'. acknowledgeUpdate (Some v) True True (no_eventKey n) (r # rs) = Some (Acknowledged (no_eventKey n), Some s') \<and>
    wf_state (lo_version lr) s' \<and> resultForCandidate lr s' = Silent Already_notified"
proof -
  obtain d where d: "digestForEventKey (no_eventKey n) = Some d" "d \<in> set (us_offeredDigests s)"
    "no_eventKey n = eventKeyForDigest d"
    using update_offered [OF assms(2,3)] by metis
  obtain c where c: "us_candidate s = Some c" "newer (ca_version c) (lo_version lr)" "n = notification_for lr c"
    "\<not> includes_digest (us_acknowledgedDigests s) (ca_targetDigest c)"
    using assms(3) by (auto simp: resultForCandidate_update)
  have "includes_digest (us_offeredDigests s) (ca_targetDigest c)"
    using assms(2) c by (auto simp: wf_state_def candidate_announced_def)
  then obtain e where e: "ca_targetDigest c = JStr e" by (auto simp: includes_digest_def split: json.splits)
  have "e = d" using d(3) c(3) e by (simp add: notification_for_def eventKeyForDigest_def)
  let ?s = "stateAfterAcknowledgement s d"
  have off: "d \<in> offered_set s \<union> acked_set s" using d(2) by (simp add: offered_set_def)
  have w: "wf_state (lo_version lr) ?s" using wf_acknowledged [OF assms(2) off] .
  have "acknowledgeUpdate (Some v) True True (no_eventKey n) (r # rs) = Some (Acknowledged (no_eventKey n), Some ?s)"
    using assms(1,4) d w
    by (auto simp: acknowledgeUpdate_def undisturbed_def commitOperation_def commit_state_def acknowledge_decision_def
        wf_state_def)
  moreover have "resultForCandidate lr ?s = Silent Already_notified"
    using c(1,2) e \<open>e = d\<close> by (simp add: resultForCandidate_def stateAfterAcknowledgement_def)
  ultimately show ?thesis using w by blast
qed

section \<open>The schedule\<close>

text \<open>A committed state is served from the cache until its next check is due.\<close>

lemma success_served_from_cache:
  assumes "0 \<le> nowMs" "nowMs + MAX_CACHE_HORIZON_MS \<le> MAX_TIME" "nowMs \<le> later" "later < nowMs + 207360000"
    and "us_nextCheckAt s = Some (nextSuccessfulCheck iso_text nowMs draw)"
  shows "freshStateResult parse_iso lr s later = Some (resultForCandidate lr s)"
proof -
  obtain t where "parse_iso (nextSuccessfulCheck iso_text nowMs draw) = Some t"
    "nowMs + 207360000 \<le> t" "t \<le> nowMs + MAX_CACHE_HORIZON_MS"
    using iso_calendar.success_window [OF assms(1,2)] by metis
  then show ?thesis using assms by (simp add: freshStateResult_def or_empty_def)
qed

lemma failure_served_from_cache:
  assumes "0 \<le> nowMs" "nowMs + MAX_CACHE_HORIZON_MS \<le> MAX_TIME" "nowMs \<le> later"
    and "s' = stateAfterFailedCheck iso_text s nowMs w"
  shows "freshStateResult parse_iso lr s' later =
    (if later < nowMs + (if us_consecutiveFailures s = 0 then FIRST_FAILURE_DELAY_MS else LATER_FAILURE_DELAY_MS)
     then Some (resultForCandidate lr s') else None)"
proof -
  let ?f = "min (us_consecutiveFailures s + 1) 2"
  have n: "us_nextCheckAt s' = Some (nextFailedCheck iso_text nowMs ?f)"
    by (simp add: assms(4) stateAfterFailedCheck_def stateWithFailureCheck_def Let_def)
  have "?f \<le> 1 \<longleftrightarrow> us_consecutiveFailures s = 0" by auto
  then show ?thesis
    using iso_calendar.failure_window [OF assms(1,2), of ?f] assms(3) n
    by (auto simp: freshStateResult_def or_empty_def FIRST_FAILURE_DELAY_MS_def LATER_FAILURE_DELAY_MS_def
        MAX_CACHE_HORIZON_MS_def)
qed

end
