(* ===== verification/Update_Protocol.thy ===== *)
theory Update_Protocol
  imports Prelude
begin

text \<open>
  The operation directories of the update cache (\<open>scripts/check-update.mjs\<close>) as a transition system:
  any number of checker processes reserve generations, promote a claim, fence lower generations, read
  the newest committed state and commit a new one, in every interleaving of their file-system calls.

  \<^item> Each call that changes the directory (\<open>mkdir\<close>, \<open>rename\<close>) and each listing is one atomic step.
  \<^item> Leases are not modelled: any claim may be retired and any process may stop at any moment, so the
    laws hold whatever the clocks say.
  \<^item> \<open>mutate\<close> is the function a commit applies to the state it read; a committed file is never changed.
\<close>

section \<open>The directory and the processes\<close>

text \<open>
  \<open>oc_commits\<close> lists the committed operations in the order of their renames, each with the mutation it
  applied and the state it wrote.
\<close>

record 'st commit_entry =
  ce_generation :: nat
  ce_mutation :: "'st \<Rightarrow> 'st"
  ce_written :: 'st

record 'st operation_cache =
  oc_reserved :: "nat set"
  oc_pending :: "nat set"
  oc_fenced :: "nat set"
  oc_cancelled :: "nat set"
  oc_commits :: "'st commit_entry list"
  oc_claim :: "nat option"

text \<open>Where a process stands; the number is the generation of its operation.\<close>

datatype 'st phase =
    Idle
  | Scanning "nat set" nat
  | Reserved nat
  | Pending nat
  | Checked nat
  | Promoted nat
  | Owning nat
  | Fencing nat "nat set"
  | Fenced nat
  | Confirmed nat
  | Loaded nat 'st
  | Finished

record 'st system =
  sy_cache :: "'st operation_cache"
  sy_phase :: "nat \<Rightarrow> 'st phase"

definition committed_generations :: "'st operation_cache \<Rightarrow> nat set" where
  "committed_generations c = ce_generation ` set (oc_commits c)"

text \<open>Every generation that \<open>listOperations\<close> sees under any of the five names.\<close>

definition listed :: "'st operation_cache \<Rightarrow> nat set" where
  "listed c = oc_reserved c \<union> oc_pending c \<union> oc_fenced c \<union> oc_cancelled c \<union> committed_generations c"

definition operationIsSuperseded :: "'st operation_cache \<Rightarrow> nat \<Rightarrow> bool" where
  "operationIsSuperseded c g \<longleftrightarrow> (\<exists>h\<in>listed c. g < h)"

text \<open>\<open>readState\<close>: the state of the highest committed generation, or the empty state.\<close>

definition newest_commit :: "'st operation_cache \<Rightarrow> 'st commit_entry option" where
  "newest_commit c =
     (if oc_commits c = [] then None
      else find (\<lambda>e. ce_generation e = Max (committed_generations c)) (oc_commits c))"

definition readState :: "'st \<Rightarrow> 'st operation_cache \<Rightarrow> 'st" where
  "readState blank c = (case newest_commit c of None \<Rightarrow> blank | Some e \<Rightarrow> ce_written e)"

text \<open>\<open>transitionOperation\<close>: the rename fails (\<open>None\<close>) when the pending directory is gone.\<close>

definition cancelOperation :: "'st operation_cache \<Rightarrow> nat \<Rightarrow> 'st operation_cache" where
  "cancelOperation c g =
     (if g \<in> oc_pending c
      then c\<lparr>oc_pending := oc_pending c - {g}, oc_cancelled := insert g (oc_cancelled c)\<rparr> else c)"

definition fenceOperation :: "'st operation_cache \<Rightarrow> nat \<Rightarrow> 'st operation_cache" where
  "fenceOperation c g =
     (if g \<in> oc_pending c
      then c\<lparr>oc_pending := oc_pending c - {g}, oc_fenced := insert g (oc_fenced c)\<rparr> else c)"

definition commitRename :: "'st operation_cache \<Rightarrow> nat \<Rightarrow> ('st \<Rightarrow> 'st) \<Rightarrow> 'st \<Rightarrow> 'st operation_cache option" where
  "commitRename c g mutate base =
     (if g \<in> oc_pending c
      then Some (c\<lparr>oc_pending := oc_pending c - {g},
                  oc_commits := oc_commits c @
                    [\<lparr>ce_generation = g, ce_mutation = mutate, ce_written = mutate base\<rparr>]\<rparr>)
      else None)"

definition lowerPending :: "'st operation_cache \<Rightarrow> nat \<Rightarrow> nat set" where
  "lowerPending c g = {h \<in> oc_pending c. h < g}"

section \<open>Steps\<close>

abbreviation at_phase :: "'st system \<Rightarrow> nat \<Rightarrow> 'st phase \<Rightarrow> 'st operation_cache \<Rightarrow> 'st system" where
  "at_phase s p ph c \<equiv> \<lparr>sy_cache = c, sy_phase = (sy_phase s)(p := ph)\<rparr>"

inductive step :: "'st \<Rightarrow> (('st \<Rightarrow> 'st) \<Rightarrow> bool) \<Rightarrow> 'st system \<Rightarrow> 'st system \<Rightarrow> bool"
  for blank :: 'st and allowed :: "('st \<Rightarrow> 'st) \<Rightarrow> bool"
where
  list_operations: "sy_phase s p = Idle \<Longrightarrow> c = sy_cache s \<Longrightarrow>
     step blank allowed s (at_phase s p (Scanning (listed c) 1) c)"
| skip_occupied: "sy_phase s p = Scanning occ g \<Longrightarrow> g \<in> occ \<Longrightarrow> c = sy_cache s \<Longrightarrow>
     step blank allowed s (at_phase s p (Scanning occ (Suc g)) c)"
| reservation_exists: "sy_phase s p = Scanning occ g \<Longrightarrow> g \<notin> occ \<Longrightarrow> c = sy_cache s \<Longrightarrow> g \<in> oc_reserved c \<Longrightarrow>
     step blank allowed s (at_phase s p (Scanning (insert g occ) (Suc g)) c)"
| reserve: "sy_phase s p = Scanning occ g \<Longrightarrow> g \<notin> occ \<Longrightarrow> c = sy_cache s \<Longrightarrow> g \<notin> oc_reserved c \<Longrightarrow>
     step blank allowed s (at_phase s p (Reserved g) (c\<lparr>oc_reserved := insert g (oc_reserved c)\<rparr>))"
| make_pending: "sy_phase s p = Reserved g \<Longrightarrow> c = sy_cache s \<Longrightarrow>
     step blank allowed s (at_phase s p (Pending g) (c\<lparr>oc_pending := insert g (oc_pending c)\<rparr>))"
| not_superseded: "sy_phase s p = Pending g \<or> sy_phase s p = Checked g \<Longrightarrow> c = sy_cache s \<Longrightarrow>
     \<not> operationIsSuperseded c g \<Longrightarrow> step blank allowed s (at_phase s p (Checked g) c)"
| promote: "sy_phase s p = Checked g \<Longrightarrow> c = sy_cache s \<Longrightarrow> oc_claim c = None \<Longrightarrow>
     step blank allowed s (at_phase s p (Promoted g) (c\<lparr>oc_claim := Some g\<rparr>))"
| retire: "c = sy_cache s \<Longrightarrow> oc_claim c \<noteq> None \<Longrightarrow>
     step blank allowed s \<lparr>sy_cache = c\<lparr>oc_claim := None\<rparr>, sy_phase = sy_phase s\<rparr>"
| owns_claim: "sy_phase s p = Promoted g \<Longrightarrow> c = sy_cache s \<Longrightarrow> oc_claim c = Some g \<Longrightarrow>
     step blank allowed s (at_phase s p (Owning g) c)"
| list_lower: "sy_phase s p = Owning g \<Longrightarrow> c = sy_cache s \<Longrightarrow>
     step blank allowed s (at_phase s p (Fencing g (lowerPending c g)) c)"
| fence: "sy_phase s p = Fencing g todo \<Longrightarrow> h \<in> todo \<Longrightarrow> c = sy_cache s \<Longrightarrow>
     step blank allowed s (at_phase s p (Fencing g (todo - {h})) (fenceOperation c h))"
| all_fenced: "sy_phase s p = Fencing g {} \<Longrightarrow> c = sy_cache s \<Longrightarrow>
     step blank allowed s (at_phase s p (Fenced g) c)"
| still_owns: "sy_phase s p = Fenced g \<Longrightarrow> c = sy_cache s \<Longrightarrow> oc_claim c = Some g \<Longrightarrow>
     step blank allowed s (at_phase s p (Confirmed g) c)"
| load: "sy_phase s p = Confirmed g \<Longrightarrow> c = sy_cache s \<Longrightarrow>
     step blank allowed s (at_phase s p (Loaded g (readState blank c)) c)"
| commit: "sy_phase s p = Loaded g base \<Longrightarrow> c = sy_cache s \<Longrightarrow> allowed mutate \<Longrightarrow>
     commitRename c g mutate base = Some c' \<Longrightarrow>
     step blank allowed s (at_phase s p Finished c')"
| cancel: "sy_phase s p \<in> {Pending g, Checked g, Promoted g, Owning g, Fenced g, Confirmed g, Loaded g base} \<Longrightarrow>
     c = sy_cache s \<Longrightarrow> step blank allowed s (at_phase s p Finished (cancelOperation c g))"
| stop: "c = sy_cache s \<Longrightarrow> step blank allowed s (at_phase s p Finished c)"

definition initial_cache :: "'st operation_cache" where
  "initial_cache = \<lparr>oc_reserved = {}, oc_pending = {}, oc_fenced = {}, oc_cancelled = {}, oc_commits = [], oc_claim = None\<rparr>"

definition initial :: "'st system" where
  "initial = \<lparr>sy_cache = initial_cache, sy_phase = (\<lambda>_. Idle)\<rparr>"

inductive reachable :: "'st \<Rightarrow> (('st \<Rightarrow> 'st) \<Rightarrow> bool) \<Rightarrow> 'st system \<Rightarrow> bool"
  for blank :: 'st and allowed :: "('st \<Rightarrow> 'st) \<Rightarrow> bool"
where
  start: "reachable blank allowed initial"
| more: "reachable blank allowed s \<Longrightarrow> step blank allowed s s' \<Longrightarrow> reachable blank allowed s'"

inductive_cases stepE: "step blank allowed s s'"
inductive_simps reachable_initial: "reachable blank allowed initial"

section \<open>The invariant\<close>

fun generation_of :: "'st phase \<Rightarrow> nat option" where
  "generation_of (Reserved g) = Some g"
| "generation_of (Pending g) = Some g"
| "generation_of (Checked g) = Some g"
| "generation_of (Promoted g) = Some g"
| "generation_of (Owning g) = Some g"
| "generation_of (Fencing g _) = Some g"
| "generation_of (Fenced g) = Some g"
| "generation_of (Confirmed g) = Some g"
| "generation_of (Loaded g _) = Some g"
| "generation_of _ = None"

text \<open>A process that has found itself not superseded.\<close>

fun past_check :: "'st phase \<Rightarrow> nat option" where
  "past_check (Checked g) = Some g"
| "past_check (Promoted g) = Some g"
| "past_check (Owning g) = Some g"
| "past_check (Fencing g _) = Some g"
| "past_check (Fenced g) = Some g"
| "past_check (Confirmed g) = Some g"
| "past_check (Loaded g _) = Some g"
| "past_check _ = None"

text \<open>The lower generations a process has still to fence; nothing before it has listed them.\<close>

fun left_to_fence :: "'st phase \<Rightarrow> (nat \<times> nat set) option" where
  "left_to_fence (Fencing g todo) = Some (g, todo)"
| "left_to_fence (Fenced g) = Some (g, {})"
| "left_to_fence (Confirmed g) = Some (g, {})"
| "left_to_fence (Loaded g _) = Some (g, {})"
| "left_to_fence _ = None"

lemma past_check_generation: "past_check ph = Some g \<Longrightarrow> generation_of ph = Some g"
  by (cases ph) auto

lemma left_to_fence_generation: "left_to_fence ph = Some (g, todo) \<Longrightarrow> past_check ph = Some g \<and> generation_of ph = Some g"
  by (cases ph) auto

text \<open>Reservations: generations are handed out once, and form an initial segment.\<close>

definition inv_reserved :: "'st system \<Rightarrow> bool" where
  "inv_reserved s \<longleftrightarrow>
     (\<exists>n. oc_reserved (sy_cache s) = {1..n}) \<and>
     listed (sy_cache s) = oc_reserved (sy_cache s) \<and>
     (\<forall>p occ g. sy_phase s p = Scanning occ g \<longrightarrow> occ \<subseteq> oc_reserved (sy_cache s) \<and> {1..<g} \<subseteq> occ \<and> 1 \<le> g) \<and>
     (\<forall>p g. generation_of (sy_phase s p) = Some g \<longrightarrow> g \<in> oc_reserved (sy_cache s)) \<and>
     (\<forall>p q g. generation_of (sy_phase s p) = Some g \<longrightarrow> generation_of (sy_phase s q) = Some g \<longrightarrow> p = q)"

text \<open>Directories: a generation is pending only in the hands of its process, and committed once.\<close>

definition inv_names :: "'st system \<Rightarrow> bool" where
  "inv_names s \<longleftrightarrow>
     oc_pending (sy_cache s) \<inter> committed_generations (sy_cache s) = {} \<and>
     distinct (map ce_generation (oc_commits (sy_cache s))) \<and>
     (\<forall>p g. sy_phase s p = Reserved g \<longrightarrow> g \<notin> oc_pending (sy_cache s) \<and> g \<notin> committed_generations (sy_cache s))"

text \<open>Fences: a pending generation that passed its check is on the list of everyone above it.\<close>

definition inv_fence :: "'st system \<Rightarrow> bool" where
  "inv_fence s \<longleftrightarrow>
     (\<forall>p g. past_check (sy_phase s p) = Some g \<longrightarrow> g \<in> oc_pending (sy_cache s) \<longrightarrow>
        (\<forall>q h todo. left_to_fence (sy_phase s q) = Some (h, todo) \<longrightarrow> g < h \<longrightarrow> g \<in> todo) \<and>
        (\<forall>h\<in>committed_generations (sy_cache s). h < g))"

definition serial :: "'st \<Rightarrow> 'st commit_entry list \<Rightarrow> 'st" where
  "serial blank es = foldl (\<lambda>st e. ce_mutation e st) blank es"

text \<open>Serial commits: in the order of generations, each applied to the result of the one before.\<close>

definition inv_serial :: "'st \<Rightarrow> 'st system \<Rightarrow> bool" where
  "inv_serial blank s \<longleftrightarrow>
     sorted (map ce_generation (oc_commits (sy_cache s))) \<and>
     (\<forall>n < length (oc_commits (sy_cache s)).
        ce_written (oc_commits (sy_cache s) ! n) = serial blank (take (Suc n) (oc_commits (sy_cache s)))) \<and>
     (\<forall>p g base. sy_phase s p = Loaded g base \<longrightarrow> g \<in> oc_pending (sy_cache s) \<longrightarrow>
        base = serial blank (oc_commits (sy_cache s)))"

lemma readState_serial:
  assumes "inv_names s" "inv_serial blank s"
  shows "readState blank (sy_cache s) = serial blank (oc_commits (sy_cache s))"
proof (cases "oc_commits (sy_cache s)" rule: rev_cases)
  case Nil
  then show ?thesis by (simp add: readState_def newest_commit_def serial_def)
next
  case (snoc es e)
  let ?c = "sy_cache s"
  have d: "distinct (map ce_generation (es @ [e]))" and so: "sorted (map ce_generation (es @ [e]))"
    using assms snoc by (simp_all add: inv_names_def inv_serial_def)
  have m: "Max (committed_generations ?c) = ce_generation e"
    using so unfolding committed_generations_def snoc by (intro Max_eqI) (auto simp: sorted_append)
  have "find (\<lambda>x. ce_generation x = ce_generation e) (es @ [e]) = Some e"
  proof -
    have "ce_generation e \<notin> ce_generation ` set es" using d by simp
    then have "ce_generation x \<noteq> ce_generation e" if "x \<in> set es" for x using that by (metis imageI)
    then have "find (\<lambda>x. ce_generation x = ce_generation e) es = None" by (auto simp: find_None_iff)
    then show ?thesis by (induction es) (auto split: if_splits)
  qed
  then have "readState blank ?c = ce_written e"
    unfolding readState_def newest_commit_def m snoc by simp
  also have "\<dots> = serial blank (take (Suc (length es)) (oc_commits ?c))"
    using assms(2) snoc unfolding inv_serial_def by (metis length_append_singleton lessI nth_append_length)
  finally show ?thesis using snoc by simp
qed


section \<open>Every step keeps the invariant\<close>

lemma fence_fields [simp]:
  "oc_reserved (fenceOperation c g) = oc_reserved c" "oc_commits (fenceOperation c g) = oc_commits c"
  "oc_pending (fenceOperation c g) = oc_pending c - {g}" "listed (fenceOperation c g) = listed c"
  "committed_generations (fenceOperation c g) = committed_generations c"
  by (auto simp: fenceOperation_def listed_def committed_generations_def)

lemma cancel_fields [simp]:
  "oc_reserved (cancelOperation c g) = oc_reserved c" "oc_commits (cancelOperation c g) = oc_commits c"
  "oc_pending (cancelOperation c g) = oc_pending c - {g}" "listed (cancelOperation c g) = listed c"
  "committed_generations (cancelOperation c g) = committed_generations c"
  by (auto simp: cancelOperation_def listed_def committed_generations_def)

lemma commitRename_fields:
  assumes "commitRename c g mutate base = Some c'"
  shows "g \<in> oc_pending c" "oc_reserved c' = oc_reserved c" "oc_pending c' = oc_pending c - {g}"
    "oc_commits c' = oc_commits c @ [\<lparr>ce_generation = g, ce_mutation = mutate, ce_written = mutate base\<rparr>]"
    "committed_generations c' = insert g (committed_generations c)" "listed c' = listed c"
  using assms by (auto simp: commitRename_def listed_def committed_generations_def split: if_splits)

lemma other_fields [simp]:
  "listed (c\<lparr>oc_claim := x\<rparr>) = listed c" "committed_generations (c\<lparr>oc_claim := x\<rparr>) = committed_generations c"
  "committed_generations (c\<lparr>oc_reserved := r\<rparr>) = committed_generations c"
  "committed_generations (c\<lparr>oc_pending := r\<rparr>) = committed_generations c"
  "listed (c\<lparr>oc_reserved := insert g (oc_reserved c)\<rparr>) = insert g (listed c)"
  "listed (c\<lparr>oc_pending := insert g (oc_pending c)\<rparr>) = insert g (listed c)"
  by (auto simp: listed_def committed_generations_def)

lemma next_generation:
  assumes "oc_reserved c = {1..n}" "occ \<subseteq> oc_reserved c" "{1..<g} \<subseteq> occ" "1 \<le> g" "g \<notin> oc_reserved c"
  shows "g = Suc n"
proof -
  have "{1..<g} \<subseteq> {1..n}" using assms by auto
  then have "g - 1 \<le> n" by (cases "g = 1") (auto simp: subset_eq)
  then show ?thesis using assms by auto
qed

lemma inv_reservedD:
  assumes "inv_reserved s"
  shows "\<exists>n. oc_reserved (sy_cache s) = {1..n}" "listed (sy_cache s) = oc_reserved (sy_cache s)"
    "sy_phase s p = Scanning occ g \<Longrightarrow> occ \<subseteq> oc_reserved (sy_cache s) \<and> {1..<g} \<subseteq> occ \<and> 1 \<le> g"
    "generation_of (sy_phase s p) = Some g \<Longrightarrow> g \<in> oc_reserved (sy_cache s)"
    "generation_of (sy_phase s p) = Some g \<Longrightarrow> generation_of (sy_phase s q) = Some g \<Longrightarrow> p = q"
  using assms unfolding inv_reserved_def by auto

lemma inv_reserved_at:
  assumes "inv_reserved s" "oc_reserved c = {1..n}" "listed c = oc_reserved c" "oc_reserved (sy_cache s) \<subseteq> oc_reserved c"
    and scan: "\<And>occ g. ph = Scanning occ g \<Longrightarrow> occ \<subseteq> oc_reserved c \<and> {1..<g} \<subseteq> occ \<and> 1 \<le> g"
    and gen: "\<And>g. generation_of ph = Some g \<Longrightarrow> g \<in> oc_reserved c \<and>
       (generation_of (sy_phase s p) = Some g \<or> g \<notin> oc_reserved (sy_cache s))"
  shows "inv_reserved (at_phase s p ph c)"
proof -
  let ?s = "at_phase s p ph c"
  have A: "occ \<subseteq> oc_reserved c \<and> {1..<g} \<subseteq> occ \<and> 1 \<le> g" if "sy_phase ?s q = Scanning occ g" for q occ g
  proof (cases "q = p")
    case True
    then show ?thesis using scan that by simp
  next
    case False
    then show ?thesis using inv_reservedD(3) [OF assms(1), of q occ g] assms(4) that by auto
  qed
  have B: "g \<in> oc_reserved c" if "generation_of (sy_phase ?s q) = Some g" for q g
    using gen assms(4) that inv_reservedD(4) [OF assms(1), of q g] by (cases "q = p") auto
  have C: "q = r" if "generation_of (sy_phase ?s q) = Some g" "generation_of (sy_phase ?s r) = Some g" for q r g
  proof -
    have new: "x = p" if "generation_of ph = Some g" "generation_of (sy_phase s x) = Some g" for x
      using gen [OF that(1)] inv_reservedD(4) [OF assms(1) that(2)] inv_reservedD(5) [OF assms(1) _ that(2)] by blast
    consider "q = p" "r = p" | "q = p" "r \<noteq> p" | "q \<noteq> p" "r = p" | "q \<noteq> p" "r \<noteq> p" by blast
    then show ?thesis
    proof cases
      case 2
      then have "generation_of ph = Some g" "generation_of (sy_phase s r) = Some g" using that by simp_all
      then show ?thesis using new 2 by blast
    next
      case 3
      then have "generation_of ph = Some g" "generation_of (sy_phase s q) = Some g" using that by simp_all
      then show ?thesis using new 3 by blast
    next
      case 4
      then have "generation_of (sy_phase s q) = Some g" "generation_of (sy_phase s r) = Some g" using that by simp_all
      then show ?thesis by (rule inv_reservedD(5) [OF assms(1)])
    qed simp
  qed
  have "sy_cache ?s = c" by simp
  then show ?thesis unfolding inv_reserved_def using A B C assms(2,3) by (simp only:) blast
qed

lemma inv_reserved_keep:
  assumes "inv_reserved s" "oc_reserved c = oc_reserved (sy_cache s)" "listed c = listed (sy_cache s)"
    and "\<And>occ g. ph \<noteq> Scanning occ g" "\<And>g. generation_of ph = Some g \<Longrightarrow> generation_of (sy_phase s p) = Some g"
  shows "inv_reserved (at_phase s p ph c)"
proof -
  obtain n where "oc_reserved (sy_cache s) = {1..n}" using inv_reservedD(1) [OF assms(1)] by blast
  then show ?thesis
    using assms(2-5) inv_reservedD(2) [OF assms(1)] inv_reservedD(4) [OF assms(1), of p]
    by (intro inv_reserved_at [OF assms(1), of _ n]) (simp, simp, simp, blast, simp)
qed

lemma step_reserved: "step blank allowed s s' \<Longrightarrow> inv_reserved s \<Longrightarrow> inv_reserved s'"
proof -
  assume st: "step blank allowed s s'" and inv: "inv_reserved s"
  obtain n where n: "oc_reserved (sy_cache s) = {1..n}" using inv_reservedD(1) [OF inv] by blast
  note l = inv_reservedD(2) [OF inv] and at = inv_reserved_at [OF inv n]
  from st show ?thesis
  proof cases
    case (skip_occupied p occ g c)
    then show ?thesis using inv_reservedD(3) [OF inv skip_occupied(2)] l by (auto intro!: at simp: le_Suc_eq atLeastLessThanSuc)
  next
    case (reservation_exists p occ g c)
    then show ?thesis using inv_reservedD(3) [OF inv reservation_exists(2)] l by (auto intro!: at simp: atLeastLessThanSuc)
  next
    case (reserve p occ g c)
    have g: "g = Suc n" using reserve n inv_reservedD(3) [OF inv reserve(2)] by (intro next_generation [of c n occ]) auto
    let ?c = "c\<lparr>oc_reserved := insert g (oc_reserved c)\<rparr>"
    have e: "listed ?c = insert g (listed c)" "oc_reserved ?c = insert g (oc_reserved c)" by simp_all
    have i: "insert g {1..n} = {1..Suc n}" by (auto simp: g)
    have r: "oc_reserved ?c = {1..Suc n}" "listed ?c = oc_reserved ?c" "oc_reserved (sy_cache s) \<subseteq> oc_reserved ?c"
      unfolding e using reserve(4) n l i by auto
    show ?thesis unfolding reserve(1)
      by (rule inv_reserved_at [OF inv r]) (use reserve in auto)
  next
    case (make_pending p g c)
    let ?c = "c\<lparr>oc_pending := insert g (oc_pending c)\<rparr>"
    have g: "g \<in> oc_reserved c" using inv_reservedD(4) [OF inv, of p g] make_pending by simp
    have e: "listed ?c = insert g (listed c)" "oc_reserved ?c = oc_reserved c" by simp_all
    have r: "oc_reserved ?c = {1..n}" "listed ?c = oc_reserved ?c" "oc_reserved (sy_cache s) \<subseteq> oc_reserved ?c"
      unfolding e using make_pending(3) n l g by auto
    show ?thesis unfolding make_pending(1)
      by (rule inv_reserved_at [OF inv r]) (use make_pending g in auto)
  next
    case (commit p g base c mutate c')
    show ?thesis unfolding commit(1)
      by (rule inv_reserved_keep [OF inv]) (use commit commitRename_fields [OF commit(5)] in auto)
  next
    case (retire c)
    then show ?thesis using inv by (simp add: inv_reserved_def)
  next
    case (list_operations p c)
    show ?thesis unfolding list_operations(1)
      by (rule inv_reserved_at [OF inv, of _ n]) (use list_operations n l in auto)
  qed (auto intro!: inv_reserved_keep [OF inv])
qed


lemma inv_namesD:
  assumes "inv_names s"
  shows "oc_pending (sy_cache s) \<inter> committed_generations (sy_cache s) = {}"
    "distinct (map ce_generation (oc_commits (sy_cache s)))"
    "sy_phase s p = Reserved g \<Longrightarrow> g \<notin> oc_pending (sy_cache s) \<and> g \<notin> committed_generations (sy_cache s)"
  using assms unfolding inv_names_def by blast+

lemma inv_names_at:
  assumes "inv_names s" "oc_pending c \<inter> committed_generations c = {}" "distinct (map ce_generation (oc_commits c))"
    and "\<And>g. ph = Reserved g \<Longrightarrow> g \<notin> oc_pending c \<and> g \<notin> committed_generations c"
    and "\<And>q g. q \<noteq> p \<Longrightarrow> sy_phase s q = Reserved g \<Longrightarrow> g \<notin> oc_pending c \<and> g \<notin> committed_generations c"
  shows "inv_names (at_phase s p ph c)"
  unfolding inv_names_def using assms by simp

lemma inv_names_keep:
  assumes "inv_names s" "oc_pending c \<subseteq> oc_pending (sy_cache s)" "oc_commits c = oc_commits (sy_cache s)"
    and "\<And>g. ph \<noteq> Reserved g"
  shows "inv_names (at_phase s p ph c)"
proof -
  have "committed_generations c = committed_generations (sy_cache s)" using assms(3) by (simp add: committed_generations_def)
  then show ?thesis
    using inv_namesD(1,2) [OF assms(1)] inv_namesD(3) [OF assms(1)] assms(2-4)
    by (intro inv_names_at [OF assms(1)]) (fastforce, simp, blast, fastforce)
qed

lemma step_names: "step blank allowed s s' \<Longrightarrow> inv_reserved s \<Longrightarrow> inv_names s \<Longrightarrow> inv_names s'"
proof -
  assume st: "step blank allowed s s'" and R: "inv_reserved s" and inv: "inv_names s"
  have sub: "oc_pending (sy_cache s) \<subseteq> oc_reserved (sy_cache s)" "committed_generations (sy_cache s) \<subseteq> oc_reserved (sy_cache s)"
    using inv_reservedD(2) [OF R] by (auto simp: listed_def)
  have res: "sy_phase s q = Reserved g \<Longrightarrow> g \<in> oc_reserved (sy_cache s)" for q g
    using inv_reservedD(4) [OF R, of q g] by simp
  from st show ?thesis
  proof cases
    case (reserve p occ g c)
    show ?thesis unfolding reserve(1)
      by (rule inv_names_at [OF inv])
        (use reserve sub inv_namesD [OF inv] in auto)
  next
    case (make_pending p g c)
    have "q \<noteq> p \<Longrightarrow> sy_phase s q = Reserved h \<Longrightarrow> h \<noteq> g" for q h
      using inv_reservedD(5) [OF R, of q g p] make_pending(2) by auto
    then show ?thesis unfolding make_pending(1)
      by (intro inv_names_at [OF inv]) (use make_pending inv_namesD [OF inv] in auto)
  next
    case (commit p g base c mutate c')
    note f = commitRename_fields [OF commit(5)]
    have "g \<notin> committed_generations c" using f(1) inv_namesD(1) [OF inv] commit(3) by auto
    then show ?thesis unfolding commit(1)
      by (intro inv_names_at [OF inv])
        (use commit(2,3) f inv_namesD [OF inv] in \<open>auto simp: committed_generations_def\<close>)
  next
    case (retire c)
    then show ?thesis using inv by (simp add: inv_names_def)
  qed (auto intro!: inv_names_keep [OF inv])
qed

lemma inv_fenceD:
  assumes "inv_fence s" "past_check (sy_phase s p) = Some g" "g \<in> oc_pending (sy_cache s)"
  shows "left_to_fence (sy_phase s q) = Some (h, todo) \<Longrightarrow> g < h \<Longrightarrow> g \<in> todo"
    "h \<in> committed_generations (sy_cache s) \<Longrightarrow> h < g"
  using assms unfolding inv_fence_def by blast+

lemma inv_fenceI:
  assumes "\<And>p g q h todo. past_check (sy_phase s p) = Some g \<Longrightarrow> g \<in> oc_pending (sy_cache s) \<Longrightarrow>
      left_to_fence (sy_phase s q) = Some (h, todo) \<Longrightarrow> g < h \<Longrightarrow> g \<in> todo"
    and "\<And>p g h. past_check (sy_phase s p) = Some g \<Longrightarrow> g \<in> oc_pending (sy_cache s) \<Longrightarrow>
      h \<in> committed_generations (sy_cache s) \<Longrightarrow> h < g"
  shows "inv_fence s"
  using assms unfolding inv_fence_def by blast

text \<open>A step that neither passes the check nor lists or removes entries to fence.\<close>

lemma inv_fence_keep:
  assumes "inv_fence s" "committed_generations c = committed_generations (sy_cache s)"
    and "\<And>q g. q \<noteq> p \<Longrightarrow> past_check (sy_phase s q) = Some g \<Longrightarrow> g \<in> oc_pending c \<Longrightarrow> g \<in> oc_pending (sy_cache s)"
    and "\<And>g. past_check ph = Some g \<Longrightarrow> g \<in> oc_pending c \<Longrightarrow> past_check (sy_phase s p) = Some g \<and> g \<in> oc_pending (sy_cache s)"
    and "\<And>h todo. left_to_fence ph = Some (h, todo) \<Longrightarrow> left_to_fence (sy_phase s p) = Some (h, todo)"
  shows "inv_fence (at_phase s p ph c)"
proof (rule inv_fenceI)
  let ?s = "at_phase s p ph c"
  have old: "past_check (sy_phase s r) = Some g \<and> g \<in> oc_pending (sy_cache s)"
    if "past_check (sy_phase ?s r) = Some g" "g \<in> oc_pending (sy_cache ?s)" for r g
    using that assms(3,4) by (cases "r = p") auto
  have todo: "left_to_fence (sy_phase ?s q) = Some (h, t) \<Longrightarrow> left_to_fence (sy_phase s q) = Some (h, t)" for q h t
    using assms(5) by (cases "q = p") auto
  show "past_check (sy_phase ?s r) = Some g \<Longrightarrow> g \<in> oc_pending (sy_cache ?s) \<Longrightarrow>
      left_to_fence (sy_phase ?s q) = Some (h, t) \<Longrightarrow> g < h \<Longrightarrow> g \<in> t" for r g q h t
    using old todo inv_fenceD(1) [OF assms(1)] by blast
  show "past_check (sy_phase ?s r) = Some g \<Longrightarrow> g \<in> oc_pending (sy_cache ?s) \<Longrightarrow>
      h \<in> committed_generations (sy_cache ?s) \<Longrightarrow> h < g" for r g h
    using old inv_fenceD(2) [OF assms(1)] assms(2) by (simp only: operation_cache.simps system.simps) blast
qed


lemma step_fence:
  "step blank allowed s s' \<Longrightarrow> inv_reserved s \<Longrightarrow> inv_names s \<Longrightarrow> inv_fence s \<Longrightarrow> inv_fence s'"
proof -
  assume st: "step blank allowed s s'" and R: "inv_reserved s" and N: "inv_names s" and inv: "inv_fence s"
  have pending_committed: "g \<in> oc_pending (sy_cache s) \<Longrightarrow> g \<notin> committed_generations (sy_cache s)" for g
    using inv_namesD(1) [OF N] by blast
  from st show ?thesis
  proof cases
    case (make_pending p g c)
    have "past_check (sy_phase s q) = Some g \<Longrightarrow> q = p" for q
      using inv_reservedD(5) [OF R, of q g p] past_check_generation make_pending(2) by fastforce
    then show ?thesis unfolding make_pending(1)
      by (intro inv_fence_keep [OF inv]) (use make_pending(3) in auto)
  next
    case (not_superseded p g c)
    have top: "h \<in> listed c \<Longrightarrow> h \<le> g" for h using not_superseded(4) by (auto simp: operationIsSuperseded_def not_less)
    have gen: "left_to_fence (sy_phase s q) = Some (h, t) \<Longrightarrow> h \<le> g" for q h t
      using left_to_fence_generation [of "sy_phase s q" h t] inv_reservedD(4) [OF R, of q h] inv_reservedD(2) [OF R]
        top not_superseded(3) by simp
    have com: "g \<in> oc_pending c \<Longrightarrow> h \<in> committed_generations c \<Longrightarrow> h < g" for h
      using top [of h] pending_committed [of g] not_superseded(3) by (auto simp: listed_def le_less)
    show ?thesis unfolding not_superseded(1)
    proof (rule inv_fenceI)
      let ?s = "at_phase s p (Checked g) c"
      fix r k q h t
      assume r: "past_check (sy_phase ?s r) = Some k" "k \<in> oc_pending (sy_cache ?s)"
      show "left_to_fence (sy_phase ?s q) = Some (h, t) \<Longrightarrow> k < h \<Longrightarrow> k \<in> t"
        using r gen [of q h t] inv_fenceD(1) [OF inv, of r k q h t] not_superseded(3)
        by (cases "r = p"; cases "q = p") auto
      show "h \<in> committed_generations (sy_cache ?s) \<Longrightarrow> h < k"
        using r com inv_fenceD(2) [OF inv, of r k h] not_superseded(3) by (cases "r = p") auto
    qed
  next
    case (list_lower p g c)
    show ?thesis unfolding list_lower(1)
    proof (rule inv_fenceI)
      let ?s = "at_phase s p (Fencing g (lowerPending c g)) c"
      fix r k q h t
      assume r: "past_check (sy_phase ?s r) = Some k" "k \<in> oc_pending (sy_cache ?s)"
      then have o: "past_check (sy_phase s r) = Some k" "k \<in> oc_pending (sy_cache s)"
        using list_lower(2,3) by (auto split: if_splits)
      show "left_to_fence (sy_phase ?s q) = Some (h, t) \<Longrightarrow> k < h \<Longrightarrow> k \<in> t"
        using o inv_fenceD(1) [OF inv o, of q h t] list_lower(3) by (cases "q = p") (auto simp: lowerPending_def)
      show "h \<in> committed_generations (sy_cache ?s) \<Longrightarrow> h < k"
        using inv_fenceD(2) [OF inv o, of h] list_lower(3) by simp
    qed
  next
    case (fence p g todo j c)
    show ?thesis unfolding fence(1)
    proof (rule inv_fenceI)
      let ?s = "at_phase s p (Fencing g (todo - {j})) (fenceOperation c j)"
      fix r k q h t
      assume r: "past_check (sy_phase ?s r) = Some k" "k \<in> oc_pending (sy_cache ?s)"
      then have o: "past_check (sy_phase s r) = Some k" "k \<in> oc_pending (sy_cache s)" "k \<noteq> j"
        using fence(2,4) by (auto split: if_splits)
      show "left_to_fence (sy_phase ?s q) = Some (h, t) \<Longrightarrow> k < h \<Longrightarrow> k \<in> t"
        using o(3) inv_fenceD(1) [OF inv o(1,2), of q h] fence(2) by (cases "q = p") auto
      show "h \<in> committed_generations (sy_cache ?s) \<Longrightarrow> h < k"
        using inv_fenceD(2) [OF inv o(1,2), of h] fence(4) by simp
    qed
  next
    case (commit p g base c mutate c')
    note f = commitRename_fields [OF commit(5)]
    show ?thesis unfolding commit(1)
    proof (rule inv_fenceI)
      let ?s = "at_phase s p Finished c'"
      fix r k q h t
      assume r: "past_check (sy_phase ?s r) = Some k" "k \<in> oc_pending (sy_cache ?s)"
      then have o: "past_check (sy_phase s r) = Some k" "k \<in> oc_pending (sy_cache s)" "k \<noteq> g"
        using f(3) commit(3) by (auto split: if_splits)
      show "left_to_fence (sy_phase ?s q) = Some (h, t) \<Longrightarrow> k < h \<Longrightarrow> k \<in> t"
        using inv_fenceD(1) [OF inv o(1,2), of q h t] by (cases "q = p") auto
      have "\<not> k < g" using inv_fenceD(1) [OF inv o(1,2), of p g "{}"] commit(2) by auto
      then show "h \<in> committed_generations (sy_cache ?s) \<Longrightarrow> h < k"
        using inv_fenceD(2) [OF inv o(1,2), of h] o(3) f(5) commit(3) by auto
    qed
  next
    case (retire c)
    then show ?thesis using inv by (simp add: inv_fence_def)
  qed (auto intro!: inv_fence_keep [OF inv])
qed

lemma inv_serialD:
  assumes "inv_serial blank s"
  shows "sorted (map ce_generation (oc_commits (sy_cache s)))"
    "n < length (oc_commits (sy_cache s)) \<Longrightarrow>
       ce_written (oc_commits (sy_cache s) ! n) = serial blank (take (Suc n) (oc_commits (sy_cache s)))"
    "sy_phase s p = Loaded g base \<Longrightarrow> g \<in> oc_pending (sy_cache s) \<Longrightarrow> base = serial blank (oc_commits (sy_cache s))"
  using assms unfolding inv_serial_def by blast+

lemma inv_serial_keep:
  assumes "inv_serial blank s" "oc_commits c = oc_commits (sy_cache s)"
    and "\<And>q g base. q \<noteq> p \<Longrightarrow> sy_phase s q = Loaded g base \<Longrightarrow> g \<in> oc_pending c \<Longrightarrow> g \<in> oc_pending (sy_cache s)"
    and "\<And>g base. ph = Loaded g base \<Longrightarrow> base = serial blank (oc_commits c)"
  shows "inv_serial blank (at_phase s p ph c)"
proof -
  have "base = serial blank (oc_commits c)" if "sy_phase (at_phase s p ph c) q = Loaded g base" "g \<in> oc_pending c" for q g base
    using that assms(2-4) inv_serialD(3) [OF assms(1), of q g base] by (cases "q = p") auto
  then show ?thesis using inv_serialD(1,2) [OF assms(1)] assms(2) unfolding inv_serial_def by simp
qed

lemma serial_snoc: "serial blank (es @ [e]) = ce_mutation e (serial blank es)"
  by (simp add: serial_def)

lemma step_serial:
  "step blank allowed s s' \<Longrightarrow> inv_reserved s \<Longrightarrow> inv_names s \<Longrightarrow> inv_fence s \<Longrightarrow> inv_serial blank s \<Longrightarrow> inv_serial blank s'"
proof -
  assume st: "step blank allowed s s'" and R: "inv_reserved s" and N: "inv_names s" and F: "inv_fence s"
    and inv: "inv_serial blank s"
  from st show ?thesis
  proof cases
    case (make_pending p g c)
    have "q \<noteq> p \<Longrightarrow> sy_phase s q = Loaded h base \<Longrightarrow> h \<noteq> g" for q h base
      using inv_reservedD(5) [OF R, of q g p] make_pending(2) by auto
    then show ?thesis unfolding make_pending(1)
      by (intro inv_serial_keep [OF inv]) (use make_pending(3) in auto)
  next
    case (load p g c)
    then show ?thesis using readState_serial [OF N inv] by (auto intro!: inv_serial_keep [OF inv])
  next
    case (commit p g base c mutate c')
    note f = commitRename_fields [OF commit(5)]
    have pg: "past_check (sy_phase s p) = Some g" "g \<in> oc_pending (sy_cache s)" using commit(2,3) f(1) by simp_all
    have base: "base = serial blank (oc_commits c)" using inv_serialD(3) [OF inv commit(2)] f(1) commit(3) by simp
    have below: "h \<in> committed_generations c \<Longrightarrow> h < g" for h using inv_fenceD(2) [OF F pg] commit(3) by simp
    have alone: "h \<notin> oc_pending c'" if q: "q \<noteq> p" "sy_phase s q = Loaded h b" for q h b
    proof
      assume h: "h \<in> oc_pending c'"
      then have ph: "past_check (sy_phase s q) = Some h" "h \<in> oc_pending (sy_cache s)" "h \<noteq> g"
        using q(2) f(3) commit(3) by auto
      have "\<not> h < g" using inv_fenceD(1) [OF F ph(1,2), of p g "{}"] commit(2) by auto
      moreover have "\<not> g < h" using inv_fenceD(1) [OF F pg, of q h "{}"] q(2) by auto
      ultimately show False using ph(3) by simp
    qed
    have "sorted (map ce_generation (oc_commits c'))"
      using inv_serialD(1) [OF inv] below commit(3) by (auto simp: f(4) sorted_append committed_generations_def less_imp_le)
    moreover have "ce_written (oc_commits c' ! n) = serial blank (take (Suc n) (oc_commits c'))"
      if "n < length (oc_commits c')" for n
    proof (cases "n = length (oc_commits c)")
      case True
      then show ?thesis by (simp add: f(4) serial_snoc base)
    next
      case False
      then have "n < length (oc_commits c)" using that by (simp add: f(4))
      then show ?thesis using inv_serialD(2) [OF inv, of n] commit(3) by (simp add: f(4) nth_append)
    qed
    moreover have "b = serial blank (oc_commits c')"
      if "sy_phase (at_phase s p Finished c') q = Loaded h b" "h \<in> oc_pending c'" for q h b
      using that alone by (cases "q = p") auto
    ultimately show ?thesis unfolding commit(1) inv_serial_def by simp
  next
    case (retire c)
    then show ?thesis using inv by (simp add: inv_serial_def)
  qed (auto intro!: inv_serial_keep [OF inv])
qed

section \<open>Reachable systems\<close>

theorem reachable_invariant:
  assumes "reachable blank allowed s"
  shows "inv_reserved s \<and> inv_names s \<and> inv_fence s \<and> inv_serial blank s"
  using assms
proof (induction rule: reachable.induct)
  case start
  have "inv_reserved initial"
    unfolding inv_reserved_def
    by (auto simp: initial_def initial_cache_def listed_def committed_generations_def intro: exI [of _ 0])
  then show ?case
    by (simp add: inv_names_def inv_fence_def inv_serial_def initial_def initial_cache_def committed_generations_def)
next
  case (more s s')
  then have i: "inv_reserved s" "inv_names s" "inv_fence s" "inv_serial blank s" by simp_all
  show ?case
    using step_reserved [OF more(2) i(1)] step_names [OF more(2) i(1,2)] step_fence [OF more(2) i(1-3)]
      step_serial [OF more(2) i] by simp
qed

lemma reachable_serial:
  assumes "reachable blank allowed s"
  shows "readState blank (sy_cache s) = serial blank (oc_commits (sy_cache s))"
    "sorted (map ce_generation (oc_commits (sy_cache s))) \<and> distinct (map ce_generation (oc_commits (sy_cache s)))"
proof -
  have i: "inv_names s" "inv_serial blank s" using reachable_invariant [OF assms] by simp_all
  show "readState blank (sy_cache s) = serial blank (oc_commits (sy_cache s))" by (rule readState_serial [OF i])
  show "sorted (map ce_generation (oc_commits (sy_cache s))) \<and> distinct (map ce_generation (oc_commits (sy_cache s)))"
    using inv_serialD(1) [OF i(2)] inv_namesD(2) [OF i(1)] by simp
qed

lemma reachable_allowed:
  assumes "reachable blank allowed s" "e \<in> set (oc_commits (sy_cache s))"
  shows "allowed (ce_mutation e)"
  using assms
proof (induction rule: reachable.induct)
  case start
  then show ?case by (simp add: initial_def initial_cache_def)
next
  case (more s s')
  from more(2) show ?case
  proof cases
    case (commit p g base c mutate c')
    then show ?thesis using more commitRename_fields(4) [OF commit(5)] by auto
  qed (use more in auto)
qed

end
