(* ===== verification/Update_Properties.thy ===== *)
theory Update_Properties
  imports Update_Checks Update_Protocol
begin

text \<open>
  The properties of the update checker (\<open>scripts/update-contract.mjs\<close>, \<open>scripts/check-update.mjs\<close>), with the
  scenario their witnesses use, and the lemmas about a process that runs alone.
\<close>

section \<open>Helpers\<close>

lemma read_chunks_iff:
  "length r \<le> MAX_RESPONSE_BYTES \<Longrightarrow>
     read_chunks r cs = (if length (r @ concat cs) \<le> MAX_RESPONSE_BYTES then Some (r @ concat cs) else None)"
proof (induction cs arbitrary: r)
  case (Cons c cs)
  show ?case
  proof (cases "MAX_RESPONSE_BYTES < length r + length c")
    case False
    then show ?thesis using Cons.IH [of "r @ c"] by simp
  qed simp
qed simp

text \<open>The mutations the two entry points commit.\<close>

definition update_mutation :: "(int \<Rightarrow> jstring) \<Rightarrow> local_release \<Rightarrow> (update_state \<Rightarrow> update_state) \<Rightarrow> bool" where
  "update_mutation toIso lr f \<longleftrightarrow>
     (\<exists>now w. f = (\<lambda>s. stateAfterFailedCheck toIso s now w)) \<or>
     (\<exists>now draw c. f = (\<lambda>s. the (de_state (success_decision toIso now draw lr c s)))) \<or>
     (\<exists>d. f = (\<lambda>s. stateAfterAcknowledgement s d))"

lemma update_mutation_acked:
  "update_mutation toIso lr f \<Longrightarrow> set (us_acknowledgedDigests s) \<subseteq> set (us_acknowledgedDigests (f s))"
  by (auto simp: update_mutation_def stateAfterFailedCheck_def stateWithFailureCheck_def success_decision_def
      stateAfterAcknowledgement_def Let_def)

lemma serial_acked:
  assumes "\<forall>e\<in>set es. update_mutation toIso lr (ce_mutation e)" "m \<le> n" "n \<le> length es"
  shows "set (us_acknowledgedDigests (serial blank (take m es))) \<subseteq> set (us_acknowledgedDigests (serial blank (take n es)))"
  using assms(2,3)
proof (induction n rule: nat_induct_at_least)
  case (Suc n)
  have "take (Suc n) es = take n es @ [es ! n]" using Suc by (simp add: take_Suc_conv_app_nth)
  moreover have "update_mutation toIso lr (ce_mutation (es ! n))" using assms(1) Suc by simp
  ultimately show ?case using Suc update_mutation_acked by (fastforce simp: serial_snoc)
qed simp

declare fun_upd_apply [simp del]
declare fun_upd_same [simp]

section \<open>A process that runs alone commits\<close>

abbreviation steps :: "'st \<Rightarrow> (('st \<Rightarrow> 'st) \<Rightarrow> bool) \<Rightarrow> 'st system \<Rightarrow> 'st system \<Rightarrow> bool" where
  "steps blank allowed \<equiv> (step blank allowed)\<^sup>*\<^sup>*"

lemma system_eta [simp]: "\<lparr>sy_cache = sy_cache s, sy_phase = sy_phase s\<rparr> = (s :: 'st system)"
  by (cases s) simp

lemma readState_commits: "oc_commits c = oc_commits d \<Longrightarrow> readState blank c = readState blank d"
  by (simp add: readState_def newest_commit_def committed_generations_def)

lemma steps_reachable: "steps blank allowed s s' \<Longrightarrow> reachable blank allowed s \<Longrightarrow> reachable blank allowed s'"
  by (induction rule: rtranclp_induct) (auto intro: reachable.more)

lemma steps_trans_one: "step blank allowed s s' \<Longrightarrow> steps blank allowed s' s'' \<Longrightarrow> steps blank allowed s s''"
  by (rule converse_rtranclp_into_rtranclp)

lemma scan_occupied:
  assumes "sy_phase s p = Scanning occ g" "{g..<g + k} \<subseteq> occ"
  shows "steps blank allowed s (at_phase s p (Scanning occ (g + k)) (sy_cache s))"
  using assms
proof (induction k)
  case 0
  then have "(sy_phase s)(p := Scanning occ g) = sy_phase s" by (metis fun_upd_triv)
  then show ?case by simp
next
  case (Suc k)
  let ?s = "at_phase s p (Scanning occ (g + k)) (sy_cache s)"
  have "{g..<g + k} \<subseteq> occ" "g + k \<in> occ" using Suc.prems(2) by auto
  then have "steps blank allowed s ?s" "step blank allowed ?s (at_phase ?s p (Scanning occ (Suc (g + k))) (sy_cache s))"
    using Suc.IH Suc.prems(1) skip_occupied [of ?s p occ "g + k" "sy_cache s"] by simp_all
  then show ?case by simp
qed

lemma fence_everything:
  assumes "finite todo" "sy_phase s p = Fencing g todo"
  shows "\<exists>c. steps blank allowed s (at_phase s p (Fencing g {}) c) \<and> oc_commits c = oc_commits (sy_cache s) \<and>
    oc_pending c = oc_pending (sy_cache s) - todo \<and> oc_claim c = oc_claim (sy_cache s)"
  using assms
proof (induction todo arbitrary: s rule: finite_induct)
  case empty
  then have "(sy_phase s)(p := Fencing g {}) = sy_phase s" by (metis fun_upd_triv)
  then show ?case by (intro exI [of _ "sy_cache s"]) simp
next
  case (insert h todo)
  let ?c = "fenceOperation (sy_cache s) h" and ?s = "at_phase s p (Fencing g (insert h todo - {h})) (fenceOperation (sy_cache s) h)"
  have one: "step blank allowed s ?s" by (rule fence [OF insert.prems _ refl]) simp
  have "sy_phase ?s p = Fencing g todo" using insert.hyps by simp
  from insert.IH [OF this] obtain c where c: "steps blank allowed ?s (at_phase ?s p (Fencing g {}) c)"
    "oc_commits c = oc_commits ?c" "oc_pending c = oc_pending ?c - todo" "oc_claim c = oc_claim ?c" by auto
  have "steps blank allowed s (at_phase s p (Fencing g {}) c)" using steps_trans_one [OF one c(1)] by simp
  moreover have "oc_claim ?c = oc_claim (sy_cache s)" by (simp add: fenceOperation_def)
  ultimately show ?case using c by (intro exI [of _ c]) auto
qed

text \<open>The claim of another process is retired first, as an expired lease allows.\<close>

lemma claim_freed:
  "\<exists>s'. steps blank allowed s s' \<and> sy_phase s' = sy_phase s \<and> sy_cache s' = (sy_cache s)\<lparr>oc_claim := None\<rparr>"
proof (cases "oc_claim (sy_cache s)")
  case None
  then show ?thesis by (intro exI [of _ s]) simp
next
  case (Some g)
  then have "step blank allowed s \<lparr>sy_cache = (sy_cache s)\<lparr>oc_claim := None\<rparr>, sy_phase = sy_phase s\<rparr>"
    by (intro retire) auto
  then show ?thesis by (intro exI [of _ "\<lparr>sy_cache = (sy_cache s)\<lparr>oc_claim := None\<rparr>, sy_phase = sy_phase s\<rparr>"] conjI r_into_rtranclp) simp_all
qed

lemma claims_generation:
  assumes "reachable blank allowed s" "sy_phase s p = Idle"
  shows "\<exists>c g. steps blank allowed s (at_phase s p (Pending g) c) \<and> g \<in> oc_pending c \<and> (\<forall>h\<in>listed c. h \<le> g) \<and>
    oc_commits c = oc_commits (sy_cache s) \<and> oc_claim c = None \<and> finite (oc_pending c)"
proof -
  have i: "inv_reserved s" using reachable_invariant [OF assms(1)] by simp
  then obtain n where n: "oc_reserved (sy_cache s) = {1..n}" "listed (sy_cache s) = {1..n}"
    unfolding inv_reserved_def by metis
  obtain s0 where s0: "steps blank allowed s s0" "sy_phase s0 = sy_phase s" "sy_cache s0 = (sy_cache s)\<lparr>oc_claim := None\<rparr>"
    using claim_freed [of blank allowed s] by (elim exE conjE) simp
  let ?c = "sy_cache s0" and ?at = "\<lambda>ph c. at_phase s0 p ph c"
  have l: "oc_reserved ?c = {1..n}" using n(1) s0(3) by simp
  have "listed ?c = listed (sy_cache s)" unfolding listed_def committed_generations_def s0(3) by simp
  then have l2: "listed ?c = {1..n}" using n(2) by simp
  let ?c1 = "?c\<lparr>oc_reserved := insert (Suc n) (oc_reserved ?c)\<rparr>"
  let ?c2 = "?c1\<lparr>oc_pending := insert (Suc n) (oc_pending ?c1)\<rparr>"
  have 1: "step blank allowed s0 (?at (Scanning {1..n} 1) ?c)"
    using list_operations [of s0 p ?c] assms(2) s0(2) l2 by simp
  have 2: "steps blank allowed (?at (Scanning {1..n} 1) ?c) (?at (Scanning {1..n} (Suc n)) ?c)"
    using scan_occupied [of "?at (Scanning {1..n} 1) ?c" p "{1..n}" 1 n blank allowed] by (simp add: atLeastLessThanSuc_atLeastAtMost)
  have 3: "step blank allowed (?at (Scanning {1..n} (Suc n)) ?c) (?at (Reserved (Suc n)) ?c1)"
    using reserve [of "?at (Scanning {1..n} (Suc n)) ?c" p "{1..n}" "Suc n" ?c] l by simp
  have 4: "step blank allowed (?at (Reserved (Suc n)) ?c1) (?at (Pending (Suc n)) ?c2)"
    using make_pending [of "?at (Reserved (Suc n)) ?c1" p "Suc n" ?c1] by simp
  have "steps blank allowed s (?at (Pending (Suc n)) ?c2)"
    by (rule rtranclp_trans [OF s0(1)] steps_trans_one [OF 1] rtranclp_trans [OF 2] steps_trans_one [OF 3]
        r_into_rtranclp [of "step blank allowed", OF 4])+
  moreover have "?at (Pending (Suc n)) ?c2 = at_phase s p (Pending (Suc n)) ?c2" using s0(2) by simp
  moreover have f: "oc_pending ?c \<subseteq> {1..n}" using l2 by (auto simp: listed_def)
  moreover have "\<forall>h\<in>listed ?c2. h \<le> Suc n"
  proof -
    have "listed ?c2 = insert (Suc n) (listed ?c)" by (auto simp: listed_def committed_generations_def)
    then show ?thesis using l2 by auto
  qed
  moreover have "finite (oc_pending ?c2)" using finite_subset [OF f] by simp
  ultimately show ?thesis using s0(3) by (intro exI [of _ ?c2] exI [of _ "Suc n"]) auto
qed

lemma commits_generation:
  assumes "sy_phase s p = Pending g" "g \<in> oc_pending (sy_cache s)" "\<forall>h\<in>listed (sy_cache s). h \<le> g"
    and "oc_claim (sy_cache s) = None" "finite (oc_pending (sy_cache s))" "allowed f"
  shows "\<exists>s'. steps blank allowed s s' \<and> sy_phase s' = (sy_phase s)(p := Finished) \<and> oc_commits (sy_cache s') = oc_commits (sy_cache s) @
    [\<lparr>ce_generation = g, ce_mutation = f, ce_written = f (readState blank (sy_cache s))\<rparr>]"
proof -
  let ?c = "sy_cache s" and ?at = "\<lambda>ph c. at_phase s p ph c"
  let ?c1 = "?c\<lparr>oc_claim := Some g\<rparr>" and ?low = "lowerPending (sy_cache s) g"
  have 1: "step blank allowed s (?at (Checked g) ?c)"
    using not_superseded [of s p g ?c] assms(1,3) by (auto simp: operationIsSuperseded_def not_less)
  have 2: "step blank allowed (?at (Checked g) ?c) (?at (Promoted g) ?c1)"
    using promote [of "?at (Checked g) ?c" p g ?c] assms(4) by simp
  have 3: "step blank allowed (?at (Promoted g) ?c1) (?at (Owning g) ?c1)"
    using owns_claim [of "?at (Promoted g) ?c1" p g ?c1] by simp
  have 4: "step blank allowed (?at (Owning g) ?c1) (?at (Fencing g ?low) ?c1)"
    using list_lower [of "?at (Owning g) ?c1" p g ?c1] by (simp add: lowerPending_def)
  have fin: "finite ?low" using assms(5) by (simp add: lowerPending_def)
  obtain c where 5: "steps blank allowed (?at (Fencing g ?low) ?c1) (?at (Fencing g {}) c)"
    and c: "oc_commits c = oc_commits ?c" "oc_pending c = oc_pending ?c - ?low" "oc_claim c = Some g"
    using fence_everything [OF fin, of "?at (Fencing g ?low) ?c1" p g blank allowed] by auto
  have 6: "step blank allowed (?at (Fencing g {}) c) (?at (Fenced g) c)"
    using all_fenced [of "?at (Fencing g {}) c" p g c] by simp
  have 7: "step blank allowed (?at (Fenced g) c) (?at (Confirmed g) c)"
    using still_owns [of "?at (Fenced g) c" p g c] c(3) by simp
  have rd: "readState blank c = readState blank ?c" by (rule readState_commits [OF c(1)])
  have 8: "step blank allowed (?at (Confirmed g) c) (?at (Loaded g (readState blank ?c)) c)"
    using load [of "?at (Confirmed g) c" p g c blank allowed] unfolding rd by simp
  have p: "g \<in> oc_pending c" using c(2) assms(2) by (simp add: lowerPending_def)
  then obtain c' where c': "commitRename c g f (readState blank ?c) = Some c'" by (simp add: commitRename_def)
  have 9: "step blank allowed (?at (Loaded g (readState blank ?c)) c) (?at Finished c')"
    using commit [of "?at (Loaded g (readState blank ?c)) c" p g "readState blank ?c" c allowed f c'] assms(6) c' by simp
  have "steps blank allowed s (?at Finished c')"
    by (rule steps_trans_one [OF 1] steps_trans_one [OF 2] steps_trans_one [OF 3] steps_trans_one [OF 4]
          rtranclp_trans [OF 5] steps_trans_one [OF 6] steps_trans_one [OF 7] steps_trans_one [OF 8] r_into_rtranclp [of "step blank allowed", OF 9])+
  moreover have "oc_commits c' = oc_commits ?c @ [\<lparr>ce_generation = g, ce_mutation = f, ce_written = f (readState blank ?c)\<rparr>]"
    using c' c(1) p by (auto simp: commitRename_def)
  ultimately show ?thesis by (intro exI [of _ "?at Finished c'"]) simp
qed

lemma runs_alone:
  assumes "reachable blank allowed s" "sy_phase s p = Idle" "allowed f"
  shows "\<exists>s' g. steps blank allowed s s' \<and> sy_phase s' = (sy_phase s)(p := Finished) \<and> oc_commits (sy_cache s') = oc_commits (sy_cache s) @
    [\<lparr>ce_generation = g, ce_mutation = f, ce_written = f (readState blank (sy_cache s))\<rparr>]"
proof -
  obtain c g where c: "steps blank allowed s (at_phase s p (Pending g) c)" "g \<in> oc_pending c" "\<forall>h\<in>listed c. h \<le> g"
    "oc_commits c = oc_commits (sy_cache s)" "oc_claim c = None" "finite (oc_pending c)"
    using claims_generation [OF assms(1,2)] by blast
  have rd: "readState blank c = readState blank (sy_cache s)"
    by (rule readState_commits [OF c(4)])
  obtain s' where s': "steps blank allowed (at_phase s p (Pending g) c) s'" "sy_phase s' = (sy_phase s)(p := Finished)"
    "oc_commits (sy_cache s') = oc_commits c @ [\<lparr>ce_generation = g, ce_mutation = f, ce_written = f (readState blank c)\<rparr>]"
    using commits_generation [of "at_phase s p (Pending g) c" p g allowed f blank] c assms(3) by auto
  have "steps blank allowed s s'" by (rule rtranclp_trans [OF c(1) s'(1)])
  then show ?thesis using s' c(4) rd by (intro exI [of _ s'] exI [of _ g]) simp
qed

declare fun_upd_same [simp del]
declare fun_upd_apply [simp]

text \<open>Two processes, one after the other.\<close>

lemma two_commits:
  assumes "allowed f" "allowed g"
  shows "\<exists>s a b. reachable blank allowed s \<and> oc_commits (sy_cache s) =
    [\<lparr>ce_generation = a, ce_mutation = f, ce_written = f blank\<rparr>, \<lparr>ce_generation = b, ce_mutation = g, ce_written = g (f blank)\<rparr>]"
proof -
  let ?i = "initial :: 'a system"
  have i: "reachable blank allowed ?i" "sy_phase ?i 0 = Idle" "oc_commits (sy_cache ?i) = []" "readState blank (sy_cache ?i) = blank"
    by (rule reachable.start) (simp_all add: initial_def initial_cache_def readState_def newest_commit_def)
  obtain s1 a where s1: "steps blank allowed ?i s1" "sy_phase s1 = (sy_phase ?i)(0 := Finished)"
    "oc_commits (sy_cache s1) = [\<lparr>ce_generation = a, ce_mutation = f, ce_written = f blank\<rparr>]"
    using runs_alone [OF i(1,2) assms(1)] i(3,4) by auto
  have r1: "reachable blank allowed s1" "sy_phase s1 1 = Idle" "readState blank (sy_cache s1) = f blank"
    using steps_reachable [OF s1(1) i(1)] s1(2,3)
    by (simp_all add: readState_def newest_commit_def committed_generations_def initial_def fun_upd_apply)
  obtain s2 b where s2: "steps blank allowed s1 s2"
    "oc_commits (sy_cache s2) = oc_commits (sy_cache s1) @ [\<lparr>ce_generation = b, ce_mutation = g, ce_written = g (f blank)\<rparr>]"
    using runs_alone [OF r1(1,2) assms(2)] r1(3) by auto
  show ?thesis using steps_reachable [OF s2(1) r1(1)] s2(2) s1(3) by (intro exI [of _ s2] exI [of _ a] exI [of _ b]) simp
qed

section \<open>Properties\<close>

text \<open>
  C20: On texts that parse, \<open>compareSemver\<close> is the comparison of a linear order on precedence keys: core
  numbers by length and digits, a release above its prereleases, prerelease identifiers one by one with
  numeric identifiers below the others and a proper prefix below its extensions; build metadata is ignored.
\<close>

theorem compareSemver_is_precedence:
  assumes "parseSemver a = Inr u" "parseSemver b = Inr v"
  shows "compareSemver a b = Inr (cmp (precedence u) (precedence v))"
  by (rule compareSemver_precedence [OF assms])

definition sample_old :: semver where
  "sample_old = \<lparr>sv_core = [js ''2'', js ''9'', js ''0''], sv_prerelease = Some [js ''rc'', js ''2''], sv_build = None\<rparr>"

definition sample_new :: semver where
  "sample_new = \<lparr>sv_core = [js ''2'', js ''10'', js ''0''], sv_prerelease = None, sv_build = None\<rparr>"

lemma sample_versions:
  "valid_semver sample_old" "valid_semver sample_new" "length (render_semver sample_old) \<le> 128"
  "length (render_semver sample_new) \<le> 128"
  by (simp_all add: valid_semver_def sample_old_def sample_new_def canonical_numeric_def is_numeric_def is_digit_def
      valid_identifiers_def ident_char_def leading_zero_def render_semver_def)

theorem compareSemver_witness:
  "compareSemver (JStr (render_semver sample_new)) (JStr (render_semver sample_old)) = Inr 1"
  using compareSemver_is_precedence [OF parseSemver_render parseSemver_render, OF sample_versions(2,4,1,3)]
  by (simp add: cmp_def precedence_def sample_old_def sample_new_def numeric_key_def)

text \<open>
  Parsing and rendering versions are inverse: every well-formed version of at most 128 characters parses
  back from its text, and a text that parses is the text of the well-formed version it gave.
\<close>

theorem parseSemver_render_roundtrip:
  "(valid_semver v \<longrightarrow> length (render_semver v) \<le> 128 \<longrightarrow> parseSemver (JStr (render_semver v)) = Inr v) \<and>
   (parseSemver (JStr t) = Inr w \<longrightarrow> render_semver w = t \<and> valid_semver w)"
  using parseSemver_render parseSemver_Inr by blast

theorem parseSemver_render_witness: "parseSemver (JStr (render_semver sample_old)) = Inr sample_old"
  using parseSemver_render_roundtrip [of sample_old "[]" sample_old] sample_versions by blast

text \<open>
  C16: The cache file is read back as it was written: for a state of the invariant, \<open>normalizeState\<close> applied
  to the encoded document gives the state itself.
\<close>

theorem cache_state_roundtrip:
  assumes "wf_state v s"
  shows "normalizeState (state_json s) (Some v) = Some s"
  by (rule normalizeState_roundtrip [OF assms])

definition sample_state :: update_state where
  "sample_state = emptyState (Some (render_semver sample_new))"

lemma sample_state_wf: "wf_state (render_semver sample_new) sample_state"
proof -
  have t: "render_semver sample_new = js ''2.10.0''" by (simp add: render_semver_def sample_new_def)
  have "json_bytes (state_json sample_state) \<le> 300"
    by (simp add: sample_state_def emptyState_def state_json_def string_or_null_def t SKILL_ID_def decimal_digits.simps)
  moreover have "json_bytes (state_json (failed sample_state)) \<le> 300"
    by (simp add: sample_state_def emptyState_def failed_def stateWithFailureCheck_def state_json_def string_or_null_def t
        SKILL_ID_def LONGEST_ISO_TIMESTAMP_def decimal_digits.simps)
  ultimately have "encodeRecoverableState sample_state \<noteq> None"
    by (auto simp: encodeRecoverableState_def encodeBoundedState_def MAX_CACHE_STATE_BYTES_def failed_def sample_state_def emptyState_def)
  then show ?thesis
    using parseSemver_render [OF sample_versions(2,4)]
    by (auto simp: wf_state_def sample_state_def emptyState_def digests_ok_def)
qed

theorem cache_state_witness: "normalizeState (state_json sample_state) (Some (render_semver sample_new)) = Some sample_state"
  by (rule cache_state_roundtrip [OF sample_state_wf])


text \<open>
  C21: A cached document that is accepted gives a state of the invariant: distinct well-formed digests, a
  well-formed stable candidate that, when newer than the installed version, has been offered or
  acknowledged, and an encoding that leaves room for every acknowledgement.
\<close>

theorem accepted_cache_is_wf:
  assumes "normalizeState value (Some v) = Some s"
  shows "wf_state v s"
  by (rule normalizeState_wf [OF assms])

theorem accepted_cache_witness: "wf_state (render_semver sample_new) sample_state"
  by (rule accepted_cache_is_wf [OF normalizeState_roundtrip [OF sample_state_wf]])

text \<open>
  C17: The capacity check of \<open>encodeRecoverableState\<close> reserves the room the later transitions need: from a
  state it accepts, every digest that was offered or acknowledged can be acknowledged, and a failed check
  can be recorded with any timestamp of at most 27 bytes, and the result is accepted again.
\<close>

theorem recoverable_states_stay_recoverable:
  assumes "digests_ok s" "encodeRecoverableState s \<noteq> None"
  shows "(d \<in> offered_set s \<union> acked_set s \<longrightarrow> encodeRecoverableState (stateAfterAcknowledgement s d) \<noteq> None) \<and>
    (string_bytes t \<le> 27 \<longrightarrow> n < 10 \<longrightarrow> encodeRecoverableState (stateWithFailureCheck s t n False) \<noteq> None)"
  using acknowledgement_recoverable [OF assms] failure_recoverable [OF assms] by blast

theorem recoverable_witness: "encodeRecoverableState (stateWithFailureCheck sample_state (iso_text 0) 1 False) \<noteq> None"
proof -
  have "digests_ok sample_state" "encodeRecoverableState sample_state \<noteq> None"
    using sample_state_wf by (simp_all add: wf_state_def)
  then show ?thesis
    using recoverable_states_stay_recoverable [of sample_state "[]" "iso_text 0" 1] iso_calendar.toIso_bytes [of 0] by simp
qed

text \<open>Version 2.9.0 is installed and version 2.10.0 has been offered.\<close>

definition sample_installed :: semver where
  "sample_installed = \<lparr>sv_core = [js ''2'', js ''9'', js ''0''], sv_prerelease = None, sv_build = None\<rparr>"

definition sample_digest :: jstring where
  "sample_digest = js ''sha256:'' @ replicate 64 97"

definition installed_release :: local_release where
  "installed_release = \<lparr>lo_channel = js ''stable'', lo_version = render_semver sample_installed\<rparr>"

definition sample_record :: json where
  "sample_record = JObj [(js ''schemaVersion'', JNum 1), (js ''skillId'', JStr SKILL_ID), (js ''channel'', JStr (js ''stable'')),
     (js ''version'', JStr (render_semver sample_installed)),
     (js ''source'', JObj [(js ''repository'', JStr EXPECTED_REPOSITORY)]), (js ''updateManifestUrl'', JStr DEFAULT_MANIFEST_URL)]"

definition sample_candidate :: candidate where
  "sample_candidate = \<lparr>ca_version = render_semver sample_new, ca_targetDigest = JStr sample_digest, ca_severity = js ''normal'',
     ca_releaseNotes = release_notes_prefix @ render_semver sample_new\<rparr>"

definition offered_state :: update_state where
  "offered_state = (emptyState (Some (render_semver sample_installed)))\<lparr>us_offeredDigests := [sample_digest],
     us_candidate := Some sample_candidate\<rparr>"

lemma sample_parses:
  "parseSemver (JStr (render_semver sample_installed)) = Inr sample_installed"
  "parseSemver (JStr (render_semver sample_new)) = Inr sample_new"
  by (rule parseSemver_render; simp add: valid_semver_def sample_installed_def sample_new_def canonical_numeric_def is_numeric_def
      is_digit_def valid_identifiers_def ident_char_def leading_zero_def render_semver_def)+

lemma sample_record_members:
  "hasExactKeys sample_record [js ''schemaVersion'', js ''skillId'', js ''channel'', js ''version'', js ''source'', js ''updateManifestUrl'']"
  "get sample_record (js ''schemaVersion'') = Some (JNum 1)" "get sample_record (js ''skillId'') = Some (JStr SKILL_ID)"
  "get sample_record (js ''source'') = Some (JObj [(js ''repository'', JStr EXPECTED_REPOSITORY)])"
  "get sample_record (js ''updateManifestUrl'') = Some (JStr DEFAULT_MANIFEST_URL)"
  "get sample_record (js ''version'') = Some (JStr (render_semver sample_installed))"
  "get sample_record (js ''channel'') = Some (JStr (js ''stable''))"
  by (simp_all add: sample_record_def hasExactKeys_def)

lemma sample_record_valid: "validateLocalRelease sample_record = Inr installed_release"
proof -
  have "hasExactKeys (JObj [(k, v)]) [k]" "get (JObj [(k, v)]) k = Some v" for k v by (simp_all add: hasExactKeys_def)
  moreover have "releaseChannelForVersion (JStr (render_semver sample_installed)) = Inr (js ''stable'')"
    by (simp add: releaseChannelForVersion_def sample_parses) (simp add: sample_installed_def)
  ultimately show ?thesis
    by (simp add: validateLocalRelease_def throw_if_def sample_record_members installed_release_def del: js_simps get.simps)
qed

lemma sample_newer: "newer (render_semver sample_new) (render_semver sample_installed)"
  using compareSemver_precedence [OF sample_parses(2,1)]
  by (simp add: newer_def cmp_def precedence_def sample_installed_def sample_new_def numeric_key_def)

lemma sample_digest_ok: "digest_text sample_digest"
  by (simp add: digest_text_def sample_digest_def hex_char_def list_all_iff)

lemma offered_state_fields:
  "us_offeredDigests offered_state = [sample_digest]" "us_acknowledgedDigests offered_state = []"
  "us_candidate offered_state = Some sample_candidate" "us_nextCheckAt offered_state = None"
  "us_consecutiveFailures offered_state = 0" "us_installedVersion offered_state = Some (render_semver sample_installed)"
  by (simp_all add: offered_state_def emptyState_def)

lemma offered_state_wf: "wf_state (lo_version installed_release) offered_state"
proof -
  have ok: "digests_ok offered_state" by (simp add: digests_ok_def offered_state_fields sample_digest_ok)
  have vs: "render_semver sample_new = js ''2.10.0''" "render_semver sample_installed = js ''2.9.0''"
    by (simp_all add: render_semver_def sample_new_def sample_installed_def)
  let ?bare = "offered_state\<lparr>us_offeredDigests := [], us_acknowledgedDigests := []\<rparr>"
  have b: "json_bytes (JStr sample_digest) = 73" using digest_bytes [OF sample_digest_ok] by simp
  have "json_bytes (candidate_json sample_candidate) \<le> 400"
    using b by (simp add: candidate_json_def sample_candidate_def vs release_notes_prefix_def)
  note c = this offered_state_fields vs
  have "frame_bytes offered_state \<le> 1000" "frame_bytes (failed offered_state) \<le> 1000"
    using c by (simp_all add: frame_bytes_def failed_def stateWithFailureCheck_def state_json_def
        string_or_null_def SKILL_ID_def LONGEST_ISO_TIMESTAMP_def decimal_digits.simps)
  then have "encodeRecoverableState offered_state \<noteq> None"
    using recoverable_iff [OF ok]
    by (simp add: capacity_bytes_def lists_bytes_def digests_bytes_def offered_set_def acked_set_def offered_state_fields MAX_CACHE_STATE_BYTES_def)
  moreover have "wf_candidate sample_candidate" 
    using sample_digest_ok by (simp add: wf_candidate_def sample_candidate_def isStableCoreVersion_def sample_parses digest_test_def)
      (simp add: sample_new_def)
  ultimately show ?thesis using ok sample_parses
    by (auto simp: wf_state_def offered_state_fields installed_release_def candidate_announced_def includes_digest_def sample_candidate_def)
qed

lemma sample_available:
  "resultForCandidate installed_release offered_state = Update_available (notification_for installed_release sample_candidate)"
  using sample_newer by (simp add: resultForCandidate_def offered_state_fields installed_release_def includes_digest_def sample_candidate_def)

text \<open>
  C6: Whatever the file system, the network and the clock answer, \<open>checkForUpdate\<close> commits only states of the
  invariant, and it reports an update only for a version newer than the installed one whose digest is on
  the offered list of the state it committed (or served from the cache) and not yet acknowledged.
\<close>

theorem reported_updates_are_newer_and_offered:
  assumes "ce_release a = Some v" "validateLocalRelease v = Inr lr" "\<forall>s\<in>reads a. wf_state (lo_version lr) s"
    and "checkForUpdate decodeJson dateParse toIso a = (r, committed)"
  shows "(\<forall>s. committed = Some s \<longrightarrow> wf_state (lo_version lr) s) \<and>
    (\<forall>n. r = Update_available n \<longrightarrow> newer (no_latestVersion n) (lo_version lr) \<and>
       (\<exists>s d. (committed = Some s \<or> committed = None \<and> s \<in> reads a) \<and>
          digestForEventKey (no_eventKey n) = Some d \<and> d \<in> offered_set s \<and> d \<notin> acked_set s))"
proof -
  note spec = checkForUpdate_spec [OF assms]
  have "newer (no_latestVersion n) (lo_version lr) \<and>
      (\<exists>s d. (committed = Some s \<or> committed = None \<and> s \<in> reads a) \<and>
         digestForEventKey (no_eventKey n) = Some d \<and> d \<in> offered_set s \<and> d \<notin> acked_set s)"
    if r: "r = Update_available n" for n
  proof -
    obtain s where s: "committed = Some s \<or> committed = None \<and> s \<in> reads a" "resultForCandidate lr s = Update_available n"
      using spec r by (auto simp: quiet_def)
    then have "wf_state (lo_version lr) s" using spec assms(3) by auto
    then show ?thesis using update_offered [OF _ s(2)] s(1) unfolding offered_set_def acked_set_def by metis
  qed
  then show ?thesis using spec by blast
qed

theorem reported_updates_witness:
  "\<exists>a n. checkForUpdate (\<lambda>_. None) parse_iso iso_text a = (Update_available n, None) \<and>
     newer (no_latestVersion n) (lo_version installed_release)"
proof -
  define a where "a = \<lparr>ce_fetchable = True, ce_release = Some sample_record, ce_now = Some 1000, ce_prepared = True,
    ce_state_first = Some offered_state, ce_acquire = Not_acquired, ce_state_lost = Some offered_state, ce_state_again = None,
    ce_cancels = True, ce_owns_first = None, ce_token_valid = True, ce_owns_again = None, ce_answer = None,
    ce_commit = \<lparr>cm_owns_before = None, cm_fences = True, cm_owns_after = None, cm_state = None, cm_cancels = True,
      cm_write = Written\<rparr>, ce_draw = 0\<rparr>"
  have none: "freshStateResult parse_iso installed_release offered_state 1000 = None"
    by (simp add: freshStateResult_def offered_state_fields or_empty_def parse_iso_def)
  have r: "checkForUpdate (\<lambda>_. None) parse_iso iso_text a =
      (Update_available (notification_for installed_release sample_candidate), None)"
    by (simp add: checkForUpdate_def a_def sample_record_valid none cached_offer_def sample_available offered_state_fields)
      (simp add: sample_candidate_def includes_digest_def)
  have w: "\<forall>s\<in>reads a. wf_state (lo_version installed_release) s"
    using offered_state_wf by (simp add: reads_def a_def)
  have "ce_release a = Some sample_record" by (simp add: a_def)
  from reported_updates_are_newer_and_offered [OF this sample_record_valid w r] show ?thesis using r by blast
qed

text \<open>
  An update that is reported can be acknowledged, and then stays silent: when the acknowledgement round is
  undisturbed it commits a state of the invariant from which the same candidate is \<open>already-notified\<close>.
\<close>

theorem acknowledged_updates_stay_silent:
  assumes "validateLocalRelease v = Inr lr" "wf_state (lo_version lr) s"
    and "resultForCandidate lr s = Update_available n" "undisturbed r s"
  shows "\<exists>s'. acknowledgeUpdate (Some v) True True (no_eventKey n) (r # rs) = Some (Acknowledged (no_eventKey n), Some s') \<and>
    wf_state (lo_version lr) s' \<and> resultForCandidate lr s' = Silent Already_notified"
  by (rule acknowledge_reported [OF assms])

theorem acknowledged_witness:
  "\<exists>s'. wf_state (lo_version installed_release) s' \<and> resultForCandidate installed_release s' = Silent Already_notified"
proof -
  define r where "r = \<lparr>ak_acquire = Acquired, ak_commit = \<lparr>cm_owns_before = Some True, cm_fences = True, cm_owns_after = Some True,
    cm_state = Some offered_state, cm_cancels = True, cm_write = Written\<rparr>, ak_retries = False\<rparr>"
  have "undisturbed r offered_state" by (simp add: undisturbed_def r_def)
  from acknowledged_updates_stay_silent [OF sample_record_valid offered_state_wf sample_available this, of "[]"]
  show ?thesis by blast
qed

text \<open>
  Back-off: after a failed check the cached state is served for six hours when it was the first failure
  and for a day otherwise, and not an instant longer.
\<close>

theorem failed_check_backoff:
  assumes "0 \<le> nowMs" "nowMs + MAX_CACHE_HORIZON_MS \<le> MAX_TIME" "nowMs \<le> later"
    and "s' = stateAfterFailedCheck iso_text s nowMs w"
  shows "freshStateResult parse_iso lr s' later =
    (if later < nowMs + (if us_consecutiveFailures s = 0 then FIRST_FAILURE_DELAY_MS else LATER_FAILURE_DELAY_MS)
     then Some (resultForCandidate lr s') else None)"
  by (rule failure_served_from_cache [OF assms])

theorem failed_check_witness:
  "freshStateResult parse_iso installed_release (stateAfterFailedCheck iso_text sample_state 1000 False) 21601000 = None \<and>
   freshStateResult parse_iso installed_release (stateAfterFailedCheck iso_text sample_state 1000 False) 21600999 \<noteq> None"
  using failed_check_backoff [OF _ _ _ refl, of 1000 21601000 installed_release sample_state False]
    failed_check_backoff [OF _ _ _ refl, of 1000 21600999 installed_release sample_state False]
  by (simp add: MAX_CACHE_HORIZON_MS_def MAX_TIME_def FIRST_FAILURE_DELAY_MS_def LATER_FAILURE_DELAY_MS_def
      sample_state_def emptyState_def)

text \<open>
  The manifest download is bounded: a body is accepted exactly when the announced length and the bytes
  received stay within the limit, and then it is the concatenation of the chunks.
\<close>

theorem readBoundedBody_bounded:
  "readBoundedBody response = Inr bytes \<longleftrightarrow>
     (\<forall>n. rs_contentLength response = Some n \<longrightarrow> n \<le> real MAX_RESPONSE_BYTES) \<and>
     (\<exists>chunks. rs_body response = Some chunks \<and> bytes = concat chunks \<and> length bytes \<le> MAX_RESPONSE_BYTES)"
  using read_chunks_iff [of "[]"]
  by (auto simp: readBoundedBody_def not_less split: option.splits)

theorem readBoundedBody_witness:
  "readBoundedBody \<lparr>rs_status = 200, rs_contentType = None, rs_contentLength = Some 3, rs_body = Some [[1, 2], [3]]\<rparr> = Inr [1, 2, 3]"
  using readBoundedBody_bounded [of "\<lparr>rs_status = 200, rs_contentType = None, rs_contentLength = Some 3, rs_body = Some [[1, 2], [3]]\<rparr>"
      "[1, 2, 3]"] by (simp add: MAX_RESPONSE_BYTES_def)

text \<open>
  C3: The operation directories make commits serial: in every reachable system, whatever the interleaving of
  the processes and however claims are retired, the committed generations are increasing, each commit
  applied its mutation to the result of the one before, and a reader sees the result of all of them.
\<close>

theorem commits_are_serial:
  assumes "reachable blank allowed s"
  shows "sorted (map ce_generation (oc_commits (sy_cache s))) \<and> distinct (map ce_generation (oc_commits (sy_cache s))) \<and>
    (\<forall>n < length (oc_commits (sy_cache s)).
       ce_written (oc_commits (sy_cache s) ! n) = serial blank (take (Suc n) (oc_commits (sy_cache s)))) \<and>
    readState blank (sy_cache s) = serial blank (oc_commits (sy_cache s))"
proof -
  have i: "inv_serial blank s" using reachable_invariant [OF assms] by simp
  show ?thesis using reachable_serial [OF assms] inv_serialD(2) [OF i] by simp
qed

theorem serial_witness: "\<exists>s. reachable (0 :: nat) (\<lambda>_. True) s \<and> readState 0 (sy_cache s) = 2"
proof -
  obtain s a b where s: "reachable (0 :: nat) (\<lambda>_. True) s" "oc_commits (sy_cache s) =
      [\<lparr>ce_generation = a, ce_mutation = Suc, ce_written = Suc 0\<rparr>, \<lparr>ce_generation = b, ce_mutation = Suc, ce_written = Suc (Suc 0)\<rparr>]"
    using two_commits [of "\<lambda>_. True" Suc Suc 0] by auto
  then show ?thesis using commits_are_serial [OF s(1)] by (intro exI [of _ s]) (simp add: serial_def)
qed



text \<open>
  C19: An acknowledgement is never lost: along the commits of any reachable system whose mutations are those of
  \<open>checkForUpdate\<close> and \<open>acknowledgeUpdate\<close>, the acknowledged digests only grow, so every later reader has
  what an earlier commit acknowledged.
\<close>

theorem acknowledgements_are_never_lost:
  assumes "reachable blank (update_mutation toIso lr) s" "n < length (oc_commits (sy_cache s))"
  shows "acked_set (ce_written (oc_commits (sy_cache s) ! n)) \<subseteq> acked_set (readState blank (sy_cache s))"
proof -
  let ?es = "oc_commits (sy_cache s)"
  have al: "\<forall>e\<in>set ?es. update_mutation toIso lr (ce_mutation e)" using reachable_allowed [OF assms(1)] by simp
  have w: "ce_written (?es ! n) = serial blank (take (Suc n) ?es)"
    by (rule inv_serialD(2) [OF _ assms(2)]) (use reachable_invariant [OF assms(1)] in simp)
  have r: "readState blank (sy_cache s) = serial blank (take (length ?es) ?es)" using reachable_serial(1) [OF assms(1)] by simp
  show ?thesis unfolding acked_set_def w r by (rule serial_acked [OF al]) (use assms(2) in auto)
qed


theorem acknowledgements_witness:
  "\<exists>s. reachable sample_state (update_mutation iso_text installed_release) s \<and> length (oc_commits (sy_cache s)) = 2 \<and>
    sample_digest \<in> acked_set (readState sample_state (sy_cache s))"
proof -
  let ?f = "\<lambda>s. stateAfterAcknowledgement s sample_digest" and ?g = "\<lambda>s. stateAfterFailedCheck iso_text s 1000 False"
  have "update_mutation iso_text installed_release ?f" "update_mutation iso_text installed_release ?g"
    by (auto simp: update_mutation_def)
  from two_commits [of "update_mutation iso_text installed_release", OF this, of sample_state] obtain s a b where
    s: "reachable sample_state (update_mutation iso_text installed_release) s" "oc_commits (sy_cache s) =
      [\<lparr>ce_generation = a, ce_mutation = ?f, ce_written = ?f sample_state\<rparr>,
       \<lparr>ce_generation = b, ce_mutation = ?g, ce_written = ?g (?f sample_state)\<rparr>]" by blast
  have "sample_digest \<in> acked_set (ce_written (oc_commits (sy_cache s) ! 0))"
    unfolding s(2) by (simp add: acked_set_def stateAfterAcknowledgement_def)
  then show ?thesis using s acknowledgements_are_never_lost [OF s(1), of 0] by (intro exI [of _ s]) auto
qed

end
