(* ===== verification/Canonical_Json.thy ===== *)
theory Canonical_Json
  imports Json
begin

text \<open>
  The canonical text of a document (\<open>canonical\<close> of \<open>delta/architecture-delta.mjs\<close>): members in the order of
  their keys, strings as \<open>JSON.stringify\<close> quotes them. The text of a number is an argument \<open>nt\<close> of the
  model; the locale \<open>number_format\<close> says what the comparison relies on of it, and is interpreted by decimal
  integers. The main law: two documents have the same text exactly when they are equal up to the order of
  the members of their objects.
\<close>

section \<open>Texts of values\<close>

fun decimal :: "nat \<Rightarrow> jstring" where
  "decimal n = (if n < 10 then [48 + n] else decimal (n div 10) @ [48 + n mod 10])"

declare decimal.simps [simp del]

definition hex_digit :: "nat \<Rightarrow> nat" where
  "hex_digit n = (if n < 10 then 48 + n else 87 + n)"

definition unicode_escape :: "nat \<Rightarrow> jstring" where
  "unicode_escape c = js [CHR 0x5C, CHR ''u''] @
     [hex_digit (c div 4096 mod 16), hex_digit (c div 256 mod 16), hex_digit (c div 16 mod 16), hex_digit (c mod 16)]"

definition high_surrogate :: "nat \<Rightarrow> bool" where "high_surrogate c \<longleftrightarrow> 55296 \<le> c \<and> c \<le> 56319"
definition low_surrogate :: "nat \<Rightarrow> bool" where "low_surrogate c \<longleftrightarrow> 56320 \<le> c \<and> c \<le> 57343"

text \<open>One code unit that is not part of a surrogate pair.\<close>

definition quote_unit :: "nat \<Rightarrow> jstring" where
  "quote_unit c =
     (if c = 34 \<or> c = 92 then [92, c]
      else if c = 8 then [92, 98] else if c = 9 then [92, 116] else if c = 10 then [92, 110]
      else if c = 12 then [92, 102] else if c = 13 then [92, 114]
      else if c < 32 \<or> high_surrogate c \<or> low_surrogate c then unicode_escape c
      else [c])"

fun quote_units :: "jstring \<Rightarrow> jstring" where
  "quote_units [] = []"
| "quote_units [c] = quote_unit c"
| "quote_units (c # d # cs) =
     (if high_surrogate c \<and> low_surrogate d then c # d # quote_units cs else quote_unit c @ quote_units (d # cs))"

definition quote :: "jstring \<Rightarrow> jstring" where
  "quote s = 34 # quote_units s @ [34]"

section \<open>Canonical text\<close>

fun canonical :: "(real \<Rightarrow> jstring) \<Rightarrow> json \<Rightarrow> jstring" where
  "canonical nt JNull = js ''null''"
| "canonical nt (JBool b) = (if b then js ''true'' else js ''false'')"
| "canonical nt (JNum v) = nt v"
| "canonical nt (JStr s) = quote s"
| "canonical nt (JArr vs) = js ''['' @ join (js '','') (map (canonical nt) vs) @ js '']''"
| "canonical nt (JObj kvs) =
     js ''{'' @ join (js '','') (map (\<lambda>(k, t). quote k @ js '':'' @ t)
       (sort_key fst (map (\<lambda>(k, v). (k, canonical nt v)) kvs))) @ js ''}''"

text \<open>The document with the members of every object in the order of their keys.\<close>

fun ordered :: "json \<Rightarrow> json" where
  "ordered (JArr vs) = JArr (map ordered vs)"
| "ordered (JObj kvs) = JObj (sort_key fst (map (\<lambda>(k, v). (k, ordered v)) kvs))"
| "ordered v = v"

fun numbers :: "json \<Rightarrow> real set" where
  "numbers (JNum v) = {v}"
| "numbers (JArr vs) = \<Union> (set (map numbers vs))"
| "numbers (JObj kvs) = \<Union> (set (map (\<lambda>(k, v). numbers v) kvs))"
| "numbers v = {}"

section \<open>Quoting can be undone\<close>

definition hex_value :: "nat \<Rightarrow> nat" where
  "hex_value d = (if d < 58 then d - 48 else d - 87)"

definition unescape :: "nat \<Rightarrow> nat" where
  "unescape e = (if e = 98 then 8 else if e = 116 then 9 else if e = 110 then 10 else if e = 102 then 12
     else if e = 114 then 13 else e)"

text \<open>Reads up to the closing quotation mark; the result is the text and what follows.\<close>

function unquote :: "jstring \<Rightarrow> (jstring \<times> jstring) option" where
  "unquote [] = None"
| "unquote (c # r) =
     (if c = 34 then Some ([], r)
      else if c = 92 then
        (case r of
           [] \<Rightarrow> None
         | e # r' \<Rightarrow>
             if e = 117 then map_option (apfst ((#) (((hex_value (r' ! 0) * 16 + hex_value (r' ! 1)) * 16 + hex_value (r' ! 2)) * 16 +
               hex_value (r' ! 3)))) (unquote (drop 4 r'))
             else map_option (apfst ((#) (unescape e))) (unquote r'))
      else map_option (apfst ((#) c)) (unquote r))"
  by pat_completeness auto

termination by (relation "measure length") auto

lemma hex_value_digit: "n < 16 \<Longrightarrow> hex_value (hex_digit n) = n"
  by (simp add: hex_value_def hex_digit_def)

lemma hex4: 
  fixes c :: nat
  assumes "c < 65536"
  shows "((c div 4096 mod 16 * 16 + c div 256 mod 16) * 16 + c div 16 mod 16) * 16 + c mod 16 = c"
proof -
  have "c div 256 = c div 16 div 16" "c div 4096 = c div 16 div 16 div 16" by (simp_all add: div_mult2_eq [symmetric])
  moreover have "c div 16 div 16 div 16 < 16" using assms by (simp add: div_mult2_eq [symmetric] less_mult_imp_div_less)
  ultimately show ?thesis by (simp add: mult.commute)
qed

lemma unquote_escape: "c < 65536 \<Longrightarrow> unquote (unicode_escape c @ r) = map_option (apfst ((#) c)) (unquote r)"
  using hex4 [of c] by (simp add: unicode_escape_def hex_value_digit)

lemma unquote_unit: "unquote (quote_unit c @ r) = map_option (apfst ((#) c)) (unquote r)"
proof (cases "c \<in> {34, 92, 8, 9, 10, 12, 13}")
  case True
  then show ?thesis by (auto simp: quote_unit_def unescape_def)
next
  case False
  then show ?thesis
    using unquote_escape [of c r] by (auto simp: quote_unit_def high_surrogate_def low_surrogate_def)
qed

lemma unquote_units: "unquote (quote_units s @ 34 # r) = Some (s, r)"
proof (induction s rule: quote_units.induct)
  case (2 c)
  then show ?case by (simp add: unquote_unit del: unquote.simps(2)) simp
next
  case (3 c d cs)
  show ?case
  proof (cases "high_surrogate c \<and> low_surrogate d")
    case True
    then show ?thesis using 3(1) by (auto simp: high_surrogate_def low_surrogate_def)
  next
    case False
    then have "quote_units (c # d # cs) = quote_unit c @ quote_units (d # cs)" by auto
    then show ?thesis using 3(2) [OF False] by (simp only: append_assoc unquote_unit option.map apfst_conv)
  qed
qed simp

lemma quote_inj: "quote s @ r = quote t @ r' \<Longrightarrow> s = t \<and> r = r'"
  using unquote_units [of s r] unquote_units [of t r'] unfolding quote_def append_Cons append_assoc append_Nil list.inject
  by (metis option.inject prod.inject)

section \<open>Canonical texts are equal exactly for equal documents\<close>

definition number_chars :: "nat set" where
  "number_chars = {48..57} \<union> {43, 45, 46, 101}"

lemma not_number_chars [simp]:
  "34 \<notin> number_chars" "44 \<notin> number_chars" "91 \<notin> number_chars" "93 \<notin> number_chars" "102 \<notin> number_chars"
  "110 \<notin> number_chars" "116 \<notin> number_chars" "123 \<notin> number_chars" "125 \<notin> number_chars"
  by (simp_all add: number_chars_def)

fun start_chars :: "json \<Rightarrow> nat set" where
  "start_chars JNull = {110}"
| "start_chars (JBool b) = {if b then 116 else 102}"
| "start_chars (JNum _) = number_chars"
| "start_chars (JStr _) = {34}"
| "start_chars (JArr _) = {91}"
| "start_chars (JObj _) = {123}"

fun same_shape :: "json \<Rightarrow> json \<Rightarrow> bool" where
  "same_shape JNull y = (y = JNull)"
| "same_shape (JBool b) y = (y = JBool b)"
| "same_shape (JNum _) y = (\<exists>w. y = JNum w)"
| "same_shape (JStr _) y = (\<exists>t. y = JStr t)"
| "same_shape (JArr _) y = (\<exists>vs. y = JArr vs)"
| "same_shape (JObj _) y = (\<exists>kvs. y = JObj kvs)"

lemma start_not_close: "c \<in> start_chars x \<Longrightarrow> c \<notin> {93, 125}"
  by (cases x) (auto split: if_splits)

lemma start_same_shape: "c \<in> start_chars x \<Longrightarrow> c \<in> start_chars y \<Longrightarrow> same_shape x y"
  by (cases x; cases y) (auto split: if_splits)

text \<open>What the code relies on of \<open>JSON.stringify\<close> on numbers.\<close>

locale number_format =
  fixes nt :: "real \<Rightarrow> jstring" and N :: "real set"
  assumes nt_inj: "v \<in> N \<Longrightarrow> w \<in> N \<Longrightarrow> nt v = nt w \<Longrightarrow> v = w"
    and nt_text: "v \<in> N \<Longrightarrow> nt v \<noteq> [] \<and> set (nt v) \<subseteq> number_chars"

lemma ordered_members: "sort_key fst (map (\<lambda>(k, v). (k, f v)) kvs) = map (\<lambda>(k, v). (k, f v)) (sort_key fst kvs)"
proof -
  have ins: "insort_key fst (k, f v) (map (\<lambda>(k, v). (k, f v)) kvs) = map (\<lambda>(k, v). (k, f v)) (insort_key fst (k, v) kvs)" for k v kvs
    by (induction kvs) auto
  show ?thesis by (induction kvs) (auto simp: ins)
qed

text \<open>The elements of an array or the members of an object, with their closing bracket.\<close>

fun tail_text :: "nat \<Rightarrow> jstring list \<Rightarrow> jstring" where
  "tail_text close [] = [close]"
| "tail_text close (t # ts) = 44 # t @ tail_text close ts"

fun list_text :: "nat \<Rightarrow> jstring list \<Rightarrow> jstring" where
  "list_text close [] = [close]"
| "list_text close (t # ts) = t @ tail_text close ts"

lemma join_list_text: "join [44] ts @ [close] = list_text close ts"
proof -
  have "join [44] (t # ts) @ [close] = t @ tail_text close ts" for t
    by (induction ts arbitrary: t) auto
  then show ?thesis by (cases ts) auto
qed

text \<open>A rest that no number can run into.\<close>

definition delimited :: "jstring \<Rightarrow> bool" where
  "delimited r \<longleftrightarrow> r = [] \<or> hd r \<in> {44, 93, 125}"

lemma delimited_tail [simp]: "close \<in> {93, 125} \<Longrightarrow> delimited (tail_text close ts @ r)"
  by (cases ts) (auto simp: delimited_def)

text \<open>Printers whose output can be cut off again.\<close>

definition separable :: "('a \<Rightarrow> jstring) \<Rightarrow> ('a \<Rightarrow> 'b) \<Rightarrow> 'a \<Rightarrow> 'a \<Rightarrow> bool" where
  "separable p f x y \<longleftrightarrow> (\<forall>r s. delimited r \<longrightarrow> delimited s \<longrightarrow> p x @ r = p y @ s \<longrightarrow> f x = f y \<and> r = s)"

lemma tail_separable:
  assumes "close \<in> {93, 125}" "\<forall>x\<in>set xs. \<forall>y\<in>set ys. separable p f x y"
    and "tail_text close (map p xs) @ r = tail_text close (map p ys) @ s"
  shows "map f xs = map f ys \<and> r = s"
  using assms(2,3)
proof (induction xs arbitrary: ys)
  case Nil
  then show ?case using assms(1) by (cases ys) auto
next
  case (Cons x xs)
  then obtain y ys' where y: "ys = y # ys'" using assms(1) by (cases ys) auto
  have e: "p x @ tail_text close (map p xs) @ r = p y @ tail_text close (map p ys') @ s" using Cons.prems(2) y by simp
  have xy: "separable p f x y" using Cons.prems(1) y by simp
  have d: "delimited (tail_text close (map p zs) @ q)" for zs q using assms(1) by simp
  have "f x = f y \<and> tail_text close (map p xs) @ r = tail_text close (map p ys') @ s"
    using xy e d unfolding separable_def by blast
  then show ?case using Cons.IH [of ys'] Cons.prems(1) y by simp
qed

lemma list_separable:
  assumes "close \<in> {93, 125}" "\<forall>x\<in>set xs. \<forall>y\<in>set ys. separable p f x y"
    and "\<forall>x\<in>set xs \<union> set ys. p x \<noteq> [] \<and> hd (p x) \<notin> {93, 125}"
    and "list_text close (map p xs) @ r = list_text close (map p ys) @ s"
  shows "map f xs = map f ys \<and> r = s"
proof (cases xs)
  case Nil
  have "ys = []"
  proof (rule ccontr)
    assume "ys \<noteq> []"
    then obtain y ys' where y: "ys = y # ys'" by (cases ys) auto
    then have "hd (p y @ tail_text close (map p ys') @ s) = close" using assms(4) Nil by (metis list.sel(1) list.simps(8,9) list_text.simps append_Cons append_assoc)
    then show False using assms(1,3) y by auto
  qed
  then show ?thesis using assms(4) Nil by simp
next
  case (Cons x xs')
  have "ys \<noteq> []"
  proof
    assume "ys = []"
    then have "hd (p x @ tail_text close (map p xs') @ r) = close" using assms(4) Cons by simp
    then show False using assms(1,3) Cons by auto
  qed
  then obtain y ys' where y: "ys = y # ys'" by (cases ys) auto
  have e: "p x @ tail_text close (map p xs') @ r = p y @ tail_text close (map p ys') @ s" using assms(4) Cons y by simp
  have xy: "separable p f x y" using assms(2) Cons y by simp
  have d: "delimited (tail_text close (map p zs) @ q)" for zs q using assms(1) by simp
  have "f x = f y \<and> tail_text close (map p xs') @ r = tail_text close (map p ys') @ s"
    using xy e d unfolding separable_def by blast
  then show ?thesis using tail_separable [OF assms(1), of xs' ys' p f r s] assms(2) Cons y by simp
qed

lemma number_separable:
  assumes "set u \<subseteq> D" "set v \<subseteq> D" "D \<inter> {44, 93, 125} = {}" "delimited r" "delimited s" "u @ r = v @ s"
  shows "u = v \<and> r = s"
proof -
  have t: "takeWhile (\<lambda>c. c \<in> D) (w @ q) = w" if "set w \<subseteq> D" "delimited q" for w q
  proof -
    have "takeWhile (\<lambda>c. c \<in> D) q = []" using that(2) assms(3) by (cases q) (auto simp: delimited_def)
    then show ?thesis using that(1) by (subst takeWhile_append2) auto
  qed
  have "u = v" using t [OF assms(1,4)] t [OF assms(2,5)] assms(6) by simp
  then show ?thesis using assms(6) by simp
qed

context number_format
begin

lemma canonical_array: "canonical nt (JArr vs) = 91 # list_text 93 (map (canonical nt) vs)"
  using join_list_text [of _ 93] by simp

definition member_text :: "jstring \<times> json \<Rightarrow> jstring" where
  "member_text kv = quote (fst kv) @ 58 # canonical nt (snd kv)"

lemma canonical_object: "canonical nt (JObj kvs) = 123 # list_text 125 (map member_text (sort_key fst kvs))"
proof -
  have "map (\<lambda>(k, t). quote k @ js '':'' @ t) (sort_key fst (map (\<lambda>(k, v). (k, canonical nt v)) kvs)) =
      map member_text (sort_key fst kvs)"
    unfolding ordered_members by (auto simp: member_text_def)
  then show ?thesis using join_list_text [of _ 125] by simp
qed

lemma canonical_head: "numbers x \<subseteq> N \<Longrightarrow> canonical nt x \<noteq> [] \<and> hd (canonical nt x) \<in> start_chars x"
proof (cases x)
  case (JNum v)
  assume "numbers x \<subseteq> N"
  then have "nt v \<noteq> []" "set (nt v) \<subseteq> number_chars" using JNum nt_text by auto
  then show ?thesis using JNum hd_in_set [of "nt v"] by (simp add: subset_iff)
qed (simp_all add: quote_def)

lemma canonical_start: "numbers x \<subseteq> N \<Longrightarrow> canonical nt x \<noteq> [] \<and> hd (canonical nt x) \<notin> {93, 125}"
  using canonical_head start_not_close by metis

lemma same_head:
  assumes "numbers x \<subseteq> N" "numbers y \<subseteq> N" "canonical nt x @ r = canonical nt y @ s"
  shows "same_shape x y"
proof -
  have "hd (canonical nt x) = hd (canonical nt y)"
    using assms(3) canonical_start [OF assms(1)] canonical_start [OF assms(2)] by (metis hd_append2)
  then show ?thesis using start_same_shape canonical_head assms(1,2) by metis
qed

lemma numbers_member: "m \<in> set kvs \<Longrightarrow> numbers (snd m) \<subseteq> numbers (JObj kvs)"
  by (cases m) auto

lemma leaf_separable:
  assumes "numbers x \<subseteq> N" "numbers y \<subseteq> N" "x = JNull \<or> x = JBool b"
  shows "separable (canonical nt) ordered x y"
  unfolding separable_def
proof (intro allI impI)
  fix r s assume e: "canonical nt x @ r = canonical nt y @ s"
  have "y = x" using same_head [OF assms(1,2) e] assms(3) by auto
  then show "ordered x = ordered y \<and> r = s" using e by simp
qed

lemma canonical_separable: "numbers x \<subseteq> N \<Longrightarrow> numbers y \<subseteq> N \<Longrightarrow> separable (canonical nt) ordered x y"
proof (induction x arbitrary: y rule: json.induct)
  case JNull
  then show ?case by (intro leaf_separable) auto
next
  case (JBool b)
  then show ?case by (intro leaf_separable [where b = b]) auto
next
  case (JNum v)
  show ?case unfolding separable_def
  proof (intro allI impI)
    fix r s assume d: "delimited r" "delimited s" and e: "canonical nt (JNum v) @ r = canonical nt y @ s"
    obtain w where w: "y = JNum w" using same_head [OF JNum e] unfolding same_shape.simps by (elim exE)
    have vw: "v \<in> N" "w \<in> N" using JNum w by auto
    have "nt v = nt w \<and> r = s"
      by (rule number_separable [of _ number_chars]) (use nt_text vw d e w in auto)
    then show "ordered (JNum v) = ordered y \<and> r = s" using nt_inj vw w by auto
  qed
next
  case (JStr t)
  show ?case unfolding separable_def
  proof (intro allI impI)
    fix r s assume e: "canonical nt (JStr t) @ r = canonical nt y @ s"
    obtain u where u: "y = JStr u" using same_head [OF JStr e] unfolding same_shape.simps by (elim exE)
    then show "ordered (JStr t) = ordered y \<and> r = s" using quote_inj [of t r u s] e by simp
  qed
next
  case (JArr vs)
  show ?case unfolding separable_def
  proof (intro allI impI)
    fix r s assume e: "canonical nt (JArr vs) @ r = canonical nt y @ s"
    obtain ws where w: "y = JArr ws" using same_head [OF JArr(2,3) e] unfolding same_shape.simps by (elim exE)
    have n: "numbers v \<subseteq> N" if "v \<in> set vs \<union> set ws" for v using that JArr(2,3) w by auto
    have "map ordered vs = map ordered ws \<and> r = s"
      by (rule list_separable [of 93 vs ws "canonical nt"])
        (use JArr(1) n canonical_start e w in \<open>auto simp: canonical_array simp del: canonical.simps\<close>)
    then show "ordered (JArr vs) = ordered y \<and> r = s" using w by simp
  qed
next
  case (JObj kvs)
  show ?case unfolding separable_def
  proof (intro allI impI)
    fix r s assume e: "canonical nt (JObj kvs) @ r = canonical nt y @ s"
    obtain ks where w: "y = JObj ks" using same_head [OF JObj(2,3) e] unfolding same_shape.simps by (elim exE)
    let ?f = "\<lambda>(k, v). (k, ordered v)"
    have n: "numbers (snd m) \<subseteq> N" if "m \<in> set kvs \<union> set ks" for m using that numbers_member JObj(2,3) w by (metis UnE order_trans)
    have "separable member_text ?f a b" if ab: "a \<in> set kvs" "b \<in> set ks" for a b
      unfolding separable_def
    proof (intro allI impI)
      fix r s assume d: "delimited r" "delimited s" and e: "member_text a @ r = member_text b @ s"
      have "fst a = fst b \<and> 58 # canonical nt (snd a) @ r = 58 # canonical nt (snd b) @ s"
        by (rule quote_inj) (use e in \<open>simp add: member_text_def\<close>)
      moreover have "separable (canonical nt) ordered (snd a) (snd b)"
        by (rule JObj(1) [of a]) (use ab n in \<open>auto simp: snds.simps\<close>)
      ultimately show "?f a = ?f b \<and> r = s" using d by (auto simp: separable_def split: prod.splits)
    qed
    then have "map ?f (sort_key fst kvs) = map ?f (sort_key fst ks) \<and> r = s"
      using e w by (intro list_separable [of 125 _ _ member_text])
        (auto simp: canonical_object quote_def member_text_def simp del: canonical.simps)
    then show "ordered (JObj kvs) = ordered y \<and> r = s" unfolding w ordered.simps ordered_members by simp
  qed
qed

theorem canonical_iff:
  assumes "numbers x \<subseteq> N" "numbers y \<subseteq> N"
  shows "canonical nt x = canonical nt y \<longleftrightarrow> ordered x = ordered y"
proof
  assume "canonical nt x = canonical nt y"
  then show "ordered x = ordered y"
    using canonical_separable [OF assms] unfolding separable_def delimited_def by (metis append_Nil2)
next
  have o: "canonical nt (ordered z) = canonical nt z" for z
  proof (induction z rule: json.induct)
    case (JObj kvs)
    have "member_text (k, ordered v) = member_text (k, v)" if "(k, v) \<in> set kvs" for k v
      using JObj [of "(k, v)" v] that by (simp add: member_text_def snds.simps)
    moreover have "sort_key fst (sort_key fst (map (\<lambda>(k, v). (k, ordered v)) kvs)) = sort_key fst (map (\<lambda>(k, v). (k, ordered v)) kvs)"
      by (simp add: sort_key_id_if_sorted)
    ultimately show ?case
      unfolding ordered.simps canonical_object ordered_members
      by (simp add: comp_def) (rule arg_cong [of _ _ "list_text 125"], rule map_cong, auto)
  qed (auto simp: comp_def cong: map_cong)
  assume "ordered x = ordered y"
  then show "canonical nt x = canonical nt y" using o by metis
qed

end

section \<open>Whole numbers\<close>

definition integer_text :: "real \<Rightarrow> jstring" where
  "integer_text v = (if v < 0 then 45 # decimal (nat \<lfloor>- v\<rfloor>) else decimal (nat \<lfloor>v\<rfloor>))"

lemma decimal_chars: "decimal n \<noteq> [] \<and> set (decimal n) \<subseteq> {48..57}"
  by (induction n rule: decimal.induct) (subst (1 2) decimal.simps, auto)

fun decimal_value :: "nat \<Rightarrow> jstring \<Rightarrow> nat" where
  "decimal_value n [] = n"
| "decimal_value n (c # cs) = decimal_value (n * 10 + (c - 48)) cs"

lemma decimal_value_snoc: "decimal_value n (s @ [c]) = decimal_value n s * 10 + (c - 48)"
  by (induction s arbitrary: n) auto

lemma decimal_value_decimal: "decimal_value 0 (decimal n) = n"
proof (induction n rule: decimal.induct)
  case (1 n)
  then show ?case by (subst decimal.simps) (auto simp: decimal_value_snoc)
qed

lemma decimal_inj: "decimal n = decimal m \<longleftrightarrow> n = m"
  by (metis decimal_value_decimal)

interpretation integers: number_format integer_text "\<int>"
proof
  have minus: "hd (decimal n) \<noteq> 45" for n using decimal_chars [of n] hd_in_set [of "decimal n"] by fastforce
  show "v = w" if vw: "v \<in> \<int>" "w \<in> \<int>" "integer_text v = integer_text w" for v w
  proof -
    obtain i j where ij: "v = of_int i" "w = of_int j" using vw(1,2) by (auto elim!: Ints_cases)
    show ?thesis
      using vw(3) minus [of "nat i"] minus [of "nat j"] unfolding ij integer_text_def
      by (auto simp: decimal_inj floor_minus split: if_splits) (metis list.sel(1))+
  qed
  show "integer_text v \<noteq> [] \<and> set (integer_text v) \<subseteq> number_chars" for v
    using decimal_chars by (force simp: integer_text_def number_chars_def)
qed

end
