(* ===== verification/Architecture_Delta.thy ===== *)
theory Architecture_Delta
  imports Canonical_Json Update_State
begin

text \<open>
  The comparator of two architecture documents (\<open>delta/architecture-delta.mjs\<close>): canonical documents,
  the indexes by stable id, the classified changes of components, connections and boundaries, the receipt,
  and the rows and signatures its review is built from.

  \<^item> The documents have passed the schema: collections are arrays or absent, and ids, kinds and labels are
    strings or absent.
  \<^item> \<open>nt\<close> is the text \<open>JSON.stringify\<close> and \<open>String\<close> give a number, \<open>lower\<close> is \<open>String.prototype.toLowerCase\<close>.
  \<^item> The wording of the messages is not modelled; an error keeps its code and details.
\<close>

section \<open>Sorting\<close>

text \<open>\<open>sorted\<close>, \<open>sortedObjects\<close>, \<open>sortedBy\<close>: stable sorts by a text.\<close>

definition sorted_values :: "(real \<Rightarrow> jstring) \<Rightarrow> json list \<Rightarrow> json list" where
  "sorted_values nt vs = sort_key (string_of nt) vs"

definition sortedObjects :: "(real \<Rightarrow> jstring) \<Rightarrow> json list \<Rightarrow> json list" where
  "sortedObjects nt vs = sort_key (canonical nt) vs"

definition sortedBy :: "json list \<Rightarrow> (json \<Rightarrow> jstring) \<Rightarrow> json list" where
  "sortedBy vs key = sort_key key vs"

text \<open>\<open>equal\<close>: the canonical text of \<open>undefined\<close> is \<open>undefined\<close>.\<close>

definition canonical_equal :: "(real \<Rightarrow> jstring) \<Rightarrow> json option \<Rightarrow> json option \<Rightarrow> bool" where
  "canonical_equal nt l r \<longleftrightarrow> map_option (canonical nt) l = map_option (canonical nt) r"

text \<open>An object built by the code, whose members may be \<open>undefined\<close>.\<close>

definition canonical_members :: "(real \<Rightarrow> jstring) \<Rightarrow> (jstring \<times> json option) list \<Rightarrow> jstring" where
  "canonical_members nt kvs =
     js ''{'' @ join (js '','') (map (\<lambda>(k, v). quote k @ js '':'' @
       (case v of None \<Rightarrow> js ''undefined'' | Some w \<Rightarrow> canonical nt w)) (sort_key fst kvs)) @ js ''}''"

section \<open>Canonical documents\<close>

text \<open>\<open>.replace(/\.git\/?$/i, '')\<close> and \<open>.replace(/\/$/, '')\<close>.\<close>

definition strip_git :: "jstring \<Rightarrow> jstring" where
  "strip_git s =
     (let folded = map ascii_lower s
      in if suffix (js ''.git/'') folded then take (length s - 5) s
         else if suffix (js ''.git'') folded then take (length s - 4) s else s)"

definition strip_slash :: "jstring \<Rightarrow> jstring" where
  "strip_slash s = (if suffix (js ''/'') s then butlast s else s)"

record repository =
  rp_url :: jstring
  rp_revision :: jstring

definition normalizeRepository ::
  "(real \<Rightarrow> jstring) \<Rightarrow> (jstring \<Rightarrow> jstring) \<Rightarrow> json option \<Rightarrow> repository option" where
  "normalizeRepository nt lower v =
     (case v of
        None \<Rightarrow> None
      | Some r \<Rightarrow>
          if \<not> truthy_value r then None
          else Some \<lparr>rp_url = lower (strip_slash (strip_git (js_trim (or_text nt (get r (js ''url'')))))),
                     rp_revision = lower (or_text nt (get r (js ''revision'')))\<rparr>)"

definition repository_json :: "repository \<Rightarrow> json" where
  "repository_json r = JObj [(js ''url'', JStr (rp_url r)), (js ''revision'', JStr (rp_revision r))]"

definition normalizeComponent :: "(real \<Rightarrow> jstring) \<Rightarrow> json \<Rightarrow> json" where
  "normalizeComponent nt component =
     (case get component (js ''sources'') of
        Some (JArr vs) \<Rightarrow> set_member component (js ''sources'') (JArr (sortedObjects nt vs))
      | _ \<Rightarrow> component)"

definition normalizeBoundary :: "(real \<Rightarrow> jstring) \<Rightarrow> json \<Rightarrow> json" where
  "normalizeBoundary nt boundary =
     set_member boundary (js ''wraps'') (JArr (sorted_values nt (items_of (get boundary (js ''wraps'')))))"

definition boundaryKey :: "(real \<Rightarrow> jstring) \<Rightarrow> json \<Rightarrow> jstring" where
  "boundaryKey nt b = template_text nt (get b (js ''kind'')) @ [31] @ template_text nt (get b (js ''label''))"

definition present_member :: "jstring \<Rightarrow> json option \<Rightarrow> (jstring \<times> json option) list" where
  "present_member k v = (case v of Some w \<Rightarrow> if truthy_value w then [(k, Some w)] else [] | None \<Rightarrow> [])"

definition canonical_meta ::
  "(real \<Rightarrow> jstring) \<Rightarrow> (jstring \<Rightarrow> jstring) \<Rightarrow> json option \<Rightarrow> json" where
  "canonical_meta nt lower meta =
     (case meta of
        Some (JObj kvs) \<Rightarrow>
          (let bare = JObj (filter (\<lambda>(k, v). k \<noteq> js ''output'') kvs)
           in case normalizeRepository nt lower (get bare (js ''repository'')) of
                None \<Rightarrow> bare
              | Some r \<Rightarrow> set_member bare (js ''repository'') (repository_json r))
      | _ \<Rightarrow> JObj [])"

definition canonicalArchitecture ::
  "(real \<Rightarrow> jstring) \<Rightarrow> (jstring \<Rightarrow> jstring) \<Rightarrow> json \<Rightarrow> (jstring \<times> json option) list" where
  "canonicalArchitecture nt lower diagram =
     [(js ''schema_version'', get diagram (js ''schema_version'')),
      (js ''diagram_type'', get diagram (js ''diagram_type'')),
      (js ''meta'', Some (canonical_meta nt lower (get diagram (js ''meta''))))] @
     present_member (js ''layout'') (get diagram (js ''layout'')) @
     [(js ''components'', Some (JArr (sortedBy (map (normalizeComponent nt) (items_of (get diagram (js ''components''))))
         (\<lambda>c. template_text nt (get c (js ''id'')))))),
      (js ''boundaries'', Some (JArr (sortedBy (map (normalizeBoundary nt) (items_of (get diagram (js ''boundaries''))))
         (boundaryKey nt)))),
      (js ''connections'', Some (JArr (sortedBy (items_of (get diagram (js ''connections'')))
         (\<lambda>c. or_text nt (get c (js ''id''))))))] @
     present_member (js ''cards'') (get diagram (js ''cards''))"

definition canonicalArchitectureJson :: "(real \<Rightarrow> jstring) \<Rightarrow> (jstring \<Rightarrow> jstring) \<Rightarrow> json \<Rightarrow> jstring" where
  "canonicalArchitectureJson nt lower diagram = canonical_members nt (canonicalArchitecture nt lower diagram)"

section \<open>Errors and indexes\<close>

datatype delta_side = Base_side | Head_side

datatype missing_code = Stable_id_required | Relationship_id_required

datatype delta_error =
    Schema_version_mismatch delta_side "json option"
  | Type_mismatch delta_side "json option"
  | Id_required missing_code delta_side "jstring list"
  | Duplicate_stable_id delta_side jstring "jstring list"
  | Boundary_key_ambiguous delta_side "jstring list"
  | No_shared_component_id
  | Repository_mismatch jstring jstring

definition requireComparableShape :: "json \<Rightarrow> delta_side \<Rightarrow> delta_error + unit" where
  "requireComparableShape diagram s =
     (if get diagram (js ''schema_version'') \<noteq> Some (JNum 1)
      then Inl (Schema_version_mismatch s (get diagram (js ''schema_version'')))
      else if get diagram (js ''diagram_type'') \<noteq> Some (JStr (js ''architecture''))
      then Inl (Type_mismatch s (get diagram (js ''diagram_type'')))
      else Inr ())"

definition item_id :: "json \<Rightarrow> jstring option" where
  "item_id item = (case get item (js ''id'') of Some (JStr s) \<Rightarrow> if s = [] then None else Some s | _ \<Rightarrow> None)"

text \<open>A \<open>Map\<close> in insertion order; \<open>missing\<close> and \<open>duplicates\<close> are collected along the way.\<close>

type_synonym index = "(jstring \<times> json) list"

record indexing =
  ix_index :: index
  ix_missing :: "jstring list"
  ix_duplicates :: "jstring list"

definition index_step :: "jstring \<Rightarrow> indexing \<Rightarrow> nat \<times> json \<Rightarrow> indexing" where
  "index_step collection acc entry =
     (case entry of (itemIndex, item) \<Rightarrow>
       (case item_id item of
          None \<Rightarrow> acc\<lparr>ix_missing := ix_missing acc @ [js ''/'' @ collection @ js ''/'' @ decimal itemIndex @ js ''/id'']\<rparr>
        | Some i \<Rightarrow>
            if map_of (ix_index acc) i \<noteq> None then acc\<lparr>ix_duplicates := ix_duplicates acc @ [i]\<rparr>
            else acc\<lparr>ix_index := ix_index acc @ [(i, item)]\<rparr>))"

definition stableIndex :: "json option \<Rightarrow> jstring \<Rightarrow> delta_side \<Rightarrow> missing_code \<Rightarrow> delta_error + index" where
  "stableIndex items collection s missingCode =
     (let acc = foldl (index_step collection) \<lparr>ix_index = [], ix_missing = [], ix_duplicates = []\<rparr>
                  (enumerate 0 (items_of items))
      in if ix_missing acc \<noteq> [] then Inl (Id_required missingCode s (sort (ix_missing acc)))
         else if ix_duplicates acc \<noteq> [] then Inl (Duplicate_stable_id s collection (sort (unique (ix_duplicates acc))))
         else Inr (ix_index acc))"

definition boundary_step :: "(real \<Rightarrow> jstring) \<Rightarrow> index \<times> jstring list \<Rightarrow> json \<Rightarrow> index \<times> jstring list" where
  "boundary_step nt acc boundary =
     (case acc of (ix, ambiguous) \<Rightarrow>
       if map_of ix (boundaryKey nt boundary) \<noteq> None
       then (ix, ambiguous @ [template_text nt (get boundary (js ''kind'')) @ js '':'' @ template_text nt (get boundary (js ''label''))])
       else (ix @ [(boundaryKey nt boundary, boundary)], ambiguous))"

definition boundaryIndex :: "(real \<Rightarrow> jstring) \<Rightarrow> json option \<Rightarrow> delta_side \<Rightarrow> delta_error + index" where
  "boundaryIndex nt boundaries s =
     (case foldl (boundary_step nt) ([], []) (items_of boundaries) of (ix, ambiguous) \<Rightarrow>
       if ambiguous \<noteq> [] then Inl (Boundary_key_ambiguous s (sort (unique ambiguous))) else Inr ix)"

section \<open>Classified changes\<close>

datatype classification = Topology | Semantic | Scope | Evidence | Geometry

fun class_name :: "classification \<Rightarrow> jstring" where
  "class_name Topology = js ''topology''"
| "class_name Semantic = js ''semantic''"
| "class_name Scope = js ''scope''"
| "class_name Evidence = js ''evidence''"
| "class_name Geometry = js ''geometry''"

lemma class_name_inj: "class_name c = class_name d \<longleftrightarrow> c = d"
  by (cases c; cases d) simp_all

text \<open>Classifications are sorted by their names.\<close>

instantiation classification :: linorder
begin

definition less_eq_classification :: "classification \<Rightarrow> classification \<Rightarrow> bool" where
  "c \<le> d \<longleftrightarrow> class_name c \<le> class_name d"

definition less_classification :: "classification \<Rightarrow> classification \<Rightarrow> bool" where
  "c < d \<longleftrightarrow> class_name c < class_name d"

instance
  by standard (auto simp: less_eq_classification_def less_classification_def class_name_inj order.strict_iff_order)

end

datatype kind = Component | Connection | Boundary

datatype status = Same | Added | Removed | Changed | Evidence_changed | Moved | Rerouted | Geometry_changed

type_synonym groups = "(classification \<times> jstring list) list"

definition COMPONENT_FIELDS :: groups where
  "COMPONENT_FIELDS =
     [(Semantic, [js ''type'', js ''label'', js ''sublabel'', js ''tag'']),
      (Evidence, [js ''sources'']),
      (Geometry, [js ''row'', js ''col'', js ''pos'', js ''size''])]"

definition CONNECTION_FIELDS :: groups where
  "CONNECTION_FIELDS =
     [(Topology, [js ''from'', js ''to'']),
      (Semantic, [js ''label'', js ''variant'']),
      (Geometry, [js ''fromSide'', js ''toSide'', js ''route'', js ''via'', js ''labelAt'', js ''labelDx'', js ''labelDy'',
         js ''labelSegment'', js ''width''])]"

definition BOUNDARY_FIELDS :: groups where
  "BOUNDARY_FIELDS = [(Scope, [js ''wraps'']), (Geometry, [js ''pad''])]"

definition normalizedField :: "(real \<Rightarrow> jstring) \<Rightarrow> json \<Rightarrow> jstring \<Rightarrow> json option" where
  "normalizedField nt item field =
     (case get item field of
        Some (JArr vs) \<Rightarrow>
          Some (JArr (if field = js ''sources'' then sortedObjects nt vs
                      else if field = js ''wraps'' then sorted_values nt vs else vs))
      | v \<Rightarrow> v)"

definition field_changed :: "(real \<Rightarrow> jstring) \<Rightarrow> json \<Rightarrow> json \<Rightarrow> jstring \<Rightarrow> bool" where
  "field_changed nt before after field \<longleftrightarrow>
     \<not> canonical_equal nt (normalizedField nt before field) (normalizedField nt after field)"

definition fieldChanges :: "(real \<Rightarrow> jstring) \<Rightarrow> json \<Rightarrow> json \<Rightarrow> groups \<Rightarrow> classification list \<times> jstring list" where
  "fieldChanges nt before after groups =
     (sort (map fst (filter (\<lambda>(c, fields). \<exists>f\<in>set fields. field_changed nt before after f) groups)),
      sort (concat (map (\<lambda>(c, fields). map (\<lambda>f. js ''/'' @ f) (filter (field_changed nt before after) fields)) groups)))"

definition statusFor :: "classification list \<Rightarrow> kind \<Rightarrow> status" where
  "statusFor classifications k =
     (if \<exists>c\<in>set classifications. c = Topology \<or> c = Semantic \<or> c = Scope then Changed
      else if Evidence \<in> set classifications then Evidence_changed
      else if Geometry \<in> set classifications
      then (case k of Connection \<Rightarrow> Rerouted | Component \<Rightarrow> Moved | Boundary \<Rightarrow> Geometry_changed)
      else Same)"

text \<open>\<open>describe\<close> reads the labels of the change from \<open>ch_before\<close> and \<open>ch_after\<close>.\<close>

record change =
  ch_id :: jstring
  ch_before :: "json option"
  ch_after :: "json option"
  ch_status :: status
  ch_classifications :: "classification list"
  ch_fields :: "jstring list"

definition identityClassification :: "kind \<Rightarrow> classification" where
  "identityClassification k = (case k of Connection \<Rightarrow> Topology | Boundary \<Rightarrow> Scope | Component \<Rightarrow> Semantic)"

definition compare_entity :: "(real \<Rightarrow> jstring) \<Rightarrow> index \<Rightarrow> index \<Rightarrow> kind \<Rightarrow> groups \<Rightarrow> jstring \<Rightarrow> change option" where
  "compare_entity nt baseIndex headIndex k groups i =
     (case (map_of baseIndex i, map_of headIndex i) of
        (None, after) \<Rightarrow> Some \<lparr>ch_id = i, ch_before = None, ch_after = after, ch_status = Added,
           ch_classifications = [identityClassification k], ch_fields = []\<rparr>
      | (Some before, None) \<Rightarrow> Some \<lparr>ch_id = i, ch_before = Some before, ch_after = None, ch_status = Removed,
           ch_classifications = [identityClassification k], ch_fields = []\<rparr>
      | (Some before, Some after) \<Rightarrow>
          (let fields = fieldChanges nt before after groups; status = statusFor (fst fields) k
           in if status = Same then None
              else Some \<lparr>ch_id = i, ch_before = Some before, ch_after = Some after, ch_status = status,
                ch_classifications = fst fields, ch_fields = snd fields\<rparr>))"

definition compareEntities :: "(real \<Rightarrow> jstring) \<Rightarrow> index \<Rightarrow> index \<Rightarrow> kind \<Rightarrow> groups \<Rightarrow> change list" where
  "compareEntities nt baseIndex headIndex k groups =
     List.map_filter (compare_entity nt baseIndex headIndex k groups)
       (sort (unique (map fst baseIndex @ map fst headIndex)))"

definition summaryFor :: "change list \<Rightarrow> status list \<Rightarrow> (status \<times> nat) list" where
  "summaryFor changes shape = map (\<lambda>s. (s, length (filter (\<lambda>c. ch_status c = s) changes))) shape"

section \<open>The receipt\<close>

definition presentation :: "json \<Rightarrow> (jstring \<times> json option) list" where
  "presentation d =
     (let meta = get d (js ''meta'')
      in map (\<lambda>k. (k, get_opt meta k))
           [js ''title'', js ''subtitle'', js ''animation'', js ''visual_preset'', js ''quality_profile'',
            js ''engineering_profile'', js ''legend'', js ''views'', js ''viewBox''] @
         [(js ''layout'', get d (js ''layout'')), (js ''cards'', get d (js ''cards''))])"

definition presentationChanged :: "(real \<Rightarrow> jstring) \<Rightarrow> json \<Rightarrow> json \<Rightarrow> bool" where
  "presentationChanged nt base head \<longleftrightarrow>
     canonical_members nt (presentation base) \<noteq> canonical_members nt (presentation head)"

record delta_evidence =
  ev_baseVerified :: bool
  ev_headVerified :: bool

datatype proof_level = Revision_pinned | Authored

record delta_receipt =
  rc_proofLevel :: proof_level
  rc_baseTitle :: jstring
  rc_headTitle :: jstring
  rc_baseRevision :: "jstring option"
  rc_headRevision :: "jstring option"
  rc_components :: "change list"
  rc_connections :: "change list"
  rc_boundaries :: "change list"
  rc_componentSummary :: "(status \<times> nat) list"
  rc_connectionSummary :: "(status \<times> nat) list"
  rc_boundarySummary :: "(status \<times> nat) list"
  rc_presentationChanged :: bool
  rc_provenanceChanged :: bool

definition COMPONENT_SHAPE :: "status list" where
  "COMPONENT_SHAPE = [Added, Changed, Evidence_changed, Removed, Moved]"
definition CONNECTION_SHAPE :: "status list" where
  "CONNECTION_SHAPE = [Added, Changed, Removed, Rerouted]"
definition BOUNDARY_SHAPE :: "status list" where
  "BOUNDARY_SHAPE = [Added, Changed, Removed, Geometry_changed]"

definition full_sha :: "jstring \<Rightarrow> bool" where
  "full_sha s \<longleftrightarrow> length s = 40 \<and> list_all hex_char s"

definition present_revision :: "repository option \<Rightarrow> jstring option" where
  "present_revision r = (case r of None \<Rightarrow> None | Some p \<Rightarrow> if rp_revision p = [] then None else Some (rp_revision p))"

definition proof_level_of :: "delta_evidence \<Rightarrow> repository option \<Rightarrow> repository option \<Rightarrow> proof_level" where
  "proof_level_of evidence baseRepository headRepository =
     (case (baseRepository, headRepository) of
        (Some b, Some h) \<Rightarrow>
          if ev_baseVerified evidence \<and> ev_headVerified evidence \<and> full_sha (rp_revision b) \<and> full_sha (rp_revision h)
          then Revision_pinned else Authored
      | _ \<Rightarrow> Authored)"

definition shared_ids :: "index \<Rightarrow> index \<Rightarrow> jstring list" where
  "shared_ids baseComponents headComponents = sort (filter (\<lambda>i. map_of headComponents i \<noteq> None) (map fst baseComponents))"

definition delta_of ::
  "(real \<Rightarrow> jstring) \<Rightarrow> json \<Rightarrow> json \<Rightarrow> delta_evidence \<Rightarrow> repository option \<Rightarrow> repository option \<Rightarrow>
     index \<Rightarrow> index \<Rightarrow> index \<Rightarrow> index \<Rightarrow> index \<Rightarrow> index \<Rightarrow> delta_receipt" where
  "delta_of nt base head evidence baseRepository headRepository baseComponents headComponents
     baseConnections headConnections baseBoundaries headBoundaries =
     (let components = compareEntities nt baseComponents headComponents Component COMPONENT_FIELDS;
          connections = compareEntities nt baseConnections headConnections Connection CONNECTION_FIELDS;
          boundaries = compareEntities nt baseBoundaries headBoundaries Boundary BOUNDARY_FIELDS
      in \<lparr>rc_proofLevel = proof_level_of evidence baseRepository headRepository,
          rc_baseTitle = or_text nt (get_opt (get base (js ''meta'')) (js ''title'')),
          rc_headTitle = or_text nt (get_opt (get head (js ''meta'')) (js ''title'')),
          rc_baseRevision = present_revision baseRepository, rc_headRevision = present_revision headRepository,
          rc_components = components, rc_connections = connections, rc_boundaries = boundaries,
          rc_componentSummary = summaryFor components COMPONENT_SHAPE,
          rc_connectionSummary = summaryFor connections CONNECTION_SHAPE,
          rc_boundarySummary = summaryFor boundaries BOUNDARY_SHAPE,
          rc_presentationChanged = presentationChanged nt base head,
          rc_provenanceChanged =
            (\<not> canonical_equal nt (map_option repository_json baseRepository) (map_option repository_json headRepository))\<rparr>)"

text \<open>\<open>evidence\<close> also carries the digests and sizes of the inputs, which are copied to the receipt unread.\<close>

definition compareArchitecture ::
  "(real \<Rightarrow> jstring) \<Rightarrow> (jstring \<Rightarrow> jstring) \<Rightarrow> json \<Rightarrow> json \<Rightarrow> delta_evidence \<Rightarrow> delta_error + delta_receipt" where
  "compareArchitecture nt lower base head evidence =
     bind_result (requireComparableShape base Base_side) (\<lambda>_.
     bind_result (requireComparableShape head Head_side) (\<lambda>_.
     bind_result (stableIndex (get base (js ''components'')) (js ''components'') Base_side Stable_id_required) (\<lambda>baseComponents.
     bind_result (stableIndex (get head (js ''components'')) (js ''components'') Head_side Stable_id_required) (\<lambda>headComponents.
     bind_result (throw_if (shared_ids baseComponents headComponents = []) No_shared_component_id) (\<lambda>_.
     bind_result (stableIndex (get base (js ''connections'')) (js ''connections'') Base_side Relationship_id_required) (\<lambda>baseConnections.
     bind_result (stableIndex (get head (js ''connections'')) (js ''connections'') Head_side Relationship_id_required) (\<lambda>headConnections.
     bind_result (boundaryIndex nt (get base (js ''boundaries'')) Base_side) (\<lambda>baseBoundaries.
     bind_result (boundaryIndex nt (get head (js ''boundaries'')) Head_side) (\<lambda>headBoundaries.
       let baseRepository = normalizeRepository nt lower (get_opt (get base (js ''meta'')) (js ''repository''));
           headRepository = normalizeRepository nt lower (get_opt (get head (js ''meta'')) (js ''repository''))
       in case (baseRepository, headRepository) of
            (Some b, Some h) \<Rightarrow>
              if rp_url b \<noteq> rp_url h then Inl (Repository_mismatch (rp_url b) (rp_url h))
              else Inr (delta_of nt base head evidence baseRepository headRepository baseComponents headComponents
                     baseConnections headConnections baseBoundaries headBoundaries)
          | _ \<Rightarrow> Inr (delta_of nt base head evidence baseRepository headRepository baseComponents headComponents
                     baseConnections headConnections baseBoundaries headBoundaries))))))))))"

end
