(* ===== verification/Delta_Review.thy ===== *)
theory Delta_Review
  imports Architecture_Delta
begin

text \<open>
  The review of a delta (\<open>delta/architecture-delta.mjs\<close>): one row per change in the order the page lists
  them, the states its primary elements must show, and the signature \<open>validateArchitectureDeltaHtml\<close>
  compares with the rendered page.
\<close>

fun status_name :: "status \<Rightarrow> jstring" where
  "status_name Same = js ''same''"
| "status_name Added = js ''added''"
| "status_name Removed = js ''removed''"
| "status_name Changed = js ''changed''"
| "status_name Evidence_changed = js ''evidence-changed''"
| "status_name Moved = js ''moved''"
| "status_name Rerouted = js ''rerouted''"
| "status_name Geometry_changed = js ''geometry-changed''"

record row =
  rw_kind :: kind
  rw_change :: change
  rw_id :: jstring

fun kind_name :: "kind \<Rightarrow> jstring" where
  "kind_name Component = js ''Component''"
| "kind_name Connection = js ''Relationship''"
| "kind_name Boundary = js ''Boundary''"

fun kind_key :: "kind \<Rightarrow> jstring" where
  "kind_key Component = js ''component''"
| "kind_key Connection = js ''relationship''"
| "kind_key Boundary = js ''boundary''"

definition row_key :: "row \<Rightarrow> jstring" where
  "row_key r = kind_key (rw_kind r) @ js '':'' @ rw_id r"

text \<open>The key of a boundary change: \<open>kind:label\<close> of the boundary after the change, or before its removal.\<close>

definition boundary_change_key :: "(real \<Rightarrow> jstring) \<Rightarrow> change \<Rightarrow> jstring" where
  "boundary_change_key nt c =
     (let item = (if ch_after c \<noteq> None then ch_after c else ch_before c)
      in template_text nt (get_opt item (js ''kind'')) @ js '':'' @ template_text nt (get_opt item (js ''label'')))"

definition row_order :: "row \<Rightarrow> jstring" where
  "row_order r = status_name (ch_status (rw_change r)) @ js '':'' @ kind_name (rw_kind r) @ js '':'' @ rw_id r"

definition architectureDeltaChangeRows :: "(real \<Rightarrow> jstring) \<Rightarrow> delta_receipt \<Rightarrow> row list" where
  "architectureDeltaChangeRows nt receipt =
     sort_key row_order
       (map (\<lambda>c. \<lparr>rw_kind = Component, rw_change = c, rw_id = ch_id c\<rparr>) (rc_components receipt) @
        map (\<lambda>c. \<lparr>rw_kind = Connection, rw_change = c, rw_id = ch_id c\<rparr>) (rc_connections receipt) @
        map (\<lambda>c. \<lparr>rw_kind = Boundary, rw_change = c, rw_id = boundary_change_key nt c\<rparr>) (rc_boundaries receipt))"

definition moved_from :: jstring where "moved_from = js ''moved-from''"

definition reviewPrimaryStates :: "row \<Rightarrow> jstring list" where
  "reviewPrimaryStates r =
     (let s = ch_status (rw_change r); cs = ch_classifications (rw_change r)
      in if rw_kind r = Component \<and> Geometry \<in> set cs then [status_name s, moved_from]
         else if rw_kind r = Connection \<and> s = Changed \<and> Topology \<in> set cs then [js ''changed'', js ''removed'']
         else if rw_kind r = Connection \<and> Geometry \<in> set cs then [moved_from, status_name s]
         else if rw_kind r = Boundary \<and> (s = Changed \<or> s = Geometry_changed) then sort [status_name s, moved_from]
         else [status_name s])"

text \<open>A relationship is drawn in one or two forms, each with its state, its marker and its label.\<close>

record form =
  fo_state :: jstring
  fo_marker :: jstring
  fo_label :: jstring

definition connection_forms :: "(real \<Rightarrow> jstring) \<Rightarrow> change \<Rightarrow> form list" where
  "connection_forms nt c =
     (let before = or_text nt (get_opt (ch_before c) (js ''label'')); after = or_text nt (get_opt (ch_after c) (js ''label''));
          s = ch_status c; cs = ch_classifications c
      in if s = Added then [\<lparr>fo_state = js ''added'', fo_marker = js ''added'', fo_label = after\<rparr>]
         else if s = Removed then [\<lparr>fo_state = js ''removed'', fo_marker = js ''removed'', fo_label = before\<rparr>]
         else if Topology \<in> set cs then
           [\<lparr>fo_state = js ''removed'', fo_marker = js ''removed'', fo_label = before\<rparr>,
            \<lparr>fo_state = js ''changed'', fo_marker = js ''added'', fo_label = after\<rparr>]
         else if Geometry \<in> set cs then
           [\<lparr>fo_state = moved_from, fo_marker = moved_from, fo_label = before\<rparr>,
            \<lparr>fo_state = status_name s, fo_marker = status_name s, fo_label = after\<rparr>]
         else [\<lparr>fo_state = js ''changed'', fo_marker = js ''changed'', fo_label = after\<rparr>])"

definition descriptor :: "jstring \<Rightarrow> jstring \<Rightarrow> jstring \<Rightarrow> jstring" where
  "descriptor tag state classifications = tag @ js '':'' @ state @ js '':'' @ classifications"

definition review_descriptors :: "(real \<Rightarrow> jstring) \<Rightarrow> row \<Rightarrow> jstring list" where
  "review_descriptors nt r =
     (let classifications = join (js '','') (map class_name (ch_classifications (rw_change r)))
      in case rw_kind r of
           Component \<Rightarrow> map (\<lambda>s. descriptor (js ''g'') s classifications) (reviewPrimaryStates r)
         | Boundary \<Rightarrow> concat (map (\<lambda>s. [descriptor (js ''rect'') s classifications, descriptor (js ''text'') s []])
             (reviewPrimaryStates r))
         | Connection \<Rightarrow> concat (map (\<lambda>f.
             [descriptor (js ''path'') (fo_state f) classifications, descriptor (js ''text'') (fo_marker f) []] @
             (if fo_label f = [] then [] else [descriptor (js ''g'') (fo_state f) classifications]))
             (connection_forms nt (rw_change r))))"

definition expectedReviewTargetSignature :: "(real \<Rightarrow> jstring) \<Rightarrow> row \<Rightarrow> jstring" where
  "expectedReviewTargetSignature nt r = join (js ''|'') (sort (review_descriptors nt r))"

section \<open>Every relationship shows the states its forms have\<close>

lemma statusFor_connection:
  "statusFor cs Connection = s \<Longrightarrow> s \<noteq> Same \<Longrightarrow> set cs \<subseteq> {Topology, Semantic, Geometry} \<Longrightarrow>
     s = Changed \<and> (Topology \<in> set cs \<or> Semantic \<in> set cs) \<or>
     s = Rerouted \<and> Geometry \<in> set cs \<and> Topology \<notin> set cs \<and> Semantic \<notin> set cs"
  by (auto simp: statusFor_def split: if_splits)

end
