(* ===== verification/Delta_Laws.thy ===== *)
theory Delta_Laws
  imports Delta_Review Update_Laws "HOL-Library.Multiset"
begin

text \<open>
  Laws of the architecture delta: what the indexes hold, which entities are listed as changed and in which
  order, how the comparison behaves when its sides are swapped or its collections reordered, and that the
  forms of a relationship show the states its review row asks for.
\<close>

section \<open>Indexes\<close>

text \<open>An index lists the items with their ids, in order, when no id is missing or repeated.\<close>

definition keyed :: "(json \<Rightarrow> jstring) \<Rightarrow> json list \<Rightarrow> index" where
  "keyed key items = map (\<lambda>v. (key v, v)) items"

lemma map_fst_keyed [simp]: "map fst (keyed key vs) = map key vs"
  by (simp add: keyed_def)

definition id_of :: "json \<Rightarrow> jstring" where
  "id_of v = the (item_id v)"

definition fresh_items :: "index \<Rightarrow> json list \<Rightarrow> bool" where
  "fresh_items ix vs \<longleftrightarrow> (\<forall>v\<in>set vs. item_id v \<noteq> None) \<and> distinct (map fst ix @ map id_of vs)"

definition fresh_keys :: "(json \<Rightarrow> jstring) \<Rightarrow> index \<Rightarrow> json list \<Rightarrow> bool" where
  "fresh_keys key ix vs \<longleftrightarrow> distinct (map fst ix @ map key vs)"

lemma fresh_keys_snoc: "fresh_keys key (ix @ [(key b, b)]) bs = fresh_keys key ix (b # bs)"
  by (simp add: fresh_keys_def)

lemma fresh_items_snoc: "item_id v \<noteq> None \<Longrightarrow> fresh_items (ix @ [(id_of v, v)]) vs = fresh_items ix (v # vs)"
  by (simp add: fresh_items_def)

abbreviation run_index :: "jstring \<Rightarrow> index \<Rightarrow> (nat \<times> json) list \<Rightarrow> indexing" where
  "run_index collection ix es \<equiv> foldl (index_step collection) \<lparr>ix_index = ix, ix_missing = [], ix_duplicates = []\<rparr> es"

lemma index_mono:
  "prefix (ix_missing acc) (ix_missing (foldl (index_step collection) acc es)) \<and>
   prefix (ix_duplicates acc) (ix_duplicates (foldl (index_step collection) acc es))"
proof (induction es arbitrary: acc)
  case (Cons e es)
  have "prefix (ix_missing acc) (ix_missing (index_step collection acc e))"
    "prefix (ix_duplicates acc) (ix_duplicates (index_step collection acc e))"
    by (auto simp: index_step_def split: prod.splits option.splits)
  then show ?case using Cons.IH [of "index_step collection acc e"] by (simp add: prefix_order.trans)
qed simp

lemma index_steps:
  assumes "distinct (map fst ix)"
  shows "ix_missing (run_index collection ix es) = [] \<and> ix_duplicates (run_index collection ix es) = [] \<longleftrightarrow>
      fresh_items ix (map snd es)"
    "fresh_items ix (map snd es) \<Longrightarrow> ix_index (run_index collection ix es) =
       ix @ keyed id_of (map snd es)"
  using assms
proof (induction es arbitrary: ix)
  case Nil
  {
    case 1
    then show ?case by (simp add: fresh_items_def)
  next
    case 2
    then show ?case by (simp add: keyed_def)
  }
next
  case (Cons e es)
  obtain n v where e: "e = (n, v)" by (cases e)
  let ?acc = "\<lambda>ix. \<lparr>ix_index = ix, ix_missing = [], ix_duplicates = []\<rparr>"
  have new: "index_step collection (?acc ix) e = \<lparr>ix_index = ix @ [(id_of v, v)], ix_missing = [], ix_duplicates = []\<rparr>"
    if "item_id v \<noteq> None" "id_of v \<notin> set (map fst ix)" for ix
  proof -
    have "map_of ix (id_of v) = None" using that(2) by (simp add: map_of_eq_None_iff)
    then show ?thesis using that(1) by (auto simp: e index_step_def id_of_def)
  qed
  have bad: "ix_missing (index_step collection (?acc ix) e) \<noteq> [] \<or> ix_duplicates (index_step collection (?acc ix) e) \<noteq> []"
    if "item_id v = None \<or> id_of v \<in> set (map fst ix)" for ix
  proof -
    have "map_of ix (id_of v) \<noteq> None" if "id_of v \<in> set (map fst ix)"
      using that unfolding map_of_eq_None_iff by simp
    then show ?thesis using that by (cases "item_id v") (auto simp: e index_step_def id_of_def)
  qed
  {
    case 1
    show ?case
    proof (cases "item_id v \<noteq> None \<and> id_of v \<notin> set (map fst ix)")
      case True
      then have "distinct (map fst (ix @ [(id_of v, v)]))" using 1 by simp
      from Cons.IH(1) [OF this] show ?thesis 
        using new [OF conjunct1 [OF True] conjunct2 [OF True]] True fresh_items_snoc [of v ix "map snd es"] by (simp add: e)
    next
      case False
      then have "\<not> (ix_missing (run_index collection ix (e # es)) = [] \<and> ix_duplicates (run_index collection ix (e # es)) = [])"
        using bad index_mono [where acc = "index_step collection (?acc ix) e" and es = es and collection = collection] by (metis foldl_Cons prefix_Nil)
      then show ?thesis using False by (auto simp: e fresh_items_def)
    qed
  next
    case 2
    then have ok: "item_id v \<noteq> None" "id_of v \<notin> set (map fst ix)" by (auto simp: e fresh_items_def)
    then have d: "distinct (map fst (ix @ [(id_of v, v)]))" using 2 by simp
    show ?case using Cons.IH(2) [OF _ d] new [OF ok] 2 by (simp add: e keyed_def fresh_items_def)
  }
qed

lemma stableIndex_Inr:
  "stableIndex items collection s mc = Inr ix \<longleftrightarrow>
     (\<forall>v\<in>set (items_of items). item_id v \<noteq> None) \<and> distinct (map id_of (items_of items)) \<and>
     ix = keyed id_of (items_of items)"
  using index_steps [where ix = "[]" and collection = collection and es = "enumerate 0 (items_of items)"]
  by (auto simp: stableIndex_def Let_def fresh_items_def)

lemma boundary_mono: "prefix (snd acc) (snd (foldl (boundary_step nt) acc bs))"
proof (induction bs arbitrary: acc)
  case (Cons b bs)
  have "prefix (snd acc) (snd (boundary_step nt acc b))" by (cases acc) (simp add: boundary_step_def)
  then show ?case using Cons.IH [of "boundary_step nt acc b"] by (simp add: prefix_order.trans)
qed simp

lemma boundary_steps:
  assumes "distinct (map fst ix)"
  shows "snd (foldl (boundary_step nt) (ix, []) bs) = [] \<longleftrightarrow> fresh_keys (boundaryKey nt) ix bs"
    "fresh_keys (boundaryKey nt) ix bs \<Longrightarrow> fst (foldl (boundary_step nt) (ix, []) bs) = ix @ keyed (boundaryKey nt) bs"
  using assms
proof (induction bs arbitrary: ix)
  case Nil
  {
    case 1
    then show ?case by (simp add: fresh_keys_def)
  next
    case 2
    then show ?case by (simp add: keyed_def)
  }
next
  case (Cons b bs)
  have new: "boundary_step nt (ix, []) b = (ix @ [(boundaryKey nt b, b)], [])" if "boundaryKey nt b \<notin> set (map fst ix)" for ix
  proof -
    have "map_of ix (boundaryKey nt b) = None" using that by (simp add: map_of_eq_None_iff)
    then show ?thesis by (simp add: boundary_step_def)
  qed
  {
    case 1
    show ?case
    proof (cases "boundaryKey nt b \<in> set (map fst ix)")
      case True
      then have "snd (boundary_step nt (ix, []) b) \<noteq> []" by (auto simp: boundary_step_def map_of_eq_None_iff)
      then have "snd (foldl (boundary_step nt) (ix, []) (b # bs)) \<noteq> []" using boundary_mono [where acc = "boundary_step nt (ix, []) b" and bs = bs and nt = nt] by (metis foldl_Cons prefix_Nil)
      then show ?thesis using True by (auto simp: fresh_keys_def)
    next
      case False
      then have "distinct (map fst (ix @ [(boundaryKey nt b, b)]))" using 1 by simp
      from Cons.IH(1) [OF this] show ?thesis using new False by (simp add: fresh_keys_snoc)
    qed
  next
    case 2
    then have ok: "boundaryKey nt b \<notin> set (map fst ix)" by (auto simp: fresh_keys_def)
    then have d: "distinct (map fst (ix @ [(boundaryKey nt b, b)]))" using 2 by simp
    show ?case using Cons.IH(2) [OF _ d] new [OF ok] 2 by (simp add: keyed_def fresh_keys_def)
  }
qed

lemma boundaryIndex_Inr:
  "boundaryIndex nt items s = Inr ix \<longleftrightarrow>
     distinct (map (boundaryKey nt) (items_of items)) \<and> ix = keyed (boundaryKey nt) (items_of items)"
  using boundary_steps [of "[]" nt "items_of items"]
  by (auto simp: boundaryIndex_def fresh_keys_def split: prod.splits)

lemma map_of_keyed: "distinct (map key vs) \<Longrightarrow> map_of (keyed key vs) i = Some v \<longleftrightarrow> v \<in> set vs \<and> key v = i"
  by (subst map_of_eq_Some_iff) (auto simp: keyed_def comp_def)

section \<open>Changes\<close>

lemma fieldChanges_same: "statusFor (fst (fieldChanges nt b h groups)) k = Same \<longleftrightarrow>
    (\<forall>(c, fields)\<in>set groups. \<forall>f\<in>set fields. \<not> field_changed nt b h f)"
proof -
  have "statusFor cs k = Same \<longleftrightarrow> cs = []" for cs
  proof
    assume s: "statusFor cs k = Same"
    have "False" if "c \<in> set cs" for c using s that by (cases c) (auto simp: statusFor_def split: if_splits kind.splits)
    then show "cs = []" by (cases cs) auto
  qed (simp add: statusFor_def)
  moreover have "fst (fieldChanges nt b h groups) = [] \<longleftrightarrow> (\<forall>(c, fields)\<in>set groups. \<forall>f\<in>set fields. \<not> field_changed nt b h f)"
  proof -
    have e: "sort xs = [] \<longleftrightarrow> xs = []" for xs :: "classification list" by (metis length_0_conv length_sort)
    show ?thesis unfolding fieldChanges_def fst_conv e by (auto simp: filter_empty_conv)
  qed
  ultimately show ?thesis by simp
qed

lemma set_keys [simp]: "set (sort (unique (map fst b @ map fst h))) = fst ` set b \<union> fst ` set h"
  by auto

text \<open>Which ids are listed, and what is said of them.\<close>

lemma compare_entity_id: "compare_entity nt b h k groups i = Some c \<Longrightarrow> ch_id c = i"
  by (auto simp: compare_entity_def Let_def split: option.splits if_splits)

lemma compareEntities_mem:
  "c \<in> set (compareEntities nt b h k groups) \<longleftrightarrow>
     (ch_id c \<in> fst ` set b \<union> fst ` set h \<and> compare_entity nt b h k groups (ch_id c) = Some c)"
  unfolding compareEntities_def set_map_filter_iff set_keys using compare_entity_id by metis

lemma compareEntities_ids: "map ch_id (compareEntities nt b h k groups) =
    filter (\<lambda>i. compare_entity nt b h k groups i \<noteq> None) (sort (unique (map fst b @ map fst h)))"
proof -
  have "map ch_id (List.map_filter (compare_entity nt b h k groups) is) = filter (\<lambda>i. compare_entity nt b h k groups i \<noteq> None) is" for "is"
    by (induction "is") (auto simp: map_filter_simps compare_entity_id split: option.splits)
  then show ?thesis by (simp add: compareEntities_def)
qed

lemma compareEntities_sorted: "sorted (map ch_id (compareEntities nt b h k groups)) \<and> distinct (map ch_id (compareEntities nt b h k groups))"
  unfolding compareEntities_ids by (simp add: sorted_wrt_filter)

text \<open>Two change lists over the same entities agree.\<close>

lemma compareEntities_cong:
  assumes "map_of b = map_of b'" "map_of h = map_of h'"
  shows "compareEntities nt b h k groups = compareEntities nt b' h' k groups"
proof -
  have d: "fst ` set b = fst ` set b'" "fst ` set h = fst ` set h'" using assms by (metis dom_map_of_conv_image_fst)+
  have "sort (unique (map fst b @ map fst h)) = sort (unique (map fst b' @ map fst h'))"
    by (rule sorted_distinct_set_unique) (use d in \<open>simp_all\<close>)
  moreover have "compare_entity nt b h k groups = compare_entity nt b' h' k groups"
    by (simp add: compare_entity_def fun_eq_iff assms)
  ultimately show ?thesis by (simp add: compareEntities_def)
qed

section \<open>Listed entities\<close>

lemma listed_iff:
  "i \<in> ch_id ` set (compareEntities nt b h k groups) \<longleftrightarrow>
     (case (map_of b i, map_of h i) of
        (None, None) \<Rightarrow> False
      | (Some x, Some y) \<Rightarrow> \<exists>g\<in>set groups. \<exists>f\<in>set (snd g). field_changed nt x y f
      | _ \<Rightarrow> True)"
proof -
  have "i \<in> ch_id ` set (compareEntities nt b h k groups) \<longleftrightarrow>
      i \<in> fst ` set b \<union> fst ` set h \<and> compare_entity nt b h k groups i \<noteq> None"
    unfolding set_map [symmetric] compareEntities_ids by auto
  moreover have "i \<in> fst ` set b \<longleftrightarrow> map_of b i \<noteq> None" "i \<in> fst ` set h \<longleftrightarrow> map_of h i \<noteq> None"
    by (auto simp: map_of_eq_None_iff)
  ultimately show ?thesis
    using fieldChanges_same [of nt _ _ groups k]
    by (auto simp: compare_entity_def Let_def split: option.splits)
qed

section \<open>Swapping the sides\<close>

fun mirror_status :: "status \<Rightarrow> status" where
  "mirror_status Added = Removed"
| "mirror_status Removed = Added"
| "mirror_status s = s"

definition mirror :: "change \<Rightarrow> change" where
  "mirror c = c\<lparr>ch_before := ch_after c, ch_after := ch_before c, ch_status := mirror_status (ch_status c)\<rparr>"

lemma field_changed_sym: "field_changed nt x y f = field_changed nt y x f"
  by (auto simp: field_changed_def canonical_equal_def)

lemma fieldChanges_sym: "fieldChanges nt x y groups = fieldChanges nt y x groups"
proof -
  have "field_changed nt x y = field_changed nt y x" by (simp add: fun_eq_iff field_changed_sym)
  then show ?thesis by (simp add: fieldChanges_def)
qed

lemma mirror_plain: "s \<noteq> Added \<Longrightarrow> s \<noteq> Removed \<Longrightarrow> mirror_status s = s"
  by (cases s) auto

lemma statusFor_plain: "statusFor cs k \<noteq> Added \<and> statusFor cs k \<noteq> Removed"
  by (auto simp: statusFor_def split: kind.splits)

lemma compare_entity_swap:
  assumes "map_of b i \<noteq> None \<or> map_of h i \<noteq> None"
  shows "compare_entity nt h b k groups i = map_option mirror (compare_entity nt b h k groups i)"
  using assms fieldChanges_sym statusFor_plain mirror_plain
  by (auto simp: compare_entity_def mirror_def Let_def split: option.splits)

lemma compareEntities_swap: "compareEntities nt h b k groups = map mirror (compareEntities nt b h k groups)"
proof -
  have "sort (unique (map fst h @ map fst b)) = sort (unique (map fst b @ map fst h))" (is "?l = ?r")
    by (rule sorted_distinct_set_unique) auto
  moreover have "List.map_filter (compare_entity nt h b k groups) is = map mirror (List.map_filter (compare_entity nt b h k groups) is)"
    if "set is \<subseteq> fst ` set b \<union> fst ` set h" for "is"
    using that
  proof (induction "is")
    case (Cons i "is")
    then have "map_of b i \<noteq> None \<or> map_of h i \<noteq> None" by (auto simp: map_of_eq_None_iff)
    then show ?case using Cons compare_entity_swap by (auto simp: map_filter_simps split: option.splits)
  qed (simp add: map_filter_simps)
  ultimately show ?thesis unfolding compareEntities_def by simp
qed

section \<open>Documents in another order\<close>

definition collections :: "jstring set" where
  "collections = {js ''components'', js ''connections'', js ''boundaries''}"

definition same_architecture :: "json \<Rightarrow> json \<Rightarrow> bool" where
  "same_architecture d d' \<longleftrightarrow>
     (\<forall>k. if k \<in> collections then mset (items_of (get d k)) = mset (items_of (get d' k)) else get d k = get d' k)"

lemma keyed_permuted:
  assumes "mset vs = mset ws" "distinct (map key vs)"
  shows "distinct (map key ws) \<and> map_of (keyed key vs) = map_of (keyed key ws)"
proof -
  have d: "distinct (map key ws)" using assms by (metis mset_eq_imp_distinct_iff mset_map)
  moreover have "map_of (keyed key vs) = map_of (keyed key ws)"
  proof
    fix i
    have "set vs = set ws" using assms(1) by (metis mset_eq_setD)
    then show "map_of (keyed key vs) i = map_of (keyed key ws) i"
      using map_of_keyed [OF assms(2), of i] map_of_keyed [OF d, of i] by (metis option.exhaust)
  qed
  ultimately show ?thesis by simp
qed

lemma stableIndex_permuted:
  assumes "mset (items_of vs) = mset (items_of ws)" "stableIndex vs c s mc = Inr ix"
  shows "\<exists>ix'. stableIndex ws c s mc = Inr ix' \<and> map_of ix' = map_of ix"
  using assms keyed_permuted [OF assms(1), of id_of] mset_eq_setD [OF assms(1)] unfolding stableIndex_Inr by auto

lemma boundaryIndex_permuted:
  assumes "mset (items_of vs) = mset (items_of ws)" "boundaryIndex nt vs s = Inr ix"
  shows "\<exists>ix'. boundaryIndex nt ws s = Inr ix' \<and> map_of ix' = map_of ix"
  using assms keyed_permuted [OF assms(1), of "boundaryKey nt"] unfolding boundaryIndex_Inr by auto

section \<open>The comparator as a whole\<close>

definition repository_of :: "(real \<Rightarrow> jstring) \<Rightarrow> (jstring \<Rightarrow> jstring) \<Rightarrow> json \<Rightarrow> repository option" where
  "repository_of nt lower d = normalizeRepository nt lower (get_opt (get d (js ''meta'')) (js ''repository''))"

text \<open>What a document needs to be compared.\<close>

definition comparable :: "(real \<Rightarrow> jstring) \<Rightarrow> json \<Rightarrow> bool" where
  "comparable nt d \<longleftrightarrow>
     get d (js ''schema_version'') = Some (JNum 1) \<and> get d (js ''diagram_type'') = Some (JStr (js ''architecture'')) \<and>
     (\<forall>v\<in>set (items_of (get d (js ''components'')) @ items_of (get d (js ''connections''))). item_id v \<noteq> None) \<and>
     distinct (map id_of (items_of (get d (js ''components'')))) \<and>
     distinct (map id_of (items_of (get d (js ''connections'')))) \<and>
     distinct (map (boundaryKey nt) (items_of (get d (js ''boundaries''))))"

definition shared_component :: "json \<Rightarrow> json \<Rightarrow> bool" where
  "shared_component base head \<longleftrightarrow>
     (\<exists>v\<in>set (items_of (get base (js ''components''))). \<exists>w\<in>set (items_of (get head (js ''components''))). id_of v = id_of w)"

definition same_repository :: "repository option \<Rightarrow> repository option \<Rightarrow> bool" where
  "same_repository b h \<longleftrightarrow> (case (b, h) of (Some x, Some y) \<Rightarrow> rp_url x = rp_url y | _ \<Rightarrow> True)"

definition component_index :: "json \<Rightarrow> index" where
  "component_index d = keyed id_of (items_of (get d (js ''components'')))"

definition connection_index :: "json \<Rightarrow> index" where
  "connection_index d = keyed id_of (items_of (get d (js ''connections'')))"

definition boundary_index :: "(real \<Rightarrow> jstring) \<Rightarrow> json \<Rightarrow> index" where
  "boundary_index nt d = keyed (boundaryKey nt) (items_of (get d (js ''boundaries'')))"

lemma requireComparableShape_Inr: "requireComparableShape d s = Inr u \<longleftrightarrow>
    get d (js ''schema_version'') = Some (JNum 1) \<and> get d (js ''diagram_type'') = Some (JStr (js ''architecture''))"
  by (simp add: requireComparableShape_def del: js_simps)

lemma shared_ids_Nil: "shared_ids (keyed id_of bs) (keyed id_of hs) = [] \<longleftrightarrow> \<not> (\<exists>v\<in>set bs. \<exists>w\<in>set hs. id_of v = id_of w)"
proof -
  have e: "sort xs = [] \<longleftrightarrow> xs = []" for xs :: "jstring list" by (metis length_0_conv length_sort)
  show ?thesis
    unfolding shared_ids_def e filter_empty_conv map_of_eq_None_iff by (auto simp: keyed_def image_iff)
qed

lemma compareArchitecture_Inr:
  "compareArchitecture nt lower base head evidence = Inr r \<longleftrightarrow>
     comparable nt base \<and> comparable nt head \<and> shared_component base head \<and>
     same_repository (repository_of nt lower base) (repository_of nt lower head) \<and>
     r = delta_of nt base head evidence (repository_of nt lower base) (repository_of nt lower head)
       (component_index base) (component_index head) (connection_index base) (connection_index head)
       (boundary_index nt base) (boundary_index nt head)"
proof -
  have tail: "(case (b, h) of (Some x, Some y) \<Rightarrow> if rp_url x \<noteq> rp_url y then Inl (e x y) else Inr z | _ \<Rightarrow> Inr z) = Inr r \<longleftrightarrow>
      same_repository b h \<and> r = z" for b h z and e :: "repository \<Rightarrow> repository \<Rightarrow> delta_error"
    by (auto simp: same_repository_def split: option.splits)
  show ?thesis
    unfolding compareArchitecture_def bind_result_Inr throw_if_Inr requireComparableShape_Inr stableIndex_Inr boundaryIndex_Inr Let_def
      repository_of_def [symmetric]
    by (simp only: tail [where e = "\<lambda>x y. Repository_mismatch (rp_url x) (rp_url y)"])
      (auto simp: comparable_def shared_component_def shared_ids_Nil component_index_def connection_index_def boundary_index_def
        simp del: js_simps)
qed

lemma same_architecture_items:
  assumes "same_architecture d d'"
  shows "mset (items_of (get d (js ''components''))) = mset (items_of (get d' (js ''components'')))"
    "mset (items_of (get d (js ''connections''))) = mset (items_of (get d' (js ''connections'')))"
    "mset (items_of (get d (js ''boundaries''))) = mset (items_of (get d' (js ''boundaries'')))"
    "k \<notin> collections \<Longrightarrow> get d k = get d' k"
  using assms unfolding same_architecture_def collections_def by (metis insert_iff)+

lemma not_collections [simp]:
  "js ''schema_version'' \<notin> collections" "js ''diagram_type'' \<notin> collections" "js ''meta'' \<notin> collections"
  "js ''layout'' \<notin> collections" "js ''cards'' \<notin> collections"
  by (simp_all add: collections_def)

lemma same_architecture_comparable:
  assumes "same_architecture d d'" "comparable nt d"
  shows "comparable nt d' \<and> map_of (component_index d) = map_of (component_index d') \<and>
    map_of (connection_index d) = map_of (connection_index d') \<and> map_of (boundary_index nt d) = map_of (boundary_index nt d')"
proof -
  note same = same_architecture_items [OF assms(1)]
  have c: "distinct (map id_of (items_of (get d (js ''components''))))" "distinct (map id_of (items_of (get d (js ''connections''))))"
    "distinct (map (boundaryKey nt) (items_of (get d (js ''boundaries''))))"
    using assms(2) by (simp_all add: comparable_def del: js_simps)
  show ?thesis
    using keyed_permuted [OF same(1) c(1)] keyed_permuted [OF same(2) c(2)] keyed_permuted [OF same(3) c(3)]
      assms(2) mset_eq_setD [OF same(1)] mset_eq_setD [OF same(2)]
    by (simp add: comparable_def component_index_def connection_index_def boundary_index_def same(4) [symmetric] del: js_simps)
qed

lemma delta_of_cong:
  assumes "same_architecture b b'" "same_architecture h h'"
    and "map_of bc = map_of bc'" "map_of hc = map_of hc'" "map_of bn = map_of bn'" "map_of hn = map_of hn'"
      "map_of bb = map_of bb'" "map_of hb = map_of hb'"
  shows "delta_of nt b h ev rb rh bc hc bn hn bb hb = delta_of nt b' h' ev rb rh bc' hc' bn' hn' bb' hb'"
proof -
  have g: "get b k = get b' k" "get h k = get h' k" if "k \<in> {js ''meta'', js ''layout'', js ''cards''}" for k
    using that same_architecture_items(4) [OF assms(1), of k] same_architecture_items(4) [OF assms(2), of k]
    by (auto simp del: js_simps)
  have p: "presentation b = presentation b'" "presentation h = presentation h'"
    unfolding presentation_def Let_def using g by (simp_all del: js_simps)
  show ?thesis
    unfolding delta_of_def presentationChanged_def p
    using compareEntities_cong [OF assms(3,4)] compareEntities_cong [OF assms(5,6)] compareEntities_cong [OF assms(7,8)] g
    by (simp del: js_simps)
qed

lemma compare_permuted:
  assumes "same_architecture base base'" "same_architecture head head'"
    and "compareArchitecture nt lower base head evidence = Inr r"
  shows "compareArchitecture nt lower base' head' evidence = Inr r"
proof -
  note i = assms(3) [unfolded compareArchitecture_Inr]
  have b: "comparable nt base'" "comparable nt head'"
    and ix: "map_of (component_index base) = map_of (component_index base')" "map_of (component_index head) = map_of (component_index head')"
      "map_of (connection_index base) = map_of (connection_index base')" "map_of (connection_index head) = map_of (connection_index head')"
      "map_of (boundary_index nt base) = map_of (boundary_index nt base')" "map_of (boundary_index nt head) = map_of (boundary_index nt head')"
    using same_architecture_comparable [OF assms(1), of nt] same_architecture_comparable [OF assms(2), of nt] i by simp_all
  have r: "repository_of nt lower base = repository_of nt lower base'" "repository_of nt lower head = repository_of nt lower head'"
    using same_architecture_items(4) [OF assms(1), of "js ''meta''"] same_architecture_items(4) [OF assms(2), of "js ''meta''"]
    by (simp_all add: repository_of_def del: js_simps)
  have s: "shared_component base' head'"
    using i mset_eq_setD [OF same_architecture_items(1) [OF assms(1)]] mset_eq_setD [OF same_architecture_items(1) [OF assms(2)]]
    by (simp add: shared_component_def del: js_simps)
  show ?thesis
    unfolding compareArchitecture_Inr using i b s delta_of_cong [OF assms(1,2) ix] unfolding r by simp
qed

section \<open>Unchanged documents\<close>

lemma compareEntities_self: "compareEntities nt ix ix k groups = []"
proof -
  have "i \<notin> ch_id ` set (compareEntities nt ix ix k groups)" for i
    unfolding listed_iff by (auto simp: field_changed_def canonical_equal_def split: option.splits)
  then show ?thesis by (cases "compareEntities nt ix ix k groups") (auto simp: image_iff)
qed

lemma compareEntities_same: "map_of b = map_of h \<Longrightarrow> compareEntities nt b h k groups = []"
  using compareEntities_cong [of b h h h] compareEntities_self by simp

section \<open>Counting\<close>

lemma sum_counts:
  assumes "distinct shape" "\<forall>c\<in>set cs. ch_status c \<in> set shape"
  shows "sum_list (map snd (summaryFor cs shape)) = length cs"
  using assms(2)
proof (induction cs)
  case Nil
  then show ?case by (simp add: summaryFor_def comp_def)
next
  case (Cons c cs)
  have "sum_list (map (\<lambda>s. length (filter (\<lambda>d. ch_status d = s) (c # cs))) shape) =
      sum_list (map (\<lambda>s. length (filter (\<lambda>d. ch_status d = s) cs) + (if s = ch_status c then 1 else 0)) shape)"
    by (intro arg_cong [of _ _ sum_list] map_cong) auto
  also have "\<dots> = sum_list (map (\<lambda>s. length (filter (\<lambda>d. ch_status d = s) cs)) shape) + 1"
    using assms(1) Cons.prems by (simp add: sum_list_addf sum_list_distinct_conv_sum_set)
  finally show ?case using Cons by (simp add: summaryFor_def comp_def)
qed

lemma compare_entity_status:
  assumes "compare_entity nt b h k groups i = Some c"
  shows "ch_status c \<in> {Added, Removed} \<and> ch_classifications c = [identityClassification k] \<or>
    (\<exists>x y. ch_before c = Some x \<and> ch_after c = Some y \<and> ch_classifications c = fst (fieldChanges nt x y groups) \<and>
       ch_status c = statusFor (ch_classifications c) k \<and> ch_status c \<noteq> Same)"
  using assms by (auto simp: compare_entity_def Let_def split: option.splits if_splits)

lemma compareEntities_status:
  assumes "c \<in> set (compareEntities nt b h k groups)"
  shows "ch_status c \<in> {Added, Removed} \<and> ch_classifications c = [identityClassification k] \<or>
    (\<exists>x y. ch_before c = Some x \<and> ch_after c = Some y \<and> ch_classifications c = fst (fieldChanges nt x y groups) \<and>
       ch_status c = statusFor (ch_classifications c) k \<and> ch_status c \<noteq> Same)"
  using assms compare_entity_status unfolding compareEntities_mem by blast

lemma fieldChanges_groups: "set (fst (fieldChanges nt x y groups)) \<subseteq> fst ` set groups"
  by (auto simp: fieldChanges_def)

lemma component_status: "c \<in> set (compareEntities nt b h Component COMPONENT_FIELDS) \<Longrightarrow> ch_status c \<in> set COMPONENT_SHAPE"
  using compareEntities_status [of c nt b h Component COMPONENT_FIELDS]
  by (auto simp: COMPONENT_SHAPE_def statusFor_def split: if_splits)

lemma connection_status: "c \<in> set (compareEntities nt b h Connection CONNECTION_FIELDS) \<Longrightarrow> ch_status c \<in> set CONNECTION_SHAPE"
proof -
  assume c: "c \<in> set (compareEntities nt b h Connection CONNECTION_FIELDS)"
  have "Evidence \<notin> set (fst (fieldChanges nt x y CONNECTION_FIELDS))" for x y
    using fieldChanges_groups [of nt x y CONNECTION_FIELDS] by (auto simp: CONNECTION_FIELDS_def)
  then show ?thesis using compareEntities_status [OF c] by (auto simp: CONNECTION_SHAPE_def statusFor_def split: if_splits)
qed

lemma boundary_status: "c \<in> set (compareEntities nt b h Boundary BOUNDARY_FIELDS) \<Longrightarrow> ch_status c \<in> set BOUNDARY_SHAPE"
proof -
  assume c: "c \<in> set (compareEntities nt b h Boundary BOUNDARY_FIELDS)"
  have "Evidence \<notin> set (fst (fieldChanges nt x y BOUNDARY_FIELDS))" for x y
    using fieldChanges_groups [of nt x y BOUNDARY_FIELDS] by (auto simp: BOUNDARY_FIELDS_def)
  then show ?thesis using compareEntities_status [OF c] by (auto simp: BOUNDARY_SHAPE_def statusFor_def split: if_splits)
qed

section \<open>The forms of a relationship\<close>

lemma forms_states:
  assumes "c \<in> set (compareEntities nt b h Connection CONNECTION_FIELDS)" "rw_kind r = Connection" "rw_change r = c"
  shows "mset (map fo_state (connection_forms nt c)) = mset (reviewPrimaryStates r)"
proof -
  have g: "fst ` set CONNECTION_FIELDS = {Topology, Semantic, Geometry}" by (auto simp: CONNECTION_FIELDS_def)
  have e: "ch_status c \<in> {Added, Removed} \<and> ch_classifications c = [Topology] \<or>
    ch_status c = statusFor (ch_classifications c) Connection \<and> ch_status c \<noteq> Same \<and>
      set (ch_classifications c) \<subseteq> {Topology, Semantic, Geometry}"
    using compareEntities_status [OF assms(1)]
  proof (elim disjE exE conjE)
    fix x y
    assume "ch_classifications c = fst (fieldChanges nt x y CONNECTION_FIELDS)"
      and s: "ch_status c = statusFor (ch_classifications c) Connection" "ch_status c \<noteq> Same"
    then have "set (ch_classifications c) \<subseteq> {Topology, Semantic, Geometry}"
      using fieldChanges_groups [of nt x y CONNECTION_FIELDS] unfolding g by simp
    then show ?thesis using s by simp
  qed (simp add: identityClassification_def)
  show ?thesis
  proof (cases "ch_status c \<in> {Added, Removed}")
    case True
    then have "ch_classifications c = [Topology]"
      using e statusFor_plain [of "ch_classifications c" Connection] by auto
    then show ?thesis using True assms(2,3) by (auto simp: connection_forms_def reviewPrimaryStates_def Let_def)
  next
    case False
    then have "ch_status c = Changed \<and> (Topology \<in> set (ch_classifications c) \<or> Semantic \<in> set (ch_classifications c)) \<or>
        ch_status c = Rerouted \<and> Geometry \<in> set (ch_classifications c) \<and> Topology \<notin> set (ch_classifications c) \<and>
          Semantic \<notin> set (ch_classifications c)"
      using e statusFor_connection [of "ch_classifications c" "ch_status c"] by auto
    then show ?thesis using assms(2,3) by (auto simp: connection_forms_def reviewPrimaryStates_def Let_def)
  qed
qed

end
