(* ===== verification/Delta_Properties.thy ===== *)
theory Delta_Properties
  imports Delta_Laws
begin

text \<open>
  The properties of the architecture delta (\<open>delta/architecture-delta.mjs\<close>), with the two small documents
  their witnesses compare.
\<close>

section \<open>A sample comparison\<close>

definition sample_component :: "jstring \<Rightarrow> jstring \<Rightarrow> json" where
  "sample_component i l = JObj [(js ''id'', JStr i), (js ''type'', JStr (js ''backend'')), (js ''label'', JStr l)]"

definition sample_connection :: "jstring \<Rightarrow> json" where
  "sample_connection target = JObj [(js ''id'', JStr (js ''c'')), (js ''from'', JStr (js ''a'')), (js ''to'', JStr target)]"

definition sample_diagram :: "json list \<Rightarrow> json list \<Rightarrow> json" where
  "sample_diagram components connections =
     JObj [(js ''schema_version'', JNum 1), (js ''diagram_type'', JStr (js ''architecture'')), (js ''meta'', JObj []),
           (js ''components'', JArr components), (js ''connections'', JArr connections)]"

definition diagram_one :: json where
  "diagram_one = sample_diagram [sample_component (js ''a'') (js ''A''), sample_component (js ''b'') (js ''B'')] [sample_connection (js ''b'')]"

definition diagram_two :: json where
  "diagram_two = sample_diagram [sample_component (js ''b'') (js ''B''), sample_component (js ''a'') (js ''A'')] [sample_connection (js ''b'')]"

lemma sample_members:
  "get (sample_diagram cs ns) (js ''schema_version'') = Some (JNum 1)"
  "get (sample_diagram cs ns) (js ''diagram_type'') = Some (JStr (js ''architecture''))"
  "get (sample_diagram cs ns) (js ''meta'') = Some (JObj [])"
  "get (sample_diagram cs ns) (js ''components'') = Some (JArr cs)"
  "get (sample_diagram cs ns) (js ''connections'') = Some (JArr ns)"
  "get (sample_diagram cs ns) (js ''boundaries'') = None"
  by (simp_all add: sample_diagram_def)

lemma sample_ids: "item_id (sample_component i l) = (if i = [] then None else Some i)" "item_id (sample_connection t) = Some (js ''c'')"
  by (simp_all add: item_id_def sample_component_def sample_connection_def)

lemma sample_comparable: "comparable nt diagram_one" "comparable nt diagram_two"
  by (simp_all add: comparable_def diagram_one_def diagram_two_def sample_members sample_ids id_of_def del: js_simps) simp_all

lemma sample_reordered: "same_architecture diagram_one diagram_two" "same_architecture d d"
proof -
  have "get diagram_one k = get diagram_two k" if "k \<noteq> js ''components''" for k
    using that by (simp add: diagram_one_def diagram_two_def sample_diagram_def)
  then show "same_architecture diagram_one diagram_two"
    unfolding same_architecture_def
    by (auto simp: diagram_one_def diagram_two_def sample_members collections_def simp del: js_simps)
qed (simp add: same_architecture_def)

definition sample_evidence :: delta_evidence where
  "sample_evidence = \<lparr>ev_baseVerified = False, ev_headVerified = False\<rparr>"

lemma sample_compares: "\<exists>r. compareArchitecture integer_text (map ascii_lower) diagram_one diagram_two sample_evidence = Inr r"
  "\<exists>r. compareArchitecture integer_text (map ascii_lower) diagram_one diagram_one sample_evidence = Inr r"
proof -
  have "repository_of nt lower diagram_one = None" "repository_of nt lower diagram_two = None" for nt lower
    by (simp_all add: repository_of_def normalizeRepository_def get_opt_def diagram_one_def diagram_two_def sample_members del: js_simps)
  moreover have "shared_component diagram_one diagram_two" "shared_component diagram_one diagram_one"
    by (simp_all add: shared_component_def diagram_one_def diagram_two_def sample_members id_of_def sample_ids del: js_simps)
  ultimately show "\<exists>r. compareArchitecture integer_text (map ascii_lower) diagram_one diagram_two sample_evidence = Inr r"
    "\<exists>r. compareArchitecture integer_text (map ascii_lower) diagram_one diagram_one sample_evidence = Inr r"
    using sample_comparable unfolding compareArchitecture_Inr by (simp_all add: same_repository_def)
qed

text \<open>
  C22: Two documents have the same canonical text exactly when they are equal up to the order of the members
  of their objects, so \<open>equal\<close> compares documents and never their spelling.
\<close>

theorem canonical_text_identifies_documents:
  assumes "number_format nt N" "numbers x \<subseteq> N" "numbers y \<subseteq> N"
  shows "canonical nt x = canonical nt y \<longleftrightarrow> ordered x = ordered y"
  by (rule number_format.canonical_iff [OF assms])

theorem canonical_text_witness:
  "canonical integer_text (JObj [(js ''b'', JNum 1), (js ''a'', JStr [34])]) =
     canonical integer_text (JObj [(js ''a'', JStr [34]), (js ''b'', JNum 1)]) \<and>
   canonical integer_text (JArr [JNum 1, JNum 2]) \<noteq> canonical integer_text (JArr [JNum 12])"
  using canonical_text_identifies_documents [OF integers.number_format_axioms,
      of "JObj [(js ''b'', JNum 1), (js ''a'', JStr [34])]" "JObj [(js ''a'', JStr [34]), (js ''b'', JNum 1)]"]
    canonical_text_identifies_documents [OF integers.number_format_axioms, of "JArr [JNum 1, JNum 2]" "JArr [JNum 12]"]
  by (simp del: canonical.simps)

text \<open>
  C23: The changes of a collection are listed by strictly increasing id, and an id is listed exactly when it is
  on one side only or one of the compared fields differs.
\<close>

theorem compareEntities_lists_the_differences:
  "sorted (map ch_id (compareEntities nt b h k groups)) \<and> distinct (map ch_id (compareEntities nt b h k groups)) \<and>
   (i \<in> ch_id ` set (compareEntities nt b h k groups) \<longleftrightarrow>
     (case (map_of b i, map_of h i) of
        (None, None) \<Rightarrow> False
      | (Some x, Some y) \<Rightarrow> \<exists>g\<in>set groups. \<exists>f\<in>set (snd g). field_changed nt x y f
      | _ \<Rightarrow> True))"
  using compareEntities_sorted listed_iff by blast

theorem differences_witness:
  "js ''c'' \<in> ch_id ` set (compareEntities integer_text [(js ''c'', sample_connection (js ''b''))] [(js ''c'', sample_connection (js ''a''))]
     Connection CONNECTION_FIELDS)"
  using compareEntities_lists_the_differences [of integer_text "[(js ''c'', sample_connection (js ''b''))]"
      "[(js ''c'', sample_connection (js ''a''))]" Connection CONNECTION_FIELDS "js ''c''"]
  by (simp add: CONNECTION_FIELDS_def field_changed_def canonical_equal_def normalizedField_def sample_connection_def quote_def quote_unit_def
      high_surrogate_def low_surrogate_def)

text \<open>
  Comparing in the other direction mirrors the receipt: the same entities with the same classifications
  and fields, additions and removals exchanged.
\<close>

theorem compareEntities_mirrors:
  "compareEntities nt h b k groups = map mirror (compareEntities nt b h k groups)"
  by (rule compareEntities_swap)

text \<open>
  C24: A comparison succeeds exactly when both documents are comparable (schema, type, present and distinct
  ids, distinct boundary keys), share a component id, and do not name two repositories.
\<close>

theorem compareArchitecture_succeeds_iff:
  "(\<exists>r. compareArchitecture nt lower base head evidence = Inr r) \<longleftrightarrow>
     comparable nt base \<and> comparable nt head \<and> shared_component base head \<and>
     same_repository (repository_of nt lower base) (repository_of nt lower head)"
  unfolding compareArchitecture_Inr by blast

text \<open>
  C25: The order in which the documents list their components, connections and boundaries does not matter:
  after any reordering the comparison gives the same receipt.
\<close>

theorem compareArchitecture_ignores_order:
  assumes "same_architecture base base'" "same_architecture head head'"
    and "compareArchitecture nt lower base head evidence = Inr r"
  shows "compareArchitecture nt lower base' head' evidence = Inr r"
  by (rule compare_permuted [OF assms])

theorem ignores_order_witness:
  "\<exists>r. compareArchitecture integer_text (map ascii_lower) diagram_one diagram_two sample_evidence = Inr r \<and>
     compareArchitecture integer_text (map ascii_lower) diagram_two diagram_two sample_evidence = Inr r"
  using sample_compares(1) compareArchitecture_ignores_order [OF sample_reordered(1) sample_reordered(2)] by blast

text \<open>
  Two documents that differ only in the order of their collections have no changes, no presentation
  change and no provenance change.
\<close>

theorem reordered_architecture_has_no_changes:
  assumes "same_architecture base head" "compareArchitecture nt lower base head evidence = Inr r"
  shows "rc_components r = [] \<and> rc_connections r = [] \<and> rc_boundaries r = [] \<and>
    \<not> rc_presentationChanged r \<and> \<not> rc_provenanceChanged r"
proof -
  have same: "same_architecture head head" by (simp add: same_architecture_def)
  have sym: "same_architecture head base" using assms(1) by (auto simp: same_architecture_def split: if_splits)
  have "compareArchitecture nt lower head head evidence = Inr r" by (rule compare_permuted [OF assms(1) same assms(2)])
  then show ?thesis
    unfolding compareArchitecture_Inr
    by (auto simp: delta_of_def compareEntities_self presentationChanged_def canonical_equal_def Let_def)
qed

theorem no_changes_witness:
  "\<exists>r. compareArchitecture integer_text (map ascii_lower) diagram_one diagram_two sample_evidence = Inr r \<and> rc_components r = []"
  using sample_compares(1) reordered_architecture_has_no_changes [OF sample_reordered(1)] by blast

text \<open>
  The summary of a receipt counts every change: for each kind the numbers of its shape add up to the
  number of listed changes.
\<close>

theorem summary_counts_every_change:
  assumes "compareArchitecture nt lower base head evidence = Inr r"
  shows "sum_list (map snd (rc_componentSummary r)) = length (rc_components r) \<and>
    sum_list (map snd (rc_connectionSummary r)) = length (rc_connections r) \<and>
    sum_list (map snd (rc_boundarySummary r)) = length (rc_boundaries r)"
proof -
  have d: "distinct COMPONENT_SHAPE" "distinct CONNECTION_SHAPE" "distinct BOUNDARY_SHAPE"
    by (simp_all add: COMPONENT_SHAPE_def CONNECTION_SHAPE_def BOUNDARY_SHAPE_def)
  show ?thesis
    using assms unfolding compareArchitecture_Inr
    by (auto simp: delta_of_def Let_def intro!: sum_counts d component_status connection_status boundary_status)
qed

theorem summary_witness:
  "\<exists>r. compareArchitecture integer_text (map ascii_lower) diagram_one diagram_one sample_evidence = Inr r \<and>
     sum_list (map snd (rc_componentSummary r)) = length (rc_components r)"
  using sample_compares(2) summary_counts_every_change by blast

text \<open>
  The forms in which a changed relationship is drawn show exactly the states its review row requires of its
  primary elements, so a faithful page passes the check of \<open>validateArchitectureDeltaHtml\<close>.
\<close>

theorem relationship_forms_match_review:
  assumes "c \<in> set (compareEntities nt b h Connection CONNECTION_FIELDS)" "rw_kind r = Connection" "rw_change r = c"
  shows "mset (map fo_state (connection_forms nt c)) = mset (reviewPrimaryStates r)"
  by (rule forms_states [OF assms])

theorem forms_witness:
  "mset (map fo_state (connection_forms integer_text
      \<lparr>ch_id = js ''c'', ch_before = None, ch_after = Some (sample_connection (js ''b'')), ch_status = Added,
       ch_classifications = [Topology], ch_fields = []\<rparr>)) = {#js ''added''#}"
proof -
  let ?c = "\<lparr>ch_id = js ''c'', ch_before = None, ch_after = Some (sample_connection (js ''b'')), ch_status = Added,
    ch_classifications = [Topology], ch_fields = []\<rparr>"
  have "?c \<in> set (compareEntities integer_text [] [(js ''c'', sample_connection (js ''b''))] Connection CONNECTION_FIELDS)"
    unfolding compareEntities_mem by (simp add: compare_entity_def identityClassification_def)
  from relationship_forms_match_review [OF this, of "\<lparr>rw_kind = Connection, rw_change = ?c, rw_id = js ''c''\<rparr>"]
  show ?thesis by (simp add: reviewPrimaryStates_def)
qed

end
