(* ===== verification/Legend_Layout.thy ===== *)
theory Legend_Layout
  imports Geometry_Core
begin

text \<open>
  Text widths and the legend of a diagram: \<open>textUnits\<close> (\<open>renderers/shared/utils.mjs\<close>), the fitting of node text
  (\<open>renderers/shared/text-fit.mjs\<close>), the readability on a desktop
  (\<open>renderers/shared/desktop-readability.mjs\<close>), and the selection, measuring and placement of legend entries
  (\<open>renderers/shared/legend.mjs\<close>).

  \<^item> Widths are real numbers; the sources compute them in doubles.
  \<^item> \<open>unfit\<close> is \<open>'error'\<close> or \<open>'hide'\<close>; the diagnostics keep the numbers of their evidence, not the wording.
\<close>

section \<open>Text widths\<close>

definition high_unit :: "nat \<Rightarrow> bool" where "high_unit c \<longleftrightarrow> 55296 \<le> c \<and> c \<le> 56319"
definition low_unit :: "nat \<Rightarrow> bool" where "low_unit c \<longleftrightarrow> 56320 \<le> c \<and> c \<le> 57343"

text \<open>\<open>Array.from(text)\<close> with \<open>codePointAt(0)\<close>: the code points, a lone surrogate standing for itself.\<close>

fun code_points :: "jstring \<Rightarrow> nat list" where
  "code_points [] = []"
| "code_points [c] = [c]"
| "code_points (c # d # cs) =
     (if high_unit c \<and> low_unit d then ((c - 55296) * 1024 + (d - 56320) + 65536) # code_points cs
      else c # code_points (d # cs))"

definition FULLWIDTH_RE :: "(nat \<times> nat) list" where
  "FULLWIDTH_RE = [
    (4352, 4447), (8986, 8987), (9001, 9002), (9193, 9196), (9200, 9200), (9203, 9203), (9725, 9726),
    (9748, 9749), (9776, 9783), (9800, 9811), (9855, 9855), (9866, 9871), (9875, 9875), (9889, 9889),
    (9898, 9899), (9917, 9918), (9924, 9925), (9934, 9934), (9940, 9940), (9962, 9962), (9970, 9971),
    (9973, 9973), (9978, 9978), (9981, 9981), (9989, 9989), (9994, 9995), (10024, 10024),
    (10060, 10060), (10062, 10062), (10067, 10069), (10071, 10071), (10133, 10135), (10160, 10160),
    (10175, 10175), (11035, 11036), (11088, 11088), (11093, 11093), (11904, 42191), (43360, 43388),
    (44032, 55203), (63744, 64255), (65040, 65049), (65072, 65135), (65281, 65376), (65504, 65510),
    (94176, 101887), (110576, 110591), (110592, 111359), (126976, 129791), (131072, 262141)]"

definition fullwidth :: "nat \<Rightarrow> bool" where
  "fullwidth c \<longleftrightarrow> (\<exists>(lo, hi)\<in>set FULLWIDTH_RE. lo \<le> c \<and> c \<le> hi)"

definition variation_selector :: "nat \<Rightarrow> bool" where
  "variation_selector c \<longleftrightarrow> 65024 \<le> c \<and> c \<le> 65039"

fun code_point_units :: "nat list \<Rightarrow> nat" where
  "code_point_units [] = 0"
| "code_point_units (c # cs) =
     (if variation_selector c then code_point_units cs
      else (case cs of
              [] \<Rightarrow> if fullwidth c then 2 else 1
            | d # _ \<Rightarrow> if d = 65039 then 2 else if d = 65038 then 1 else if fullwidth c then 2 else 1)
           + code_point_units cs)"

definition textUnits :: "jstring \<Rightarrow> nat" where
  "textUnits t = code_point_units (code_points t)"

section \<open>Fitting node text\<close>

definition widthFactor :: real where "widthFactor = 6 / 10"
definition horizontalPadding :: real where "horizontalPadding = 8"

definition fittedNodeFontSize :: "jstring \<Rightarrow> real \<Rightarrow> real \<Rightarrow> real \<Rightarrow> real" where
  "fittedNodeFontSize t width preferred minimum =
     (let units = max 1 (real (textUnits t));
          available = max 1 (width - horizontalPadding);
          fitted = min preferred (available / (units * widthFactor))
      in max minimum (of_int \<lfloor>fitted * 10\<rfloor> / 10))"

definition minimumNodeTextWidth :: "jstring \<Rightarrow> real \<Rightarrow> real" where
  "minimumNodeTextWidth t minimum = real (textUnits t) * minimum * widthFactor"

definition availableNodeTextWidth :: "real \<Rightarrow> real" where
  "availableNodeTextWidth width = width - horizontalPadding"

section \<open>Readability on a desktop\<close>

definition DESKTOP_READER_DIAGRAM_WIDTH :: real where "DESKTOP_READER_DIAGRAM_WIDTH = 960 - 30"
definition MIN_PROJECTED_NODE_TEXT_PX :: real where "MIN_PROJECTED_NODE_TEXT_PX = 6"

text \<open>\<open>None\<close> is \<open>NaN\<close>.\<close>

definition projectedNodeTextPx :: "real \<Rightarrow> real \<Rightarrow> real \<Rightarrow> real option" where
  "projectedNodeTextPx sourceFontPx viewBoxWidth diagramWidth =
     (if viewBoxWidth \<le> 0 \<or> diagramWidth \<le> 0 then None
      else Some (sourceFontPx * min 1 (diagramWidth / viewBoxWidth)))"

definition minimumReadableSourceTextPx :: "real \<Rightarrow> real \<Rightarrow> real \<Rightarrow> real option" where
  "minimumReadableSourceTextPx viewBoxWidth diagramWidth minimumProjectedPx =
     (if viewBoxWidth \<le> 0 \<or> diagramWidth \<le> 0 \<or> minimumProjectedPx \<le> 0 then None
      else Some (minimumProjectedPx / min 1 (diagramWidth / viewBoxWidth)))"

section \<open>Legend entries\<close>

datatype obstacle = Relationship_segment point point | Relationship_label rect

text \<open>\<open>pointsFor\<close> and \<open>labelRectFor\<close> are the callbacks of the renderer; points are pairs of numbers.\<close>

definition relationshipLegendObstacles ::
  "'r list \<Rightarrow> ('r \<Rightarrow> nat \<Rightarrow> point list) \<Rightarrow> ('r \<Rightarrow> nat \<Rightarrow> rect option) \<Rightarrow> obstacle list" where
  "relationshipLegendObstacles relations pointsFor labelRectFor =
     concat (map (\<lambda>(index, relation).
       map (\<lambda>(p, q). Relationship_segment p q) (pairs (pointsFor relation index)) @
       (case labelRectFor relation index of None \<Rightarrow> [] | Some r \<Rightarrow> [Relationship_label r]))
       (enumerate 0 relations))"

record catalog_entry =
  cg_kind :: jstring
  cg_label :: jstring
  cg_interactive :: "bool option"
  cg_swatchWidth :: "real option"
  cg_swatchGap :: "real option"

record legend_override =
  lv_visible :: "bool option"
  lv_label :: "jstring option"

record legend_config =
  lg_mode :: "jstring option"
  lg_entries :: "jstring \<Rightarrow> legend_override option"

record legend_entry =
  le_kind :: jstring
  le_label :: jstring
  le_present :: bool
  le_interactive :: bool
  le_swatchWidth :: "real option"
  le_swatchGap :: "real option"

definition no_override :: legend_override where
  "no_override = \<lparr>lv_visible = None, lv_label = None\<rparr>"

definition resolve_entry :: "jstring \<Rightarrow> (jstring \<Rightarrow> legend_override option) \<Rightarrow> jstring list \<Rightarrow> catalog_entry \<Rightarrow> legend_entry option" where
  "resolve_entry mode overrides present c =
     (let override = (case overrides (cg_kind c) of None \<Rightarrow> no_override | Some v \<Rightarrow> v);
          here = (cg_kind c \<in> set present);
          selectedByMode = (mode = js ''all'' \<or> here);
          visible = (lv_visible override = Some True \<or> selectedByMode \<and> lv_visible override \<noteq> Some False)
      in if \<not> visible then None
         else Some \<lparr>le_kind = cg_kind c,
                    le_label = (if truthy (lv_label override) then or_empty (lv_label override) else cg_label c),
                    le_present = here, le_interactive = (cg_interactive c \<noteq> Some False \<and> here),
                    le_swatchWidth = cg_swatchWidth c, le_swatchGap = cg_swatchGap c\<rparr>)"

definition resolveLegend :: "legend_config option \<Rightarrow> catalog_entry list \<Rightarrow> jstring list \<Rightarrow> legend_entry list" where
  "resolveLegend config catalog presentKinds =
     (let mode = (case config of None \<Rightarrow> js ''auto''
                  | Some c \<Rightarrow> if truthy (lg_mode c) then or_empty (lg_mode c) else js ''auto'');
          overrides = (case config of None \<Rightarrow> (\<lambda>_. None) | Some c \<Rightarrow> lg_entries c)
      in if mode = js ''hidden'' then []
         else List.map_filter (resolve_entry mode overrides presentKinds) catalog)"

section \<open>Legend rows\<close>

record measured_entry = legend_entry +
  me_width :: real

definition measuredEntryWidth :: "legend_entry \<Rightarrow> real \<Rightarrow> real \<Rightarrow> real" where
  "measuredEntryWidth e fontSize swatchGap =
     of_int \<lceil>(case le_swatchWidth e of None \<Rightarrow> 14 | Some w \<Rightarrow> w) + swatchGap
       + real (textUnits (le_label e)) * fontSize * (62 / 100) + (if le_interactive e then 21 else 0)\<rceil>"

definition measured_of :: "real \<Rightarrow> real \<Rightarrow> legend_entry \<Rightarrow> measured_entry" where
  "measured_of fontSize swatchGap e =
     legend_entry.extend e \<lparr>me_width = measuredEntryWidth e fontSize
       (case le_swatchGap e of None \<Rightarrow> swatchGap | Some g \<Rightarrow> g)\<rparr>"

text \<open>The rows that are closed, the open row and its cursor.\<close>

type_synonym row_state = "measured_entry list list \<times> measured_entry list \<times> real"

definition row_step :: "real \<Rightarrow> real \<Rightarrow> row_state \<Rightarrow> measured_entry \<Rightarrow> row_state" where
  "row_step width itemGap st entry =
     (case st of (done_rows, row, cursor) \<Rightarrow>
       let required = (if row = [] then 0 else itemGap) + me_width entry
       in if row \<noteq> [] \<and> width < cursor + required then (done_rows @ [row], [entry], me_width entry)
          else (done_rows, row @ [entry], cursor + required))"

definition legend_rows :: "real \<Rightarrow> real \<Rightarrow> measured_entry list \<Rightarrow> measured_entry list list" where
  "legend_rows width itemGap measured =
     (case foldl (row_step width itemGap) ([], [], 0) measured of (done_rows, row, _) \<Rightarrow> done_rows @ [row])"

record footprint =
  fp_measured :: "measured_entry list"
  fp_rows :: "measured_entry list list"
  fp_minWidth :: real
  fp_extraHeight :: real

definition legendFootprint :: "legend_entry list \<Rightarrow> real \<Rightarrow> real \<Rightarrow> real \<Rightarrow> real \<Rightarrow> real \<Rightarrow> footprint" where
  "legendFootprint entries width fontSize itemGap lineGap swatchGap =
     (if entries = [] then \<lparr>fp_measured = [], fp_rows = [], fp_minWidth = 0, fp_extraHeight = 0\<rparr>
      else let measured = map (measured_of fontSize swatchGap) entries; rows = legend_rows width itemGap measured
           in \<lparr>fp_measured = measured, fp_rows = rows, fp_minWidth = Max (set (map me_width measured)),
               fp_extraHeight = real (length rows - 1) * lineGap\<rparr>)"

section \<open>Legend placement\<close>

record legend_layout =
  ly_x :: real
  ly_baselineY :: real
  ly_width :: real
  ly_fontSize :: real
  ly_itemGap :: real
  ly_lineGap :: real
  ly_swatchGap :: real
  ly_minTitleY :: real
  ly_obstacles :: "obstacle list"
  ly_hide :: bool

record positioned_entry = measured_entry +
  pe_x :: real
  pe_baseline :: real
  pe_row :: nat

fun place_row :: "real \<Rightarrow> real \<Rightarrow> real \<Rightarrow> nat \<Rightarrow> measured_entry list \<Rightarrow> positioned_entry list" where
  "place_row x itemGap baseline index [] = []"
| "place_row x itemGap baseline index (e # es) =
     measured_entry.extend e \<lparr>pe_x = x, pe_baseline = baseline, pe_row = index\<rparr> #
       place_row (x + me_width e + itemGap) itemGap baseline index es"

definition place_rows :: "legend_layout \<Rightarrow> measured_entry list list \<Rightarrow> positioned_entry list" where
  "place_rows l rows =
     concat (map (\<lambda>(index, row).
       place_row (ly_x l) (ly_itemGap l) (ly_baselineY l - (real (length rows) - real index - 1) * ly_lineGap l) index row)
       (enumerate 0 rows))"

definition entry_rect :: "positioned_entry \<Rightarrow> rect" where
  "entry_rect e = \<lparr>rx = pe_x e, ry = pe_baseline e - 10, rwidth = me_width e, rheight = 14\<rparr>"

definition title_rect :: "legend_layout \<Rightarrow> real \<Rightarrow> rect" where
  "title_rect l legendTopY = \<lparr>rx = ly_x l, ry = legendTopY, rwidth = 48, rheight = 14\<rparr>"

definition obstructs :: "rect \<Rightarrow> obstacle \<Rightarrow> bool" where
  "obstructs r ob =
     (case ob of Relationship_segment p q \<Rightarrow> segmentIntersectsRect (p, q) r 0 | Relationship_label b \<Rightarrow> rectsOverlap b r 0)"

datatype legend_error =
    Label_too_wide jstring real
  | Vertical_overflow nat real
  | Content_overlap jstring rect

record placed_legend =
  pl_entries :: "positioned_entry list"
  pl_rowCount :: nat
  pl_titleY :: "real option"

text \<open>\<open>None\<close> is \<open>null\<close>: the legend is hidden because it does not fit.\<close>

definition unfit :: "legend_layout \<Rightarrow> legend_error \<Rightarrow> legend_error + placed_legend option" where
  "unfit l e = (if ly_hide l then Inr None else Inl e)"

definition measureLegend :: "legend_entry list \<Rightarrow> legend_layout \<Rightarrow> legend_error + placed_legend option" where
  "measureLegend entries l =
     (if entries = [] then Inr (Some \<lparr>pl_entries = [], pl_rowCount = 0, pl_titleY = None\<rparr>)
      else
        let f = legendFootprint entries (ly_width l) (ly_fontSize l) (ly_itemGap l) (ly_lineGap l) (ly_swatchGap l)
        in case find (\<lambda>e. ly_width l < me_width e) (fp_measured f) of
             Some tooWide \<Rightarrow> unfit l (Label_too_wide (le_kind tooWide) (me_width tooWide))
           | None \<Rightarrow>
               let titleY = ly_baselineY l - fp_extraHeight f - 20; legendTopY = titleY - 10
               in if legendTopY < ly_minTitleY l then unfit l (Vertical_overflow (length (fp_rows f)) legendTopY)
                  else
                    let positioned = place_rows l (fp_rows f);
                        rects = (js ''title'', title_rect l legendTopY) # map (\<lambda>e. (le_kind e, entry_rect e)) positioned
                    in case find (\<lambda>(k, r). \<exists>ob\<in>set (ly_obstacles l). obstructs r ob) rects of
                         Some (k, r) \<Rightarrow> unfit l (Content_overlap k r)
                       | None \<Rightarrow> Inr (Some \<lparr>pl_entries = positioned, pl_rowCount = length (fp_rows f), pl_titleY = Some titleY\<rparr>))"

end
