(* ===== verification/Legend_Laws.thy ===== *)
theory Legend_Laws
  imports Legend_Layout
begin

text \<open>
  Laws of the legend: shrunken text fits its box, the rows list every entry once and stay within the width,
  and the placed entries lie apart from each other and from the authored relationships. The two properties
  of the component close the theory.
\<close>

section \<open>Text that fits\<close>

lemma floor_tenth: "of_int \<lfloor>v * 10\<rfloor> / 10 \<le> (v :: real)"
  using of_int_floor_le [of "v * 10"] by simp

lemma fitted_text_fits:
  assumes "0 < minimum" "minimumNodeTextWidth t minimum \<le> availableNodeTextWidth width" "1 \<le> availableNodeTextWidth width"
  shows "minimumNodeTextWidth t (fittedNodeFontSize t width preferred minimum) \<le> availableNodeTextWidth width"
proof -
  let ?u = "real (textUnits t)" and ?a = "availableNodeTextWidth width"
  let ?fit = "min preferred (max 1 (width - horizontalPadding) / (max 1 ?u * widthFactor))"
  have a: "max 1 (width - horizontalPadding) = ?a" using assms(3) by (simp add: availableNodeTextWidth_def)
  have "of_int \<lfloor>?fit * 10\<rfloor> / 10 \<le> ?fit" by (rule floor_tenth)
  also have "?fit \<le> ?a / (max 1 ?u * widthFactor)" unfolding a by simp
  finally have f: "of_int \<lfloor>?fit * 10\<rfloor> / 10 \<le> ?a / (max 1 ?u * widthFactor)" .
  have "?u * (of_int \<lfloor>?fit * 10\<rfloor> / 10) * widthFactor \<le> ?a"
  proof (cases "textUnits t = 0")
    case False
    then have "max 1 ?u = ?u" "0 < ?u" by simp_all
    then show ?thesis using f by (simp add: widthFactor_def field_simps)
  next
    case True
    then show ?thesis using assms(3) by simp
  qed
  moreover have "?u * minimum * widthFactor \<le> ?a" using assms(2) by (simp add: minimumNodeTextWidth_def)
  ultimately show ?thesis
    by (simp add: minimumNodeTextWidth_def fittedNodeFontSize_def Let_def max_def split: if_splits)
qed

lemma readable_exact:
  assumes "minimumReadableSourceTextPx viewBoxWidth diagramWidth m = Some s"
  shows "projectedNodeTextPx f viewBoxWidth diagramWidth = Some p \<Longrightarrow> m \<le> p \<longleftrightarrow> s \<le> f"
proof -
  assume p: "projectedNodeTextPx f viewBoxWidth diagramWidth = Some p"
  let ?q = "min 1 (diagramWidth / viewBoxWidth)"
  have "0 < ?q" "s = m / ?q" "p = f * ?q"
    using assms p by (simp_all add: minimumReadableSourceTextPx_def projectedNodeTextPx_def split: if_splits)
  then show ?thesis by (simp add: pos_divide_le_eq)
qed

section \<open>Rows\<close>

definition row_extent :: "real \<Rightarrow> measured_entry list \<Rightarrow> real" where
  "row_extent itemGap row = sum_list (map me_width row) + itemGap * real (length row - 1)"

lemma row_extent_snoc: "row \<noteq> [] \<Longrightarrow> row_extent g (row @ [e]) = row_extent g row + g + me_width e"
  by (cases row) (auto simp: row_extent_def algebra_simps of_nat_diff)

definition row_fits :: "real \<Rightarrow> real \<Rightarrow> measured_entry list \<Rightarrow> bool" where
  "row_fits width itemGap row \<longleftrightarrow> row \<noteq> [] \<and> (length row = 1 \<or> row_extent itemGap row \<le> width)"

lemma row_loop:
  assumes "\<forall>r\<in>set d. row_fits w g r" "row = [] \<and> d = [] \<and> c = 0 \<or> row_fits w g row \<and> c = row_extent g row"
    and "foldl (row_step w g) (d, row, c) es = (d', row', c')" "row \<noteq> [] \<or> es \<noteq> []"
  shows "(\<forall>r\<in>set (d' @ [row']). row_fits w g r) \<and> concat (d' @ [row']) = concat (d @ [row]) @ es"
  using assms
proof (induction es arbitrary: d row c)
  case Nil
  then show ?case by auto
next
  case (Cons e es)
  show ?case
  proof (cases "row \<noteq> [] \<and> w < c + g + me_width e")
    case True
    then have s: "row_step w g (d, row, c) e = (d @ [row], [e], me_width e)" by (simp add: row_step_def add.assoc)
    have "(\<forall>r\<in>set (d' @ [row']). row_fits w g r) \<and> concat (d' @ [row']) = concat ((d @ [row]) @ [[e]]) @ es"
    proof (rule Cons.IH)
      show "\<forall>r\<in>set (d @ [row]). row_fits w g r" using Cons.prems(1,2) True by auto
      show "[e] = [] \<and> d @ [row] = [] \<and> me_width e = 0 \<or> row_fits w g [e] \<and> me_width e = row_extent g [e]"
        by (simp add: row_fits_def row_extent_def)
    qed (use Cons.prems(3) s in simp_all)
    then show ?thesis by simp
  next
    case False
    then have s: "row_step w g (d, row, c) e = (d, row @ [e], c + (if row = [] then 0 else g) + me_width e)"
      by (cases "row = []") (simp_all add: row_step_def add.assoc)
    have r: "row_fits w g (row @ [e]) \<and> c + (if row = [] then 0 else g) + me_width e = row_extent g (row @ [e])"
    proof (cases "row = []")
      case True
      then have "c = 0" using Cons.prems(2) by (simp add: row_fits_def)
      then show ?thesis using True by (simp add: row_fits_def row_extent_def)
    next
      case ne: False
      then have c: "c = row_extent g row" using Cons.prems(2) by simp
      then have "row_extent g (row @ [e]) \<le> w" using False ne row_extent_snoc [OF ne, of g e] by simp
      then show ?thesis using c ne row_extent_snoc [OF ne, of g e] by (simp add: row_fits_def)
    qed
    have "(\<forall>r\<in>set (d' @ [row']). row_fits w g r) \<and> concat (d' @ [row']) = concat (d @ [row @ [e]]) @ es"
    proof (rule Cons.IH)
      show "row @ [e] = [] \<and> d = [] \<and> c + (if row = [] then 0 else g) + me_width e = 0 \<or>
          row_fits w g (row @ [e]) \<and> c + (if row = [] then 0 else g) + me_width e = row_extent g (row @ [e])"
        using r by simp
    qed (use Cons.prems(1,3) s in simp_all)
    then show ?thesis by simp
  qed
qed

lemma legend_rows_spec:
  assumes "es \<noteq> []"
  shows "(\<forall>r\<in>set (legend_rows w g es). row_fits w g r) \<and> concat (legend_rows w g es) = es"
proof -
  obtain d row c where f: "foldl (row_step w g) ([], [], 0) es = (d, row, c)" by (metis prod.exhaust)
  show ?thesis using row_loop [OF _ _ f] assms by (simp add: legend_rows_def f)
qed

section \<open>Placement\<close>

lemma place_row_truncate: "map measured_entry.truncate (place_row x g b i es) = es"
proof (induction es arbitrary: x)
  case (Cons e es)
  have "measured_entry.truncate (measured_entry.extend e \<lparr>pe_x = x, pe_baseline = b, pe_row = i\<rparr>) = e"
    by (cases e) (simp add: measured_entry.defs)
  then show ?case using Cons by simp
qed simp

lemma place_row_inside:
  assumes "\<forall>e\<in>set es. 0 \<le> me_width e" "0 \<le> g" "p \<in> set (place_row x g b i es)"
  shows "x \<le> pe_x p \<and> pe_x p + me_width p \<le> x + row_extent g es \<and> pe_baseline p = b \<and> pe_row p = i"
  using assms
proof (induction es arbitrary: x)
  case (Cons e es)
  have e0: "0 \<le> me_width e" "0 \<le> sum_list (map me_width es)" using Cons.prems(1) by (auto intro!: sum_list_nonneg)
  show ?case
  proof (cases "p \<in> set (place_row (x + me_width e + g) g b i es)")
    case True
    then have "es \<noteq> []" by auto
    then have x: "row_extent g (e # es) = me_width e + g + row_extent g es"
      by (cases es) (auto simp: row_extent_def algebra_simps)
    show ?thesis using Cons.IH [OF _ Cons.prems(2) True] Cons.prems(1,2) e0 unfolding x by auto
  next
    case False
    then have "p = measured_entry.extend e \<lparr>pe_x = x, pe_baseline = b, pe_row = i\<rparr>" using Cons.prems(3) by simp
    then show ?thesis using e0 Cons.prems(2) by (cases e) (simp add: measured_entry.defs row_extent_def)
  qed
qed simp

definition apart :: "positioned_entry \<Rightarrow> positioned_entry \<Rightarrow> bool" where
  "apart p q \<longleftrightarrow> \<not> rectsOverlap (entry_rect p) (entry_rect q) 0"

lemma place_row_apart:
  assumes "\<forall>e\<in>set es. 0 \<le> me_width e" "0 \<le> g"
  shows "sorted_wrt apart (place_row x g b i es)"
  using assms
proof (induction es arbitrary: x)
  case (Cons e es)
  have "apart (measured_entry.extend e \<lparr>pe_x = x, pe_baseline = b, pe_row = i\<rparr>) q"
    if "q \<in> set (place_row (x + me_width e + g) g b i es)" for q
  proof -
    have "x + me_width e + g \<le> pe_x q" using place_row_inside [OF _ Cons.prems(2) that] Cons.prems(1) by simp
    then show ?thesis using Cons.prems(2) by (cases e) (simp add: apart_def rectsOverlap_def entry_rect_def measured_entry.defs)
  qed
  then show ?case using Cons by simp
qed simp

lemma sorted_wrt_concat:
  assumes "\<forall>xs\<in>set xss. sorted_wrt R xs" "sorted_wrt (\<lambda>xs ys. \<forall>x\<in>set xs. \<forall>y\<in>set ys. R x y) xss"
  shows "sorted_wrt R (concat xss)"
  using assms by (induction xss) (auto simp: sorted_wrt_append)

text \<open>A layout whose gaps keep entries apart, and entries of sensible sizes.\<close>

definition spaced :: "legend_layout \<Rightarrow> bool" where
  "spaced l \<longleftrightarrow> 0 \<le> ly_itemGap l \<and> 14 \<le> ly_lineGap l \<and> 0 \<le> ly_fontSize l \<and> 0 \<le> ly_swatchGap l"

definition sized :: "legend_entry \<Rightarrow> bool" where
  "sized e \<longleftrightarrow> (\<forall>w. le_swatchWidth e = Some w \<longrightarrow> 0 \<le> w) \<and> (\<forall>g. le_swatchGap e = Some g \<longrightarrow> 0 \<le> g)"

lemma measured_of_width:
  assumes "sized e" "0 \<le> fs" "0 \<le> sg"
  shows "0 \<le> me_width (measured_of fs sg e)"
proof -
  have "0 \<le> measuredEntryWidth e fs g" if "0 \<le> g" for g
  proof -
    have "0 \<le> (case le_swatchWidth e of None \<Rightarrow> 14 | Some w \<Rightarrow> w)" using assms(1) by (auto simp: sized_def split: option.split)
    then have "0 \<le> (case le_swatchWidth e of None \<Rightarrow> 14 | Some w \<Rightarrow> w) + g + real (textUnits (le_label e)) * fs * (62 / 100) +
        (if le_interactive e then 21 else 0)" using that assms(2) by simp
    then show ?thesis unfolding measuredEntryWidth_def by simp
  qed
  then have "0 \<le> measuredEntryWidth e fs (case le_swatchGap e of None \<Rightarrow> sg | Some g \<Rightarrow> g)"
    using assms(1,3) by (simp add: sized_def split: option.split)
  then show ?thesis by (cases e) (simp add: measured_of_def legend_entry.defs)
qed

lemma measured_of_truncate: "legend_entry.truncate (measured_of fs sg e) = e"
  by (cases e) (simp add: measured_of_def legend_entry.defs)

lemma place_rows_truncate: "map measured_entry.truncate (place_rows l rows) = concat rows"
proof -
  have "map measured_entry.truncate (concat (map (\<lambda>(index, row). place_row (ly_x l) (ly_itemGap l) (f index) index row) (enumerate k rows))) =
      concat rows" for f k
    by (induction rows arbitrary: k) (auto simp: place_row_truncate)
  then show ?thesis unfolding place_rows_def by (simp add: split_beta)
qed

lemma place_rows_mem:
  assumes "p \<in> set (place_rows l rows)"
  shows "\<exists>i<length rows. p \<in> set (place_row (ly_x l) (ly_itemGap l)
    (ly_baselineY l - (real (length rows) - real i - 1) * ly_lineGap l) i (rows ! i))"
  using assms by (auto simp: place_rows_def set_enumerate_iff)

lemma place_rows_apart:
  assumes "spaced l" "\<forall>r\<in>set rows. \<forall>e\<in>set r. 0 \<le> me_width e"
  shows "sorted_wrt apart (place_rows l rows)"
  unfolding place_rows_def
proof (rule sorted_wrt_concat)
  let ?b = "\<lambda>i. ly_baselineY l - (real (length rows) - real i - 1) * ly_lineGap l"
  let ?place = "\<lambda>(i, r). place_row (ly_x l) (ly_itemGap l) (?b i) i r"
  have g: "0 \<le> ly_itemGap l" using assms(1) by (simp add: spaced_def)
  show "\<forall>xs\<in>set (map ?place (enumerate 0 rows)). sorted_wrt apart xs"
  proof
    fix xs assume "xs \<in> set (map ?place (enumerate 0 rows))"
    then obtain i where i: "i < length rows" "xs = place_row (ly_x l) (ly_itemGap l) (?b i) i (rows ! i)"
      by (auto simp: set_enumerate_iff)
    then have "rows ! i \<in> set rows" by simp
    then show "sorted_wrt apart xs" unfolding i(2) using place_row_apart [OF _ g] assms(2) by blast
  qed
  have "sorted_wrt (\<lambda>a b. \<forall>p\<in>set (?place a). \<forall>q\<in>set (?place b). apart p q) (enumerate 0 rows)"
  proof (rule sorted_wrt_iff_nth_less [THEN iffD2], intro allI impI ballI)
    fix i j p q assume ij: "i < j" "j < length (enumerate 0 rows)"
      and pq: "p \<in> set (?place (enumerate 0 rows ! i))" "q \<in> set (?place (enumerate 0 rows ! j))"
    have w: "\<forall>e\<in>set (rows ! i). 0 \<le> me_width e" "\<forall>e\<in>set (rows ! j). 0 \<le> me_width e" using assms(2) ij by auto
    have "pe_baseline p = ?b i" "pe_baseline q = ?b j"
      using place_row_inside [OF w(1) g, of p "ly_x l" "?b i" i] place_row_inside [OF w(2) g, of q "ly_x l" "?b j" j] pq ij
      by (simp_all add: nth_enumerate_eq)
    moreover have "14 \<le> (real j - real i) * ly_lineGap l"
    proof -
      have "1 \<le> real j - real i" "14 \<le> ly_lineGap l" using ij assms(1) by (simp_all add: spaced_def)
      then have "1 * 14 \<le> (real j - real i) * ly_lineGap l" by (intro mult_mono) auto
      then show ?thesis by simp
    qed
    ultimately have "pe_baseline p + 14 \<le> pe_baseline q" by (simp add: algebra_simps)
    then show "apart p q" by (simp add: apart_def rectsOverlap_def entry_rect_def)
  qed
  then show "sorted_wrt (\<lambda>xs ys. \<forall>x\<in>set xs. \<forall>y\<in>set ys. apart x y) (map ?place (enumerate 0 rows))"
    unfolding sorted_wrt_map .
qed

lemma measureLegend_Some:
  assumes "measureLegend entries l = Inr (Some p)" "entries \<noteq> []"
  defines "ms \<equiv> map (measured_of (ly_fontSize l) (ly_swatchGap l)) entries"
  shows "pl_entries p = place_rows l (legend_rows (ly_width l) (ly_itemGap l) ms) \<and> (\<forall>e\<in>set ms. me_width e \<le> ly_width l) \<and>
    (\<forall>e\<in>set (pl_entries p). \<forall>ob\<in>set (ly_obstacles l). \<not> obstructs (entry_rect e) ob)"
  using assms(1,2) unfolding ms_def
  by (auto simp: measureLegend_def legendFootprint_def Let_def unfit_def find_None_iff not_less split: option.splits if_splits)

lemma placed_legend:
  assumes "measureLegend entries l = Inr (Some p)" "spaced l" "\<forall>e\<in>set entries. sized e"
  shows "map (\<lambda>e. legend_entry.truncate (measured_entry.truncate e)) (pl_entries p) = entries \<and>
    sorted_wrt apart (pl_entries p) \<and>
    (\<forall>e\<in>set (pl_entries p). ly_x l \<le> pe_x e \<and> pe_x e + me_width e \<le> ly_x l + ly_width l \<and>
       (\<forall>ob\<in>set (ly_obstacles l). \<not> obstructs (entry_rect e) ob))"
proof (cases "entries = []")
  case True
  then show ?thesis using assms(1) by (auto simp: measureLegend_def)
next
  case False
  let ?ms = "map (measured_of (ly_fontSize l) (ly_swatchGap l)) entries"
  let ?rows = "legend_rows (ly_width l) (ly_itemGap l) ?ms"
  note m = measureLegend_Some [OF assms(1) False]
  have rows: "\<forall>r\<in>set ?rows. row_fits (ly_width l) (ly_itemGap l) r" "concat ?rows = ?ms"
    using legend_rows_spec [of ?ms] False by auto
  have w0: "\<forall>e\<in>set ?ms. 0 \<le> me_width e" using assms(2,3) measured_of_width by (auto simp: spaced_def)
  then have wr: "\<forall>r\<in>set ?rows. \<forall>e\<in>set r. 0 \<le> me_width e" using rows(2) by (metis UN_I set_concat)
  have g: "0 \<le> ly_itemGap l" using assms(2) by (simp add: spaced_def)
  have ext: "row_extent (ly_itemGap l) r \<le> ly_width l" if r: "r \<in> set ?rows" for r
  proof (cases "length r = 1")
    case True
    then obtain e where e: "r = [e]" by (cases r) auto
    then have "e \<in> set ?ms" using r rows(2) by (metis UN_I list.set_intros(1) set_concat)
    then have "me_width e \<le> ly_width l" using m by blast
    then show ?thesis using e by (simp add: row_extent_def)
  next
    case False
    then show ?thesis using rows(1) r by (auto simp: row_fits_def)
  qed
  have "ly_x l \<le> pe_x e \<and> pe_x e + me_width e \<le> ly_x l + ly_width l" if e: "e \<in> set (pl_entries p)" for e
  proof -
    have "e \<in> set (place_rows l ?rows)" using e m by simp
    then obtain i b where i: "i < length ?rows" "e \<in> set (place_row (ly_x l) (ly_itemGap l) b i (?rows ! i))"
      using place_rows_mem by blast
    then have "?rows ! i \<in> set ?rows" by simp
    then show ?thesis using place_row_inside [OF _ g i(2)] wr ext by fastforce
  qed
  moreover have "map (\<lambda>e. legend_entry.truncate (measured_entry.truncate e)) (pl_entries p) = entries"
  proof -
    have "map measured_entry.truncate (pl_entries p) = ?ms" using m rows(2) place_rows_truncate by metis
    then have "map legend_entry.truncate (map measured_entry.truncate (pl_entries p)) = entries"
      by (simp add: comp_def measured_of_truncate)
    then show ?thesis by (simp add: comp_def)
  qed
  moreover have "sorted_wrt apart (pl_entries p)" using place_rows_apart [OF assms(2) wr] m by simp
  ultimately show ?thesis using m by blast
qed

section \<open>Properties\<close>

text \<open>
  C26: A legend that is placed is faithful and readable: its entries are the resolved entries, each once and in
  order; no two of them overlap; and every one lies within the width of the legend, clear of the authored
  relationship segments and labels.
\<close>

theorem placed_legend_is_faithful_and_clear:
  assumes "measureLegend entries l = Inr (Some p)" "spaced l" "\<forall>e\<in>set entries. sized e"
  shows "map (\<lambda>e. legend_entry.truncate (measured_entry.truncate e)) (pl_entries p) = entries \<and>
    sorted_wrt apart (pl_entries p) \<and>
    (\<forall>e\<in>set (pl_entries p). ly_x l \<le> pe_x e \<and> pe_x e + me_width e \<le> ly_x l + ly_width l \<and>
       (\<forall>ob\<in>set (ly_obstacles l). \<not> obstructs (entry_rect e) ob))"
  by (rule placed_legend [OF assms])

definition legend_sample :: legend_entry where
  "legend_sample = \<lparr>le_kind = js ''db'', le_label = js ''DB'', le_present = True, le_interactive = False,
     le_swatchWidth = None, le_swatchGap = None\<rparr>"

definition layout_sample :: legend_layout where
  "layout_sample = \<lparr>ly_x = 40, ly_baselineY = 100, ly_width = 60, ly_fontSize = 8, ly_itemGap = 22, ly_lineGap = 22,
     ly_swatchGap = 8, ly_minTitleY = 0, ly_obstacles = [], ly_hide = False\<rparr>"

lemma legend_sample_width: "me_width (measured_of 8 8 legend_sample) = 32"
proof -
  have "textUnits (js ''DB'') = 2"
    by (simp add: textUnits_def high_unit_def variation_selector_def fullwidth_def FULLWIDTH_RE_def)
  moreover have "\<lceil>14 + 8 + 2 * 8 * (62 / 100) :: real\<rceil> = 32" by (rule ceiling_unique) simp_all
  ultimately show ?thesis by (simp add: measured_of_def legend_sample_def legend_entry.defs measuredEntryWidth_def)
qed

theorem placed_legend_witness:
  "\<exists>p. measureLegend [legend_sample, legend_sample] layout_sample = Inr (Some p) \<and> length (pl_entries p) = 2 \<and>
     apart (pl_entries p ! 0) (pl_entries p ! 1)"
proof -
  have f: "find (\<lambda>(k, r). False) xs = None" for xs :: "(jstring \<times> rect) list" by (auto simp: find_None_iff)
  have "\<exists>p. measureLegend [legend_sample, legend_sample] layout_sample = Inr (Some p)"
    by (simp add: Let_def f measureLegend_def legendFootprint_def layout_sample_def legend_sample_width legend_rows_def row_step_def)
  then obtain p where p: "measureLegend [legend_sample, legend_sample] layout_sample = Inr (Some p)" by blast
  have "spaced layout_sample" "\<forall>e\<in>set [legend_sample, legend_sample]. sized e"
    by (simp_all add: spaced_def layout_sample_def sized_def legend_sample_def)
  note q = placed_legend_is_faithful_and_clear [OF p this]
  then have n: "length (pl_entries p) = 2" by (metis length_map length_Cons list.size(3) numeral_2_eq_2)
  then have "apart (pl_entries p ! 0) (pl_entries p ! 1)" using q by (simp add: sorted_wrt_iff_nth_less)
  then show ?thesis using p n by blast
qed

text \<open>
  Shrinking saves every text the validation lets through: a node text whose width at the minimum font size
  fits in its box also fits at the font size \<open>fittedNodeFontSize\<close> chooses.
\<close>

theorem accepted_text_fits_its_box:
  assumes "0 < minimum" "minimumNodeTextWidth t minimum \<le> availableNodeTextWidth width" "1 \<le> availableNodeTextWidth width"
  shows "minimumNodeTextWidth t (fittedNodeFontSize t width preferred minimum) \<le> availableNodeTextWidth width"
  by (rule fitted_text_fits [OF assms])

theorem accepted_text_witness:
  "minimumNodeTextWidth [97] (fittedNodeFontSize [97] 20 12 5) \<le> availableNodeTextWidth 20"
proof (rule accepted_text_fits_its_box)
  have "textUnits [97] = 1" by (simp add: textUnits_def variation_selector_def fullwidth_def FULLWIDTH_RE_def)
  then show "minimumNodeTextWidth [97] 5 \<le> availableNodeTextWidth 20"
    by (simp add: minimumNodeTextWidth_def availableNodeTextWidth_def widthFactor_def horizontalPadding_def)
qed (simp_all add: availableNodeTextWidth_def horizontalPadding_def)

end
