(* ===== verification/Workflow_Migration.thy ===== *)
theory Workflow_Migration
  imports Canonical_Json
begin

text \<open>
  The migration of workflow documents from schema 1 to schema 2
  (\<open>renderers/workflow/workflow-migration-geometry.mjs\<close>, \<open>migrations/workflow-v2.mjs\<close>).

  \<^item> \<open>compileWorkflow\<close> (the workflow compiler) and \<open>validateSchema\<close> (the generated validators) are arguments of
    the model: a function from a document and a quality profile to a compile result, and one from a document
    to its schema diagnostics. A compile result keeps what the migration reads of it.
  \<^item> \<open>clone\<close> is the identity: a document is a value. Documents that passed the schema have string ids.
  \<^item> Diagnostics keep their code; \<open>toFixed\<close> rounds ties away from zero.
\<close>

section \<open>Rank mapping\<close>

definition mappedNumber :: "real \<Rightarrow> real" where
  "mappedNumber v =
     (if v < 0 then - (of_int \<lfloor>- v * 10 ^ 6 + 1 / 2\<rfloor> / 10 ^ 6) else of_int \<lfloor>v * 10 ^ 6 + 1 / 2\<rfloor> / 10 ^ 6)"

datatype mapping_error = Columns_mismatch | Columns_not_increasing

fun increasing_columns :: "real list \<Rightarrow> real list \<Rightarrow> bool" where
  "increasing_columns (a # b # as) (c # d # cs) \<longleftrightarrow> a < b \<and> c < d \<and> increasing_columns (b # as) (d # cs)"
| "increasing_columns _ _ \<longleftrightarrow> True"

text \<open>The first segment whose right end is not left of \<open>x\<close>; the last one otherwise.\<close>

fun find_segment :: "real list \<Rightarrow> real \<Rightarrow> nat \<Rightarrow> nat option" where
  "find_segment (a # b # as) x i = (if x \<le> b then Some i else find_segment (b # as) x (Suc i))"
| "find_segment _ x i = None"

definition rank_segment :: "real list \<Rightarrow> real \<Rightarrow> nat" where
  "rank_segment oldColumns x =
     (if x \<le> oldColumns ! 0 then 0
      else case find_segment oldColumns x 0 of Some i \<Rightarrow> i | None \<Rightarrow> length oldColumns - 2)"

definition mapped_position :: "real list \<Rightarrow> real list \<Rightarrow> real \<Rightarrow> real" where
  "mapped_position oldColumns newColumns x =
     (let segment = rank_segment oldColumns x;
          oldSpan = oldColumns ! Suc segment - oldColumns ! segment;
          newSpan = newColumns ! Suc segment - newColumns ! segment;
          ratio = (x - oldColumns ! segment) / oldSpan
      in newColumns ! segment + ratio * newSpan)"

definition createHorizontalRankMapper :: "real list \<Rightarrow> real list \<Rightarrow> mapping_error + (real \<Rightarrow> real)" where
  "createHorizontalRankMapper oldColumns newColumns =
     (if length oldColumns \<noteq> length newColumns \<or> length oldColumns < 2 then Inl Columns_mismatch
      else if \<not> increasing_columns oldColumns newColumns then Inl Columns_not_increasing
      else Inr (\<lambda>x. mappedNumber (mapped_position oldColumns newColumns x)))"

section \<open>Mapping explicit coordinates\<close>

record coordinate_change =
  cc_path :: jstring
  cc_from :: real
  cc_to :: real

definition coordinate_record :: "jstring \<Rightarrow> real \<Rightarrow> real \<Rightarrow> coordinate_change list" where
  "coordinate_record path v w = (if w \<noteq> v then [\<lparr>cc_path = path, cc_from = v, cc_to = w\<rparr>] else [])"

text \<open>The first coordinate of a point, when it is a number.\<close>

fun map_point :: "(real \<Rightarrow> real) \<Rightarrow> jstring \<Rightarrow> json \<Rightarrow> json \<times> coordinate_change list" where
  "map_point mapX path (JArr (JNum v # vs)) = (JArr (JNum (mapX v) # vs), coordinate_record (path @ js ''/0'') v (mapX v))"
| "map_point mapX path p = (p, [])"

definition map_via :: "(real \<Rightarrow> real) \<Rightarrow> jstring \<Rightarrow> json list \<Rightarrow> json list \<times> coordinate_change list" where
  "map_via mapX path points =
     (let mapped = map (\<lambda>(i, p). map_point mapX (path @ js ''/via/'' @ decimal i) p) (enumerate 0 points)
      in (map fst mapped, concat (map snd mapped)))"

definition map_edge :: "(real \<Rightarrow> real) \<Rightarrow> jstring \<Rightarrow> json \<Rightarrow> json \<times> coordinate_change list" where
  "map_edge mapX path edge =
     (let (e1, c1) = (case get edge (js ''via'') of
            Some (JArr points) \<Rightarrow>
              (let (ps, cs) = map_via mapX path points in (set_member edge (js ''via'') (JArr ps), cs))
          | _ \<Rightarrow> (edge, []));
          (e2, c2) = (case get edge (js ''labelAt'') of
            Some p \<Rightarrow> (let (q, cs) = map_point mapX (path @ js ''/labelAt'') p in (set_member e1 (js ''labelAt'') q, cs))
          | None \<Rightarrow> (e1, []));
          (e3, c3) = (case get edge (js ''channelX'') of
            Some (JNum v) \<Rightarrow> (set_member e2 (js ''channelX'') (JNum (mapX v)), coordinate_record (path @ js ''/channelX'') v (mapX v))
          | _ \<Rightarrow> (e2, []))
      in (e3, c1 @ c2 @ c3))"

definition mapExplicitCoordinates :: "(real \<Rightarrow> real) \<Rightarrow> json \<Rightarrow> json \<times> coordinate_change list" where
  "mapExplicitCoordinates mapX workflow =
     (let mapped = map (\<lambda>(i, e). map_edge mapX (js ''/edges/'' @ decimal i) e) (enumerate 0 (items_of (get workflow (js ''edges''))))
      in (set_member workflow (js ''edges'') (JArr (map fst mapped)), concat (map snd mapped)))"

definition createMappedWorkflowCandidate ::
  "json \<Rightarrow> real list \<Rightarrow> real list \<Rightarrow> mapping_error + json \<times> coordinate_change list" where
  "createMappedWorkflowCandidate workflow oldColumns newColumns =
     bind_result (createHorizontalRankMapper oldColumns newColumns)
       (\<lambda>mapX. Inr (mapExplicitCoordinates mapX (set_member workflow (js ''schema_version'') (JNum 2))))"

section \<open>Projections for planning\<close>

definition intrinsicWorkflow :: "json \<Rightarrow> json" where
  "intrinsicWorkflow workflow =
     set_member (set_member workflow (js ''schema_version'') (JNum 2)) (js ''meta'')
       (case get workflow (js ''meta'') of Some m \<Rightarrow> delete_member m (js ''viewBox'') | None \<Rightarrow> JObj [])"

definition hasRoutedGeometry :: "json \<Rightarrow> bool" where
  "hasRoutedGeometry edge \<longleftrightarrow>
     (\<exists>vs. get edge (js ''via'') = Some (JArr vs)) \<or>
     (case get edge (js ''route'') of None \<Rightarrow> False
      | Some r \<Rightarrow> truthy_value r \<and> r \<noteq> JStr (js ''auto'') \<and> r \<noteq> JStr (js ''straight'')) \<or>
     get edge (js ''channelX'') \<noteq> None \<or> get edge (js ''channelY'') \<noteq> None"

definition automatic_edge :: "json \<Rightarrow> json" where
  "automatic_edge edge =
     JObj (concat (map (copied_member edge) [js ''id'', js ''from'', js ''to'', js ''variant'', js ''role'', js ''width'']) @
       (if get edge (js ''route'') = Some (JStr (js ''straight'')) then [(js ''route'', JStr (js ''straight''))] else []) @
       (if get edge (js ''labelAt'') = None then copied_member edge (js ''label'') else []))"

definition pair_of_edge :: "json \<Rightarrow> json option \<times> json option" where
  "pair_of_edge edge = (get edge (js ''from''), get edge (js ''to''))"

definition planningWorkflow :: "json \<Rightarrow> json" where
  "planningWorkflow workflow =
     (let planned = intrinsicWorkflow workflow;
          edges = map automatic_edge (filter (\<lambda>e. \<not> hasRoutedGeometry e) (items_of (get planned (js ''edges''))));
          projected = set_member planned (js ''edges'') (JArr edges)
      in case get projected (js ''mainPath'') of
           Some (JArr path) \<Rightarrow>
             if \<exists>i < length path - 1. (Some (path ! i), Some (path ! Suc i)) \<notin> set (map pair_of_edge edges)
             then delete_member projected (js ''mainPath'') else projected
         | _ \<Rightarrow> projected)"

section \<open>The migration\<close>

record diagnostic =
  dg_code :: jstring
  dg_requiredViewBox :: "real list option"

text \<open>\<open>cp_columns\<close> and \<open>cp_requiredViewBox\<close> are those of the receipt.\<close>

record compile_result =
  cp_ok :: bool
  cp_diagnostics :: "diagnostic list"
  cp_columns :: "real list"
  cp_requiredViewBox :: "real list option"

record migration_result =
  mr_ok :: bool
  mr_document :: "json option"
  mr_fromSchemaVersion :: "json option"
  mr_preExisting :: "diagnostic list"
  mr_migration :: "diagnostic list"
  mr_newSchema :: "diagnostic list"
  mr_changedCoordinates :: "coordinate_change list"
  mr_oldRequired :: "real list option"
  mr_newRequired :: "real list option"

definition failed_result :: migration_result where
  "failed_result = \<lparr>mr_ok = False, mr_document = None, mr_fromSchemaVersion = Some (JNum 1), mr_preExisting = [],
     mr_migration = [], mr_newSchema = [], mr_changedCoordinates = [], mr_oldRequired = None, mr_newRequired = None\<rparr>"

definition plain_diagnostic :: "jstring \<Rightarrow> diagnostic" where
  "plain_diagnostic code = \<lparr>dg_code = code, dg_requiredViewBox = None\<rparr>"

definition requiredViewBoxFrom :: "compile_result \<Rightarrow> real list option" where
  "requiredViewBoxFrom r =
     (case cp_requiredViewBox r of
        Some v \<Rightarrow> Some v
      | None \<Rightarrow> first_some (\<lambda>d. case dg_requiredViewBox d of
          Some v \<Rightarrow> if length v = 2 then Some v else None | None \<Rightarrow> None) (cp_diagnostics r))"

definition expandableViewBox :: "compile_result \<Rightarrow> real list option" where
  "expandableViewBox r =
     (if cp_ok r \<or> cp_diagnostics r = [] then None
      else if \<not> (\<forall>d\<in>set (cp_diagnostics r). dg_code d = js ''workflow/viewbox-capacity'') then None
      else requiredViewBoxFrom r)"

type_synonym compiler = "json \<Rightarrow> json \<Rightarrow> compile_result"

definition qualityProfile_of :: "json \<Rightarrow> json" where
  "qualityProfile_of workflow =
     (case get_opt (get workflow (js ''meta'')) (js ''quality_profile'') of
        Some q \<Rightarrow> if truthy_value q then q else JStr (js ''standard'') | None \<Rightarrow> JStr (js ''standard''))"

definition legacy_probe :: "json \<Rightarrow> json" where
  "legacy_probe workflow =
     (let meta = get workflow (js ''meta'');
          lane = (case items_of (get workflow (js ''lanes'')) of [] \<Rightarrow> None | l # _ \<Rightarrow> get l (js ''id''))
      in JObj ([(js ''schema_version'', JNum 1), (js ''diagram_type'', JStr (js ''workflow'')),
        (js ''meta'', JObj (
           (case get_opt meta (js ''title'') of None \<Rightarrow> [] | Some t \<Rightarrow> [(js ''title'', t)]) @
           (case get_opt meta (js ''locale'') of None \<Rightarrow> [] | Some t \<Rightarrow> if truthy_value t then [(js ''locale'', t)] else []) @
           [(js ''legend'', JObj [(js ''mode'', JStr (js ''hidden''))])]))] @
        copied_member workflow (js ''lanes'') @
        [(js ''nodes'', JArr [JObj ([(js ''id'', JStr (js ''migration_probe''))] @
            (case lane of None \<Rightarrow> [] | Some i \<Rightarrow> [(js ''lane'', i)]) @
            [(js ''col'', JNum 0), (js ''type'', JStr (js ''backend'')), (js ''label'', JStr (js ''Probe''))])]),
         (js ''edges'', JArr [])]))"

definition legacyLayoutProbe :: "compiler \<Rightarrow> json \<Rightarrow> json \<Rightarrow> compile_result" where
  "legacyLayoutProbe compileWorkflow workflow qualityProfile = compileWorkflow (legacy_probe workflow) qualityProfile"

definition without_viewBox :: "json \<Rightarrow> json" where
  "without_viewBox workflow =
     (case get workflow (js ''meta'') of
        None \<Rightarrow> workflow | Some m \<Rightarrow> set_member workflow (js ''meta'') (delete_member m (js ''viewBox'')))"

definition legacyRequirementProbe :: "compiler \<Rightarrow> json \<Rightarrow> json \<Rightarrow> compile_result" where
  "legacyRequirementProbe compileWorkflow workflow qualityProfile = compileWorkflow (without_viewBox workflow) qualityProfile"

definition or_else :: "'a option \<Rightarrow> 'a option \<Rightarrow> 'a option" where
  "or_else u v = (case u of None \<Rightarrow> v | Some _ \<Rightarrow> u)"

text \<open>The current view box, when it is a pair of numbers as the schema requires.\<close>

definition viewBox_of :: "json \<Rightarrow> (real \<times> real) option" where
  "viewBox_of workflow =
     (case get_opt (get workflow (js ''meta'')) (js ''viewBox'') of
        Some (JArr [JNum w, JNum h]) \<Rightarrow> Some (w, h) | _ \<Rightarrow> None)"

definition with_viewBox :: "json \<Rightarrow> real \<Rightarrow> real \<Rightarrow> json" where
  "with_viewBox workflow w h =
     (case get workflow (js ''meta'') of
        None \<Rightarrow> workflow
      | Some m \<Rightarrow> set_member workflow (js ''meta'') (set_member m (js ''viewBox'') (JArr [JNum w, JNum h])))"

text \<open>The second compilation with a grown view box; the result is the document and its compilation.\<close>

definition expand_capacity :: "compiler \<Rightarrow> json \<Rightarrow> json \<Rightarrow> json \<times> compile_result" where
  "expand_capacity compileWorkflow migrated qualityProfile =
     (let compiled = compileWorkflow migrated qualityProfile
      in case (viewBox_of migrated, expandableViewBox compiled) of
           (Some (w, h), Some (w' # h' # _)) \<Rightarrow>
             if w < max w w' \<or> h < max h h'
             then let grown = with_viewBox migrated (max w w') (max h h') in (grown, compileWorkflow grown qualityProfile)
             else (migrated, compiled)
         | _ \<Rightarrow> (migrated, compiled))"

definition plan_workflow :: "compiler \<Rightarrow> json \<Rightarrow> json \<Rightarrow> compile_result" where
  "plan_workflow compileWorkflow workflow qualityProfile =
     (let planned = compileWorkflow (intrinsicWorkflow workflow) qualityProfile
      in if cp_ok planned then planned else compileWorkflow (planningWorkflow workflow) qualityProfile)"

definition migrate_legacy :: "compiler \<Rightarrow> (json \<Rightarrow> diagnostic list) \<Rightarrow> json \<Rightarrow> json \<Rightarrow> migration_result" where
  "migrate_legacy compileWorkflow validateSchema workflow qualityProfile =
     (let legacy = compileWorkflow workflow qualityProfile;
          legacyProbe = legacyLayoutProbe compileWorkflow workflow qualityProfile;
          pre = (if cp_ok legacy then [] else cp_diagnostics legacy)
      in if \<not> cp_ok legacyProbe then failed_result\<lparr>mr_preExisting := pre, mr_migration := cp_diagnostics legacyProbe\<rparr>
         else
           let old = or_else (requiredViewBoxFrom (legacyRequirementProbe compileWorkflow workflow qualityProfile))
                       (or_else (requiredViewBoxFrom legacyProbe) (requiredViewBoxFrom legacy));
               planned = plan_workflow compileWorkflow workflow qualityProfile
           in if \<not> cp_ok planned
              then failed_result\<lparr>mr_preExisting := pre, mr_newSchema := cp_diagnostics planned,
                     mr_oldRequired := old, mr_newRequired := requiredViewBoxFrom planned\<rparr>
              else case createMappedWorkflowCandidate workflow (cp_columns legacyProbe) (cp_columns planned) of
                Inl e \<Rightarrow> failed_result\<lparr>mr_preExisting := pre, mr_migration := [plain_diagnostic (js ''migration/rank-mapping'')],
                           mr_oldRequired := old, mr_newRequired := requiredViewBoxFrom planned\<rparr>
              | Inr (mapped, changes) \<Rightarrow>
                  (case expand_capacity compileWorkflow mapped qualityProfile of
                     (migrated, compiled) \<Rightarrow>
                       let new = or_else (requiredViewBoxFrom compiled) (requiredViewBoxFrom planned);
                           base = failed_result\<lparr>mr_preExisting := pre, mr_changedCoordinates := changes,
                                    mr_oldRequired := old, mr_newRequired := new\<rparr>
                       in if \<not> cp_ok compiled then base\<lparr>mr_newSchema := cp_diagnostics compiled\<rparr>
                          else if validateSchema migrated \<noteq> [] then base\<lparr>mr_newSchema := validateSchema migrated\<rparr>
                          else base\<lparr>mr_ok := True, mr_document := Some migrated\<rparr>))"

definition migrateWorkflowDocument :: "compiler \<Rightarrow> (json \<Rightarrow> diagnostic list) \<Rightarrow> json \<Rightarrow> migration_result" where
  "migrateWorkflowDocument compileWorkflow validateSchema inputWorkflow =
     (if \<not> isPlainObject inputWorkflow
      then failed_result\<lparr>mr_migration := [plain_diagnostic (js ''migration/source-document'')]\<rparr>
      else
        let qualityProfile = qualityProfile_of inputWorkflow;
            version = get inputWorkflow (js ''schema_version'');
            pre = validateSchema inputWorkflow
        in if pre \<noteq> [] then failed_result\<lparr>mr_fromSchemaVersion := or_else version (Some (JNum 1)), mr_preExisting := pre\<rparr>
           else if version = Some (JNum 2) then
             let compiled = compileWorkflow inputWorkflow qualityProfile; required = requiredViewBoxFrom compiled;
                 base = failed_result\<lparr>mr_fromSchemaVersion := Some (JNum 2), mr_oldRequired := required, mr_newRequired := required\<rparr>
             in if \<not> cp_ok compiled then base\<lparr>mr_preExisting := cp_diagnostics compiled\<rparr>
                else base\<lparr>mr_ok := True, mr_document := Some inputWorkflow\<rparr>
           else if version \<noteq> Some (JNum 1)
           then failed_result\<lparr>mr_fromSchemaVersion := or_else version (Some (JNum 1)),
                  mr_migration := [plain_diagnostic (js ''migration/source-schema-version'')]\<rparr>
           else migrate_legacy compileWorkflow validateSchema inputWorkflow qualityProfile)"

end
