(* ===== verification/Migration_Laws.thy ===== *)
theory Migration_Laws
  imports Workflow_Migration
begin

text \<open>
  The rank mapping is an order isomorphism up to rounding and its inverse is the mapping back; the audit
  trail of the coordinates is exact; a migrated document passes what the migration checks, keeps the quality
  profile and never loses room, and is a fixed point of the migration.
\<close>

section \<open>Rounding\<close>

lemma mappedNumber_mono: "v \<le> w \<Longrightarrow> mappedNumber v \<le> mappedNumber w"
proof -
  assume vw: "v \<le> w"
  have up: "\<lfloor>a * 10 ^ 6 + 1 / 2\<rfloor> \<le> \<lfloor>b * 10 ^ 6 + 1 / 2\<rfloor>" if "a \<le> b" for a b :: real
    using that by (intro floor_mono) simp
  have pos: "(0::int) \<le> \<lfloor>a * 10 ^ 6 + 1 / 2\<rfloor>" if "0 \<le> a" for a :: real using that by simp
  show ?thesis
  proof (cases "v < 0 \<and> 0 \<le> w")
    case True
    have a: "(0 :: real) \<le> of_int \<lfloor>- v * 10 ^ 6 + 1 / 2\<rfloor> / 10 ^ 6" "(0 :: real) \<le> of_int \<lfloor>w * 10 ^ 6 + 1 / 2\<rfloor> / 10 ^ 6"
      using pos [of "- v"] pos [of w] True by (intro divide_nonneg_nonneg; simp only: of_int_0_le_iff; simp)+
    have "mappedNumber v = - (of_int \<lfloor>- v * 10 ^ 6 + 1 / 2\<rfloor> / 10 ^ 6)" "mappedNumber w = of_int \<lfloor>w * 10 ^ 6 + 1 / 2\<rfloor> / 10 ^ 6"
      using True by (simp_all add: mappedNumber_def)
    then show ?thesis using a by linarith
  next
    case False
    then show ?thesis using up [of v w] up [of "- w" "- v"] vw by (auto simp: mappedNumber_def divide_right_mono)
  qed
qed

lemma mappedNumber_close: "\<bar>mappedNumber v - v\<bar> \<le> 1 / (2 * 10 ^ 6)"
proof -
  have r: "\<bar>of_int \<lfloor>a * 10 ^ 6 + 1 / 2\<rfloor> / 10 ^ 6 - a\<bar> \<le> 1 / (2 * 10 ^ 6)" for a :: real
  proof -
    have "\<bar>of_int \<lfloor>a * 10 ^ 6 + 1 / 2\<rfloor> - a * 10 ^ 6\<bar> \<le> 1 / 2" by linarith
    then show ?thesis by (simp add: abs_le_iff field_simps)
  qed
  show ?thesis
  proof (cases "v < 0")
    case True
    then have "mappedNumber v - v = - (of_int \<lfloor>- v * 10 ^ 6 + 1 / 2\<rfloor> / 10 ^ 6 - (- v))" by (simp add: mappedNumber_def)
    then show ?thesis using r [of "- v"] by (simp only: abs_minus_cancel)
  qed (use r [of v] in \<open>simp add: mappedNumber_def\<close>)
qed

lemma mappedNumber_exact: "v * 10 ^ 6 = of_int n \<Longrightarrow> mappedNumber v = v"
proof -
  assume v: "v * 10 ^ 6 = of_int n"
  have "\<lfloor>of_int n + 1 / 2 :: real\<rfloor> = n" "\<lfloor>of_int (- n) + 1 / 2 :: real\<rfloor> = - n" by linarith+
  then have "\<lfloor>v * 10 ^ 6 + 1 / 2\<rfloor> = n" "\<lfloor>- v * 10 ^ 6 + 1 / 2\<rfloor> = - n" using v by simp_all
  then show ?thesis using v by (simp add: mappedNumber_def)
qed

section \<open>Segments\<close>

lemma increasing_nth:
  assumes "increasing_columns os ns" "length os = length ns" "Suc i < length os"
  shows "os ! i < os ! Suc i \<and> ns ! i < ns ! Suc i"
  using assms
proof (induction os ns arbitrary: i rule: increasing_columns.induct)
  case (1 a b as c d cs)
  then show ?case by (cases i) auto
qed auto

lemma increasing_swap: "increasing_columns os ns = increasing_columns ns os"
  by (induction os ns rule: increasing_columns.induct) auto

text \<open>Two increasing columns of the same length, at least two of them.\<close>

definition rank_columns :: "real list \<Rightarrow> real list \<Rightarrow> bool" where
  "rank_columns os ns \<longleftrightarrow> length os = length ns \<and> 2 \<le> length os \<and> increasing_columns os ns"

lemma mapper_Inr: "createHorizontalRankMapper os ns = Inr m \<longleftrightarrow>
    rank_columns os ns \<and> m = (\<lambda>x. mappedNumber (mapped_position os ns x))"
  by (auto simp: createHorizontalRankMapper_def rank_columns_def)

lemma rank_columns_swap: "rank_columns os ns = rank_columns ns os"
  by (auto simp: rank_columns_def increasing_swap)

lemma rank_columns_less:
  assumes "rank_columns os ns" "i < j" "j < length os"
  shows "os ! i < os ! j \<and> ns ! i < ns ! j"
  using assms(2,3)
proof (induction j)
  case (Suc j)
  have s: "os ! j < os ! Suc j \<and> ns ! j < ns ! Suc j"
    using increasing_nth [of os ns j] assms(1) Suc.prems by (simp add: rank_columns_def)
  show ?case
  proof (cases "i = j")
    case False
    then show ?thesis using Suc s by fastforce
  qed (use s in simp)
qed simp

definition in_segment :: "real list \<Rightarrow> real \<Rightarrow> nat \<Rightarrow> bool" where
  "in_segment os x k \<longleftrightarrow> Suc k < length os \<and> (k = 0 \<or> os ! k < x) \<and> (Suc (Suc k) = length os \<or> x \<le> os ! Suc k)"

lemma find_segment_spec:
  "case find_segment os x i of
     Some k \<Rightarrow> i \<le> k \<and> Suc (k - i) < length os \<and> x \<le> os ! Suc (k - i) \<and> (\<forall>j < k - i. os ! Suc j < x)
   | None \<Rightarrow> \<forall>j. Suc j < length os \<longrightarrow> os ! Suc j < x"
proof (induction os x i rule: find_segment.induct)
  case (1 a b as x i)
  show ?case
  proof (cases "x \<le> b")
    case False
    show ?thesis
    proof (cases "find_segment (b # as) x (Suc i)")
      case None
      then show ?thesis using 1 False by (auto simp: nth_Cons split: nat.splits)
    next
      case (Some k)
      then have k: "Suc i \<le> k" "Suc (k - Suc i) < length (b # as)" "x \<le> (b # as) ! Suc (k - Suc i)"
        "\<forall>j < k - Suc i. (b # as) ! Suc j < x"
        using 1 False by simp_all
      then have "k - i = Suc (k - Suc i)" by simp
      then show ?thesis using k Some False by (auto simp: nth_Cons split: nat.splits)
    qed
  qed simp
qed auto

lemma rank_segment_spec:
  assumes "rank_columns os ns"
  shows "in_segment os x (rank_segment os x)"
proof (cases "x \<le> os ! 0")
  case True
  have "os ! 0 < os ! 1" "2 \<le> length os" using rank_columns_less [OF assms, of 0 1] assms by (auto simp: rank_columns_def)
  then show ?thesis using True by (simp add: rank_segment_def in_segment_def)
next
  case False
  have l: "2 \<le> length os" using assms by (simp add: rank_columns_def)
  show ?thesis
  proof (cases "find_segment os x 0")
    case None
    then have "\<forall>j. Suc j < length os \<longrightarrow> os ! Suc j < x" using find_segment_spec [of os x 0] by simp
    then have "os ! (length os - 2) < x"
      using False l by (cases "length os - 2") (auto simp: not_le)
    then show ?thesis using None False l by (auto simp: rank_segment_def in_segment_def)
  next
    case (Some k)
    then have k: "Suc k < length os" "x \<le> os ! Suc k" "\<forall>j < k. os ! Suc j < x" using find_segment_spec [of os x 0] by simp_all
    then have "k = 0 \<or> os ! k < x" by (cases k) auto
    then show ?thesis using Some False k by (simp add: rank_segment_def in_segment_def)
  qed
qed

lemma in_segment_unique:
  assumes "rank_columns os ns" "in_segment os x j" "in_segment os x k"
  shows "j = k"
proof (rule ccontr)
  assume "j \<noteq> k"
  then consider "j < k" | "k < j" by linarith
  then show False
  proof cases
    case 1
    have "x \<le> os ! Suc j" "os ! k < x" using assms(2,3) 1 by (auto simp: in_segment_def)
    moreover have "os ! Suc j \<le> os ! k"
      using rank_columns_less [OF assms(1), of "Suc j" k] assms(3) 1 by (cases "Suc j = k") (auto simp: in_segment_def)
    ultimately show False by simp
  next
    case 2
    have "x \<le> os ! Suc k" "os ! j < x" using assms(2,3) 2 by (auto simp: in_segment_def)
    moreover have "os ! Suc k \<le> os ! j"
      using rank_columns_less [OF assms(1), of "Suc k" j] assms(2) 2 by (cases "Suc k = j") (auto simp: in_segment_def)
    ultimately show False by simp
  qed
qed

section \<open>Positions\<close>

definition on_segment :: "real list \<Rightarrow> real list \<Rightarrow> nat \<Rightarrow> real \<Rightarrow> real" where
  "on_segment os ns k x = ns ! k + (x - os ! k) / (os ! Suc k - os ! k) * (ns ! Suc k - ns ! k)"

lemma mapped_on_segment: "rank_columns os ns \<Longrightarrow> in_segment os x k \<Longrightarrow> mapped_position os ns x = on_segment os ns k x"
  using in_segment_unique rank_segment_spec by (metis mapped_position_def on_segment_def)

lemma on_segment_ends:
  assumes "os ! k < os ! Suc k"
  shows "on_segment os ns k (os ! k) = ns ! k" "on_segment os ns k (os ! Suc k) = ns ! Suc k"
  using assms by (simp_all add: on_segment_def)

lemma on_segment_less:
  assumes "os ! k < os ! Suc k" "ns ! k < ns ! Suc k" "x < y"
  shows "on_segment os ns k x < on_segment os ns k y"
  using assms by (simp add: on_segment_def divide_strict_right_mono)

lemma segment_spans:
  assumes "rank_columns os ns" "in_segment os x k"
  shows "os ! k < os ! Suc k" "ns ! k < ns ! Suc k"
  using rank_columns_less [OF assms(1), of k "Suc k"] assms(2) by (auto simp: in_segment_def)

text \<open>A position goes to the same segment of the new columns, and comes back.\<close>

lemma on_segment_back:
  assumes "rank_columns os ns" "in_segment os x k"
  shows "in_segment ns (on_segment os ns k x) k" "on_segment ns os k (on_segment os ns k x) = x"
proof -
  note sp = segment_spans [OF assms]
  have len: "length os = length ns" using assms(1) by (simp add: rank_columns_def)
  have "k = 0 \<or> ns ! k < on_segment os ns k x"
    using assms(2) on_segment_less [OF sp, of "os ! k" x] on_segment_ends(1) [of os k ns] sp(1) by (auto simp: in_segment_def)
  moreover have "Suc (Suc k) = length os \<or> on_segment os ns k x \<le> ns ! Suc k"
    using assms(2) on_segment_less [OF sp, of x "os ! Suc k"] on_segment_ends(2) [of os k ns] sp(1)
    by (cases "x = os ! Suc k") (auto simp: in_segment_def)
  ultimately show "in_segment ns (on_segment os ns k x) k" using assms(2) len by (simp add: in_segment_def)
  show "on_segment ns os k (on_segment os ns k x) = x" using sp by (simp add: on_segment_def)
qed

lemma mapped_position_back:
  assumes "rank_columns os ns"
  shows "mapped_position ns os (mapped_position os ns x) = x"
proof -
  have k: "in_segment os x (rank_segment os x)" by (rule rank_segment_spec [OF assms])
  have r: "rank_columns ns os" using assms by (simp add: rank_columns_swap)
  show ?thesis
    using mapped_on_segment [OF assms k] mapped_on_segment [OF r on_segment_back(1) [OF assms k]] on_segment_back(2) [OF assms k] by simp
qed

lemma mapped_position_column:
  assumes "rank_columns os ns" "k < length os"
  shows "mapped_position os ns (os ! k) = ns ! k"
proof (cases k)
  case 0
  have "in_segment os (os ! 0) 0" using rank_columns_less [OF assms(1), of 0 1] assms by (auto simp: in_segment_def rank_columns_def)
  then show ?thesis using mapped_on_segment [OF assms(1)] on_segment_ends(1) segment_spans [OF assms(1)] 0 by metis
next
  case (Suc j)
  have "in_segment os (os ! Suc j) j" using rank_columns_less [OF assms(1), of j "Suc j"] assms(2) Suc by (auto simp: in_segment_def)
  then show ?thesis using mapped_on_segment [OF assms(1)] on_segment_ends(2) segment_spans [OF assms(1)] Suc by metis
qed

lemma mapped_position_less:
  assumes "rank_columns os ns" "x < y"
  shows "mapped_position os ns x < mapped_position os ns y"
proof -
  let ?i = "rank_segment os x" and ?j = "rank_segment os y"
  have i: "in_segment os x ?i" and j: "in_segment os y ?j" by (rule rank_segment_spec [OF assms(1)])+
  note fx = mapped_on_segment [OF assms(1) i] and fy = mapped_on_segment [OF assms(1) j]
  consider "?i = ?j" | "?i < ?j" | "?j < ?i" by linarith
  then show ?thesis
  proof cases
    case 1
    then show ?thesis using on_segment_less [OF segment_spans [OF assms(1) i] assms(2)] fx fy by simp
  next
    case 2
    then have xi: "x \<le> os ! Suc ?i" "os ! ?j < y" using i j by (auto simp: in_segment_def)
    have "mapped_position os ns x \<le> ns ! Suc ?i"
      using xi(1) on_segment_less [OF segment_spans [OF assms(1) i], of x "os ! Suc ?i"]
        on_segment_ends(2) [OF segment_spans(1) [OF assms(1) i], of ns] fx by (cases "x = os ! Suc ?i") auto
    also have "ns ! Suc ?i \<le> ns ! ?j"
      using rank_columns_less [OF assms(1), of "Suc ?i" ?j] j 2 by (cases "Suc ?i = ?j") (auto simp: in_segment_def)
    also have "ns ! ?j < mapped_position os ns y"
      using xi(2) on_segment_less [OF segment_spans [OF assms(1) j], of "os ! ?j" y]
        on_segment_ends(1) [OF segment_spans(1) [OF assms(1) j], of ns] fy by simp
    finally show ?thesis .
  next
    case 3
    then have "y \<le> os ! Suc ?j" "os ! ?i < x" using i j by (auto simp: in_segment_def)
    moreover have "os ! Suc ?j \<le> os ! ?i"
      using rank_columns_less [OF assms(1), of "Suc ?j" ?i] i 3 by (cases "Suc ?j = ?i") (auto simp: in_segment_def)
    ultimately show ?thesis using assms(2) by simp
  qed
qed

section \<open>Migrated documents\<close>

lemma get_copied [simp]: "get (delete_member v k) k = None"
  by (simp add: get_delete_member)

lemma mapExplicit_members:
  assumes "isPlainObject d" "mapExplicitCoordinates mapX d = (d', cs)"
  shows "isPlainObject d' \<and> (\<forall>k. k \<noteq> js ''edges'' \<longrightarrow> get d' k = get d k)"
  using assms by (auto simp: mapExplicitCoordinates_def Let_def get_set_member)

lemma with_viewBox_members:
  assumes "isPlainObject d"
  shows "isPlainObject (with_viewBox d w h) \<and> (\<forall>k. k \<noteq> js ''meta'' \<longrightarrow> get (with_viewBox d w h) k = get d k)"
  using assms by (auto simp: with_viewBox_def get_set_member split: option.splits)

lemma with_viewBox_quality:
  assumes "isPlainObject d" "viewBox_of d = Some v"
  shows "qualityProfile_of (with_viewBox d w h) = qualityProfile_of d \<and> viewBox_of (with_viewBox d w h) = Some (w, h)"
proof -
  obtain m where m: "get d (js ''meta'') = Some m" using assms(2) by (cases "get d (js ''meta'')") (auto simp: viewBox_of_def get_opt_def)
  have "get m (js ''viewBox'') \<noteq> None" using assms(2) m
    by (cases "get m (js ''viewBox'')") (simp_all add: viewBox_of_def get_opt_def del: js_simps)
  then have m: "get d (js ''meta'') = Some m" "isPlainObject m" using m by (cases m; simp)+
  have k: "js ''quality_profile'' \<noteq> js ''viewBox''" by simp
  show ?thesis using m assms(1) k
    by (simp add: qualityProfile_of_def viewBox_of_def with_viewBox_def get_opt_def get_set_member del: js_simps)
qed

lemma qualityProfile_cong: "get d (js ''meta'') = get d' (js ''meta'') \<Longrightarrow> qualityProfile_of d = qualityProfile_of d'"
  by (simp add: qualityProfile_of_def del: js_simps)

lemma viewBox_cong: "get d (js ''meta'') = get d' (js ''meta'') \<Longrightarrow> viewBox_of d = viewBox_of d'"
  by (simp add: viewBox_of_def del: js_simps)

text \<open>Every step keeps what the migration must not touch: the quality profile and, downwards, the view box.\<close>

definition grows :: "json \<Rightarrow> json \<Rightarrow> bool" where
  "grows d d' \<longleftrightarrow> isPlainObject d' \<and> qualityProfile_of d' = qualityProfile_of d \<and>
     (\<forall>w h. viewBox_of d = Some (w, h) \<longrightarrow> (\<exists>w' h'. viewBox_of d' = Some (w', h') \<and> w \<le> w' \<and> h \<le> h'))"

lemma expand_capacity_spec:
  assumes "isPlainObject d" "expand_capacity compileWorkflow d q = (d', c)"
  shows "c = compileWorkflow d' q \<and> grows d d' \<and> get d' (js ''schema_version'') = get d (js ''schema_version'')"
proof -
  have "d' = d \<and> c = compileWorkflow d q \<or>
    (\<exists>w h w' h'. viewBox_of d = Some (w, h) \<and> d' = with_viewBox d (max w w') (max h h') \<and> c = compileWorkflow d' q)"
    using assms(2) by (auto simp: expand_capacity_def Let_def split: option.splits list.splits prod.splits if_splits)
  then show ?thesis
  proof (elim disjE exE conjE)
    fix w h w' h' assume v: "viewBox_of d = Some (w, h)" and d': "d' = with_viewBox d (max w w') (max h h')"
      and c: "c = compileWorkflow d' q"
    have "js ''schema_version'' \<noteq> js ''meta''" by simp
    then show ?thesis
      using with_viewBox_quality [OF assms(1) v] with_viewBox_members [OF assms(1)] v d' c
      by (simp add: grows_def del: js_simps)
  qed (simp add: grows_def assms(1))
qed

lemma candidate_spec:
  assumes "isPlainObject d" "createMappedWorkflowCandidate d os ns = Inr (d', cs)"
  shows "get d' (js ''schema_version'') = Some (JNum 2) \<and> grows d d'"
proof -
  let ?v = "set_member d (js ''schema_version'') (JNum 2)"
  obtain m where "mapExplicitCoordinates m ?v = (d', cs)"
    using assms(2) by (auto simp: createMappedWorkflowCandidate_def bind_result_Inr)
  note e = mapExplicit_members [OF _ this]
  have n: "js ''schema_version'' \<noteq> js ''edges''" "js ''meta'' \<noteq> js ''edges''" "js ''meta'' \<noteq> js ''schema_version''" by simp_all
  have "get d' (js ''meta'') = get d (js ''meta'')" "get d' (js ''schema_version'') = Some (JNum 2)" "isPlainObject d'"
    using e n assms(1) by (simp_all add: get_set_member del: js_simps)
  then show ?thesis using qualityProfile_cong [of d' d] viewBox_cong [of d' d] by (simp add: grows_def del: js_simps)
qed

lemma grows_trans: "grows a b \<Longrightarrow> grows b c \<Longrightarrow> grows a c"
  unfolding grows_def by (metis order_trans)

lemma migrate_legacy_ok:
  assumes "isPlainObject d" "mr_ok (migrate_legacy compileWorkflow validateSchema d (qualityProfile_of d))"
  shows "\<exists>d'. mr_document (migrate_legacy compileWorkflow validateSchema d (qualityProfile_of d)) = Some d' \<and> validateSchema d' = [] \<and>
    cp_ok (compileWorkflow d' (qualityProfile_of d')) \<and> get d' (js ''schema_version'') = Some (JNum 2) \<and> grows d d'"
proof -
  let ?q = "qualityProfile_of d"
  define probe where "probe = legacyLayoutProbe compileWorkflow d ?q"
  define planned where "planned = plan_workflow compileWorkflow d ?q"
  obtain mapped cs where m: "createMappedWorkflowCandidate d (cp_columns probe) (cp_columns planned) = Inr (mapped, cs)"
    using assms(2) unfolding migrate_legacy_def probe_def [symmetric] planned_def [symmetric]
    by (auto simp: Let_def failed_result_def split: if_splits sum.splits prod.splits)
  obtain d' c where e: "expand_capacity compileWorkflow mapped ?q = (d', c)" by (metis prod.exhaust)
  have r: "cp_ok c" "validateSchema d' = []" "mr_document (migrate_legacy compileWorkflow validateSchema d ?q) = Some d'"
    using assms(2) m e unfolding migrate_legacy_def probe_def [symmetric] planned_def [symmetric]
    by (auto simp: Let_def failed_result_def split: if_splits)
  note cand = candidate_spec [OF assms(1) m]
  then have "isPlainObject mapped" by (simp add: grows_def)
  note ex = expand_capacity_spec [OF this e]
  have g: "grows d d'" using cand ex grows_trans by blast
  then have "qualityProfile_of d' = ?q" by (simp add: grows_def)
  then show ?thesis using r ex cand g by (simp del: js_simps)
qed

lemma migrate_legacy_failed:
  "\<not> mr_ok (migrate_legacy compileWorkflow validateSchema d q) \<Longrightarrow> mr_document (migrate_legacy compileWorkflow validateSchema d q) = None"
  by (auto simp: migrate_legacy_def Let_def failed_result_def split: sum.splits prod.splits)

lemma grows_refl: "isPlainObject d \<Longrightarrow> grows d d"
  by (simp add: grows_def)

lemma migrate_spec:
  assumes "mr_ok (migrateWorkflowDocument compileWorkflow validateSchema d)"
  shows "\<exists>d'. mr_document (migrateWorkflowDocument compileWorkflow validateSchema d) = Some d' \<and> validateSchema d' = [] \<and>
    cp_ok (compileWorkflow d' (qualityProfile_of d')) \<and> get d' (js ''schema_version'') = Some (JNum 2) \<and> grows d d'"
proof -
  have p: "isPlainObject d" "validateSchema d = []" using assms by (auto simp: migrateWorkflowDocument_def failed_result_def Let_def split: if_splits)
  show ?thesis
  proof (cases "get d (js ''schema_version'') = Some (JNum 2)")
    case True
    then show ?thesis using assms p grows_refl [OF p(1)]
      by (auto simp: migrateWorkflowDocument_def failed_result_def Let_def simp del: js_simps split: if_splits)
  next
    case False
    then have v: "get d (js ''schema_version'') = Some (JNum 1)" and
      e: "migrateWorkflowDocument compileWorkflow validateSchema d = migrate_legacy compileWorkflow validateSchema d (qualityProfile_of d)"
      using assms p by (auto simp: migrateWorkflowDocument_def failed_result_def Let_def simp del: js_simps split: if_splits)
    show ?thesis using migrate_legacy_ok [OF p(1)] assms unfolding e by blast
  qed
qed

lemma migrate_current:
  assumes "isPlainObject d" "validateSchema d = []" "cp_ok (compileWorkflow d (qualityProfile_of d))"
    "get d (js ''schema_version'') = Some (JNum 2)"
  shows "mr_ok (migrateWorkflowDocument compileWorkflow validateSchema d) \<and>
    mr_document (migrateWorkflowDocument compileWorkflow validateSchema d) = Some d"
  using assms by (simp add: migrateWorkflowDocument_def Let_def del: js_simps)

section \<open>The audit trail\<close>

definition audited :: "(real \<Rightarrow> real) \<Rightarrow> coordinate_change list \<Rightarrow> bool" where
  "audited mapX cs \<longleftrightarrow> (\<forall>c\<in>set cs. cc_to c = mapX (cc_from c) \<and> cc_to c \<noteq> cc_from c)"

lemma audited_simps [simp]: "audited mapX []" "audited mapX (cs @ ds) \<longleftrightarrow> audited mapX cs \<and> audited mapX ds"
  "audited mapX (concat css) \<longleftrightarrow> (\<forall>cs\<in>set css. audited mapX cs)"
  by (auto simp: audited_def)

lemma map_point_spec: "audited mapX (snd (map_point mapX path p)) \<and> (snd (map_point mapX path p) = [] \<longrightarrow> fst (map_point mapX path p) = p)"
  by (cases "(mapX, path, p)" rule: map_point.cases) (auto simp: audited_def coordinate_record_def)

lemma map_via_spec: "audited mapX (snd (map_via mapX path ps)) \<and> (snd (map_via mapX path ps) = [] \<longrightarrow> fst (map_via mapX path ps) = ps)"
proof
  show "audited mapX (snd (map_via mapX path ps))"
    using map_point_spec by (auto simp: map_via_def Let_def)
  have "(\<forall>e\<in>set (enumerate n ps). snd (map_point mapX (f (fst e)) (snd e)) = []) \<Longrightarrow>
      map (\<lambda>e. fst (map_point mapX (f (fst e)) (snd e))) (enumerate n ps) = ps" for n and f :: "nat \<Rightarrow> jstring"
    using map_point_spec by (induction ps arbitrary: n) auto
  from this [of 0 "\<lambda>i. path @ js ''/via/'' @ decimal i"]
  show "snd (map_via mapX path ps) = [] \<longrightarrow> fst (map_via mapX path ps) = ps"
    by (auto simp: map_via_def Let_def split_beta comp_def)
qed

definition pinned_members :: "jstring set" where
  "pinned_members = {js ''via'', js ''labelAt'', js ''channelX''}"

lemma map_edge_spec:
  assumes "isPlainObject e" "map_edge mapX path e = (e', cs)"
  shows "audited mapX cs \<and> (\<forall>k. k \<notin> pinned_members \<or> cs = [] \<longrightarrow> get e' k = get e k) \<and>
    (\<forall>v. get e (js ''channelX'') = Some (JNum v) \<longrightarrow> get e' (js ''channelX'') = Some (JNum (mapX v)))"
proof -
  define r1 where "r1 = (case get e (js ''via'') of Some (JArr points) \<Rightarrow>
      (set_member e (js ''via'') (JArr (fst (map_via mapX path points))), snd (map_via mapX path points)) | _ \<Rightarrow> (e, []))"
  define r2 where "r2 = (case get e (js ''labelAt'') of Some p \<Rightarrow>
      (set_member (fst r1) (js ''labelAt'') (fst (map_point mapX (path @ js ''/labelAt'') p)), snd (map_point mapX (path @ js ''/labelAt'') p))
    | None \<Rightarrow> (fst r1, []))"
  define r3 where "r3 = (case get e (js ''channelX'') of Some (JNum v) \<Rightarrow>
      (set_member (fst r2) (js ''channelX'') (JNum (mapX v)), coordinate_record (path @ js ''/channelX'') v (mapX v)) | _ \<Rightarrow> (fst r2, []))"
  have e': "e' = fst r3" "cs = snd r1 @ snd r2 @ snd r3"
  proof -
    have "map_edge mapX path e = (fst r3, snd r1 @ snd r2 @ snd r3)"
      unfolding map_edge_def r3_def r2_def r1_def Let_def split_beta ..
    then show "e' = fst r3" "cs = snd r1 @ snd r2 @ snd r3" using assms(2) by simp_all
  qed
  have n: "js ''via'' \<noteq> js ''labelAt''" "js ''via'' \<noteq> js ''channelX''" "js ''labelAt'' \<noteq> js ''channelX''" by simp_all
  have 1: "isPlainObject (fst r1) \<and> audited mapX (snd r1) \<and> (\<forall>k. k \<noteq> js ''via'' \<or> snd r1 = [] \<longrightarrow> get (fst r1) k = get e k)"
    using assms(1) map_via_spec unfolding r1_def by (auto simp: get_set_member simp del: js_simps split: option.splits json.splits)
  have 2: "isPlainObject (fst r2) \<and> audited mapX (snd r2) \<and>
      (\<forall>k. k \<noteq> js ''labelAt'' \<or> snd r2 = [] \<and> snd r1 = [] \<longrightarrow> get (fst r2) k = get (fst r1) k)"
    using 1 n map_point_spec unfolding r2_def by (auto simp: get_set_member simp del: js_simps split: option.splits)
  have 3: "audited mapX (snd r3) \<and> (\<forall>k. k \<noteq> js ''channelX'' \<or> snd r3 = [] \<longrightarrow> get (fst r3) k = get (fst r2) k) \<and>
      (\<forall>v. get e (js ''channelX'') = Some (JNum v) \<longrightarrow> get (fst r3) (js ''channelX'') = Some (JNum (mapX v)))"
  proof (cases "\<exists>v. get e (js ''channelX'') = Some (JNum v)")
    case True
    then obtain v where v: "get e (js ''channelX'') = Some (JNum v)" by blast
    then have "get (fst r2) (js ''channelX'') = Some (JNum v)" using 1 2 n by metis
    then show ?thesis using 2 v unfolding r3_def
      by (auto simp: get_set_member audited_def coordinate_record_def simp del: js_simps)
  next
    case False
    then show ?thesis unfolding r3_def by (auto simp del: js_simps split: option.splits json.splits)
  qed
  show ?thesis unfolding e' using 1 2 3 n by (auto simp: pinned_members_def simp del: js_simps)
qed

lemma mapExplicit_edges:
  assumes "isPlainObject d" "mapExplicitCoordinates mapX d = (d', cs)" "\<forall>e\<in>set (items_of (get d (js ''edges''))). isPlainObject e"
  shows "audited mapX cs \<and> length (items_of (get d' (js ''edges''))) = length (items_of (get d (js ''edges''))) \<and>
    (\<forall>i < length (items_of (get d (js ''edges''))). \<forall>k. k \<notin> pinned_members \<or> cs = [] \<longrightarrow>
       get (items_of (get d' (js ''edges'')) ! i) k = get (items_of (get d (js ''edges'')) ! i) k)"
proof -
  let ?es = "items_of (get d (js ''edges''))"
  let ?m = "\<lambda>i. map_edge mapX (js ''/edges/'' @ decimal i) (?es ! i)"
  have m: "map (\<lambda>(i, e). map_edge mapX (js ''/edges/'' @ decimal i) e) (enumerate 0 ?es) = map ?m [0..<length ?es]"
    by (intro nth_equalityI) (simp_all add: nth_enumerate_eq del: js_simps)
  have d': "items_of (get d' (js ''edges'')) = map (fst \<circ> ?m) [0..<length ?es]" "cs = concat (map (snd \<circ> ?m) [0..<length ?es])"
    using assms(2) unfolding mapExplicitCoordinates_def m Let_def by (auto simp: get_set_member [OF assms(1)] simp del: js_simps)
  have sp: "audited mapX (snd (?m i)) \<and> (\<forall>k. k \<notin> pinned_members \<or> snd (?m i) = [] \<longrightarrow> get (fst (?m i)) k = get (?es ! i) k)"
    if "i < length ?es" for i
    using map_edge_spec [of "?es ! i" mapX "js ''/edges/'' @ decimal i"] assms(3) that by (metis nth_mem prod.collapse)
  have "cs = [] \<Longrightarrow> i < length ?es \<Longrightarrow> snd (?m i) = []" for i unfolding d' by simp
  then show ?thesis using sp unfolding d' by (auto simp del: js_simps)
qed

section \<open>Properties\<close>

text \<open>
  The rank mapping is a readable re-placement: it sends every legacy column to the new column, keeps the
  left-to-right order of all positions, and differs from the exact piecewise-linear position by at most half
  a unit of the sixth decimal.
\<close>

theorem rank_mapper_preserves_order:
  assumes "createHorizontalRankMapper os ns = Inr m"
  shows "(k < length os \<longrightarrow> m (os ! k) = mappedNumber (ns ! k)) \<and>
    (x \<le> y \<longrightarrow> m x \<le> m y) \<and> \<bar>m x - mapped_position os ns x\<bar> \<le> 1 / (2 * 10 ^ 6)"
proof -
  have r: "rank_columns os ns" "m = (\<lambda>x. mappedNumber (mapped_position os ns x))" using assms by (simp_all add: mapper_Inr)
  have "m x \<le> m y" if "x \<le> y"
    using mapped_position_less [OF r(1), of x y] that mappedNumber_mono unfolding r(2) by (cases "x = y") auto
  then show ?thesis using mapped_position_column [OF r(1)] mappedNumber_close unfolding r(2) by auto
qed

theorem rank_mapper_witness: "\<exists>m. createHorizontalRankMapper [0, 100, 200] [0, 150, 400] = Inr m \<and> m 100 = 150"
proof -
  have "\<exists>m. createHorizontalRankMapper [0, 100, 200] [0, 150, 400] = Inr m" by (simp add: createHorizontalRankMapper_def)
  then obtain m where m: "createHorizontalRankMapper [0, 100, 200] [0, 150, 400] = Inr m" by blast
  have "mappedNumber 150 = 150" by (rule mappedNumber_exact [of _ "150 * 10 ^ 6"]) simp
  then have "m 100 = 150" using rank_mapper_preserves_order [OF m, of 1] by simp
  then show ?thesis using m by blast
qed

text \<open>
  No position is lost: mapping back with the columns exchanged recovers every position, so distinct
  authored coordinates stay distinct.
\<close>

theorem rank_mapping_roundtrip:
  assumes "createHorizontalRankMapper os ns = Inr m"
  shows "(\<exists>m'. createHorizontalRankMapper ns os = Inr m') \<and> mapped_position ns os (mapped_position os ns x) = x"
  using assms mapped_position_back by (auto simp: mapper_Inr rank_columns_swap [of os ns])

theorem rank_mapping_roundtrip_witness:
  "mapped_position [0, 150, 400] [0, 100, 200] (mapped_position [0, 100, 200] [0, 150, 400] 130) = 130"
proof -
  have "\<exists>m. createHorizontalRankMapper [0, 100, 200] [0, 150, 400] = Inr m" by (simp add: createHorizontalRankMapper_def)
  then show ?thesis using rank_mapping_roundtrip by blast
qed

text \<open>
  The coordinate audit is exact: every recorded change is a coordinate that the mapping moved, no member
  of an edge other than its pins is touched, and when nothing is recorded no edge has changed.
\<close>

theorem coordinate_audit_is_exact:
  assumes "isPlainObject d" "mapExplicitCoordinates mapX d = (d', cs)" "\<forall>e\<in>set (items_of (get d (js ''edges''))). isPlainObject e"
  shows "audited mapX cs \<and> length (items_of (get d' (js ''edges''))) = length (items_of (get d (js ''edges''))) \<and>
    (\<forall>i < length (items_of (get d (js ''edges''))). \<forall>k. k \<notin> pinned_members \<or> cs = [] \<longrightarrow>
       get (items_of (get d' (js ''edges'')) ! i) k = get (items_of (get d (js ''edges'')) ! i) k)"
  by (rule mapExplicit_edges [OF assms])

definition pinned_workflow :: json where
  "pinned_workflow = JObj [(js ''edges'', JArr [JObj [(js ''from'', JStr [97]), (js ''channelX'', JNum 10)]])]"

theorem coordinate_audit_witness:
  "audited (\<lambda>x. 2 * x) (snd (mapExplicitCoordinates (\<lambda>x. 2 * x) pinned_workflow)) \<and>
   length (snd (mapExplicitCoordinates (\<lambda>x. 2 * x) pinned_workflow)) = 1"
proof -
  have "isPlainObject pinned_workflow" "\<forall>e\<in>set (items_of (get pinned_workflow (js ''edges''))). isPlainObject e"
    by (simp_all add: pinned_workflow_def)
  then have "audited (\<lambda>x. 2 * x) (snd (mapExplicitCoordinates (\<lambda>x. 2 * x) pinned_workflow))"
    using coordinate_audit_is_exact [of pinned_workflow "\<lambda>x. 2 * x"] by (metis prod.collapse)
  moreover have "length (snd (mapExplicitCoordinates (\<lambda>x. 2 * x) pinned_workflow)) = 1"
    by (simp add: mapExplicitCoordinates_def pinned_workflow_def map_edge_def coordinate_record_def)
  ultimately show ?thesis by blast
qed

text \<open>
  C27: A migration that succeeds returns a schema-2 document that passes the schema and compiles under its own
  authored quality profile, the one of the source, and whose view box has not shrunk; a migration that
  fails returns no document.
\<close>

theorem migrated_document_is_valid:
  "if mr_ok (migrateWorkflowDocument compileWorkflow validateSchema d)
    then \<exists>d'. mr_document (migrateWorkflowDocument compileWorkflow validateSchema d) = Some d' \<and> validateSchema d' = [] \<and> cp_ok (compileWorkflow d' (qualityProfile_of d')) \<and>
      get d' (js ''schema_version'') = Some (JNum 2) \<and> grows d d'
    else mr_document (migrateWorkflowDocument compileWorkflow validateSchema d) = None"
proof (cases "mr_ok (migrateWorkflowDocument compileWorkflow validateSchema d)")
  case True
  then show ?thesis using migrate_spec by simp
next
  case False
  then have "mr_document (migrateWorkflowDocument compileWorkflow validateSchema d) = None"
    using migrate_legacy_failed unfolding migrateWorkflowDocument_def Let_def by (auto simp: failed_result_def)
  then show ?thesis using False by simp
qed

text \<open>
  C28: Migrating a migrated document changes nothing: the second migration succeeds and returns the same
  document.
\<close>

theorem migration_is_idempotent:
  assumes "mr_ok (migrateWorkflowDocument compileWorkflow validateSchema d)"
    and "mr_document (migrateWorkflowDocument compileWorkflow validateSchema d) = Some d'"
  shows "mr_ok (migrateWorkflowDocument compileWorkflow validateSchema d') \<and>
    mr_document (migrateWorkflowDocument compileWorkflow validateSchema d') = Some d'"
  using migrate_spec [OF assms(1)] assms(2) migrate_current unfolding grows_def by auto

definition accepting_compiler :: compiler where
  "accepting_compiler d q = \<lparr>cp_ok = True, cp_diagnostics = [],
     cp_columns = (if get d (js ''schema_version'') = Some (JNum 2) then [0, 150] else [0, 100]), cp_requiredViewBox = None\<rparr>"

definition legacy_workflow :: json where
  "legacy_workflow = JObj [(js ''schema_version'', JNum 1), (js ''meta'', JObj [(js ''title'', JStr [97])]),
     (js ''edges'', JArr [JObj [(js ''channelX'', JNum 50)]])]"

lemma legacy_workflow_migrates: "mr_ok (migrateWorkflowDocument accepting_compiler (\<lambda>_. []) legacy_workflow)"
  by (simp add: migrateWorkflowDocument_def migrate_legacy_def Let_def legacyLayoutProbe_def accepting_compiler_def plan_workflow_def
      legacy_workflow_def legacy_probe_def copied_member_def intrinsicWorkflow_def set_member_def createMappedWorkflowCandidate_def
      createHorizontalRankMapper_def mapExplicitCoordinates_def map_edge_def expand_capacity_def viewBox_of_def get_opt_def
      failed_result_def delete_member_def split: prod.splits option.splits)

theorem migration_witness:
  "\<exists>d'. mr_document (migrateWorkflowDocument accepting_compiler (\<lambda>_. []) legacy_workflow) = Some d' \<and>
     mr_document (migrateWorkflowDocument accepting_compiler (\<lambda>_. []) d') = Some d'"
  using migrate_spec [OF legacy_workflow_migrates] migration_is_idempotent [OF legacy_workflow_migrates] by blast

end
