(* ===== verification/Engineering_Profile.thy ===== *)
theory Engineering_Profile
  imports Json
begin

text \<open>
  The deployment ownership profile of architecture documents
  (\<open>renderers/shared/engineering-profiles.mjs\<close>): its diagnostics with their subject and evidence, and what a
  document without diagnostics promises.

  \<^item> The documents have passed the schema: collections are arrays or absent, ids, kinds and labels are strings.
  \<^item> The severity is always \<open>error\<close>; the wording of messages and fixes is not modelled.
\<close>

section \<open>Boundaries\<close>

definition DEPLOYMENT_PROFILE :: jstring where
  "DEPLOYMENT_PROFILE = js ''deployment-ownership''"

definition REGION :: jstring where "REGION = js ''region''"
definition SECURITY_GROUP :: jstring where "SECURITY_GROUP = js ''security-group''"

definition DEPLOYMENT_BOUNDARY_KINDS :: "jstring list" where
  "DEPLOYMENT_BOUNDARY_KINDS = [REGION, SECURITY_GROUP]"

definition PRIVATE_STATE_TYPES :: "jstring list" where
  "PRIVATE_STATE_TYPES = [js ''database'']"

record profile_diagnostic =
  pd_code :: jstring
  pd_subject :: json
  pd_evidence :: json

definition profile_subject :: "jstring \<Rightarrow> int \<Rightarrow> json option \<Rightarrow> json" where
  "profile_subject collection index item =
     JObj ([(js ''diagramType'', JStr (js ''architecture'')), (js ''profile'', JStr DEPLOYMENT_PROFILE),
            (js ''collection'', JStr collection), (js ''index'', JNum (of_int index))] @
       (case get_opt item (js ''id'') of None \<Rightarrow> [] | Some i \<Rightarrow> if truthy_value i then [(js ''id'', i)] else []))"

definition wraps_of :: "json \<Rightarrow> json list" where
  "wraps_of boundary = items_of (get boundary (js ''wraps''))"

definition wraps_includes :: "json \<Rightarrow> json option \<Rightarrow> bool" where
  "wraps_includes boundary v = (case v of None \<Rightarrow> False | Some i \<Rightarrow> i \<in> set (wraps_of boundary))"

definition has_kind :: "json \<Rightarrow> jstring \<Rightarrow> bool" where
  "has_kind boundary kind \<longleftrightarrow> get boundary (js ''kind'') = Some (JStr kind)"

definition membership :: "json list \<Rightarrow> json option \<Rightarrow> jstring \<Rightarrow> (nat \<times> json) list" where
  "membership boundaries componentId kind =
     filter (\<lambda>(index, boundary). has_kind boundary kind \<and> wraps_includes boundary componentId) (enumerate 0 boundaries)"

text \<open>\<open>typeof value !== 'string' || value.trim() === ''\<close>.\<close>

definition blank :: "json option \<Rightarrow> bool" where
  "blank v = (case v of Some (JStr s) \<Rightarrow> js_trim s = [] | _ \<Rightarrow> True)"

definition region_entries :: "(nat \<times> json) list \<Rightarrow> json" where
  "region_entries regions =
     JArr (map (\<lambda>(i, b). JObj ((js ''boundaryIndex'', JNum (real i)) # optional_member (js ''label'') (get b (js ''label'')))) regions)"

section \<open>The diagnostics\<close>

definition kind_diagnostics :: "json list \<Rightarrow> jstring \<Rightarrow> profile_diagnostic list" where
  "kind_diagnostics boundaries kind =
     (let count = length (filter (\<lambda>b. has_kind b kind) boundaries)
      in if 0 < count then []
         else [\<lparr>pd_code = js ''engineering/deployment-boundary-kind'', pd_subject = profile_subject (js ''boundaries'') (- 1) None,
                pd_evidence = JObj [(js ''requiredKind'', JStr kind), (js ''found'', JNum (real count))]\<rparr>])"

definition component_diagnostic :: "jstring \<Rightarrow> nat \<Rightarrow> json \<Rightarrow> (jstring \<times> json) list \<Rightarrow> profile_diagnostic" where
  "component_diagnostic code index component evidence =
     \<lparr>pd_code = code, pd_subject = profile_subject (js ''components'') (int index) (Some component),
      pd_evidence = JObj (optional_member (js ''componentType'') (get component (js ''type'')) @ evidence)\<rparr>"

definition owner_diagnostics :: "nat \<Rightarrow> json \<Rightarrow> profile_diagnostic list" where
  "owner_diagnostics index component =
     (if blank (get component (js ''tag''))
      then [component_diagnostic (js ''engineering/deployment-owner-missing'') index component [(js ''ownerField'', JStr (js ''tag''))]]
      else [])"

definition region_diagnostics :: "json list \<Rightarrow> nat \<Rightarrow> json \<Rightarrow> profile_diagnostic list" where
  "region_diagnostics boundaries index component =
     (let regions = membership boundaries (get component (js ''id'')) REGION
      in if length regions = 0
         then [component_diagnostic (js ''engineering/deployment-region-scope'') index component [(js ''regionMemberships'', JNum 0)]]
         else if 1 < length regions
         then [component_diagnostic (js ''engineering/deployment-region-ambiguous'') index component [(js ''regions'', region_entries regions)]]
         else [])"

definition private_diagnostics :: "json list \<Rightarrow> nat \<Rightarrow> json \<Rightarrow> profile_diagnostic list" where
  "private_diagnostics boundaries index component =
     (if (\<exists>t\<in>set PRIVATE_STATE_TYPES. get component (js ''type'') = Some (JStr t)) \<and>
         membership boundaries (get component (js ''id'')) SECURITY_GROUP = []
      then [component_diagnostic (js ''engineering/deployment-private-state'') index component [(js ''privateMemberships'', JNum 0)]]
      else [])"

definition component_diagnostics :: "json list \<Rightarrow> nat \<times> json \<Rightarrow> profile_diagnostic list" where
  "component_diagnostics boundaries = (\<lambda>(index, component).
     if get component (js ''type'') = Some (JStr (js ''external'')) then []
     else owner_diagnostics index component @ region_diagnostics boundaries index component @
       private_diagnostics boundaries index component)"

text \<open>Whether the members of a private boundary have one region each, and all the same one.\<close>

definition consistent_members :: "(json \<times> (nat \<times> json) list) list \<Rightarrow> bool" where
  "consistent_members members \<longleftrightarrow>
     0 < length members \<and> (\<forall>m\<in>set members. length (snd m) = 1) \<and>
     length (remdups (concat (map (\<lambda>m. map fst (snd m)) members))) = 1"

definition private_boundary_diagnostics :: "json list \<Rightarrow> nat \<times> json \<Rightarrow> profile_diagnostic list" where
  "private_boundary_diagnostics boundaries = (\<lambda>(index, boundary).
     if \<not> has_kind boundary SECURITY_GROUP then []
     else
       let members = map (\<lambda>i. (i, membership boundaries (Some i) REGION)) (wraps_of boundary)
       in if consistent_members members then []
          else [\<lparr>pd_code = js ''engineering/deployment-private-region-consistency'',
                 pd_subject = profile_subject (js ''boundaries'') (int index) (Some boundary),
                 pd_evidence = JObj (optional_member (js ''boundaryKind'') (get boundary (js ''kind'')) @
                   [(js ''members'', JArr (map (\<lambda>(i, rs). JObj [(js ''id'', i), (js ''regions'', region_entries rs)]) members))])\<rparr>])"

definition crossed_boundaries :: "json list \<Rightarrow> json \<Rightarrow> (nat \<times> json) list" where
  "crossed_boundaries boundaries connection =
     filter (\<lambda>(index, boundary).
         (\<exists>kind\<in>set DEPLOYMENT_BOUNDARY_KINDS. has_kind boundary kind) \<and>
         wraps_includes boundary (get connection (js ''from'')) \<noteq> wraps_includes boundary (get connection (js ''to'')))
       (enumerate 0 boundaries)"

definition crossed_entries :: "(nat \<times> json) list \<Rightarrow> json" where
  "crossed_entries crossed =
     JArr (map (\<lambda>(i, b). JObj ((js ''boundaryIndex'', JNum (real i)) # optional_member (js ''kind'') (get b (js ''kind'')) @
        optional_member (js ''label'') (get b (js ''label'')))) crossed)"

definition connection_diagnostics :: "json list \<Rightarrow> nat \<times> json \<Rightarrow> profile_diagnostic list" where
  "connection_diagnostics boundaries = (\<lambda>(index, connection).
     let crossed = crossed_boundaries boundaries connection
     in if length crossed = 0 \<or> \<not> blank (get connection (js ''label'')) then []
        else [\<lparr>pd_code = js ''engineering/deployment-crossing-mechanism'',
               pd_subject = profile_subject (js ''connections'') (int index) (Some connection),
               pd_evidence = JObj (optional_member (js ''from'') (get connection (js ''from'')) @
                 optional_member (js ''to'') (get connection (js ''to'')) @ [(js ''crossedBoundaries'', crossed_entries crossed)])\<rparr>])"

definition deploymentOwnershipDiagnostics :: "json \<Rightarrow> profile_diagnostic list" where
  "deploymentOwnershipDiagnostics diagram =
     (let components = items_of (get diagram (js ''components''));
          boundaries = items_of (get diagram (js ''boundaries''));
          connections = items_of (get diagram (js ''connections''))
      in concat (map (kind_diagnostics boundaries) DEPLOYMENT_BOUNDARY_KINDS) @
         concat (map (component_diagnostics boundaries) (enumerate 0 components)) @
         concat (map (private_boundary_diagnostics boundaries) (enumerate 0 boundaries)) @
         concat (map (connection_diagnostics boundaries) (enumerate 0 connections)))"

definition validateEngineeringProfile :: "jstring \<Rightarrow> json \<Rightarrow> profile_diagnostic list + unit" where
  "validateEngineeringProfile diagramType diagram =
     (case get_opt (get diagram (js ''meta'')) (js ''engineering_profile'') of
        None \<Rightarrow> Inr ()
      | Some profile \<Rightarrow>
          if \<not> truthy_value profile then Inr ()
          else if diagramType \<noteq> js ''architecture'' \<or> profile \<noteq> JStr DEPLOYMENT_PROFILE then Inr ()
          else
            let diagnostics = deploymentOwnershipDiagnostics diagram
            in if diagnostics = [] then Inr () else Inl diagnostics)"

section \<open>Ownership\<close>

text \<open>What the profile promises, over the boundaries by their position.\<close>

definition regions_of :: "json list \<Rightarrow> json option \<Rightarrow> nat set" where
  "regions_of bs v = {r. r < length bs \<and> has_kind (bs ! r) REGION \<and> wraps_includes (bs ! r) v}"

definition owned_component :: "json list \<Rightarrow> json \<Rightarrow> bool" where
  "owned_component bs c \<longleftrightarrow>
     get c (js ''type'') = Some (JStr (js ''external'')) \<or>
     \<not> blank (get c (js ''tag'')) \<and> (\<exists>r. regions_of bs (get c (js ''id'')) = {r}) \<and>
     (get c (js ''type'') = Some (JStr (js ''database'')) \<longrightarrow>
        (\<exists>b\<in>set bs. has_kind b SECURITY_GROUP \<and> wraps_includes b (get c (js ''id''))))"

definition placed_private_boundary :: "json list \<Rightarrow> json \<Rightarrow> bool" where
  "placed_private_boundary bs b \<longleftrightarrow>
     (has_kind b SECURITY_GROUP \<longrightarrow> wraps_of b \<noteq> [] \<and> (\<exists>r. \<forall>i\<in>set (wraps_of b). regions_of bs (Some i) = {r}))"

definition crosses :: "json \<Rightarrow> json \<Rightarrow> bool" where
  "crosses c b \<longleftrightarrow> (has_kind b REGION \<or> has_kind b SECURITY_GROUP) \<and>
     wraps_includes b (get c (js ''from'')) \<noteq> wraps_includes b (get c (js ''to''))"

definition deployment_owned :: "json \<Rightarrow> bool" where
  "deployment_owned d \<longleftrightarrow>
     (let bs = items_of (get d (js ''boundaries''))
      in (\<exists>b\<in>set bs. has_kind b REGION) \<and> (\<exists>b\<in>set bs. has_kind b SECURITY_GROUP) \<and>
         (\<forall>c\<in>set (items_of (get d (js ''components''))). owned_component bs c) \<and>
         (\<forall>b\<in>set bs. placed_private_boundary bs b) \<and>
         (\<forall>c\<in>set (items_of (get d (js ''connections''))). (\<exists>b\<in>set bs. crosses c b) \<longrightarrow> \<not> blank (get c (js ''label''))))"

lemma set_membership: "fst ` set (membership bs v REGION) = regions_of bs v"
  unfolding membership_def regions_of_def by (force simp: set_enumerate_iff)

lemma distinct_membership: "distinct (map fst (membership bs v k))"
proof -
  have "distinct (map fst (enumerate 0 bs))" by simp
  then show ?thesis unfolding membership_def by (rule distinct_map_filter)
qed

lemma length_membership: "length (membership bs v REGION) = card (regions_of bs v)"
  using distinct_card [OF distinct_membership, of bs v REGION] by (simp add: set_membership)

lemma ball_enumerate_snd: "(\<forall>e\<in>set (enumerate 0 vs). P (snd e)) \<longleftrightarrow> (\<forall>v\<in>set vs. P v)"
  unfolding ball_enumerate snd_conv by (simp add: all_set_conv_all_nth)

lemma filter_enumerate_Nil: "filter (\<lambda>(i, v). P v) (enumerate 0 vs) = [] \<longleftrightarrow> \<not> (\<exists>v\<in>set vs. P v)"
  using ball_enumerate_snd [of vs "\<lambda>v. \<not> P v"] unfolding filter_empty_conv split_beta by simp

lemma membership_Nil: "membership bs v k = [] \<longleftrightarrow> \<not> (\<exists>b\<in>set bs. has_kind b k \<and> wraps_includes b v)"
  unfolding membership_def by (rule filter_enumerate_Nil)

lemma kind_diagnostics_Nil: "kind_diagnostics bs k = [] \<longleftrightarrow> (\<exists>b\<in>set bs. has_kind b k)"
  by (auto simp: kind_diagnostics_def Let_def filter_empty_conv)

lemma region_diagnostics_Nil: "region_diagnostics bs i c = [] \<longleftrightarrow> (\<exists>r. regions_of bs (get c (js ''id'')) = {r})"
proof -
  have "region_diagnostics bs i c = [] \<longleftrightarrow> card (regions_of bs (get c (js ''id''))) = 1"
    unfolding region_diagnostics_def Let_def length_membership by auto
  then show ?thesis by (simp only: card_1_singleton_iff One_nat_def)
qed

lemma component_diagnostics_Nil: "component_diagnostics bs (i, c) = [] \<longleftrightarrow> owned_component bs c"
  using region_diagnostics_Nil [of bs i c]
  by (auto simp: component_diagnostics_def owned_component_def owner_diagnostics_def private_diagnostics_def
      PRIVATE_STATE_TYPES_def membership_Nil simp del: js_simps)

lemma consistent_iff:
  "consistent_members (map (\<lambda>i. (i, membership bs (Some i) REGION)) is) \<longleftrightarrow>
     is \<noteq> [] \<and> (\<exists>r. \<forall>i\<in>set is. regions_of bs (Some i) = {r})"
proof -
  let ?ms = "map (\<lambda>i. (i, membership bs (Some i) REGION)) is"
  have s: "set (concat (map (\<lambda>m. map fst (snd m)) ?ms)) = (\<Union>i\<in>set is. regions_of bs (Some i))"
    by (simp add: set_membership)
  have l: "length (remdups (concat (map (\<lambda>m. map fst (snd m)) ?ms))) = card (\<Union>i\<in>set is. regions_of bs (Some i))"
    using length_remdups_card_conv s by metis
  have "consistent_members ?ms \<longleftrightarrow> is \<noteq> [] \<and> (\<forall>i\<in>set is. card (regions_of bs (Some i)) = 1) \<and>
      card (\<Union>i\<in>set is. regions_of bs (Some i)) = 1"
    unfolding consistent_members_def l by (simp add: length_membership)
  also have "\<dots> \<longleftrightarrow> is \<noteq> [] \<and> (\<exists>r. \<forall>i\<in>set is. regions_of bs (Some i) = {r})"
  proof
    assume a: "is \<noteq> [] \<and> (\<forall>i\<in>set is. card (regions_of bs (Some i)) = 1) \<and> card (\<Union>i\<in>set is. regions_of bs (Some i)) = 1"
    then obtain r where r: "(\<Union>i\<in>set is. regions_of bs (Some i)) = {r}" by (auto simp: card_1_singleton_iff)
    have "regions_of bs (Some i) = {r}" if "i \<in> set is" for i
    proof -
      have "regions_of bs (Some i) \<subseteq> {r}" "regions_of bs (Some i) \<noteq> {}" using r a that by (blast, fastforce)
      then show ?thesis by blast
    qed
    then show "is \<noteq> [] \<and> (\<exists>r. \<forall>i\<in>set is. regions_of bs (Some i) = {r})" using a by blast
  next
    assume a: "is \<noteq> [] \<and> (\<exists>r. \<forall>i\<in>set is. regions_of bs (Some i) = {r})"
    then obtain r where r: "\<forall>i\<in>set is. regions_of bs (Some i) = {r}" by blast
    have "(\<Union>i\<in>set is. regions_of bs (Some i)) = {r}" using a r by auto
    then show "is \<noteq> [] \<and> (\<forall>i\<in>set is. card (regions_of bs (Some i)) = 1) \<and> card (\<Union>i\<in>set is. regions_of bs (Some i)) = 1"
      using a r by simp
  qed
  finally show ?thesis .
qed

lemma private_boundary_Nil: "private_boundary_diagnostics bs (i, b) = [] \<longleftrightarrow> placed_private_boundary bs b"
  unfolding private_boundary_diagnostics_def placed_private_boundary_def by (simp add: Let_def consistent_iff)

lemma connection_diagnostics_Nil:
  "connection_diagnostics bs (i, c) = [] \<longleftrightarrow> ((\<exists>b\<in>set bs. crosses c b) \<longrightarrow> \<not> blank (get c (js ''label'')))"
proof -
  have "crossed_boundaries bs c = [] \<longleftrightarrow> \<not> (\<exists>b\<in>set bs. crosses c b)"
    unfolding crossed_boundaries_def filter_enumerate_Nil by (auto simp: crosses_def DEPLOYMENT_BOUNDARY_KINDS_def simp del: js_simps)
  then show ?thesis by (auto simp: connection_diagnostics_def Let_def simp del: js_simps)
qed

lemma ball_enumerate_Nil:
  assumes "\<And>i v. f (i, v) = [] \<longleftrightarrow> P v"
  shows "(\<forall>e\<in>set (enumerate 0 vs). f e = []) \<longleftrightarrow> (\<forall>v\<in>set vs. P v)"
  unfolding ball_enumerate assms by (simp add: all_set_conv_all_nth)

lemma diagnostics_Nil: "deploymentOwnershipDiagnostics d = [] \<longleftrightarrow> deployment_owned d"
proof -
  let ?bs = "items_of (get d (js ''boundaries''))"
  note c = ball_enumerate_Nil [of "component_diagnostics ?bs" "owned_component ?bs", OF component_diagnostics_Nil]
  note b = ball_enumerate_Nil [of "private_boundary_diagnostics ?bs" "placed_private_boundary ?bs", OF private_boundary_Nil]
  note r = ball_enumerate_Nil [of "connection_diagnostics ?bs"
      "\<lambda>c. (\<exists>b\<in>set ?bs. crosses c b) \<longrightarrow> \<not> blank (get c (js ''label''))", OF connection_diagnostics_Nil]
  show ?thesis
    unfolding deploymentOwnershipDiagnostics_def deployment_owned_def Let_def append_is_Nil_conv concat_map_Nil_iff c b r
    by (simp add: kind_diagnostics_Nil DEPLOYMENT_BOUNDARY_KINDS_def)
qed

section \<open>Property\<close>

text \<open>
  C30: A deployment document has no diagnostics exactly when it is owned: it has a region and a private
  boundary, every component that is not external names its owner and lies in exactly one region, every
  database lies in a private boundary, the members of a private boundary lie in one common region, and every
  connection that enters or leaves such a boundary names its mechanism. Other documents are not held to it.
\<close>

theorem deployment_profile_accepts_iff_owned:
  "(deploymentOwnershipDiagnostics d = [] \<longleftrightarrow> deployment_owned d) \<and>
   validateEngineeringProfile t d =
     (if t = js ''architecture'' \<and> get_opt (get d (js ''meta'')) (js ''engineering_profile'') = Some (JStr DEPLOYMENT_PROFILE) \<and>
         \<not> deployment_owned d
      then Inl (deploymentOwnershipDiagnostics d) else Inr ())"
  using diagnostics_Nil [of d] by (auto simp: validateEngineeringProfile_def Let_def DEPLOYMENT_PROFILE_def split: option.splits)

end
