(* ===== verification/Compare_Commit.thy ===== *)
theory Compare_Commit
  imports Json
begin

text \<open>
  The commit of a comparison (\<open>bin/archify.mjs\<close>, \<open>commitComparePair\<close>): the HTML artifact and its receipt replace
  their previous versions together, through backups in the staging directory, and a failure rolls back.

  \<^item> The disk is a map from resolved paths to entries together with the answers of the coming calls: each
    call that changes the directory consumes one answer, and fails when the answer is true or when a regular
    file system would refuse it. \<open>existsSync\<close> and \<open>lstatSync\<close> read the disk and do not fail; the former follows links.
  \<^item> An error keeps its code and the data of its details; causes and wording are not modelled.
\<close>

section \<open>The file system\<close>

text \<open>\<open>Link live\<close> is a symbolic link, with whether it leads anywhere; \<open>Special\<close> is any other kind of entry.\<close>

datatype entry = File "nat list" | Directory | Link bool | Special

type_synonym files = "jstring \<Rightarrow> entry option"

text \<open>The remaining answers of the system: whether the next call that changes the directory fails.\<close>

record disk =
  dk_files :: files
  dk_faults :: "bool list"

definition existsSync :: "files \<Rightarrow> jstring \<Rightarrow> bool" where
  "existsSync fs p = (case fs p of None \<Rightarrow> False | Some (Link live) \<Rightarrow> live | Some _ \<Rightarrow> True)"

definition take_fault :: "disk \<Rightarrow> bool \<times> disk" where
  "take_fault d = (case dk_faults d of [] \<Rightarrow> (False, d) | f # rest \<Rightarrow> (f, d\<lparr>dk_faults := rest\<rparr>))"

definition renameSync :: "jstring \<Rightarrow> jstring \<Rightarrow> disk \<Rightarrow> bool \<times> disk" where
  "renameSync src dst d =
     (case take_fault d of (fault, d') \<Rightarrow>
        let fs = dk_files d'
        in if fault \<or> fs src = None \<or> fs dst = Some Directory \<or> fs src = Some Directory \<and> fs dst \<noteq> None then (False, d')
           else (True, d'\<lparr>dk_files := (fs(src := None))(dst := fs src)\<rparr>))"

text \<open>\<open>rmSync(path, { force: true })\<close>: a missing path is no error.\<close>

definition rmSync :: "jstring \<Rightarrow> disk \<Rightarrow> bool \<times> disk" where
  "rmSync p d =
     (case take_fault d of (fault, d') \<Rightarrow>
        if fault \<or> dk_files d' p = Some Directory then (False, d')
        else (True, d'\<lparr>dk_files := (dk_files d')(p := None)\<rparr>))"

section \<open>The commit\<close>

record commit_item =
  ci_label :: jstring
  ci_target :: jstring
  ci_candidate :: jstring
  ci_backup :: jstring

datatype rollback_error = Remove_failed jstring | Restore_failed jstring

datatype commit_error =
    Commit_target jstring bool
  | Commit_failed
  | Commit_rollback_failed "rollback_error list"

definition commit_items :: "jstring \<Rightarrow> jstring \<Rightarrow> jstring \<Rightarrow> jstring \<Rightarrow> jstring \<Rightarrow> commit_item list" where
  "commit_items htmlCandidate receiptCandidate outputPath receiptPath stagingDirectory =
     [\<lparr>ci_label = js ''HTML artifact'', ci_target = outputPath, ci_candidate = htmlCandidate,
        ci_backup = stagingDirectory @ js ''/.previous-output''\<rparr>,
      \<lparr>ci_label = js ''receipt'', ci_target = receiptPath, ci_candidate = receiptCandidate,
        ci_backup = stagingDirectory @ js ''/.previous-receipt''\<rparr>]"

text \<open>The first existing target that is not a regular file, and whether it is a directory.\<close>

definition target_problem :: "files \<Rightarrow> commit_item \<Rightarrow> commit_error option" where
  "target_problem fs item =
     (if \<not> existsSync fs (ci_target item) then None
      else case fs (ci_target item) of
        Some (File _) \<Rightarrow> None
      | e \<Rightarrow> Some (Commit_target (ci_label item) (e = Some Directory)))"

definition preflight :: "files \<Rightarrow> commit_item list \<Rightarrow> commit_error option" where
  "preflight fs items = first_some (target_problem fs) items"

text \<open>The two loops of the \<open>try\<close> block: whether the loop ended, the items it handled, and the disk.\<close>

fun move_aside :: "commit_item list \<Rightarrow> disk \<Rightarrow> bool \<times> commit_item list \<times> disk" where
  "move_aside [] d = (True, [], d)"
| "move_aside (item # items) d =
     (if \<not> existsSync (dk_files d) (ci_target item) then move_aside items d
      else case renameSync (ci_target item) (ci_backup item) d of
        (False, d') \<Rightarrow> (False, [], d')
      | (True, d') \<Rightarrow> (case move_aside items d' of (ok, handled, d'') \<Rightarrow> (ok, item # handled, d'')))"

fun move_in :: "commit_item list \<Rightarrow> disk \<Rightarrow> bool \<times> commit_item list \<times> disk" where
  "move_in [] d = (True, [], d)"
| "move_in (item # items) d =
     (case renameSync (ci_candidate item) (ci_target item) d of
        (False, d') \<Rightarrow> (False, [], d')
      | (True, d') \<Rightarrow> (case move_in items d' of (ok, handled, d'') \<Rightarrow> (ok, item # handled, d'')))"

definition remove_committed :: "rollback_error list \<times> disk \<Rightarrow> commit_item \<Rightarrow> rollback_error list \<times> disk" where
  "remove_committed = (\<lambda>(errors, d) item. case rmSync (ci_target item) d of
     (ok, d') \<Rightarrow> (if ok then errors else errors @ [Remove_failed (ci_label item)], d'))"

definition restore_backup :: "rollback_error list \<times> disk \<Rightarrow> commit_item \<Rightarrow> rollback_error list \<times> disk" where
  "restore_backup = (\<lambda>(errors, d) item.
     case (if existsSync (dk_files d) (ci_target item) then rmSync (ci_target item) d else (True, d)) of
       (removed, d1) \<Rightarrow>
         (case (if removed then renameSync (ci_backup item) (ci_target item) d1 else (False, d1)) of
            (ok, d2) \<Rightarrow> (if ok then errors else errors @ [Restore_failed (ci_label item)], d2)))"

definition rollback :: "commit_item list \<Rightarrow> commit_item list \<Rightarrow> disk \<Rightarrow> commit_error \<times> disk" where
  "rollback backedUp committed d =
     (case foldl restore_backup (foldl remove_committed ([], d) (rev committed)) (rev backedUp) of
        (errors, d') \<Rightarrow> (if errors = [] then Commit_failed else Commit_rollback_failed errors, d'))"

definition commit_pair :: "commit_item list \<Rightarrow> disk \<Rightarrow> (commit_error + unit) \<times> disk" where
  "commit_pair targets d =
     (case preflight (dk_files d) targets of
        Some e \<Rightarrow> (Inl e, d)
      | None \<Rightarrow>
          (case move_aside targets d of
             (False, backedUp, d1) \<Rightarrow> apfst Inl (rollback backedUp [] d1)
           | (True, backedUp, d1) \<Rightarrow>
               (case move_in targets d1 of
                  (False, committed, d2) \<Rightarrow> apfst Inl (rollback backedUp committed d2)
                | (True, committed, d2) \<Rightarrow> (Inr (), d2))))"

definition commitComparePair ::
  "jstring \<Rightarrow> jstring \<Rightarrow> jstring \<Rightarrow> jstring \<Rightarrow> jstring \<Rightarrow> disk \<Rightarrow> (commit_error + unit) \<times> disk" where
  "commitComparePair htmlCandidate receiptCandidate outputPath receiptPath stagingDirectory =
     commit_pair (commit_items htmlCandidate receiptCandidate outputPath receiptPath stagingDirectory)"

text \<open>\<open>finally { rmSync(stagingDirectory, { recursive: true, force: true }) }\<close>, when it succeeds.\<close>

definition remove_staging :: "jstring \<Rightarrow> disk \<Rightarrow> disk" where
  "remove_staging stagingDirectory d =
     d\<lparr>dk_files := (\<lambda>p. if p = stagingDirectory \<or> take (Suc (length stagingDirectory)) p = stagingDirectory @ js ''/'' then None else dk_files d p)\<rparr>"

end
