(* ===== verification/Commit_Laws.thy ===== *)
theory Commit_Laws
  imports Compare_Commit
begin

text \<open>
  The phases of the commit over any list of items with separate paths: what each loop leaves at the paths of
  each item, what it leaves alone, and how many failing answers it consumed. Together: the commit is an
  atomic update of the pair.
\<close>

section \<open>Single calls\<close>

definition faults :: "disk \<Rightarrow> nat" where
  "faults d = length (filter id (dk_faults d))"

lemma take_fault_files: "take_fault d = (fault, d') \<Longrightarrow> dk_files d' = dk_files d \<and> faults d = faults d' + (if fault then 1 else 0)"
  by (auto simp: take_fault_def faults_def split: list.splits)

lemma renameSync_cases:
  assumes "renameSync src dst d = (ok, d')"
  shows "if ok then dk_files d src \<noteq> None \<and> dk_files d' = ((dk_files d)(src := None))(dst := dk_files d src) \<and> faults d' = faults d
    else dk_files d' = dk_files d \<and> (faults d = faults d' + 1 \<or>
      faults d = faults d' \<and> (dk_files d src = None \<or> dk_files d dst = Some Directory \<or> dk_files d src = Some Directory \<and> dk_files d dst \<noteq> None))"
proof -
  obtain f e where t: "take_fault d = (f, e)" by fastforce
  show ?thesis using assms t take_fault_files [OF t]
    by (auto simp: renameSync_def Let_def faults_def split: if_splits)
qed

lemma rmSync_cases:
  assumes "rmSync p d = (ok, d')"
  shows "if ok then dk_files d' = (dk_files d)(p := None) \<and> faults d' = faults d
    else dk_files d' = dk_files d \<and> (faults d = faults d' + 1 \<or> faults d = faults d' \<and> dk_files d p = Some Directory)"
proof -
  obtain f e where t: "take_fault d = (f, e)" by fastforce
  show ?thesis using assms t take_fault_files [OF t] by (auto simp: rmSync_def faults_def split: if_splits)
qed

section \<open>The phases\<close>

definition item_paths :: "commit_item \<Rightarrow> jstring set" where
  "item_paths i = {ci_target i, ci_candidate i, ci_backup i}"

text \<open>The paths of one item differ, and those of different items too.\<close>

fun separate :: "commit_item list \<Rightarrow> bool" where
  "separate [] = True"
| "separate (i # is) \<longleftrightarrow> distinct [ci_target i, ci_candidate i, ci_backup i] \<and>
     (\<forall>j\<in>set is. item_paths i \<inter> item_paths j = {}) \<and> separate is"

definition plain_entry :: "entry option \<Rightarrow> bool" where
  "plain_entry e \<longleftrightarrow> (case e of None \<Rightarrow> True | Some (File _) \<Rightarrow> True | _ \<Rightarrow> False)"

lemma plain_exists: "plain_entry (fs p) \<Longrightarrow> existsSync fs p \<longleftrightarrow> fs p \<noteq> None"
  by (auto simp: plain_entry_def existsSync_def split: option.splits entry.splits)

text \<open>What a phase may do: it changes no path but those of its items.\<close>

definition same_outside :: "commit_item list \<Rightarrow> disk \<Rightarrow> disk \<Rightarrow> bool" where
  "same_outside is d d' \<longleftrightarrow> (\<forall>p. (\<forall>i\<in>set is. p \<notin> item_paths i) \<longrightarrow> dk_files d' p = dk_files d p)"

definition aside_item :: "disk \<Rightarrow> disk \<Rightarrow> bool \<Rightarrow> bool \<Rightarrow> commit_item \<Rightarrow> bool" where
  "aside_item d d' ok handled i \<longleftrightarrow>
     dk_files d' (ci_candidate i) = dk_files d (ci_candidate i) \<and>
     (if handled
      then dk_files d (ci_target i) \<noteq> None \<and> dk_files d' (ci_target i) = None \<and> dk_files d' (ci_backup i) = dk_files d (ci_target i)
      else dk_files d' (ci_target i) = dk_files d (ci_target i) \<and> dk_files d' (ci_backup i) = None \<and>
        (ok \<longrightarrow> dk_files d (ci_target i) = None))"

definition moved_aside :: "commit_item list \<Rightarrow> disk \<Rightarrow> bool \<Rightarrow> commit_item list \<Rightarrow> disk \<Rightarrow> bool" where
  "moved_aside is d ok handled d' \<longleftrightarrow>
     set handled \<subseteq> set is \<and> separate handled \<and> same_outside is d d' \<and>
     (\<forall>i\<in>set is. aside_item d d' ok (i \<in> set handled) i) \<and>
     (if ok then faults d = faults d' else faults d = faults d' + 1)"

lemma move_aside_spec:
  assumes "separate is" "\<forall>i\<in>set is. plain_entry (dk_files d (ci_target i)) \<and> dk_files d (ci_backup i) = None"
    and "move_aside is d = (ok, handled, d')"
  shows "moved_aside is d ok handled d'"
  using assms
proof (induction "is" arbitrary: d handled)
  case (Cons i "is")
  have sep: "separate is" "distinct [ci_target i, ci_candidate i, ci_backup i]" "\<And>j. j \<in> set is \<Longrightarrow> item_paths i \<inter> item_paths j = {}"
    using Cons.prems(1) by auto
  have pi: "plain_entry (dk_files d (ci_target i))" "dk_files d (ci_backup i) = None" using Cons.prems(2) by auto
  have ni: "i \<notin> set is" using sep(3) [of i] by (auto simp: item_paths_def)
  have ex: "existsSync (dk_files d) (ci_target i) \<longleftrightarrow> dk_files d (ci_target i) \<noteq> None" by (rule plain_exists) (rule pi(1))
  show ?case
  proof (cases "dk_files d (ci_target i) = None")
    case True
    then have m: "move_aside is d = (ok, handled, d')" using Cons.prems(3) ex by simp
    have ih: "moved_aside is d ok handled d'" by (rule Cons.IH [OF sep(1) _ m]) (use Cons.prems(2) in simp)
    then have o: "dk_files d' p = dk_files d p" if "p \<in> item_paths i" for p
      using sep(3) that unfolding moved_aside_def same_outside_def by blast
    have "dk_files d' (ci_candidate i) = dk_files d (ci_candidate i)" "dk_files d' (ci_target i) = None" "dk_files d' (ci_backup i) = None"
      using o True pi by (simp_all add: item_paths_def)
    moreover have "same_outside (i # is) d d'" using ih by (simp add: moved_aside_def same_outside_def)
    moreover have "i \<notin> set handled" using ih ni by (auto simp: moved_aside_def)
    ultimately show ?thesis using ih True by (simp add: moved_aside_def aside_item_def subset_insertI2)
  next
    case False
    obtain r d1 where r: "renameSync (ci_target i) (ci_backup i) d = (r, d1)" by fastforce
    show ?thesis
    proof (cases r)
      case nr: False
      then have h: "handled = []" "d' = d1" "\<not> ok" using Cons.prems(3) r ex False by simp_all
      have "dk_files d1 = dk_files d" "faults d = faults d1 + 1"
        using renameSync_cases [OF r] nr pi False by (auto simp: plain_entry_def split: option.splits entry.splits)
      then show ?thesis using h Cons.prems(2) by (simp add: moved_aside_def same_outside_def aside_item_def)
    next
      case yr: True
      then obtain rest where m: "move_aside is d1 = (ok, rest, d')" "handled = i # rest"
        using Cons.prems(3) r ex False by (auto split: prod.splits)
      have d1: "dk_files d1 = ((dk_files d)(ci_target i := None))(ci_backup i := dk_files d (ci_target i))" "faults d1 = faults d"
        using renameSync_cases [OF r] yr by simp_all
      have u: "dk_files d1 p = dk_files d p" if "p \<notin> item_paths i" for p using that unfolding d1 by (simp add: item_paths_def)
      have w: "dk_files d1 (ci_target j) = dk_files d (ci_target j)" "dk_files d1 (ci_candidate j) = dk_files d (ci_candidate j)"
        "dk_files d1 (ci_backup j) = dk_files d (ci_backup j)" if "j \<in> set is" for j
        using u sep(3) [OF that] by (auto simp: item_paths_def)
      have ih: "moved_aside is d1 ok rest d'"
        by (rule Cons.IH [OF sep(1) _ m(1)]) (use w Cons.prems(2) in simp)
      then have o: "dk_files d' p = dk_files d1 p" if "p \<in> item_paths i" for p
        using sep(3) that unfolding moved_aside_def same_outside_def by blast
      have i: "dk_files d' (ci_target i) = None" "dk_files d' (ci_backup i) = dk_files d (ci_target i)"
        "dk_files d' (ci_candidate i) = dk_files d (ci_candidate i)"
        using o [of "ci_target i"] o [of "ci_backup i"] o [of "ci_candidate i"] sep(2) unfolding item_paths_def d1 by auto
      have out: "same_outside (i # is) d d'" using ih u by (simp add: moved_aside_def same_outside_def)
      have sub: "set rest \<subseteq> set is" using ih by (simp add: moved_aside_def)
      have sh: "separate handled" using ih sep(2,3) sub unfolding m(2) by (auto simp: moved_aside_def)
      have js: "j \<in> set is \<Longrightarrow> j \<noteq> i" for j using ni by blast
      have "aside_item d d' ok (j \<in> set handled) j" if j: "j \<in> set is" for j
      proof -
        have "aside_item d1 d' ok (j \<in> set rest) j" using ih j by (simp add: moved_aside_def)
        then show ?thesis using w [OF j] js [OF j] unfolding m(2) by (auto simp: aside_item_def split: if_splits)
      qed
      moreover have "aside_item d d' ok True i" using i False by (simp add: aside_item_def)
      moreover have "if ok then faults d = faults d' else faults d = faults d' + 1" using ih d1(2) unfolding moved_aside_def by presburger
      ultimately show ?thesis using out sh sub unfolding moved_aside_def m(2) by auto
    qed
  qed
qed (simp add: same_outside_def moved_aside_def)

text \<open>The second loop, when nothing is left at the targets.\<close>

definition in_item :: "disk \<Rightarrow> disk \<Rightarrow> bool \<Rightarrow> commit_item \<Rightarrow> bool" where
  "in_item d d' handled i \<longleftrightarrow>
     dk_files d' (ci_backup i) = dk_files d (ci_backup i) \<and>
     dk_files d' (ci_target i) = (if handled then dk_files d (ci_candidate i) else None)"

definition moved_in :: "commit_item list \<Rightarrow> disk \<Rightarrow> bool \<Rightarrow> commit_item list \<Rightarrow> disk \<Rightarrow> bool" where
  "moved_in is d ok handled d' \<longleftrightarrow>
     set handled \<subseteq> set is \<and> separate handled \<and> same_outside is d d' \<and> (ok \<longrightarrow> set handled = set is) \<and>
     (\<forall>i\<in>set is. in_item d d' (i \<in> set handled) i) \<and>
     (if ok then faults d = faults d' else faults d = faults d' + 1)"

definition is_file :: "entry option \<Rightarrow> bool" where
  "is_file e \<longleftrightarrow> (\<exists>content. e = Some (File content))"

lemma move_in_spec:
  assumes "separate is" "\<forall>i\<in>set is. is_file (dk_files d (ci_candidate i)) \<and> dk_files d (ci_target i) = None"
    and "move_in is d = (ok, handled, d')"
  shows "moved_in is d ok handled d'"
  using assms
proof (induction "is" arbitrary: d handled)
  case (Cons i "is")
  have sep: "separate is" "distinct [ci_target i, ci_candidate i, ci_backup i]" "\<And>j. j \<in> set is \<Longrightarrow> item_paths i \<inter> item_paths j = {}"
    using Cons.prems(1) by auto
  have pi: "is_file (dk_files d (ci_candidate i))" "dk_files d (ci_target i) = None" using Cons.prems(2) by auto
  have ni: "i \<notin> set is" using sep(3) [of i] by (auto simp: item_paths_def)
  obtain r d1 where r: "renameSync (ci_candidate i) (ci_target i) d = (r, d1)" by fastforce
  show ?case
  proof (cases r)
    case False
    then have h: "handled = []" "d' = d1" "\<not> ok" using Cons.prems(3) r by simp_all
    have "dk_files d1 = dk_files d" "faults d = faults d1 + 1" using renameSync_cases [OF r] False pi by (auto simp: is_file_def)
    then show ?thesis using h Cons.prems(2) by (simp add: moved_in_def same_outside_def in_item_def)
  next
    case True
    then obtain rest where m: "move_in is d1 = (ok, rest, d')" "handled = i # rest"
      using Cons.prems(3) r by (auto split: prod.splits)
    have d1: "dk_files d1 = ((dk_files d)(ci_candidate i := None))(ci_target i := dk_files d (ci_candidate i))" "faults d1 = faults d"
      using renameSync_cases [OF r] True by simp_all
    have u: "dk_files d1 p = dk_files d p" if "p \<notin> item_paths i" for p using that unfolding d1 by (simp add: item_paths_def)
    have w: "dk_files d1 (ci_target j) = dk_files d (ci_target j)" "dk_files d1 (ci_candidate j) = dk_files d (ci_candidate j)"
      "dk_files d1 (ci_backup j) = dk_files d (ci_backup j)" if "j \<in> set is" for j
      using u sep(3) [OF that] by (auto simp: item_paths_def)
    have ih: "moved_in is d1 ok rest d'" by (rule Cons.IH [OF sep(1) _ m(1)]) (use w Cons.prems(2) in simp)
    then have o: "dk_files d' p = dk_files d1 p" if "p \<in> item_paths i" for p
      using sep(3) that unfolding moved_in_def same_outside_def by blast
    have i: "dk_files d' (ci_target i) = dk_files d (ci_candidate i)" "dk_files d' (ci_backup i) = dk_files d (ci_backup i)"
      using o [of "ci_target i"] o [of "ci_backup i"] sep(2) unfolding item_paths_def d1 by auto
    have out: "same_outside (i # is) d d'" using ih u by (simp add: moved_in_def same_outside_def)
    have sub: "set rest \<subseteq> set is" using ih by (simp add: moved_in_def)
    have "separate rest" using ih by (simp add: moved_in_def)
    then have sh: "separate handled" using sep(2,3) sub unfolding m(2) by auto
    have js: "j \<in> set is \<Longrightarrow> j \<noteq> i" for j using ni by blast
    have "in_item d d' (j \<in> set handled) j" if j: "j \<in> set is" for j
    proof -
      have "in_item d1 d' (j \<in> set rest) j" using ih j by (simp add: moved_in_def)
      then show ?thesis using w [OF j] js [OF j] unfolding m(2) by (simp add: in_item_def)
    qed
    moreover have "in_item d d' True i" using i by (simp add: in_item_def)
    moreover have "if ok then faults d = faults d' else faults d = faults d' + 1" "ok \<longrightarrow> set handled = set (i # is)"
      using ih d1(2) unfolding m(2) moved_in_def by (presburger, auto)
    ultimately show ?thesis using out sh sub unfolding moved_in_def m(2) by auto
  qed
qed (simp add: same_outside_def moved_in_def)

section \<open>Rolling back\<close>

text \<open>Each removal empties its target or records an error; it touches nothing else.\<close>

lemma remove_loop:
  assumes "foldl remove_committed (es, d) cs = (es', d')" "\<forall>i\<in>set cs. dk_files d (ci_target i) \<noteq> Some Directory"
  shows "(\<exists>more. es' = es @ more) \<and> (\<forall>p. p \<notin> ci_target ` set cs \<longrightarrow> dk_files d' p = dk_files d p) \<and>
    (\<forall>p. dk_files d' p = dk_files d p \<or> dk_files d' p = None) \<and>
    (es' = es \<longrightarrow> (\<forall>i\<in>set cs. dk_files d' (ci_target i) = None)) \<and> faults d' \<le> faults d \<and> (faults d = 0 \<longrightarrow> es' = es)"
  using assms
proof (induction cs arbitrary: es d)
  case (Cons i cs)
  obtain r d1 where r: "rmSync (ci_target i) d = (r, d1)" by fastforce
  define es1 where "es1 = (if r then es else es @ [Remove_failed (ci_label i)])"
  have f: "foldl remove_committed (es1, d1) cs = (es', d')" using Cons.prems(1) r by (simp add: remove_committed_def es1_def)
  note c = rmSync_cases [OF r]
  have g: "\<forall>p. dk_files d1 p = dk_files d p \<or> dk_files d1 p = None" "\<forall>p. p \<noteq> ci_target i \<longrightarrow> dk_files d1 p = dk_files d p"
    "r \<longrightarrow> dk_files d1 (ci_target i) = None" "faults d1 \<le> faults d" "faults d = 0 \<longrightarrow> r"
    using c Cons.prems(2) by (auto split: if_splits)
  have "\<forall>j\<in>set cs. dk_files d1 (ci_target j) \<noteq> Some Directory"
  proof
    fix j assume "j \<in> set cs"
    then have "dk_files d (ci_target j) \<noteq> Some Directory" using Cons.prems(2) by simp
    then show "dk_files d1 (ci_target j) \<noteq> Some Directory" using g(1) by (metis option.distinct(1))
  qed
  note ih = Cons.IH [OF f this]
  obtain more where more: "es' = es1 @ more" using ih by blast
  have e: "es' = es \<longrightarrow> r \<and> es' = es1" using more by (cases r) (simp_all add: es1_def)
  have "es' = es \<longrightarrow> dk_files d' (ci_target i) = None" using e g(3) ih by metis
  moreover have "\<exists>more. es' = es @ more" using more by (cases r) (simp_all add: es1_def)
  moreover have "\<forall>p. dk_files d' p = dk_files d p \<or> dk_files d' p = None" using ih g(1) by metis
  moreover have "\<forall>p. p \<notin> ci_target ` set (i # cs) \<longrightarrow> dk_files d' p = dk_files d p" using ih g(2) by simp
  moreover have "es' = es \<longrightarrow> (\<forall>j\<in>set cs. dk_files d' (ci_target j) = None)" using ih e by blast
  moreover have "faults d' \<le> faults d" using ih g(4) by simp
  moreover have "faults d = 0 \<longrightarrow> es' = es"
  proof
    assume "faults d = 0"
    then have "r" "faults d1 = 0" using g(4,5) by simp_all
    then show "es' = es" using ih by (simp add: es1_def)
  qed
  ultimately show ?case by simp
qed auto

text \<open>Each restoration moves the backup back or leaves it where it is.\<close>

lemma restore_one:
  assumes "restore_backup (es, d) i = (es', d')" "ci_target i \<noteq> ci_backup i"
    and "dk_files d (ci_backup i) = old" "is_file old" "plain_entry (dk_files d (ci_target i))"
  shows "(es' = es \<and> dk_files d' (ci_target i) = old \<or>
      es' = es @ [Restore_failed (ci_label i)] \<and> dk_files d' (ci_backup i) = old \<and> faults d' < faults d) \<and>
    (\<forall>p. p \<notin> {ci_target i, ci_backup i} \<longrightarrow> dk_files d' p = dk_files d p) \<and> faults d' \<le> faults d"
proof -
  obtain r d1 where r: "(if existsSync (dk_files d) (ci_target i) then rmSync (ci_target i) d else (True, d)) = (r, d1)" by fastforce
  obtain k d2 where k: "(if r then renameSync (ci_backup i) (ci_target i) d1 else (False, d1)) = (k, d2)" by fastforce
  have e: "es' = (if k then es else es @ [Restore_failed (ci_label i)])" "d' = d2"
    using assms(1) r k by (auto simp: restore_backup_def)
  have ex: "existsSync (dk_files d) (ci_target i) \<longleftrightarrow> dk_files d (ci_target i) \<noteq> None" by (rule plain_exists) (rule assms(5))
  have d1: "\<forall>p. p \<noteq> ci_target i \<longrightarrow> dk_files d1 p = dk_files d p" "r \<longrightarrow> dk_files d1 (ci_target i) = None \<and> faults d1 = faults d"
    "\<not> r \<longrightarrow> faults d1 < faults d"
  proof -
    have "(\<forall>p. p \<noteq> ci_target i \<longrightarrow> dk_files d1 p = dk_files d p) \<and> (r \<longrightarrow> dk_files d1 (ci_target i) = None \<and> faults d1 = faults d) \<and>
        (\<not> r \<longrightarrow> faults d1 < faults d)"
    proof (cases "dk_files d (ci_target i) = None")
      case False
      then have "rmSync (ci_target i) d = (r, d1)" using r ex by simp
      from rmSync_cases [OF this] show ?thesis using assms(5) by (auto simp: plain_entry_def split: if_splits)
    qed (use r ex in auto)
    then show "\<forall>p. p \<noteq> ci_target i \<longrightarrow> dk_files d1 p = dk_files d p" "r \<longrightarrow> dk_files d1 (ci_target i) = None \<and> faults d1 = faults d"
      "\<not> r \<longrightarrow> faults d1 < faults d" by blast+
  qed
  have b: "dk_files d1 (ci_backup i) = old" using d1(1) assms(2,3) by simp
  show ?thesis
  proof (cases r)
    case False
    then show ?thesis using e k d1 b by auto
  next
    case True
    then have "renameSync (ci_backup i) (ci_target i) d1 = (k, d2)" using k by simp
    from renameSync_cases [OF this] show ?thesis using e True d1 b assms(2,4) by (auto simp: is_file_def split: if_splits)
  qed
qed

lemma restore_loop:
  assumes "foldl restore_backup (es, d) bs = (es', d')" "separate bs"
    and "\<forall>i\<in>set bs. is_file (dk_files d (ci_backup i)) \<and> plain_entry (dk_files d (ci_target i))"
  shows "(\<exists>more. es' = es @ more) \<and> same_outside bs d d' \<and>
    (\<forall>i\<in>set bs. dk_files d' (ci_target i) = dk_files d (ci_backup i) \<or> es' \<noteq> es \<and> dk_files d' (ci_backup i) = dk_files d (ci_backup i)) \<and>
    (faults d = 0 \<longrightarrow> es' = es)"
  using assms
proof (induction bs arbitrary: es d)
  case (Cons i bs)
  have sep: "separate bs" "ci_target i \<noteq> ci_backup i" "\<And>j. j \<in> set bs \<Longrightarrow> item_paths i \<inter> item_paths j = {}" using Cons.prems(2) by auto
  obtain es1 d1 where r: "restore_backup (es, d) i = (es1, d1)" by fastforce
  have f: "foldl restore_backup (es1, d1) bs = (es', d')" using Cons.prems(1) r by simp
  have pi: "is_file (dk_files d (ci_backup i))" "plain_entry (dk_files d (ci_target i))" using Cons.prems(3) by simp_all
  note one = restore_one [OF r sep(2) refl pi]
  have u: "dk_files d1 p = dk_files d p" if "p \<notin> item_paths i" for p using one that by (auto simp: item_paths_def)
  have w: "dk_files d1 (ci_target j) = dk_files d (ci_target j)" "dk_files d1 (ci_backup j) = dk_files d (ci_backup j)"
    if "j \<in> set bs" for j using u sep(3) [OF that] by (auto simp: item_paths_def)
  have "\<forall>j\<in>set bs. is_file (dk_files d1 (ci_backup j)) \<and> plain_entry (dk_files d1 (ci_target j))"
    using w Cons.prems(3) by simp
  note ih = Cons.IH [OF f sep(1) this]
  have o: "dk_files d' p = dk_files d1 p" if "p \<in> item_paths i" for p using ih sep(3) that unfolding same_outside_def by blast
  obtain more where more: "es' = es1 @ more" using ih by blast
  have out: "same_outside (i # bs) d d'" using ih u by (simp add: same_outside_def)
  have ex: "\<exists>more. es' = es @ more" using one more by auto
  have same: "es' = es \<longrightarrow> es1 = es \<and> es' = es1" using one more by auto
  have i: "dk_files d' (ci_target i) = dk_files d (ci_backup i) \<or> es' \<noteq> es \<and> dk_files d' (ci_backup i) = dk_files d (ci_backup i)"
    using one o same by (auto simp: item_paths_def)
  have j: "dk_files d' (ci_target j) = dk_files d (ci_backup j) \<or> es' \<noteq> es \<and> dk_files d' (ci_backup j) = dk_files d (ci_backup j)"
    if "j \<in> set bs" for j using ih w [OF that] that same by metis
  have "faults d = 0 \<longrightarrow> es' = es" using one ih by auto
  then show ?case using ex out i j by simp
qed (auto simp: same_outside_def)

section \<open>The transaction\<close>

definition rolled_back :: "commit_item list \<Rightarrow> disk \<Rightarrow> disk \<Rightarrow> commit_error \<Rightarrow> bool" where
  "rolled_back items d d' e \<longleftrightarrow> same_outside items d d' \<and>
     (\<forall>i\<in>set items. dk_files d (ci_target i) \<noteq> None \<longrightarrow>
        dk_files d' (ci_target i) = dk_files d (ci_target i) \<or> dk_files d' (ci_backup i) = dk_files d (ci_target i)) \<and>
     (e = Commit_failed \<and> (\<forall>i\<in>set items. dk_files d' (ci_target i) = dk_files d (ci_target i)) \<or>
      (\<exists>es. e = Commit_rollback_failed es \<and> es \<noteq> []))"

lemma plain_file: "plain_entry e \<longleftrightarrow> e = None \<or> is_file e"
  by (auto simp: plain_entry_def is_file_def split: option.splits entry.splits)

lemma separateD: "separate is \<Longrightarrow> i \<in> set is \<Longrightarrow> distinct [ci_target i, ci_candidate i, ci_backup i]"
  "separate is \<Longrightarrow> i \<in> set is \<Longrightarrow> j \<in> set is \<Longrightarrow> i \<noteq> j \<Longrightarrow> item_paths i \<inter> item_paths j = {}"
  by (induction "is") auto

lemma separate_rev: "separate is \<Longrightarrow> separate (rev is)"
proof -
  have snoc: "separate (is @ [i]) \<longleftrightarrow> separate (i # is)" for "is" i
    by (induction "is") auto
  show "separate is \<Longrightarrow> separate (rev is)" by (induction "is") (auto simp: snoc)
qed

text \<open>
  The disk when the rollback begins: what was moved aside is in the backups, what was moved in is at the
  targets, and nothing else is there.
\<close>

lemma rollback_spec:
  assumes sep: "separate items" and plain: "\<forall>i\<in>set items. plain_entry (dk_files d0 (ci_target i))"
    and B: "set bs \<subseteq> set items" "separate bs" and C: "set cs \<subseteq> set items"
    and aside: "\<forall>i\<in>set bs. dk_files d0 (ci_target i) \<noteq> None \<and> dk_files d (ci_backup i) = dk_files d0 (ci_target i)"
    and rest: "\<forall>i\<in>set items - set cs. dk_files d (ci_target i) = (if i \<in> set bs then None else dk_files d0 (ci_target i))"
    and fresh: "\<forall>i\<in>set cs. is_file (dk_files d (ci_target i)) \<and> (i \<notin> set bs \<longrightarrow> dk_files d0 (ci_target i) = None)"
    and out: "same_outside items d0 d" and r: "rollback bs cs d = (e, d')"
  shows "rolled_back items d0 d' e \<and> (faults d = 0 \<longrightarrow> e = Commit_failed)"
proof -
  obtain es1 d1 where r1: "foldl remove_committed ([], d) (rev cs) = (es1, d1)" by fastforce
  obtain es2 where r2: "foldl restore_backup (es1, d1) (rev bs) = (es2, d')"
    and e: "e = (if es2 = [] then Commit_failed else Commit_rollback_failed es2)"
    using r r1 by (auto simp: rollback_def split: prod.splits)
  have "\<forall>i\<in>set (rev cs). dk_files d (ci_target i) \<noteq> Some Directory" using fresh by (auto simp: is_file_def)
  note rm = remove_loop [OF r1 this]
  have ids: "ci_target i \<noteq> ci_target j" "ci_target i \<noteq> ci_backup j" if "i \<in> set items" "j \<in> set items" "i \<noteq> j" for i j
    using separateD(2) [OF sep that] by (auto simp: item_paths_def)
  have tb: "ci_target i \<noteq> ci_backup j" if "i \<in> set items" "j \<in> set items" for i j
    using ids(2) [OF that] separateD(1) [OF sep that(1)] by (cases "i = j") auto
  have bk: "dk_files d1 (ci_backup i) = dk_files d0 (ci_target i)" if "i \<in> set bs" for i
  proof -
    have "ci_backup i \<notin> ci_target ` set (rev cs)" using tb B(1) C that by fastforce
    then show ?thesis using rm aside that by simp
  qed
  have tg: "plain_entry (dk_files d1 (ci_target i))" if "i \<in> set items" for i
  proof -
    have "plain_entry (dk_files d (ci_target i))"
      using fresh rest plain that by (cases "i \<in> set cs") (auto simp: is_file_def plain_entry_def)
    then show ?thesis using rm by (metis option.simps(4) plain_entry_def)
  qed
  have filed: "is_file (dk_files d1 (ci_backup i))" if "i \<in> set bs" for i
    using bk [OF that] aside plain that B(1) plain_file by (metis subsetD)
  have "\<forall>i\<in>set (rev bs). is_file (dk_files d1 (ci_backup i)) \<and> plain_entry (dk_files d1 (ci_target i))"
    using filed tg B(1) by auto
  note rs = restore_loop [OF r2 separate_rev [OF B(2)] this]
  have both: "es2 = [] \<Longrightarrow> es1 = [] \<and> es2 = es1" using rs by auto
  have outside: "same_outside items d0 d'"
    unfolding same_outside_def
  proof (intro allI impI)
    fix p assume p: "\<forall>i\<in>set items. p \<notin> item_paths i"
    then have "p \<notin> ci_target ` set (rev cs)" using C by (auto simp: item_paths_def)
    then have "dk_files d1 p = dk_files d p" using rm by simp
    moreover have "\<forall>i\<in>set bs. p \<notin> item_paths i" using p B(1) by blast
    then have "dk_files d' p = dk_files d1 p" using rs by (simp add: same_outside_def)
    ultimately show "dk_files d' p = dk_files d0 p" using out p by (simp add: same_outside_def)
  qed
  have other: "dk_files d' (ci_target i) = dk_files d1 (ci_target i)" if "i \<in> set items" "i \<notin> set bs" for i
  proof -
    have "\<forall>j\<in>set (rev bs). ci_target i \<notin> item_paths j"
    proof
      fix j assume "j \<in> set (rev bs)"
      then have "item_paths i \<inter> item_paths j = {}" using separateD(2) [OF sep that(1), of j] that B(1) by auto
      then show "ci_target i \<notin> item_paths j" by (auto simp: item_paths_def)
    qed
    then show ?thesis using rs by (simp add: same_outside_def)
  qed
  have safe: "dk_files d' (ci_target i) = dk_files d0 (ci_target i) \<or> es2 \<noteq> [] \<and> dk_files d' (ci_backup i) = dk_files d0 (ci_target i)"
    if "i \<in> set bs" for i
    using rs bk [OF that] both that by (metis set_rev)
  have untouched: "dk_files d' (ci_target i) = dk_files d0 (ci_target i)" if "i \<in> set items" "i \<notin> set bs" "i \<notin> set cs" for i
  proof -
    have "ci_target i \<notin> ci_target ` set (rev cs)" using ids(1) that C by fastforce
    then show ?thesis using other [OF that(1,2)] rm rest that by simp
  qed
  have new: "es2 = [] \<Longrightarrow> dk_files d' (ci_target i) = dk_files d0 (ci_target i)" if "i \<in> set items" "i \<notin> set bs" "i \<in> set cs" for i
  proof -
    assume "es2 = []"
    then have "es1 = []" using both by blast
    then have "dk_files d1 (ci_target i) = None" using rm that(3) by simp
    then show ?thesis using other [OF that(1,2)] fresh that by simp
  qed
  have kept: "dk_files d' (ci_target i) = dk_files d0 (ci_target i) \<or> dk_files d' (ci_backup i) = dk_files d0 (ci_target i)"
    if "i \<in> set items" "dk_files d0 (ci_target i) \<noteq> None" for i
  proof (cases "i \<in> set bs")
    case True
    then show ?thesis using safe by blast
  next
    case False
    then have "i \<notin> set cs" using bspec [OF fresh, of i] that(2) by auto
    then show ?thesis using untouched [OF that(1) False] by simp
  qed
  have "es2 = [] \<Longrightarrow> \<forall>i\<in>set items. dk_files d' (ci_target i) = dk_files d0 (ci_target i)"
  proof (intro ballI)
    fix i assume i: "i \<in> set items" and e2: "es2 = []"
    show "dk_files d' (ci_target i) = dk_files d0 (ci_target i)"
      using safe [of i] untouched [OF i] new [OF i _ _ e2] e2 by (cases "i \<in> set bs"; cases "i \<in> set cs") simp_all
  qed
  then have "rolled_back items d0 d' e" using outside kept e by (auto simp: rolled_back_def)
  moreover have "faults d = 0 \<longrightarrow> es2 = []" using rm rs by simp
  ultimately show ?thesis using e by simp
qed

lemma target_problem_Some: "target_problem fs i = Some e \<Longrightarrow> \<exists>l b. e = Commit_target l b"
  by (auto simp: target_problem_def split: if_splits option.splits entry.splits)

lemma preflight_None:
  assumes "preflight fs items = None" "i \<in> set items" "fs (ci_target i) \<noteq> Some (Link False)"
  shows "plain_entry (fs (ci_target i))"
proof -
  have "target_problem fs i = None" using assms(1,2) by (simp add: preflight_def)
  then show ?thesis using assms(3)
    by (cases "fs (ci_target i)") (auto simp: target_problem_def plain_entry_def existsSync_def split: entry.splits if_splits)
qed

definition ready :: "commit_item list \<Rightarrow> disk \<Rightarrow> bool" where
  "ready items d \<longleftrightarrow> separate items \<and>
     (\<forall>i\<in>set items. is_file (dk_files d (ci_candidate i)) \<and> dk_files d (ci_backup i) = None \<and>
        dk_files d (ci_target i) \<noteq> Some (Link False))"

lemma commit_pair_spec:
  assumes "ready items d" "commit_pair items d = (r, d')"
  shows "case r of
      Inr _ \<Rightarrow> same_outside items d d' \<and> (\<forall>i\<in>set items. dk_files d' (ci_target i) = dk_files d (ci_candidate i)) 
    | Inl e \<Rightarrow> (e \<noteq> Commit_failed \<and> (\<forall>es. e \<noteq> Commit_rollback_failed es) \<and> d' = d) \<or>
        rolled_back items d d' e \<and> (faults d \<le> 1 \<longrightarrow> e = Commit_failed)"
proof (cases "preflight (dk_files d) items")
  case (Some e)
  have "e \<noteq> Commit_failed \<and> (\<forall>es. e \<noteq> Commit_rollback_failed es)"
    using first_some_Some [OF Some [unfolded preflight_def]] target_problem_Some by blast
  then show ?thesis using Some assms(2) by (auto simp: commit_pair_def)
next
  case None
  have sep: "separate items" and cand: "\<forall>i\<in>set items. is_file (dk_files d (ci_candidate i))"
    and bk: "\<forall>i\<in>set items. dk_files d (ci_backup i) = None" using assms(1) by (auto simp: ready_def)
  have plain: "\<forall>i\<in>set items. plain_entry (dk_files d (ci_target i))"
    using preflight_None [OF None] assms(1) by (simp add: ready_def)
  obtain ok bs d1 where m: "move_aside items d = (ok, bs, d1)" by (metis prod.exhaust)
  have a: "moved_aside items d ok bs d1" by (rule move_aside_spec [OF sep _ m]) (use plain bk in simp)
  have B: "set bs \<subseteq> set items" "separate bs" "same_outside items d d1" using a by (simp_all add: moved_aside_def)
  have ai: "aside_item d d1 ok (i \<in> set bs) i" if "i \<in> set items" for i using a that by (simp add: moved_aside_def)
  show ?thesis
  proof (cases ok)
    case False
    obtain e where r: "rollback bs [] d1 = (e, d')" "r = Inl e"
      using assms(2) None m False by (cases "rollback bs [] d1") (simp add: commit_pair_def)
    have f: "faults d = faults d1 + 1" using a False by (simp add: moved_aside_def)
    have "rolled_back items d d' e \<and> (faults d1 = 0 \<longrightarrow> e = Commit_failed)"
    proof (rule rollback_spec [OF sep plain B(1,2) _ _ _ _ B(3) r(1)])
      show "\<forall>i\<in>set bs. dk_files d (ci_target i) \<noteq> None \<and> dk_files d1 (ci_backup i) = dk_files d (ci_target i)"
        using ai B(1) by (fastforce simp: aside_item_def)
      show "\<forall>i\<in>set items - set []. dk_files d1 (ci_target i) = (if i \<in> set bs then None else dk_files d (ci_target i))"
        using ai by (simp add: aside_item_def split: if_splits)
    qed simp_all
    then show ?thesis using r(2) f by auto
  next
    case True
    obtain ok2 cs d2 where n: "move_in items d1 = (ok2, cs, d2)" by (metis prod.exhaust)
    have none: "dk_files d1 (ci_target i) = None" "dk_files d1 (ci_candidate i) = dk_files d (ci_candidate i)" if "i \<in> set items" for i
      using ai [OF that] True by (auto simp: aside_item_def split: if_splits)
    have b: "moved_in items d1 ok2 cs d2" by (rule move_in_spec [OF sep _ n]) (use none cand in simp)
    have ii: "in_item d1 d2 (i \<in> set cs) i" if "i \<in> set items" for i using b that by (simp add: moved_in_def)
    have out: "same_outside items d d2" using B(3) b by (simp add: moved_in_def same_outside_def)
    show ?thesis
    proof (cases ok2)
      case ok2: True
      have "set cs = set items" using b ok2 by (simp add: moved_in_def)
      then have "\<forall>i\<in>set items. dk_files d2 (ci_target i) = dk_files d (ci_candidate i)" using ii none by (simp add: in_item_def)
      moreover have "r = Inr ()" "d' = d2" using assms(2) None m n True ok2 by (simp_all add: commit_pair_def)
      ultimately show ?thesis using out by simp
    next
      case False
      obtain e where r: "rollback bs cs d2 = (e, d')" "r = Inl e"
        using assms(2) None m n True False by (cases "rollback bs cs d2") (simp add: commit_pair_def)
      have f: "faults d = faults d2 + 1" using a b True False by (simp add: moved_aside_def moved_in_def)
      have cs: "set cs \<subseteq> set items" using b by (simp add: moved_in_def)
      have "rolled_back items d d' e \<and> (faults d2 = 0 \<longrightarrow> e = Commit_failed)"
      proof (rule rollback_spec [OF sep plain B(1,2) cs _ _ _ out r(1)])
        show "\<forall>i\<in>set bs. dk_files d (ci_target i) \<noteq> None \<and> dk_files d2 (ci_backup i) = dk_files d (ci_target i)"
        proof
          fix i assume i: "i \<in> set bs"
          then have "i \<in> set items" using B(1) by blast
          then show "dk_files d (ci_target i) \<noteq> None \<and> dk_files d2 (ci_backup i) = dk_files d (ci_target i)"
            using ai [of i] ii [of i] i by (simp add: aside_item_def in_item_def)
        qed
        show "\<forall>i\<in>set items - set cs. dk_files d2 (ci_target i) = (if i \<in> set bs then None else dk_files d (ci_target i))"
        proof
          fix i assume i: "i \<in> set items - set cs"
          then show "dk_files d2 (ci_target i) = (if i \<in> set bs then None else dk_files d (ci_target i))"
            using ai [of i] ii [of i] True by (auto simp: aside_item_def in_item_def split: if_splits)
        qed
        show "\<forall>i\<in>set cs. is_file (dk_files d2 (ci_target i)) \<and> (i \<notin> set bs \<longrightarrow> dk_files d (ci_target i) = None)"
        proof
          fix i assume i: "i \<in> set cs"
          then have "i \<in> set items" using cs by blast
          then show "is_file (dk_files d2 (ci_target i)) \<and> (i \<notin> set bs \<longrightarrow> dk_files d (ci_target i) = None)"
            using ai [of i] ii [of i] none [of i] cand i True by (auto simp: aside_item_def in_item_def split: if_splits)
        qed
      qed
      then show ?thesis using r(2) f by auto
    qed
  qed
qed

section \<open>Properties\<close>

text \<open>The pair of files at the targets, and what an update of the pair may leave of the old and the new pair.\<close>

definition pair_at :: "commit_item list \<Rightarrow> disk \<Rightarrow> entry option list" where
  "pair_at items d = map (\<lambda>i. dk_files d (ci_target i)) items"

definition new_pair :: "commit_item list \<Rightarrow> disk \<Rightarrow> entry option list" where
  "new_pair items d = map (\<lambda>i. dk_files d (ci_candidate i)) items"

fun atomic_update :: "entry option list \<Rightarrow> entry option list \<Rightarrow> commit_error + unit \<Rightarrow> entry option list \<Rightarrow> bool" where
  "atomic_update old new (Inr _) now \<longleftrightarrow> now = new"
| "atomic_update old new (Inl (Commit_rollback_failed errors)) now \<longleftrightarrow> errors \<noteq> []"
| "atomic_update old new (Inl e) now \<longleftrightarrow> now = old"

lemma commit_pair_atomic:
  assumes "ready items d" "commit_pair items d = (r, d')"
  shows "atomic_update (pair_at items d) (new_pair items d) r (pair_at items d')"
proof (cases r)
  case (Inl e)
  then show ?thesis using commit_pair_spec [OF assms] by (cases e) (auto simp: rolled_back_def pair_at_def)
next
  case (Inr u)
  then show ?thesis using commit_pair_spec [OF assms] by (simp add: pair_at_def new_pair_def)
qed

lemma commit_pair_one_fault:
  assumes "ready items d" "commit_pair items d = (r, d')" "faults d \<le> 1"
  shows "r \<noteq> Inl (Commit_rollback_failed errors)"
proof (cases r)
  case (Inl e)
  then show ?thesis using commit_pair_spec [OF assms(1,2)] assms(3) by (cases e) (auto simp: rolled_back_def)
qed simp

lemma commit_pair_survival:
  assumes "ready items d" "commit_pair items d = (Inl e, d')" "i \<in> set items" "dk_files d (ci_target i) \<noteq> None"
  shows "dk_files d (ci_target i) \<in> {dk_files d' (ci_target i), dk_files d' (ci_backup i)}"
  using commit_pair_spec [OF assms(1,2)] assms(3,4) by (auto simp: rolled_back_def)

text \<open>
  C4: The commit of an artifact and its receipt is an atomic update of the pair of files: a commit that
  succeeds leaves the two candidates, one that fails leaves the two previous entries (an absent one
  included), and only a commit that reports a failed rollback may leave anything else. One failing call of
  the file system never leads to a failed rollback, and a failing commit leaves every previous file at its
  target or in its backup.
\<close>

theorem commitComparePair_is_atomic:
  assumes "ready (commit_items html receipt output receiptPath staging) d"
    and "commitComparePair html receipt output receiptPath staging d = (r, d')"
  shows "atomic_update (pair_at (commit_items html receipt output receiptPath staging) d)
      (new_pair (commit_items html receipt output receiptPath staging) d) r
      (pair_at (commit_items html receipt output receiptPath staging) d') \<and>
    (faults d \<le> 1 \<longrightarrow> r \<noteq> Inl (Commit_rollback_failed errors)) \<and>
    (r = Inl e \<longrightarrow> (\<forall>i\<in>set (commit_items html receipt output receiptPath staging). dk_files d (ci_target i) \<noteq> None \<longrightarrow>
       dk_files d (ci_target i) \<in> {dk_files d' (ci_target i), dk_files d' (ci_backup i)}))"
  using commit_pair_atomic [OF assms(1)] commit_pair_one_fault [OF assms(1)] commit_pair_survival [OF assms(1)] assms(2)
  unfolding commitComparePair_def by blast

definition sample_files :: files where
  "sample_files = [js ''s/o'' \<mapsto> File [2], js ''s/r'' \<mapsto> File [3], js ''o'' \<mapsto> File [0], js ''r'' \<mapsto> File [1]]"

definition sample_disk :: "bool list \<Rightarrow> disk" where
  "sample_disk answers = \<lparr>dk_files = sample_files, dk_faults = answers\<rparr>"

definition sample_items :: "commit_item list" where
  "sample_items = commit_items (js ''s/o'') (js ''s/r'') (js ''o'') (js ''r'') (js ''s'')"

lemma sample_ready: "ready sample_items (sample_disk answers)"
  by (simp add: ready_def sample_items_def commit_items_def item_paths_def sample_disk_def sample_files_def is_file_def)

theorem commitComparePair_witness:
  "pair_at sample_items (snd (commitComparePair (js ''s/o'') (js ''s/r'') (js ''o'') (js ''r'') (js ''s'')
     (sample_disk [False, False, False, True]))) = [Some (File [0]), Some (File [1])]"
proof -
  define run where "run = commitComparePair (js ''s/o'') (js ''s/r'') (js ''o'') (js ''r'') (js ''s'') (sample_disk [False, False, False, True])"
  have "fst run = Inl Commit_failed"
    by (simp add: run_def commitComparePair_def commit_pair_def commit_items_def preflight_def target_problem_def existsSync_def
        sample_disk_def sample_files_def renameSync_def take_fault_def rollback_def remove_committed_def rmSync_def restore_backup_def Let_def)
  moreover have "atomic_update (pair_at sample_items (sample_disk [False, False, False, True]))
      (new_pair sample_items (sample_disk [False, False, False, True])) (fst run) (pair_at sample_items (snd run))"
    using commitComparePair_is_atomic [OF sample_ready [unfolded sample_items_def]] unfolding run_def sample_items_def
    by (metis prod.collapse)
  moreover have "pair_at sample_items (sample_disk [False, False, False, True]) = [Some (File [0]), Some (File [1])]"
    by (simp add: pair_at_def sample_items_def commit_items_def sample_disk_def sample_files_def)
  ultimately show ?thesis unfolding run_def by simp
qed


end
