(* ===== verification/Repository_Evidence.thy ===== *)
theory Repository_Evidence
  imports Architecture_Delta
begin

text \<open>
  Source evidence of architecture documents (\<open>renderers/shared/repository-evidence.mjs\<close>): the references of the
  components are checked against a local Git checkout and become links into the authored repository.

  \<^item> The documents have passed the schema: paths, urls, revisions and ids are strings, lines are numbers.
  \<^item> Git is a function from a directory and the arguments of a call to its answer, \<open>realpath\<close> includes
    \<open>path.resolve\<close>, \<open>lower\<close> is \<open>toLowerCase\<close> and \<open>nt\<close> the text of a number.
  \<^item> An error keeps its code, the position of the reference and the values it compares; wording is not
    modelled. An unreadable top level is not told apart from an unreadable root.
\<close>

section \<open>Texts\<close>

definition text_member :: "json \<Rightarrow> jstring \<Rightarrow> jstring" where
  "text_member v k = (case get v k of Some (JStr s) \<Rightarrow> s | _ \<Rightarrow> [])"

definition is_hex :: "nat \<Rightarrow> bool" where
  "is_hex c \<longleftrightarrow> 48 \<le> c \<and> c \<le> 57 \<or> 97 \<le> c \<and> c \<le> 102"

text \<open>\<open>FULL_SHA_RE\<close> and \<open>CONTROL_CHARACTER_RE\<close>.\<close>

definition evidence_sha :: "jstring \<Rightarrow> bool" where
  "evidence_sha s \<longleftrightarrow> length s = 40 \<and> (\<forall>c\<in>set s. is_hex (ascii_lower c))"

definition control_character :: "nat \<Rightarrow> bool" where
  "control_character c \<longleftrightarrow> c \<le> 31 \<or> c = 127"

text \<open>The pattern of \<open>githubSlug\<close>, one alternative at a time; letters are compared without case.\<close>

definition strip_prefix :: "jstring \<Rightarrow> jstring \<Rightarrow> jstring option" where
  "strip_prefix p s = (if map ascii_lower (take (length p) s) = p then Some (drop (length p) s) else None)"

definition slug_prefixes :: "jstring list" where
  "slug_prefixes = [js ''https://github.com/'', js ''git@github.com:'', js ''ssh://git@github.com/'']"

definition slug_char :: "nat \<Rightarrow> bool" where
  "slug_char c \<longleftrightarrow> c \<noteq> 47 \<and> \<not> js_space c"

text \<open>The shortest name before an optional \<open>.git\<close> and an optional slash at the end.\<close>

definition slug_name :: "jstring \<Rightarrow> jstring option" where
  "slug_name t =
     (let u = strip_slash t
      in if u = [] \<or> \<not> (\<forall>c\<in>set u. slug_char c) then None
         else if 4 < length u \<and> map ascii_lower (drop (length u - 4) u) = js ''.git'' then Some (take (length u - 4) u)
         else Some u)"

definition slug_of :: "jstring \<Rightarrow> jstring option" where
  "slug_of s =
     (let owner = takeWhile slug_char s; rest = dropWhile slug_char s
      in if owner = [] \<or> rest = [] \<or> hd rest \<noteq> 47 then None
         else map_option (\<lambda>name. owner @ js ''/'' @ name) (slug_name (tl rest)))"

definition githubSlug :: "(jstring \<Rightarrow> jstring) \<Rightarrow> jstring \<Rightarrow> jstring option" where
  "githubSlug lower value =
     map_option lower (first_some (\<lambda>p. Option.bind (strip_prefix p (js_trim value)) slug_of) slug_prefixes)"

text \<open>\<open>encodeURIComponent\<close>; \<open>None\<close> is the error for a lone surrogate.\<close>

definition uri_unreserved :: "nat \<Rightarrow> bool" where
  "uri_unreserved c \<longleftrightarrow> 48 \<le> c \<and> c \<le> 57 \<or> 65 \<le> c \<and> c \<le> 90 \<or> 97 \<le> c \<and> c \<le> 122 \<or> c \<in> {33, 39, 40, 41, 42, 45, 46, 95, 126}"

definition hex_upper :: "nat \<Rightarrow> nat" where
  "hex_upper n = (if n < 10 then 48 + n else 55 + n)"

definition percent_byte :: "nat \<Rightarrow> jstring" where
  "percent_byte b = [37, hex_upper (b div 16), hex_upper (b mod 16)]"

definition utf8_bytes :: "nat \<Rightarrow> nat list" where
  "utf8_bytes c =
     (if c < 128 then [c]
      else if c < 2048 then [192 + c div 64, 128 + c mod 64]
      else if c < 65536 then [224 + c div 4096, 128 + c div 64 mod 64, 128 + c mod 64]
      else [240 + c div 262144, 128 + c div 4096 mod 64, 128 + c div 64 mod 64, 128 + c mod 64])"

definition percent_encode :: "nat \<Rightarrow> jstring" where
  "percent_encode c = concat (map percent_byte (utf8_bytes c))"

fun encodeURIComponent :: "jstring \<Rightarrow> jstring option" where
  "encodeURIComponent [] = Some []"
| "encodeURIComponent (c # cs) =
     (if uri_unreserved c then map_option ((#) c) (encodeURIComponent cs)
      else if low_surrogate c then None
      else if high_surrogate c then
        (case cs of
           d # ds \<Rightarrow> if low_surrogate d
             then map_option ((@) (percent_encode ((c - 55296) * 1024 + (d - 56320) + 65536))) (encodeURIComponent ds)
             else None
         | [] \<Rightarrow> None)
      else map_option ((@) (percent_encode c)) (encodeURIComponent cs))"

section \<open>Git\<close>

text \<open>The answer of \<open>spawnSync\<close>: the program could not be run, or it ended with a status and an output.\<close>

datatype git_answer = Git_missing | Git_exit nat jstring

type_synonym git = "jstring list \<Rightarrow> git_answer"

datatype evidence_error =
    Git_unavailable
  | Git_command "jstring list"
  | Type_unsupported
  | Repository_required
  | Revision_invalid
  | Url_invalid
  | Root_required
  | Root_unreadable
  | Root_not_top_level jstring
  | Origin_mismatch jstring
  | Revision_unavailable jstring
  | Path_invalid nat nat
  | Path_escape nat nat
  | Line_required nat nat
  | Line_range_invalid nat nat
  | File_missing nat nat
  | File_unreadable nat nat
  | Line_out_of_range nat nat real nat
  | Uri_malformed
  | Source_required

definition runGit :: "git \<Rightarrow> jstring list \<Rightarrow> evidence_error + nat \<times> jstring" where
  "runGit git args = (case git args of Git_missing \<Rightarrow> Inl Git_unavailable | Git_exit status out \<Rightarrow> Inr (status, out))"

definition gitValue :: "git \<Rightarrow> jstring list \<Rightarrow> evidence_error + jstring" where
  "gitValue git args =
     bind_result (runGit git args) (\<lambda>(status, out). if status \<noteq> 0 then Inl (Git_command args) else Inr (js_trim out))"

section \<open>Sources\<close>

definition verifiedSourcePath :: "nat \<Rightarrow> nat \<Rightarrow> jstring \<Rightarrow> evidence_error + jstring" where
  "verifiedSourcePath i j sourcePath =
     (if sourcePath = [] \<or> hd sourcePath = 47 \<or> 92 \<in> set sourcePath \<or> (\<exists>c\<in>set sourcePath. control_character c)
      then Inl (Path_invalid i j)
      else
        let segments = split_on 47 sourcePath
        in if (\<exists>s\<in>set segments. s = [] \<or> s = js ''.'' \<or> s = js ''..'') \<or> hd segments = js ''.git''
           then Inl (Path_escape i j)
           else Inr (join [47] segments))"

fun line_terminators :: "jstring \<Rightarrow> nat" where
  "line_terminators [] = 0"
| "line_terminators (c # cs) =
     (if c = 13 \<and> cs \<noteq> [] \<and> hd cs = 10 then line_terminators cs
      else if c = 10 \<or> c = 13 then Suc (line_terminators cs)
      else line_terminators cs)"

definition sourceLineCount :: "jstring \<Rightarrow> nat" where
  "sourceLineCount content =
     (if content = [] then 0
      else Suc (line_terminators content) - (if last content = 10 \<or> last content = 13 then 1 else 0))"

record verified_source =
  vs_path :: jstring
  vs_line :: "real option"
  vs_endLine :: "real option"
  vs_label :: "json option"
  vs_href :: jstring

text \<open>A number member when it is truthy.\<close>

definition line_member :: "json \<Rightarrow> jstring \<Rightarrow> real option" where
  "line_member v k = (case get v k of Some (JNum n) \<Rightarrow> if n \<noteq> 0 then Some n else None | _ \<Rightarrow> None)"

fun encode_segments :: "jstring list \<Rightarrow> jstring list option" where
  "encode_segments [] = Some []"
| "encode_segments (s # ss) =
     Option.bind (encodeURIComponent s) (\<lambda>e. map_option ((#) e) (encode_segments ss))"

definition line_fragment :: "(real \<Rightarrow> jstring) \<Rightarrow> real option \<Rightarrow> real option \<Rightarrow> jstring" where
  "line_fragment nt line endLine =
     (case line of None \<Rightarrow> []
      | Some l \<Rightarrow> js ''#L'' @ nt l @
          (case endLine of None \<Rightarrow> [] | Some e \<Rightarrow> if e \<noteq> l then js ''-L'' @ nt e else []))"

definition sourceHref ::
  "(real \<Rightarrow> jstring) \<Rightarrow> jstring \<Rightarrow> jstring \<Rightarrow> jstring \<Rightarrow> real option \<Rightarrow> real option \<Rightarrow> evidence_error + jstring" where
  "sourceHref nt repositoryUrl revision path line endLine =
     (case encode_segments (split_on 47 path) of
        None \<Rightarrow> Inl Uri_malformed
      | Some encoded \<Rightarrow>
          Inr (repositoryUrl @ js ''/blob/'' @ revision @ js ''/'' @ join [47] encoded @ line_fragment nt line endLine))"

text \<open>The check of the requested line against the file at the revision.\<close>

definition verify_line ::
  "git \<Rightarrow> jstring \<Rightarrow> nat \<Rightarrow> nat \<Rightarrow> real option \<Rightarrow> real option \<Rightarrow> evidence_error + unit" where
  "verify_line git object i j line endLine =
     (case line of
        None \<Rightarrow> Inr ()
      | Some l \<Rightarrow>
          bind_result (runGit git [js ''show'', object]) (\<lambda>(status, content).
            if status \<noteq> 0 then Inl (File_unreadable i j)
            else
              let lineCount = sourceLineCount content;
                  requestedLine = (case endLine of Some e \<Rightarrow> e | None \<Rightarrow> l)
              in throw_if (real lineCount < requestedLine) (Line_out_of_range i j requestedLine lineCount)))"

definition source_object :: "jstring \<Rightarrow> jstring \<Rightarrow> jstring" where
  "source_object revision path = revision @ js '':'' @ path"

definition verify_source ::
  "git \<Rightarrow> (real \<Rightarrow> jstring) \<Rightarrow> jstring \<Rightarrow> jstring \<Rightarrow> nat \<Rightarrow> nat \<times> json \<Rightarrow> evidence_error + verified_source" where
  "verify_source git nt url revision i = (\<lambda>(j, authored).
     bind_result (verifiedSourcePath i j (text_member authored (js ''path''))) (\<lambda>path.
     let line = line_member authored (js ''line''); endLine = line_member authored (js ''end_line'');
         label = (case get authored (js ''label'') of Some v \<Rightarrow> if truthy_value v then Some v else None | None \<Rightarrow> None);
         object = source_object revision path
     in bind_result (throw_if (endLine \<noteq> None \<and> line = None) (Line_required i j)) (\<lambda>_.
        bind_result (throw_if (\<exists>e l. endLine = Some e \<and> line = Some l \<and> e < l) (Line_range_invalid i j)) (\<lambda>_.
        bind_result (runGit git [js ''cat-file'', js ''-t'', object]) (\<lambda>(status, out).
        bind_result (throw_if (status \<noteq> 0 \<or> js_trim out \<noteq> js ''blob'') (File_missing i j)) (\<lambda>_.
        bind_result (verify_line git object i j line endLine) (\<lambda>_.
        bind_result (sourceHref nt url revision path line endLine) (\<lambda>href.
          Inr \<lparr>vs_path = path, vs_line = line, vs_endLine = endLine, vs_label = label, vs_href = href\<rparr>))))))))"

fun verify_sources ::
  "git \<Rightarrow> (real \<Rightarrow> jstring) \<Rightarrow> jstring \<Rightarrow> jstring \<Rightarrow> nat \<Rightarrow> (nat \<times> json) list \<Rightarrow> evidence_error + verified_source list" where
  "verify_sources git nt url revision i [] = Inr []"
| "verify_sources git nt url revision i (s # ss) =
     bind_result (verify_source git nt url revision i s) (\<lambda>v.
     bind_result (verify_sources git nt url revision i ss) (\<lambda>vs. Inr (v # vs)))"

type_synonym evidence_nodes = "jstring \<Rightarrow> verified_source list option"

fun verify_components ::
  "git \<Rightarrow> (real \<Rightarrow> jstring) \<Rightarrow> jstring \<Rightarrow> jstring \<Rightarrow> (nat \<times> json) list \<Rightarrow> evidence_nodes \<times> nat \<Rightarrow>
   evidence_error + evidence_nodes \<times> nat" where
  "verify_components git nt url revision [] acc = Inr acc"
| "verify_components git nt url revision ((i, component) # cs) (nodes, referenceCount) =
     (let sources = items_of (get component (js ''sources''))
      in if sources = [] then verify_components git nt url revision cs (nodes, referenceCount)
         else bind_result (verify_sources git nt url revision i (enumerate 0 sources)) (\<lambda>verified.
           verify_components git nt url revision cs
             (nodes(text_member component (js ''id'') \<mapsto> verified), referenceCount + length verified)))"

section \<open>The receipt\<close>

record evidence_receipt =
  er_url :: jstring
  er_revision :: jstring
  er_shortRevision :: jstring
  er_referenceCount :: nat
  er_nodes :: evidence_nodes

definition hasRepositoryEvidence :: "jstring \<Rightarrow> json \<Rightarrow> bool" where
  "hasRepositoryEvidence diagramType diagram \<longleftrightarrow>
     diagramType = js ''architecture'' \<and>
     ((case get_opt (get diagram (js ''meta'')) (js ''repository'') of Some r \<Rightarrow> truthy_value r | None \<Rightarrow> False) \<or>
      (\<exists>c\<in>set (items_of (get diagram (js ''components''))). items_of (get c (js ''sources'')) \<noteq> []))"

text \<open>The local checkout: its root is the top level of a Git repository with the authored origin and revision.\<close>

definition verify_checkout ::
  "(jstring \<Rightarrow> git) \<Rightarrow> (jstring \<Rightarrow> jstring option) \<Rightarrow> (jstring \<Rightarrow> jstring) \<Rightarrow> jstring option \<Rightarrow> jstring \<Rightarrow> jstring \<Rightarrow>
   evidence_error + git" where
  "verify_checkout runIn realpath lower authoredSlug repoRootInput revision =
     (case realpath repoRootInput of
        None \<Rightarrow> Inl Root_unreadable
      | Some realRoot \<Rightarrow>
          let git = runIn realRoot
          in bind_result (gitValue git [js ''rev-parse'', js ''--show-toplevel'']) (\<lambda>gitRoot.
             case realpath gitRoot of
               None \<Rightarrow> Inl Root_unreadable
             | Some topLevel \<Rightarrow>
                 bind_result (throw_if (topLevel \<noteq> realRoot) (Root_not_top_level gitRoot)) (\<lambda>_.
                 bind_result (gitValue git [js ''remote'', js ''get-url'', js ''origin'']) (\<lambda>origin.
                 bind_result (throw_if (githubSlug lower origin \<noteq> authoredSlug) (Origin_mismatch origin)) (\<lambda>_.
                 bind_result (runGit git [js ''cat-file'', js ''-e'', revision @ js ''^{commit}'']) (\<lambda>(status, _).
                   if status \<noteq> 0 then Inl (Revision_unavailable revision) else Inr git))))))"

definition verifyRepositoryEvidence ::
  "(jstring \<Rightarrow> git) \<Rightarrow> (jstring \<Rightarrow> jstring option) \<Rightarrow> (jstring \<Rightarrow> jstring) \<Rightarrow> (real \<Rightarrow> jstring) \<Rightarrow>
   jstring \<Rightarrow> json \<Rightarrow> jstring option \<Rightarrow> evidence_error + evidence_receipt option" where
  "verifyRepositoryEvidence runIn realpath lower nt diagramType diagram repoRootInput =
     (if \<not> hasRepositoryEvidence diagramType diagram then Inr None
      else if diagramType \<noteq> js ''architecture'' then Inl Type_unsupported
      else case get_opt (get diagram (js ''meta'')) (js ''repository'') of
        None \<Rightarrow> Inl Repository_required
      | Some repository \<Rightarrow>
          if \<not> truthy_value repository then Inl Repository_required
          else
            let authoredUrl = text_member repository (js ''url'');
                authoredSlug = githubSlug lower authoredUrl;
                revision = map ascii_lower (text_member repository (js ''revision''));
                url = strip_slash (strip_git authoredUrl)
            in bind_result (throw_if (\<not> evidence_sha (text_member repository (js ''revision''))) Revision_invalid) (\<lambda>_.
               bind_result (throw_if (authoredSlug = None \<or> take 19 authoredUrl \<noteq> js ''https://github.com/'') Url_invalid) (\<lambda>_.
               bind_result (throw_if (\<not> truthy repoRootInput) Root_required) (\<lambda>_.
               bind_result (verify_checkout runIn realpath lower authoredSlug (the repoRootInput) revision) (\<lambda>git.
               bind_result (verify_components git nt url revision (enumerate 0 (items_of (get diagram (js ''components''))))
                   (Map.empty, 0)) (\<lambda>(nodes, referenceCount).
               bind_result (throw_if (referenceCount = 0) Source_required) (\<lambda>_.
                 Inr (Some \<lparr>er_url = url, er_revision = revision, er_shortRevision = take 7 revision,
                   er_referenceCount = referenceCount, er_nodes = nodes\<rparr>))))))))"

end
