(* ===== verification/Output_Path.thy ===== *)
theory Output_Path
  imports Json
begin

text \<open>
  Where a command may write (\<open>renderers/shared/output-path.mjs\<close>): paths that need not exist yet are resolved
  through symbolic links, compared with the inputs and the other outputs, and confined when a document names
  them.

  \<^item> Paths are those of a POSIX system; an absolute path is the list of its segments. \<open>lstat\<close>, \<open>stat\<close> and
    \<open>realpath\<close> are a record of functions, the answers to the probes of a directory and the two text foldings
    are arguments.
  \<^item> The probes of a directory depend on the directory only, so their cache is left out.
  \<^item> An error keeps its code and the paths of its details; wording is not modelled.
\<close>

section \<open>Paths\<close>

text \<open>An absolute path is the list of its segments below the root.\<close>

type_synonym segments = "jstring list"

definition is_absolute :: "jstring \<Rightarrow> bool" where
  "is_absolute p \<longleftrightarrow> p \<noteq> [] \<and> hd p = 47"

text \<open>\<open>path.win32.isAbsolute\<close>: a separator, or a drive letter with a separator.\<close>

definition win32_absolute :: "jstring \<Rightarrow> bool" where
  "win32_absolute p \<longleftrightarrow>
     p \<noteq> [] \<and> (p ! 0 \<in> {47, 92} \<or>
       2 < length p \<and> ascii_lower (p ! 0) \<in> {97..122} \<and> p ! 1 = 58 \<and> p ! 2 \<in> {47, 92})"

definition DOT :: jstring where "DOT = js ''.''"
definition DOTDOT :: jstring where "DOTDOT = js ''..''"

text \<open>The segments without empty and dot segments; the parent of the root is the root.\<close>

fun normal_segments :: "segments \<Rightarrow> segments \<Rightarrow> segments" where
  "normal_segments acc [] = rev acc"
| "normal_segments acc (s # ss) =
     (if s = [] \<or> s = DOT then normal_segments acc ss
      else if s = DOTDOT then normal_segments (tl acc) ss
      else normal_segments (s # acc) ss)"

definition path_resolve :: "segments \<Rightarrow> jstring \<Rightarrow> segments" where
  "path_resolve base p = normal_segments [] (if is_absolute p then split_on 47 p else base @ split_on 47 p)"

fun path_relative :: "segments \<Rightarrow> segments \<Rightarrow> segments" where
  "path_relative (a # as) (b # bs) =
     (if a = b then path_relative as bs else replicate (Suc (length as)) DOTDOT @ b # bs)"
| "path_relative [] bs = bs"
| "path_relative as [] = replicate (length as) DOTDOT"

text \<open>\<open>path.extname\<close>: from the last dot of the last segment, unless the segment starts with it or is \<open>..\<close>.\<close>

definition segment_extname :: "jstring \<Rightarrow> jstring" where
  "segment_extname s =
     (let stem = rev (dropWhile (\<lambda>c. c \<noteq> 46) (rev s))
      in if length stem \<le> 1 \<or> s = DOTDOT then [] else drop (length stem - 1) s)"

definition extname :: "jstring \<Rightarrow> jstring" where
  "extname p = (case filter (\<lambda>s. s \<noteq> []) (split_on 47 p) of [] \<Rightarrow> [] | ss \<Rightarrow> segment_extname (last ss))"

definition segments_extname :: "segments \<Rightarrow> jstring" where
  "segments_extname ss = (if ss = [] then [] else segment_extname (last ss))"

definition is_html :: "jstring \<Rightarrow> bool" where
  "is_html e \<longleftrightarrow> map ascii_lower e = js ''.html''"

section \<open>The file system\<close>

text \<open>\<open>Missing\<close> is ENOENT or ENOTDIR, \<open>Failed\<close> any other error.\<close>

datatype 'a answer = Answer 'a | Missing | Failed

datatype link_status = Link_to jstring | Not_link

record file_stat =
  st_dev :: nat
  st_ino :: nat
  st_directory :: bool

record file_system =
  fs_lstat :: "segments \<Rightarrow> link_status answer"
  fs_realpath :: "segments \<Rightarrow> segments answer"
  fs_stat :: "segments \<Rightarrow> file_stat answer"

section \<open>Future paths\<close>

definition MAX_SYMLINK_DEPTH :: nat where "MAX_SYMLINK_DEPTH = 64"

datatype output_error =
    Symlink_cycle segments segments
  | Path_failure
  | Meta_absolute
  | Meta_extension
  | Meta_resolved_extension
  | Meta_outside_cwd
  | Input_alias segments segments
  | Target_alias segments segments

text \<open>The path a link leads to, followed by the remaining segments.\<close>

definition link_target :: "segments \<Rightarrow> jstring \<Rightarrow> segments \<Rightarrow> segments" where
  "link_target candidate link rest = normal_segments [] (path_resolve (butlast candidate) link @ rest)"

text \<open>
  \<open>canonicalize\<close> at \<open>current\<close>, with the segments that remain; \<open>None\<close> means that it does not return. A cycle
  is reported with the candidate that was one link too many.
\<close>

partial_function (option) canonicalize ::
  "file_system \<Rightarrow> nat \<Rightarrow> segments \<Rightarrow> segments \<Rightarrow> (segments option + segments) option" where
  "canonicalize fs depth current rest =
     (case rest of
        [] \<Rightarrow> Some (Inr current)
      | s # rest' \<Rightarrow>
          (case fs_lstat fs (current @ [s]) of
             Missing \<Rightarrow> Some (Inr (normal_segments [] (current @ rest)))
           | Failed \<Rightarrow> Some (Inl None)
           | Answer (Link_to link) \<Rightarrow>
               (if MAX_SYMLINK_DEPTH \<le> depth then Some (Inl (Some (current @ [s])))
                else canonicalize fs (Suc depth) [] (link_target (current @ [s]) link rest'))
           | Answer Not_link \<Rightarrow>
               (case fs_realpath fs (current @ [s]) of
                  Answer found \<Rightarrow> canonicalize fs depth found rest'
                | _ \<Rightarrow> Some (Inl None))))"

definition canonicalFuturePath :: "file_system \<Rightarrow> segments \<Rightarrow> output_error + segments" where
  "canonicalFuturePath fs target =
     (case the (canonicalize fs 0 [] target) of
        Inr p \<Rightarrow> Inr p
      | Inl None \<Rightarrow> Inl Path_failure
      | Inl (Some candidate) \<Rightarrow> Inl (Symlink_cycle target candidate))"

section \<open>Aliases\<close>

definition sameFileIdentity :: "file_stat \<Rightarrow> file_stat \<Rightarrow> bool" where
  "sameFileIdentity left right \<longleftrightarrow>
     st_ino left \<noteq> 0 \<and> st_ino right \<noteq> 0 \<and> st_dev left = st_dev right \<and> st_ino left = st_ino right"

record directory =
  dir_path :: segments
  dir_stat :: file_stat

text \<open>The loop of \<open>nearestExistingDirectory\<close>; an error other than a missing entry ends it.\<close>

function nearest_from :: "file_system \<Rightarrow> segments \<Rightarrow> directory option" where
  "nearest_from fs dir =
     (let up = (if dir = [] then None else nearest_from fs (butlast dir))
      in case fs_stat fs dir of
           Answer stat \<Rightarrow>
             (if \<not> st_directory stat then up
              else case fs_realpath fs dir of
                Answer found \<Rightarrow> Some \<lparr>dir_path = found, dir_stat = stat\<rparr>
              | Missing \<Rightarrow> up
              | Failed \<Rightarrow> None)
         | Missing \<Rightarrow> up
         | Failed \<Rightarrow> None)"
  by pat_completeness auto

termination
  by (relation "measure (\<lambda>(fs, dir). length dir)") auto

definition nearestExistingDirectory :: "file_system \<Rightarrow> segments \<Rightarrow> directory option" where
  "nearestExistingDirectory fs target = nearest_from fs (butlast target)"

text \<open>
  The answers to one probe: whether the probe file was created, closed and removed, what \<open>statSync\<close> said of the
  two names, and whether their real paths are equal (\<open>None\<close> when that failed).
\<close>

record probe_answers =
  pa_created :: bool
  pa_closed :: bool
  pa_closed_late :: bool
  pa_authored :: "file_stat answer"
  pa_lookup :: "file_stat answer"
  pa_same_real :: "bool option"
  pa_removed :: bool

definition probeNamesAlias :: "probe_answers \<Rightarrow> bool option" where
  "probeNamesAlias a =
     (if \<not> pa_created a then None
      else
        let outcome = (if \<not> pa_closed a then None
              else case pa_authored a of
                Missing \<Rightarrow> Some False
              | Failed \<Rightarrow> None
              | Answer authored \<Rightarrow>
                  (case pa_lookup a of
                     Missing \<Rightarrow> Some False
                   | Failed \<Rightarrow> None
                   | Answer lookup \<Rightarrow> if sameFileIdentity authored lookup then Some True else pa_same_real a));
            cleaned = (pa_closed a \<or> pa_closed_late a) \<and> pa_removed a
        in if cleaned then outcome else None)"

record directory_semantics =
  ds_caseInsensitive :: "bool option"
  ds_normalizationInsensitive :: "bool option"

text \<open>The two probes of a directory; their answers depend on the directory, so the cache of them is left out.\<close>

definition probeDirectorySemantics :: "(directory \<Rightarrow> probe_answers \<times> probe_answers) \<Rightarrow> directory \<Rightarrow> directory_semantics" where
  "probeDirectorySemantics probe d =
     \<lparr>ds_caseInsensitive = probeNamesAlias (fst (probe d)), ds_normalizationInsensitive = probeNamesAlias (snd (probe d))\<rparr>"

definition sameDirectory :: "directory \<Rightarrow> directory \<Rightarrow> bool" where
  "sameDirectory left right \<longleftrightarrow> dir_path left = dir_path right \<or> sameFileIdentity (dir_stat left) (dir_stat right)"

text \<open>\<open>lower\<close> is \<open>toLowerCase\<close> and \<open>nfc\<close> the normalization of a text.\<close>

record text_folds =
  tf_lower :: "jstring \<Rightarrow> jstring"
  tf_nfc :: "jstring \<Rightarrow> jstring"

definition comparable_name :: "text_folds \<Rightarrow> directory_semantics \<Rightarrow> segments \<Rightarrow> jstring" where
  "comparable_name folds semantics relative =
     (let s = join [47] relative;
          s = (if ds_normalizationInsensitive semantics \<noteq> Some False then tf_nfc folds s else s)
      in if ds_caseInsensitive semantics \<noteq> Some False then tf_lower folds s else s)"

definition futurePathsAlias ::
  "file_system \<Rightarrow> (directory \<Rightarrow> probe_answers \<times> probe_answers) \<Rightarrow> text_folds \<Rightarrow> segments \<Rightarrow> segments \<Rightarrow> output_error + bool" where
  "futurePathsAlias fs probe folds leftPath rightPath =
     bind_result (canonicalFuturePath fs leftPath) (\<lambda>left.
     bind_result (canonicalFuturePath fs rightPath) (\<lambda>right.
       if left = right then Inr True
       else case (nearestExistingDirectory fs left, nearestExistingDirectory fs right) of
         (Some leftDirectory, Some rightDirectory) \<Rightarrow>
           if \<not> sameDirectory leftDirectory rightDirectory then Inr False
           else
             let semantics = probeDirectorySemantics probe leftDirectory
             in Inr (comparable_name folds semantics (path_relative (dir_path leftDirectory) left) =
                  comparable_name folds semantics (path_relative (dir_path rightDirectory) right))
       | _ \<Rightarrow> Inr False))"

definition pathsAlias ::
  "file_system \<Rightarrow> (directory \<Rightarrow> probe_answers \<times> probe_answers) \<Rightarrow> text_folds \<Rightarrow> segments \<Rightarrow> segments \<Rightarrow> output_error + bool" where
  "pathsAlias fs probe folds leftPath rightPath =
     bind_result (futurePathsAlias fs probe folds leftPath rightPath) (\<lambda>alias.
       if alias then Inr True
       else case (fs_stat fs leftPath, fs_stat fs rightPath) of
         (Answer left, Answer right) \<Rightarrow> Inr (sameFileIdentity left right)
       | _ \<Rightarrow> Inr False)"

definition pathIsInside :: "file_system \<Rightarrow> segments \<Rightarrow> segments \<Rightarrow> output_error + bool" where
  "pathIsInside fs directoryPath targetPath =
     bind_result (canonicalFuturePath fs directoryPath) (\<lambda>dir.
     bind_result (canonicalFuturePath fs targetPath) (\<lambda>target.
       let relative = path_relative dir target
       in Inr (relative = [] \<or> hd relative \<noteq> DOTDOT)))"

section \<open>Resolving an output path\<close>

datatype output_source = Cli_source | Meta_source | Default_source

record output_request =
  or_requestedOutput :: "jstring option"
  or_authoredOutput :: "jstring option"
  or_defaultOutput :: jstring
  or_inputPaths :: "segments list"
  or_otherOutputPaths :: "segments list"
  or_cwd :: segments

definition raw_output :: "output_request \<Rightarrow> jstring \<times> output_source" where
  "raw_output r =
     (if truthy (or_requestedOutput r) then (the (or_requestedOutput r), Cli_source)
      else if truthy (or_authoredOutput r) then (the (or_authoredOutput r), Meta_source)
      else (or_defaultOutput r, Default_source))"

text \<open>The checks that only an output named by the document has to pass.\<close>

definition check_meta_output :: "file_system \<Rightarrow> segments \<Rightarrow> jstring \<Rightarrow> segments \<Rightarrow> output_error + unit" where
  "check_meta_output fs cwd raw outputPath =
     bind_result (throw_if (is_absolute raw \<or> win32_absolute raw) Meta_absolute) (\<lambda>_.
     bind_result (throw_if (\<not> is_html (extname raw)) Meta_extension) (\<lambda>_.
     bind_result (canonicalFuturePath fs outputPath) (\<lambda>canonical.
     bind_result (throw_if (\<not> is_html (segments_extname canonical)) Meta_resolved_extension) (\<lambda>_.
     bind_result (pathIsInside fs cwd outputPath) (\<lambda>inside.
       throw_if (\<not> inside) Meta_outside_cwd)))))"

fun check_aliases ::
  "(segments \<Rightarrow> segments \<Rightarrow> output_error + bool) \<Rightarrow> (segments \<Rightarrow> segments \<Rightarrow> output_error) \<Rightarrow> segments \<Rightarrow> segments list \<Rightarrow>
   output_error + unit" where
  "check_aliases alias problem outputPath [] = Inr ()"
| "check_aliases alias problem outputPath (p # ps) =
     bind_result (alias outputPath p) (\<lambda>b. if b then Inl (problem outputPath p) else check_aliases alias problem outputPath ps)"

definition resolveOutputPath ::
  "file_system \<Rightarrow> (directory \<Rightarrow> probe_answers \<times> probe_answers) \<Rightarrow> text_folds \<Rightarrow> output_request \<Rightarrow>
   output_error + segments \<times> output_source" where
  "resolveOutputPath fs probe folds r =
     (let (raw, source) = raw_output r;
          outputPath = path_resolve (or_cwd r) raw
      in bind_result (if source = Meta_source then check_meta_output fs (or_cwd r) raw outputPath else Inr ()) (\<lambda>_.
         bind_result (check_aliases (pathsAlias fs probe folds) Input_alias outputPath (or_inputPaths r)) (\<lambda>_.
         bind_result (check_aliases (pathsAlias fs probe folds) Target_alias outputPath (or_otherOutputPaths r)) (\<lambda>_.
           Inr (outputPath, source)))))"

end
