(* ===== verification/Output_Laws.thy ===== *)
theory Output_Laws
  imports Output_Path "HOL-Library.Sublist"
begin

text \<open>
  The resolution of a path ends; its result is a canonical path, which is a fixed point of the resolution;
  and what resolving an output path rules out.
\<close>

section \<open>Paths\<close>

definition normal_path :: "segments \<Rightarrow> bool" where
  "normal_path p \<longleftrightarrow> (\<forall>s\<in>set p. s \<noteq> [] \<and> s \<noteq> DOT \<and> s \<noteq> DOTDOT)"

lemma normal_path_simps [simp]:
  "normal_path []" "normal_path (s # p) \<longleftrightarrow> s \<noteq> [] \<and> s \<noteq> DOT \<and> s \<noteq> DOTDOT \<and> normal_path p"
  "normal_path (p @ q) \<longleftrightarrow> normal_path p \<and> normal_path q"
  by (auto simp: normal_path_def)

lemma normal_segments_normal [simp]: "normal_path acc \<Longrightarrow> normal_path (normal_segments acc ss)"
proof (induction acc ss rule: normal_segments.induct)
  case (2 acc s ss)
  have "normal_path (tl acc)" using 2(4) by (cases acc) auto
  then show ?case using 2 by auto
qed (simp add: normal_path_def)

lemma normal_segments_id: "normal_path ss \<Longrightarrow> normal_segments acc ss = rev acc @ ss"
  by (induction ss arbitrary: acc) auto

lemma path_resolve_normal [simp]: "normal_path (path_resolve base p)"
  by (simp add: path_resolve_def)

lemma link_target_normal [simp]: "normal_path (link_target candidate link rest)"
  by (simp add: link_target_def)

text \<open>The relative path leaves the directory exactly when the directory is no prefix of the target.\<close>

lemma path_relative_prefix:
  assumes "normal_path target"
  shows "path_relative dir target = [] \<or> hd (path_relative dir target) \<noteq> DOTDOT \<longleftrightarrow> prefix dir target"
  using assms
proof (induction dir target rule: path_relative.induct)
  case (1 a as b bs)
  then show ?case by auto
next
  case (2 bs)
  then show ?case by (cases bs) auto
qed auto

section \<open>Termination\<close>

lemma canonicalize_Nil [simp]: "canonicalize fs depth current [] = Some (Inr current)"
  by (subst canonicalize.simps) simp

lemma canonicalize_Cons:
  "canonicalize fs depth current (s # rest) =
     (case fs_lstat fs (current @ [s]) of
        Missing \<Rightarrow> Some (Inr (normal_segments [] (current @ s # rest)))
      | Failed \<Rightarrow> Some (Inl None)
      | Answer (Link_to link) \<Rightarrow>
          (if MAX_SYMLINK_DEPTH \<le> depth then Some (Inl (Some (current @ [s])))
           else canonicalize fs (Suc depth) [] (link_target (current @ [s]) link rest))
      | Answer Not_link \<Rightarrow>
          (case fs_realpath fs (current @ [s]) of
             Answer found \<Rightarrow> canonicalize fs depth found rest
           | _ \<Rightarrow> Some (Inl None)))"
  by (subst canonicalize.simps) (simp split: answer.splits link_status.splits)

lemma canonicalize_total: "\<exists>r. canonicalize fs depth current rest = Some r"
proof (induction "MAX_SYMLINK_DEPTH - depth" arbitrary: depth current rest rule: less_induct)
  case less
  show ?case
  proof (induction rest arbitrary: current)
    case (Cons s rest)
    have "MAX_SYMLINK_DEPTH \<le> depth \<or> (\<exists>r. canonicalize fs (Suc depth) [] (link_target (current @ [s]) link rest) = Some r)" for link
      using less [of "Suc depth"] by fastforce
    then show ?case using Cons by (auto simp: canonicalize_Cons split: answer.splits link_status.splits)
  qed simp
qed

section \<open>Canonical paths\<close>

text \<open>A real path: none of its prefixes is a link, and each is its own real path.\<close>

definition real_path :: "file_system \<Rightarrow> segments \<Rightarrow> bool" where
  "real_path fs p \<longleftrightarrow> normal_path p \<and>
     (\<forall>n < length p. fs_lstat fs (take (Suc n) p) = Answer Not_link \<and> fs_realpath fs (take (Suc n) p) = Answer (take (Suc n) p))"

text \<open>What the code relies on: \<open>realpath\<close> returns real paths, and nothing exists below a missing entry.\<close>

definition lawful_paths :: "file_system \<Rightarrow> bool" where
  "lawful_paths fs \<longleftrightarrow>
     (\<forall>p q. fs_realpath fs p = Answer q \<longrightarrow> real_path fs q) \<and>
     (\<forall>p s. fs_lstat fs p = Missing \<longrightarrow> fs_lstat fs (p @ [s]) = Missing)"

text \<open>A canonical path: a real path followed by segments that do not exist.\<close>

definition canonical_path :: "file_system \<Rightarrow> segments \<Rightarrow> bool" where
  "canonical_path fs p \<longleftrightarrow>
     (\<exists>q rest. p = q @ rest \<and> real_path fs q \<and> normal_path rest \<and>
        (\<forall>n < length rest. fs_lstat fs (q @ take (Suc n) rest) = Missing))"

lemma real_path_Nil [simp]: "real_path fs []"
  by (simp add: real_path_def)

lemma real_path_snoc:
  "real_path fs (p @ [s]) \<longleftrightarrow> real_path fs p \<and> s \<noteq> [] \<and> s \<noteq> DOT \<and> s \<noteq> DOTDOT \<and>
     fs_lstat fs (p @ [s]) = Answer Not_link \<and> fs_realpath fs (p @ [s]) = Answer (p @ [s])"
  by (auto simp: real_path_def less_Suc_eq)

lemma missing_below:
  assumes "lawful_paths fs" "fs_lstat fs (p @ [s]) = Missing"
  shows "fs_lstat fs (p @ s # take n rest) = Missing"
proof (induction n)
  case (Suc n)
  show ?case
  proof (cases "n < length rest")
    case True
    then have "p @ s # take (Suc n) rest = (p @ s # take n rest) @ [rest ! n]" by (simp add: take_Suc_conv_app_nth)
    then show ?thesis using Suc assms(1) by (metis lawful_paths_def)
  next
    case False
    then show ?thesis using Suc by simp
  qed
qed (use assms in simp)

lemma canonicalize_canonical:
  assumes "lawful_paths fs"
  shows "canonicalize fs depth current rest = Some (Inr p) \<Longrightarrow> real_path fs current \<Longrightarrow> normal_path rest \<Longrightarrow> canonical_path fs p"
proof (induction "MAX_SYMLINK_DEPTH - depth" arbitrary: depth current rest rule: less_induct)
  case less
  note outer = less.hyps
  show ?case using less.prems
  proof (induction rest arbitrary: current)
    case Nil
    then show ?case unfolding canonical_path_def by (intro exI [of _ current] exI [of _ "[]"]) simp
  next
    case (Cons s rest)
    have n: "normal_path current" using Cons.prems(2) by (simp add: real_path_def)
    show ?case
    proof (cases "fs_lstat fs (current @ [s])")
      case Missing
      then have "p = current @ s # rest" using Cons.prems n by (simp add: canonicalize_Cons normal_segments_id)
      moreover have "fs_lstat fs (current @ take (Suc m) (s # rest)) = Missing" for m
        using missing_below [OF assms Missing] by simp
      ultimately show ?thesis using Cons.prems unfolding canonical_path_def
        by (intro exI [of _ current] exI [of _ "s # rest"]) simp
    next
      case (Answer l)
      show ?thesis
      proof (cases l)
        case (Link_to link)
        then have "\<not> MAX_SYMLINK_DEPTH \<le> depth"
          "canonicalize fs (Suc depth) [] (link_target (current @ [s]) link rest) = Some (Inr p)"
          using Cons.prems(1) Answer by (auto simp: canonicalize_Cons split: if_splits)
        then show ?thesis using outer [of "Suc depth" "[]"] by simp
      next
        case Not_link
        then obtain found where f: "fs_realpath fs (current @ [s]) = Answer found" "canonicalize fs depth found rest = Some (Inr p)"
          using Cons.prems(1) Answer by (auto simp: canonicalize_Cons split: answer.splits)
        then have "real_path fs found" using assms by (simp add: lawful_paths_def)
        then show ?thesis using Cons.IH [OF f(2)] Cons.prems(3) by simp
      qed
    qed (use Cons.prems in \<open>simp add: canonicalize_Cons\<close>)
  qed
qed

lemma canonicalize_walk:
  assumes "real_path fs (current @ q)"
  shows "canonicalize fs depth current (q @ rest) = canonicalize fs depth (current @ q) rest"
  using assms
proof (induction q arbitrary: current)
  case (Cons s q)
  have "take (Suc (length current)) (current @ s # q) = current @ [s]" by simp
  then have "fs_lstat fs (current @ [s]) = Answer Not_link" "fs_realpath fs (current @ [s]) = Answer (current @ [s])"
    using Cons.prems unfolding real_path_def by (metis add_Suc_right length_Cons length_append less_add_Suc1)+
  then show ?case using Cons.IH [of "current @ [s]"] Cons.prems by (simp add: canonicalize_Cons)
qed simp

lemma canonical_fixed:
  assumes "canonical_path fs p"
  shows "canonicalFuturePath fs p = Inr p"
proof -
  obtain q rest where p: "p = q @ rest" and q: "real_path fs q" and n: "normal_path rest"
    and m: "\<forall>n < length rest. fs_lstat fs (q @ take (Suc n) rest) = Missing"
    using assms by (auto simp: canonical_path_def)
  have "canonicalize fs 0 q rest = Some (Inr (q @ rest))"
  proof (cases rest)
    case (Cons s r)
    then have "fs_lstat fs (q @ [s]) = Missing" using m by force
    moreover have "normal_path q" using q by (simp add: real_path_def)
    ultimately show ?thesis using Cons n by (simp add: canonicalize_Cons normal_segments_id)
  qed simp
  then show ?thesis using canonicalize_walk [of fs "[]" q 0 rest] q p by (simp add: canonicalFuturePath_def)
qed

lemma canonicalFuturePath_Inr:
  assumes "lawful_paths fs" "normal_path target" "canonicalFuturePath fs target = Inr p"
  shows "canonical_path fs p"
proof -
  obtain r where "canonicalize fs 0 [] target = Some r" using canonicalize_total by blast
  then have "canonicalize fs 0 [] target = Some (Inr p)" using assms(3)
    by (auto simp: canonicalFuturePath_def split: sum.splits option.splits)
  then show ?thesis using canonicalize_canonical [OF assms(1)] assms(2) by simp
qed

lemma canonical_path_normal: "canonical_path fs p \<Longrightarrow> normal_path p"
  by (auto simp: canonical_path_def real_path_def)

lemma canonical_no_links:
  assumes "canonical_path fs p" "n < length p"
  shows "fs_lstat fs (take (Suc n) p) \<noteq> Answer (Link_to link)"
proof -
  obtain q rest where p: "p = q @ rest" and q: "real_path fs q"
    and m: "\<forall>n < length rest. fs_lstat fs (q @ take (Suc n) rest) = Missing"
    using assms(1) by (auto simp: canonical_path_def)
  show ?thesis
  proof (cases "n < length q")
    case True
    then show ?thesis using q p by (simp add: real_path_def)
  next
    case False
    then have "take (Suc n) p = q @ take (Suc (n - length q)) rest" "n - length q < length rest"
      using p assms(2) by (simp_all add: Suc_diff_le)
    then show ?thesis using m by simp
  qed
qed

section \<open>Resolution\<close>

definition same_file :: "file_system \<Rightarrow> segments \<Rightarrow> segments \<Rightarrow> bool" where
  "same_file fs p q \<longleftrightarrow> (\<exists>s t. fs_stat fs p = Answer s \<and> fs_stat fs q = Answer t \<and> sameFileIdentity s t)"

definition distinct_outputs :: "file_system \<Rightarrow> segments \<Rightarrow> segments \<Rightarrow> bool" where
  "distinct_outputs fs p q \<longleftrightarrow>
     (\<exists>l r. canonicalFuturePath fs p = Inr l \<and> canonicalFuturePath fs q = Inr r \<and> l \<noteq> r) \<and> \<not> same_file fs p q"

lemma pathsAlias_False: "pathsAlias fs probe folds p q = Inr False \<Longrightarrow> distinct_outputs fs p q"
  by (auto simp: pathsAlias_def futurePathsAlias_def bind_result_Inr distinct_outputs_def same_file_def split: if_splits answer.splits)

lemma check_aliases_Inr:
  "check_aliases alias problem p qs = Inr () \<longleftrightarrow> (\<forall>q\<in>set qs. alias p q = Inr False)"
  by (induction qs) (auto simp: bind_result_Inr split: if_splits)

lemma pathIsInside_Inr:
  assumes "lawful_paths fs" "normal_path target"
  shows "pathIsInside fs dir target = Inr b \<longleftrightarrow>
    (\<exists>d t. canonicalFuturePath fs dir = Inr d \<and> canonicalFuturePath fs target = Inr t \<and> b = prefix d t)"
proof -
  have "(path_relative d t = [] \<or> hd (path_relative d t) \<noteq> DOTDOT) = prefix d t" if "canonicalFuturePath fs target = Inr t" for d t
    using path_relative_prefix canonical_path_normal canonicalFuturePath_Inr [OF assms that] by blast
  then show ?thesis by (auto simp: pathIsInside_def bind_result_Inr Let_def)
qed

lemma check_meta_output_Inr:
  assumes "lawful_paths fs" "normal_path p" "check_meta_output fs cwd raw p = Inr ()"
  shows "\<not> is_absolute raw \<and> (\<exists>d q. canonicalFuturePath fs cwd = Inr d \<and> canonicalFuturePath fs p = Inr q \<and> prefix d q \<and>
    is_html (segments_extname q))"
  using assms(3) by (auto simp: check_meta_output_def bind_result_Inr pathIsInside_Inr [OF assms(1,2)])

lemma resolveOutputPath_Inr:
  assumes "resolveOutputPath fs probe folds r = Inr (p, source)"
  shows "p = path_resolve (or_cwd r) (fst (raw_output r)) \<and> source = snd (raw_output r) \<and>
    (source = Meta_source \<longrightarrow> check_meta_output fs (or_cwd r) (fst (raw_output r)) p = Inr ()) \<and>
    (\<forall>q \<in> set (or_inputPaths r) \<union> set (or_otherOutputPaths r). pathsAlias fs probe folds p q = Inr False)"
  using assms by (auto simp: resolveOutputPath_def Let_def split_beta bind_result_Inr check_aliases_Inr split: if_splits)

section \<open>Properties\<close>


text \<open>
  C8: An accepted output path cannot do harm: it denotes neither an input nor another output, neither by its
  canonical path nor by the identity of the file, and one named by the document is relative and stays, with
  every symbolic link resolved, inside the working directory and keeps the extension of a page. The
  canonical path is a fixed point of the resolution and no prefix of it is a link.
\<close>

theorem resolved_output_is_safe:
  assumes "lawful_paths fs" "resolveOutputPath fs probe folds r = Inr (p, source)"
  shows "(\<forall>q \<in> set (or_inputPaths r) \<union> set (or_otherOutputPaths r). distinct_outputs fs p q) \<and>
    (source = Meta_source \<longrightarrow> \<not> is_absolute (the (or_authoredOutput r)) \<and>
      (\<exists>d q. canonicalFuturePath fs (or_cwd r) = Inr d \<and> canonicalFuturePath fs p = Inr q \<and> prefix d q \<and>
        is_html (segments_extname q) \<and> canonicalFuturePath fs q = Inr q \<and>
        (\<forall>n < length q. \<forall>link. fs_lstat fs (take (Suc n) q) \<noteq> Answer (Link_to link))))"
proof -
  note res = resolveOutputPath_Inr [OF assms(2)]
  have n: "normal_path p" using res by simp
  have "source = Meta_source \<Longrightarrow> fst (raw_output r) = the (or_authoredOutput r)"
    using res by (auto simp: raw_output_def split: if_splits)
  then show ?thesis
    using res pathsAlias_False check_meta_output_Inr [OF assms(1) n] canonicalFuturePath_Inr [OF assms(1) n] canonical_fixed
      canonical_no_links by (metis (no_types, lifting))
qed

text \<open>A working directory \<open>w\<close> with a link \<open>a\<close> to its directory \<open>b\<close>.\<close>

definition sample_paths :: file_system where
  "sample_paths = (let names = [[], [js ''w''], [js ''w'', js ''b'']] in
     \<lparr>fs_lstat = (\<lambda>p. if p = [js ''w'', js ''a''] then Answer (Link_to (js ''b'')) else if p \<in> set names then Answer Not_link else Missing),
      fs_realpath = (\<lambda>p. if p \<in> set names then Answer p else Missing),
      fs_stat = (\<lambda>p. if p \<in> set names then Answer \<lparr>st_dev = 1, st_ino = 7, st_directory = True\<rparr> else Missing)\<rparr>)"

definition sample_request :: output_request where
  "sample_request = \<lparr>or_requestedOutput = None, or_authoredOutput = Some (js ''a/o.html''), or_defaultOutput = js ''x'',
     or_inputPaths = [], or_otherOutputPaths = [], or_cwd = [js ''w'']\<rparr>"

lemma sample_lawful: "lawful_paths sample_paths"
proof -
  have "fs_lstat sample_paths (p @ [s]) = Missing" if m: "fs_lstat sample_paths p = Missing" for p s
  proof (rule ccontr)
    assume "fs_lstat sample_paths (p @ [s]) \<noteq> Missing"
    then have "p @ [s] \<in> {[js ''w''], [js ''w'', js ''b''], [js ''w'', js ''a'']}"
      by (auto simp: sample_paths_def Let_def simp del: js_simps split: if_splits)
    then have "p \<in> {[], [js ''w'']}" by (auto simp: append_eq_Cons_conv simp del: js_simps)
    then show False using m by (auto simp: sample_paths_def Let_def)
  qed
  moreover have "real_path sample_paths q" if "q \<in> {[], [js ''w''], [js ''w'', js ''b'']}" for q
    using that by (auto simp: real_path_def sample_paths_def Let_def less_Suc_eq DOT_def DOTDOT_def)
  moreover have "q \<in> {[], [js ''w''], [js ''w'', js ''b'']}" if "fs_realpath sample_paths p = Answer q" for p q
    using that by (simp add: sample_paths_def Let_def del: js_simps split: if_splits)
  ultimately show ?thesis unfolding lawful_paths_def by blast
qed

lemma sample_resolves:
  "resolveOutputPath sample_paths probe folds sample_request = Inr ([js ''w'', js ''a'', js ''o.html''], Meta_source)"
  "canonicalFuturePath sample_paths [js ''w'', js ''a'', js ''o.html''] = Inr [js ''w'', js ''b'', js ''o.html'']"
proof -
  have 1: "canonicalFuturePath sample_paths [js ''w'', js ''a'', js ''o.html''] = Inr [js ''w'', js ''b'', js ''o.html'']"
    by (simp add: canonicalFuturePath_def canonicalize_Cons sample_paths_def Let_def link_target_def path_resolve_def is_absolute_def
        MAX_SYMLINK_DEPTH_def DOT_def DOTDOT_def)
  have 2: "canonicalFuturePath sample_paths [js ''w''] = Inr [js ''w'']"
    by (simp add: canonicalFuturePath_def canonicalize_Cons sample_paths_def Let_def)
  have 3: "path_resolve [js ''w''] (js ''a/o.html'') = [js ''w'', js ''a'', js ''o.html'']"
    by (simp add: path_resolve_def is_absolute_def DOT_def DOTDOT_def)
  have 4: "check_meta_output sample_paths [js ''w''] (js ''a/o.html'') [js ''w'', js ''a'', js ''o.html''] = Inr ()"
    unfolding check_meta_output_def pathIsInside_def 1 2
    by (simp add: is_absolute_def win32_absolute_def is_html_def extname_def segments_extname_def segment_extname_def
        ascii_lower_def throw_if_def DOTDOT_def)
  show "resolveOutputPath sample_paths probe folds sample_request = Inr ([js ''w'', js ''a'', js ''o.html''], Meta_source)"
  proof -
    have "js ''a/o.html'' \<noteq> []" by simp
    then show ?thesis using 3 4 by (simp add: resolveOutputPath_def raw_output_def sample_request_def Let_def del: js_simps)
  qed
  show "canonicalFuturePath sample_paths [js ''w'', js ''a'', js ''o.html''] = Inr [js ''w'', js ''b'', js ''o.html'']" by (rule 1)
qed

theorem resolved_output_witness:
  "\<exists>d q. canonicalFuturePath sample_paths (or_cwd sample_request) = Inr d \<and>
     canonicalFuturePath sample_paths [js ''w'', js ''a'', js ''o.html''] = Inr q \<and> prefix d q \<and> canonicalFuturePath sample_paths q = Inr q"
  using resolved_output_is_safe [OF sample_lawful sample_resolves(1)] by blast

end
