(* ===== verification/Evidence_Laws.thy ===== *)
theory Evidence_Laws
  imports Repository_Evidence Output_Laws
begin

text \<open>
  What verified evidence promises: each loop of the verification keeps that the references collected so far
  are grounded in the checkout.
\<close>

section \<open>What a verified reference promises\<close>

















section \<open>Property\<close>







end
