(* ===== verification/Workflow_Semantics.thy ===== *)
theory Workflow_Semantics
  imports Canonical_Json Legend_Layout Route_Gates
begin

text \<open>
  The documents of the workflow compiler (\<open>renderers/workflow/workflow-compiler.mjs\<close>): lanes, nodes, edges, phases,
  groups and the semantic contract; the canonical order that \<open>canonicalReadableWorkflow\<close> gives a readable
  document, and \<open>semanticContractDiagnostics\<close> with its breadth-first search. The documents have passed the
  schema, so required members are present; ids contain no NUL character (the separator of the code's edge
  keys). A diagnostic is its code, subject and evidence; its texts are left out.
\<close>

section \<open>Documents\<close>

record workflow_lane =
  wl_id :: jstring
  wl_label :: jstring
  wl_exception :: bool

record workflow_node =
  wn_id :: jstring
  wn_type :: jstring
  wn_lane :: jstring
  wn_col :: nat
  wn_width :: "real option"
  wn_height :: "real option"
  wn_yOffset :: "real option"
  wn_tag :: "jstring option"
  wn_label :: jstring
  wn_sublabel :: "jstring option"

text \<open>\<open>we_key\<close> is the text \<open>stableValueKey\<close> gives the whole edge.\<close>

record workflow_edge =
  we_id :: "jstring option"
  we_from :: jstring
  we_to :: jstring
  we_label :: "jstring option"
  we_route :: "jstring option"
  we_fromSide :: "side option"
  we_toSide :: "side option"
  we_via :: "point list option"
  we_labelAt :: "point option"
  we_labelDx :: "real option"
  we_labelDy :: "real option"
  we_labelSegment :: "int option"
  we_channelX :: "real option"
  we_channelY :: "real option"
  we_bias :: "real option"
  we_role :: "jstring option"
  we_key :: jstring

text \<open>A phase or a group; a phase has no lane.\<close>

record workflow_span =
  ws_id :: jstring
  ws_label :: jstring
  ws_lane :: jstring
  ws_fromCol :: nat
  ws_toCol :: nat

record semantic_relation =
  sr_from :: jstring
  sr_to :: jstring

record semantic_checks =
  sc_allowedRoots :: "jstring list option"
  sc_allowedTerminals :: "jstring list option"
  sc_requiredEdges :: "semantic_relation list"
  sc_requiredPaths :: "semantic_relation list"

text \<open>\<open>wf_profile\<close> is the quality profile of the document once the option of the call has replaced it.\<close>

record workflow =
  wf_schemaVersion :: nat
  wf_profile :: "jstring option"
  wf_viewBox :: "(real \<times> real) option"
  wf_legend :: "legend_config option"
  wf_lanes :: "workflow_lane list"
  wf_nodes :: "workflow_node list"
  wf_edges :: "workflow_edge list"
  wf_phases :: "workflow_span list"
  wf_groups :: "workflow_span list"
  wf_mainPath :: "jstring list option"
  wf_semanticChecks :: "semantic_checks option"

section \<open>The canonical order\<close>

text \<open>The position of a lane in the document; the last lane with an id counts.\<close>

definition laneOrder :: "workflow \<Rightarrow> jstring \<Rightarrow> nat option" where
  "laneOrder w = map_of (rev (zip (map wl_id (wf_lanes w)) [0..<length (wf_lanes w)]))"

definition MAX_SAFE_INTEGER :: nat where "MAX_SAFE_INTEGER = 2 ^ 53 - 1"

definition lane_rank :: "workflow \<Rightarrow> jstring \<Rightarrow> nat" where
  "lane_rank w lane = (case laneOrder w lane of None \<Rightarrow> MAX_SAFE_INTEGER | Some i \<Rightarrow> i)"

definition stableText :: "jstring option \<Rightarrow> jstring" where
  "stableText v = (case v of None \<Rightarrow> [] | Some s \<Rightarrow> s)"

definition node_key :: "workflow \<Rightarrow> workflow_node \<Rightarrow> nat \<times> nat \<times> jstring" where
  "node_key w n = (lane_rank w (wn_lane n), wn_col n, wn_id n)"

definition edge_key :: "workflow_edge \<Rightarrow> jstring \<times> jstring \<times> jstring \<times> jstring \<times> jstring \<times> jstring" where
  "edge_key e = (stableText (we_id e), we_from e, we_to e, stableText (we_label e), stableText (we_route e), we_key e)"

definition phase_key :: "workflow_span \<Rightarrow> nat \<times> nat \<times> jstring" where
  "phase_key p = (ws_fromCol p, ws_toCol p, ws_id p)"

definition group_key :: "workflow \<Rightarrow> workflow_span \<Rightarrow> nat \<times> nat \<times> nat \<times> jstring" where
  "group_key w g = (lane_rank w (ws_lane g), ws_fromCol g, ws_toCol g, ws_id g)"

definition canonicalReadableWorkflow :: "workflow \<Rightarrow> workflow" where
  "canonicalReadableWorkflow w =
     (if wf_schemaVersion w \<noteq> 2 then w
      else w\<lparr>wf_nodes := sort_key (node_key w) (wf_nodes w), wf_edges := sort_key edge_key (wf_edges w),
             wf_phases := sort_key phase_key (wf_phases w), wf_groups := sort_key (group_key w) (wf_groups w)\<rparr>)"

section \<open>The semantic contract\<close>

text \<open>\<open>[...new Set(values)]\<close>: the first occurrence of each value.\<close>

definition first_occurrences :: "'a list \<Rightarrow> 'a list" where
  "first_occurrences vs = rev (remdups (rev vs))"

definition node_ids :: "workflow \<Rightarrow> jstring list" where
  "node_ids w = first_occurrences (map wn_id (wf_nodes w))"

text \<open>The edges between nodes of the document.\<close>

definition known_edges :: "workflow \<Rightarrow> (jstring \<times> jstring) list" where
  "known_edges w = filter (\<lambda>(f, t). f \<in> set (node_ids w) \<and> t \<in> set (node_ids w)) (map (\<lambda>e. (we_from e, we_to e)) (wf_edges w))"

definition incoming :: "workflow \<Rightarrow> jstring \<Rightarrow> nat" where
  "incoming w i = length (filter (\<lambda>(f, t). t = i) (known_edges w))"

definition outgoing :: "workflow \<Rightarrow> jstring \<Rightarrow> nat" where
  "outgoing w i = length (filter (\<lambda>(f, t). f = i) (known_edges w))"

definition adjacency :: "(jstring \<times> jstring) list \<Rightarrow> jstring \<Rightarrow> jstring list" where
  "adjacency es i = first_occurrences (map snd (filter (\<lambda>(f, t). f = i) es))"

text \<open>The inner loop of \<open>node_reachable\<close>: the visited nodes and the pending ones.\<close>

definition visit :: "jstring list \<times> jstring list \<Rightarrow> jstring \<Rightarrow> jstring list \<times> jstring list" where
  "visit = (\<lambda>(visited, pending) i. if i \<in> set visited then (visited, pending) else (visited @ [i], pending @ [i]))"

lemma visit_loop:
  "foldl visit (visited, pending) is = (visited', pending') \<Longrightarrow>
   set visited' = set visited \<union> set is \<and> set pending' = set pending \<union> (set is - set visited) \<and>
   (visited' = visited \<and> pending' = pending \<or> set visited \<subset> set visited')"
proof (induction "is" arbitrary: visited pending)
  case (Cons i "is")
  show ?case
  proof (cases "i \<in> set visited")
    case True
    then have "foldl visit (visited, pending) is = (visited', pending')" using Cons.prems by (simp add: visit_def)
    from Cons.IH [OF this] show ?thesis using True by auto
  next
    case False
    then have "foldl visit (visited @ [i], pending @ [i]) is = (visited', pending')" using Cons.prems by (simp add: visit_def)
    from Cons.IH [OF this] show ?thesis using False by auto
  qed
qed simp

text \<open>Either a node is visited for the first time or the pending nodes become fewer.\<close>

lemma visit_progress:
  assumes "foldl visit (visited, pending) (adjacency es current) = (visited', pending')"
  shows "card (snd ` set es - set visited') < card (snd ` set es - set visited) \<or> visited' = visited \<and> pending' = pending"
proof (cases "set visited \<subset> set visited'")
  case True
  note v = visit_loop [OF assms]
  have sub: "set (adjacency es current) \<subseteq> snd ` set es" by (auto simp: adjacency_def first_occurrences_def)
  obtain i where "i \<in> set visited'" "i \<notin> set visited" using True by blast
  moreover from this have "i \<in> snd ` set es" using v sub by blast
  ultimately have "card (snd ` set es - set visited') < card (snd ` set es - set visited)"
    using True by (intro psubset_card_mono) auto
  then show ?thesis by simp
qed (use visit_loop [OF assms] in blast)

function reach_loop :: "(jstring \<times> jstring) list \<Rightarrow> jstring \<Rightarrow> jstring list \<Rightarrow> jstring list \<Rightarrow> bool" where
  "reach_loop es to visited [] = False"
| "reach_loop es to visited (current # pending) =
     (if current = to then True
      else case foldl visit (visited, pending) (adjacency es current) of
        (visited', pending') \<Rightarrow> reach_loop es to visited' pending')"
  by pat_completeness auto

termination
proof (relation "measures [\<lambda>(es, to, visited, pending). card (snd ` set es - set visited), \<lambda>(es, to, visited, pending). length pending]", goal_cases)
  case (2 es to visited current pending visited' pending')
  then have "foldl visit (visited, pending) (adjacency es current) = (visited', pending')" by simp
  from visit_progress [OF this] show ?case by auto
qed simp

definition node_reachable :: "(jstring \<times> jstring) list \<Rightarrow> jstring \<Rightarrow> jstring \<Rightarrow> bool" where
  "node_reachable es from to = reach_loop es to [from] [from]"

text \<open>The diagnostics with their subject and evidence.\<close>

datatype semantic_diagnostic =
    Semantic_node_reference jstring jstring "jstring list"
  | Unexpected_root jstring "jstring list"
  | Unexpected_terminal jstring "jstring list"
  | Required_edge semantic_relation nat nat
  | Required_path semantic_relation nat "jstring list"

definition indexed :: "string \<Rightarrow> nat \<Rightarrow> jstring" where
  "indexed path i = js path @ decimal i"

definition relation_references :: "string \<Rightarrow> semantic_relation list \<Rightarrow> (jstring \<times> jstring) list" where
  "relation_references path rs =
     concat (map (\<lambda>(i, r). [(sr_from r, indexed path i @ js ''/from''), (sr_to r, indexed path i @ js ''/to'')]) (enumerate 0 rs))"

definition id_references :: "string \<Rightarrow> jstring list option \<Rightarrow> (jstring \<times> jstring) list" where
  "id_references path ids = map (\<lambda>(i, v). (v, indexed path i)) (enumerate 0 (case ids of None \<Rightarrow> [] | Some vs \<Rightarrow> vs))"

definition referenced_nodes :: "semantic_checks \<Rightarrow> (jstring \<times> jstring) list" where
  "referenced_nodes c =
     id_references ''/semanticChecks/allowedRoots/'' (sc_allowedRoots c) @
     id_references ''/semanticChecks/allowedTerminals/'' (sc_allowedTerminals c) @
     relation_references ''/semanticChecks/requiredEdges/'' (sc_requiredEdges c) @
     relation_references ''/semanticChecks/requiredPaths/'' (sc_requiredPaths c)"

definition reference_diagnostics :: "workflow \<Rightarrow> semantic_checks \<Rightarrow> semantic_diagnostic list" where
  "reference_diagnostics w c =
     map (\<lambda>(i, path). Semantic_node_reference i path (node_ids w)) (filter (\<lambda>(i, path). i \<notin> set (node_ids w)) (referenced_nodes c))"

definition root_diagnostics :: "workflow \<Rightarrow> semantic_checks \<Rightarrow> semantic_diagnostic list" where
  "root_diagnostics w c =
     (case sc_allowedRoots c of None \<Rightarrow> []
      | Some allowed \<Rightarrow> map (\<lambda>i. Unexpected_root i (first_occurrences allowed))
          (filter (\<lambda>i. \<not> (0 < incoming w i \<or> i \<in> set allowed)) (node_ids w)))"

definition terminal_diagnostics :: "workflow \<Rightarrow> semantic_checks \<Rightarrow> semantic_diagnostic list" where
  "terminal_diagnostics w c =
     (case sc_allowedTerminals c of None \<Rightarrow> []
      | Some allowed \<Rightarrow> map (\<lambda>i. Unexpected_terminal i (first_occurrences allowed))
          (filter (\<lambda>i. \<not> (0 < outgoing w i \<or> i \<in> set allowed)) (node_ids w)))"

definition required_edge_diagnostics :: "workflow \<Rightarrow> semantic_checks \<Rightarrow> semantic_diagnostic list" where
  "required_edge_diagnostics w c =
     map (\<lambda>(i, r). Required_edge r i (length (wf_edges w)))
       (filter (\<lambda>(i, r). (sr_from r, sr_to r) \<notin> set (map (\<lambda>e. (we_from e, we_to e)) (wf_edges w))) (enumerate 0 (sc_requiredEdges c)))"

definition required_path_diagnostics :: "workflow \<Rightarrow> semantic_checks \<Rightarrow> semantic_diagnostic list" where
  "required_path_diagnostics w c =
     map (\<lambda>(i, r). Required_path r i (first_occurrences (sr_from r # adjacency (known_edges w) (sr_from r))))
       (filter (\<lambda>(i, r). \<not> node_reachable (known_edges w) (sr_from r) (sr_to r)) (enumerate 0 (sc_requiredPaths c)))"

definition semanticContractDiagnostics :: "workflow \<Rightarrow> semantic_diagnostic list" where
  "semanticContractDiagnostics w =
     (case wf_semanticChecks w of
        None \<Rightarrow> []
      | Some c \<Rightarrow>
          if reference_diagnostics w c \<noteq> [] then reference_diagnostics w c
          else root_diagnostics w c @ terminal_diagnostics w c @ required_edge_diagnostics w c @ required_path_diagnostics w c)"

end
