(* ===== verification/Workflow_Layout.thy ===== *)
theory Workflow_Layout
  imports Workflow_Semantics
begin

text \<open>
  The first stage of the workflow compiler: the fixed measures of \<open>createLegacyLayout\<close> and the layout that
  \<open>createReadableLayout\<close> solves, namely the constraints between ranks, the relaxation that gives the columns,
  the shifts that keep nodes and group frames inside the lane, and the widths and heights of the lanes. Numbers
  are the reals. The provenance texts of the constraints (their contributors) are left out.
\<close>

section \<open>Measures\<close>

definition LEGACY_COLUMN_CENTERS :: "real list" where
  "LEGACY_COLUMN_CENTERS = [88, 220, 300, 430, 500, 625]"

definition EPSILON :: real where "EPSILON = 1 / 10000"

definition authoredNodeWidth :: "workflow_node \<Rightarrow> real" where
  "authoredNodeWidth n = (case wn_width n of Some v \<Rightarrow> v | None \<Rightarrow> 92)"

definition authoredNodeHeight :: "workflow_node \<Rightarrow> real" where
  "authoredNodeHeight n = (case wn_height n of Some v \<Rightarrow> v | None \<Rightarrow> if truthy (wn_tag n) then 68 else 52)"

definition y_offset :: "workflow_node \<Rightarrow> real" where
  "y_offset n = (case wn_yOffset n of Some v \<Rightarrow> v | None \<Rightarrow> 0)"

definition workflowLabelWidth :: "jstring \<Rightarrow> real" where
  "workflowLabelWidth label = max 30 (real (textUnits label) * (48 / 10) + 10)"

definition in_span :: "workflow_span \<Rightarrow> workflow_node \<Rightarrow> bool" where
  "in_span g n \<longleftrightarrow> wn_lane n = ws_lane g \<and> ws_fromCol g \<le> wn_col n \<and> wn_col n \<le> ws_toCol g"

record span_bounds =
  sb_x :: real
  sb_width :: real
  sb_cx :: real

definition readableGroupBounds :: "workflow \<Rightarrow> workflow_span \<Rightarrow> real list \<Rightarrow> span_bounds" where
  "readableGroupBounds w g colXs =
     (if ws_toCol g < ws_fromCol g \<or> length colXs \<le> ws_toCol g then \<lparr>sb_x = 0, sb_width = 0, sb_cx = 0\<rparr>
      else
        let start = colXs ! ws_fromCol g - 50; end_x = colXs ! ws_toCol g + 50;
            naturalWidth = end_x - start;
            minimumWidth = real (textUnits (ws_label g)) * (56 / 10) + 20;
            width = max naturalWidth minimumWidth;
            left = (if ws_fromCol g = ws_toCol g \<and> naturalWidth < width then start else (start + end_x - width) / 2);
            members = filter (\<lambda>n. in_span g n \<and> wn_col n < length colXs) (wf_nodes w);
            (left, right) = foldl (\<lambda>(l, r) n.
                (min l (colXs ! wn_col n - authoredNodeWidth n / 2 - 4), max r (colXs ! wn_col n + authoredNodeWidth n / 2 + 4)))
              (left, left + width) members
        in \<lparr>sb_x = left, sb_width = right - left, sb_cx = left + (right - left) / 2\<rparr>)"

definition verticalIntervalsOverlap :: "workflow_node \<Rightarrow> workflow_node \<Rightarrow> real \<Rightarrow> bool" where
  "verticalIntervalsOverlap a b clearance \<longleftrightarrow>
     \<bar>y_offset a - y_offset b\<bar> < authoredNodeHeight a / 2 + authoredNodeHeight b / 2 + clearance"

section \<open>Layouts\<close>

text \<open>What \<open>createLegacyLayout\<close> and \<open>createReadableLayout\<close> return; the readable heights are absent from the former.\<close>

record layout =
  ly_readable :: bool
  ly_laneX :: real
  ly_laneY :: real
  ly_laneW :: real
  ly_laneH :: real
  ly_laneHeights :: "real list option"
  ly_laneGap :: real
  ly_laneTitleH :: real
  ly_groupHeaderHeights :: "real list option"
  ly_groupFooterHeights :: "real list option"
  ly_colXs :: "real list"
  ly_nodeW :: real
  ly_nodeH :: real
  ly_defaultViewBoxWidth :: real
  ly_channelLabelEdgeKeys :: "jstring list"

definition createLegacyLayout :: layout where
  "createLegacyLayout = \<lparr>ly_readable = False, ly_laneX = 40, ly_laneY = 52, ly_laneW = 640, ly_laneH = 104, ly_laneHeights = None,
     ly_laneGap = 20, ly_laneTitleH = 30, ly_groupHeaderHeights = None, ly_groupFooterHeights = None, ly_colXs = LEGACY_COLUMN_CENTERS,
     ly_nodeW = 92, ly_nodeH = 52, ly_defaultViewBoxWidth = 720, ly_channelLabelEdgeKeys = []\<rparr>"

text \<open>Feedback of an earlier round: minimal gaps between ranks, by the order of their keys, and between lanes.\<close>

record layout_feedback =
  lf_rankGapMinimums :: "((nat \<times> nat) \<times> real) list"
  lf_laneGapMin :: "real option"

definition no_feedback :: layout_feedback where
  "no_feedback = \<lparr>lf_rankGapMinimums = [], lf_laneGapMin = None\<rparr>"

section \<open>Constraints between ranks\<close>

abbreviation columnCount :: nat where "columnCount \<equiv> 6"

record rank_constraint =
  rc_from :: nat
  rc_to :: nat
  rc_minimum :: real

definition baseline_constraints :: "rank_constraint list" where
  "baseline_constraints = map (\<lambda>col. \<lparr>rc_from = col, rc_to = Suc col, rc_minimum = 120\<rparr>) [0..<columnCount - 1]"

definition gap_constraints :: "layout_feedback \<Rightarrow> rank_constraint list" where
  "gap_constraints fb = map (\<lambda>((f, t), minimum). \<lparr>rc_from = f, rc_to = t, rc_minimum = minimum\<rparr>) (lf_rankGapMinimums fb)"

definition earlier_later :: "workflow_node \<Rightarrow> workflow_node \<Rightarrow> workflow_node \<times> workflow_node" where
  "earlier_later l r = (if wn_col l < wn_col r then (l, r) else (r, l))"

definition clearance_constraint :: "real \<Rightarrow> workflow_node \<times> workflow_node \<Rightarrow> rank_constraint" where
  "clearance_constraint gap = (\<lambda>(a, b).
     \<lparr>rc_from = wn_col a, rc_to = wn_col b, rc_minimum = authoredNodeWidth a / 2 + gap + authoredNodeWidth b / 2\<rparr>)"

definition pair_constraint :: "workflow_node \<times> workflow_node \<Rightarrow> rank_constraint option" where
  "pair_constraint = (\<lambda>(l, r).
     if wn_lane l \<noteq> wn_lane r \<or> wn_col l = wn_col r then None
     else if \<not> verticalIntervalsOverlap l r 8 then None
     else Some (clearance_constraint 8 (earlier_later l r)))"

definition node_constraints :: "workflow \<Rightarrow> rank_constraint list" where
  "node_constraints w = List.map_filter pair_constraint (ordered_pairs (wf_nodes w))"

definition nodesById :: "workflow \<Rightarrow> jstring \<Rightarrow> workflow_node option" where
  "nodesById w = map_of (rev (map (\<lambda>n. (wn_id n, n)) (wf_nodes w)))"

definition automatic_route :: "workflow_edge \<Rightarrow> bool" where
  "automatic_route e \<longleftrightarrow> \<not> truthy (we_route e) \<or> we_route e = Some (js ''auto'')"

text \<open>The ends of an edge that is drawn straight along its lane, the earlier one first.\<close>

definition direct_ends :: "workflow \<Rightarrow> workflow_edge \<Rightarrow> (workflow_node \<times> workflow_node) option" where
  "direct_ends w e =
     (case (nodesById w (we_from e), nodesById w (we_to e)) of
        (Some f, Some t) \<Rightarrow>
          if wn_lane f \<noteq> wn_lane t \<or> wn_col f = wn_col t then None
          else if we_via e \<noteq> None \<or> we_channelX e \<noteq> None \<or> we_channelY e \<noteq> None \<or>
              \<not> (automatic_route e \<or> we_route e = Some (js ''straight'')) then None
          else if y_offset f \<noteq> y_offset t then None
          else Some (earlier_later f t)
      | _ \<Rightarrow> None)"

definition labeled_clearance :: "workflow_edge \<Rightarrow> real" where
  "labeled_clearance e =
     (if truthy (we_label e) \<and> we_labelAt e = None then max 28 (workflowLabelWidth (the (we_label e)) + 8) else 28)"

definition prefers_channel :: "workflow_edge \<Rightarrow> bool" where
  "prefers_channel e \<longleftrightarrow>
     truthy (we_label e) \<and> we_labelAt e = None \<and> automatic_route e \<and> we_fromSide e = None \<and> we_toSide e = None \<and>
     we_channelX e = None \<and> we_channelY e = None \<and> 4 * 28 < max 0 (labeled_clearance e - 28)"

definition channelLabelEdgeKeys :: "workflow \<Rightarrow> jstring list" where
  "channelLabelEdgeKeys w =
     first_occurrences (map we_key (filter (\<lambda>e. direct_ends w e \<noteq> None \<and> prefers_channel e) (wf_edges w)))"

definition direct_constraints :: "workflow \<Rightarrow> rank_constraint list" where
  "direct_constraints w = List.map_filter (\<lambda>e. map_option (clearance_constraint 28) (direct_ends w e)) (wf_edges w)"

definition label_constraints :: "workflow \<Rightarrow> rank_constraint list" where
  "label_constraints w = List.map_filter (\<lambda>e.
     case direct_ends w e of
       None \<Rightarrow> None
     | Some ends \<Rightarrow>
         if \<not> prefers_channel e \<and> 28 < labeled_clearance e then Some (clearance_constraint (labeled_clearance e) ends) else None)
     (wf_edges w)"

text \<open>Phases and groups: \<open>slack\<close> is the room their label has around the column centers.\<close>

definition span_constraint :: "real \<Rightarrow> real \<Rightarrow> workflow_span \<Rightarrow> rank_constraint option" where
  "span_constraint padding slack s =
     (let minimumWidth = real (textUnits (ws_label s)) * (56 / 10) + padding
      in if ws_toCol s < ws_fromCol s \<or> columnCount \<le> ws_toCol s then None
         else if ws_fromCol s = ws_toCol s then
           (if ws_toCol s < columnCount - 1
            then Some \<lparr>rc_from = ws_toCol s, rc_to = Suc (ws_toCol s), rc_minimum = 120 + max 0 (minimumWidth - slack)\<rparr>
            else None)
         else Some \<lparr>rc_from = ws_fromCol s, rc_to = ws_toCol s, rc_minimum = max 0 (minimumWidth - slack)\<rparr>)"

definition rank_constraints :: "workflow \<Rightarrow> layout_feedback \<Rightarrow> rank_constraint list" where
  "rank_constraints w fb =
     baseline_constraints @ gap_constraints fb @ node_constraints w @ direct_constraints w @
     List.map_filter (span_constraint 8 92) (wf_phases w) @ List.map_filter (span_constraint 20 100) (wf_groups w)"

section \<open>Columns\<close>

definition valid_constraint :: "rank_constraint \<Rightarrow> bool" where
  "valid_constraint c \<longleftrightarrow> rc_from c < rc_to c \<and> rc_to c < columnCount"

definition constraint_key :: "rank_constraint \<Rightarrow> nat \<times> nat \<times> real" where
  "constraint_key c = (rc_to c, rc_from c, rc_minimum c)"

definition relax :: "nat \<Rightarrow> real list \<Rightarrow> rank_constraint \<Rightarrow> real list" where
  "relax to colXs c =
     (if rc_to c \<noteq> to then colXs
      else let candidate = colXs ! rc_from c + rc_minimum c
           in if colXs ! to + EPSILON < candidate then colXs[to := candidate] else colXs)"

definition start_columns :: "real list" where
  "start_columns = map (\<lambda>col. 94 + real col * 120) [0..<columnCount]"

definition solve_columns :: "rank_constraint list \<Rightarrow> real list" where
  "solve_columns constraints =
     (let ordered = sort_key constraint_key (filter valid_constraint constraints)
      in foldl (\<lambda>colXs to. foldl (relax to) colXs ordered) start_columns [1..<columnCount])"

text \<open>
  The first round uses the constraints of the ranks; when labels ask for room, the second and last round adds
  theirs.
\<close>

definition ranked_columns :: "workflow \<Rightarrow> layout_feedback \<Rightarrow> real list" where
  "ranked_columns w fb =
     (if label_constraints w = [] then solve_columns (rank_constraints w fb)
      else solve_columns (rank_constraints w fb @ label_constraints w))"

definition shift_columns :: "real \<Rightarrow> real list \<Rightarrow> real list" where
  "shift_columns d colXs = map (\<lambda>x. x + d) colXs"

definition first_extent :: "workflow \<Rightarrow> real" where
  "first_extent w = foldl (\<lambda>m n. max m (authoredNodeWidth n / 2)) 46 (filter (\<lambda>n. wn_col n = 0) (wf_nodes w))"

definition left_shift :: "workflow \<Rightarrow> real list \<Rightarrow> real" where
  "left_shift w colXs = max 0 (40 + 8 + first_extent w - colXs ! 0)"

definition unpinnedTopEndpointIds :: "workflow \<Rightarrow> jstring list" where
  "unpinnedTopEndpointIds w = first_occurrences (concat (map (\<lambda>e.
     if we_via e \<noteq> None \<or> we_channelX e \<noteq> None then []
     else (if we_fromSide e = Some TopS then [we_from e] else []) @
          (if we_toSide e = Some TopS then [we_to e] else [])) (wf_edges w)))"

definition two_digits :: "nat \<Rightarrow> jstring" where
  "two_digits n = (if length (decimal n) < 2 then js ''0'' @ decimal n else decimal n)"

definition lane_heading :: "jstring \<Rightarrow> workflow_lane \<Rightarrow> jstring" where
  "lane_heading p lane = p @ js '' / '' @ wl_label lane"

definition header_shift_of :: "workflow \<Rightarrow> real list \<Rightarrow> jstring \<Rightarrow> real option" where
  "header_shift_of w colXs i =
     (case nodesById w i of
        None \<Rightarrow> None
      | Some n \<Rightarrow>
          if columnCount \<le> wn_col n then None
          else case laneOrder w (wn_lane n) of
            None \<Rightarrow> None
          | Some position \<Rightarrow>
              let lane = wf_lanes w ! position;
                  p = (if wl_exception lane then js ''EX'' else two_digits (Suc position));
                  right = 40 + 14 + real (textUnits (lane_heading p lane)) * (62 / 10)
              in Some (right + 2 - colXs ! wn_col n))"

definition header_shift :: "workflow \<Rightarrow> real list \<Rightarrow> real" where
  "header_shift w colXs = foldl (\<lambda>shift required. if shift + EPSILON < required then required else shift) 0
     (List.map_filter (header_shift_of w colXs) (unpinnedTopEndpointIds w))"

definition phase_left :: "real list \<Rightarrow> workflow_span \<Rightarrow> real" where
  "phase_left colXs p =
     (let width = max (colXs ! ws_toCol p - colXs ! ws_fromCol p + 92) (real (textUnits (ws_label p)) * (56 / 10) + 8)
      in if ws_fromCol p = ws_toCol p then colXs ! ws_fromCol p - 46
         else (colXs ! ws_fromCol p + colXs ! ws_toCol p - width) / 2)"

definition channel_label_left :: "workflow \<Rightarrow> real list \<Rightarrow> workflow_edge \<Rightarrow> real option" where
  "channel_label_left w colXs e =
     (if we_key e \<notin> set (channelLabelEdgeKeys w) then None
      else case (nodesById w (we_from e), nodesById w (we_to e)) of
        (Some f, Some t) \<Rightarrow>
          Some ((colXs ! wn_col f + colXs ! wn_col t) / 2 - workflowLabelWidth (or_empty (we_label e)) / 2)
      | _ \<Rightarrow> None)"

definition content_left_shift :: "workflow \<Rightarrow> real list \<Rightarrow> real" where
  "content_left_shift w colXs =
     foldl max 0
       (map (\<lambda>left. 16 - left) (List.map_filter (channel_label_left w colXs) (wf_edges w)) @
        map (\<lambda>p. 16 - phase_left colXs p) (wf_phases w) @
        map (\<lambda>g. 44 - sb_x (readableGroupBounds w g colXs)) (wf_groups w))"

definition shifted_columns :: "workflow \<Rightarrow> real list \<Rightarrow> real list" where
  "shifted_columns w colXs =
     (let a = shift_columns (left_shift w colXs) colXs;
          b = (if 0 < header_shift w a then shift_columns (header_shift w a) a else a)
      in if 0 < content_left_shift w b then shift_columns (content_left_shift w b) b else b)"

section \<open>Lanes\<close>

definition farther :: "real \<Rightarrow> real \<Rightarrow> real" where
  "farther best v = (if best + EPSILON < v then v else best)"

definition rightmost_of :: "workflow \<Rightarrow> real list \<Rightarrow> real" where
  "rightmost_of w colXs =
     foldl farther
       (foldl farther (colXs ! (columnCount - 1) + 50)
         (map (\<lambda>n. colXs ! wn_col n + authoredNodeWidth n / 2) (filter (\<lambda>n. wn_col n < columnCount) (wf_nodes w))))
       (map (\<lambda>g. sb_x (readableGroupBounds w g colXs) + sb_width (readableGroupBounds w g colXs)) (wf_groups w))"

definition lane_label_width :: "workflow \<Rightarrow> real" where
  "lane_label_width w = foldl max 0
     (map (\<lambda>(i, lane). real (textUnits (lane_heading (two_digits (Suc i)) lane)) * (62 / 10) + 30) (enumerate 0 (wf_lanes w)))"

definition lane_width :: "workflow \<Rightarrow> real list \<Rightarrow> real" where
  "lane_width w colXs =
     max 640 (max (of_int \<lceil>rightmost_of w colXs - 40 + 8\<rceil>) (of_int \<lceil>lane_label_width w\<rceil>))"

definition max_vertical_extent :: "workflow \<Rightarrow> real" where
  "max_vertical_extent w = foldl farther 0 (map (\<lambda>n. authoredNodeHeight n / 2 + \<bar>y_offset n\<bar>) (wf_nodes w))"

definition base_content_height :: "workflow \<Rightarrow> real" where
  "base_content_height w = max 74 (of_int \<lceil>max_vertical_extent w * 2 + 8\<rceil>)"

text \<open>The room above and below the nodes of a lane that one node of a group asks for.\<close>

definition node_reserve :: "workflow \<Rightarrow> real list \<Rightarrow> workflow_span \<Rightarrow> workflow_node \<Rightarrow> real \<times> real" where
  "node_reserve w colXs g n =
     (let bounds = readableGroupBounds w g colXs; contentH = base_content_height w;
          labelLeft = sb_x bounds + 10;
          labelRight = labelLeft + real (textUnits (ws_label g)) * (56 / 10);
          nodeLeft = colXs ! wn_col n - authoredNodeWidth n / 2;
          nodeRight = colXs ! wn_col n + authoredNodeWidth n / 2;
          topOffset = (contentH - authoredNodeHeight n) / 2 + y_offset n;
          minimumTopOffset = (if labelLeft < nodeRight \<and> nodeLeft < labelRight then 11 else 9);
          bottomMargin = contentH - 4 - topOffset - authoredNodeHeight n
      in (of_int \<lceil>minimumTopOffset - topOffset\<rceil>, of_int \<lceil>1 - bottomMargin\<rceil>))"

definition lane_reserve :: "workflow \<Rightarrow> real list \<Rightarrow> workflow_lane \<Rightarrow> real \<times> real" where
  "lane_reserve w colXs lane =
     foldl (\<lambda>(header, footer) (h, f). (max header h, max footer f)) (0, 0)
       (concat (map (\<lambda>g. map (node_reserve w colXs g) (filter (\<lambda>n. in_span g n \<and> wn_col n < length colXs) (wf_nodes w)))
         (filter (\<lambda>g. ws_lane g = wl_id lane) (wf_groups w))))"

definition createReadableLayout :: "workflow \<Rightarrow> layout_feedback \<Rightarrow> layout" where
  "createReadableLayout w fb =
     (let colXs = shifted_columns w (ranked_columns w fb);
          laneW = lane_width w colXs;
          laneH = 30 + base_content_height w;
          reserves = map (lane_reserve w colXs) (wf_lanes w)
      in \<lparr>ly_readable = True, ly_laneX = 40, ly_laneY = 52, ly_laneW = laneW, ly_laneH = laneH,
          ly_laneHeights = Some (map (\<lambda>(header, footer). laneH + header + footer) reserves),
          ly_laneGap = max 20 (of_int \<lceil>case lf_laneGapMin fb of Some v \<Rightarrow> v | None \<Rightarrow> 0\<rceil>),
          ly_laneTitleH = 30, ly_groupHeaderHeights = Some (map fst reserves), ly_groupFooterHeights = Some (map snd reserves),
          ly_colXs = colXs, ly_nodeW = 92, ly_nodeH = 52, ly_defaultViewBoxWidth = 40 + laneW + 16,
          ly_channelLabelEdgeKeys = channelLabelEdgeKeys w\<rparr>)"

end
