(* ===== verification/Workflow_Scene.thy ===== *)
theory Workflow_Scene
  imports Workflow_Layout
begin

text \<open>
  The second stage of the workflow compiler: what the inner functions of \<open>compileWorkflowInternal\<close> share once
  the layout is fixed, namely the canvas, the lanes, the boxes of the nodes, the phase and group frames, the
  legend and the headings that routes have to avoid.
\<close>

section \<open>Scenes\<close>

text \<open>
  A scene is what the inner functions of \<open>compileWorkflowInternal\<close> share: the document, its layout and the
  entries of the legend. A lane that the document does not have gives \<open>NaN\<close> positions in the code and
  unspecified ones here.
\<close>

record scene =
  sn_workflow :: workflow
  sn_layout :: layout
  sn_legend :: "legend_entry list"

abbreviation readable :: "scene \<Rightarrow> bool" where
  "readable s \<equiv> wf_schemaVersion (sn_workflow s) = 2"

text \<open>\<open>label\<close> is the localised label of a kind.\<close>

definition LEGEND_CATALOG :: "(jstring \<Rightarrow> jstring) \<Rightarrow> catalog_entry list" where
  "LEGEND_CATALOG label = map (\<lambda>k. \<lparr>cg_kind = k, cg_label = label k, cg_interactive = None, cg_swatchWidth = None, cg_swatchGap = None\<rparr>)
     [js ''frontend'', js ''backend'', js ''security'', js ''messagebus'', js ''database'', js ''cloud'', js ''external'']"

definition scene_of :: "workflow \<Rightarrow> layout_feedback \<Rightarrow> (jstring \<Rightarrow> jstring) \<Rightarrow> scene" where
  "scene_of w fb label =
     \<lparr>sn_workflow = w, sn_layout = (if wf_schemaVersion w = 2 then createReadableLayout w fb else createLegacyLayout),
      sn_legend = resolveLegend (wf_legend w) (LEGEND_CATALOG label) (first_occurrences (map wn_type (wf_nodes w)))\<rparr>"

section \<open>The canvas\<close>

definition workflow_footprint :: "scene \<Rightarrow> real \<Rightarrow> footprint" where
  "workflow_footprint s width = legendFootprint (sn_legend s) width 7 7 22 8"

definition minimumCanvasWidth :: "scene \<Rightarrow> real" where
  "minimumCanvasWidth s =
     (if readable s
      then max (ly_defaultViewBoxWidth (sn_layout s)) (fp_minWidth (workflow_footprint s (real MAX_SAFE_INTEGER)) + 40)
      else ly_defaultViewBoxWidth (sn_layout s))"

text \<open>The width of \<open>viewBox\<close> before the measured content widens it.\<close>

definition view_width :: "scene \<Rightarrow> real" where
  "view_width s = (case wf_viewBox (sn_workflow s) of Some v \<Rightarrow> fst v | None \<Rightarrow> minimumCanvasWidth s)"

definition legendPackingWidth :: "scene \<Rightarrow> real" where
  "legendPackingWidth s =
     max 1 ((if readable s then minimumCanvasWidth s else view_width s) - 40)"

definition legendExtraHeight :: "scene \<Rightarrow> real" where
  "legendExtraHeight s = (if readable s then fp_extraHeight (workflow_footprint s (legendPackingWidth s)) else 0)"

text \<open>\<open>workflow.lanes?.length || 1\<close>.\<close>

definition lane_count :: "scene \<Rightarrow> nat" where
  "lane_count s = (if wf_lanes (sn_workflow s) = [] then 1 else length (wf_lanes (sn_workflow s)))"

definition autoHeight :: "scene \<Rightarrow> real" where
  "autoHeight s =
     ly_laneY (sn_layout s)
     + (case ly_laneHeights (sn_layout s) of Some hs \<Rightarrow> sum_list hs | None \<Rightarrow> real (lane_count s) * ly_laneH (sn_layout s))
     + (real (lane_count s) - 1) * ly_laneGap (sn_layout s) + 124 + legendExtraHeight s"

section \<open>Lanes\<close>

text \<open>\<open>laneHeights?.[index] ?? laneH\<close>.\<close>

definition height_at :: "real list option \<Rightarrow> real \<Rightarrow> nat option \<Rightarrow> real" where
  "height_at heights fallback i =
     (case (heights, i) of (Some hs, Some k) \<Rightarrow> if k < length hs then hs ! k else fallback | _ \<Rightarrow> fallback)"

definition laneIndex :: "scene \<Rightarrow> jstring \<Rightarrow> nat option" where
  "laneIndex s = laneOrder (sn_workflow s)"

definition lane_height_at :: "scene \<Rightarrow> nat option \<Rightarrow> real" where
  "lane_height_at s i = height_at (ly_laneHeights (sn_layout s)) (ly_laneH (sn_layout s)) i"

definition laneHeight :: "scene \<Rightarrow> jstring \<Rightarrow> real" where
  "laneHeight s i = lane_height_at s (laneIndex s i)"

definition laneGroupHeaderH :: "scene \<Rightarrow> jstring \<Rightarrow> real" where
  "laneGroupHeaderH s i = height_at (ly_groupHeaderHeights (sn_layout s)) 0 (laneIndex s i)"

definition laneGroupFooterH :: "scene \<Rightarrow> jstring \<Rightarrow> real" where
  "laneGroupFooterH s i = height_at (ly_groupFooterHeights (sn_layout s)) 0 (laneIndex s i)"

definition lane_top_at :: "scene \<Rightarrow> nat \<Rightarrow> real" where
  "lane_top_at s k =
     ly_laneY (sn_layout s) + sum_list (map (\<lambda>j. lane_height_at s (Some j)) [0..<k]) + real k * ly_laneGap (sn_layout s)"

definition laneTop :: "scene \<Rightarrow> jstring \<Rightarrow> real" where
  "laneTop s i = lane_top_at s (the (laneIndex s i))"

definition lastLaneBottom :: "scene \<Rightarrow> real" where
  "lastLaneBottom s =
     (let n = length (wf_lanes (sn_workflow s))
      in ly_laneY (sn_layout s) + sum_list (map (\<lambda>j. lane_height_at s (Some j)) [0..<n])
         + (real n - 1) * ly_laneGap (sn_layout s))"

definition legendY :: "scene \<Rightarrow> real" where
  "legendY s = lastLaneBottom s + 44 + legendExtraHeight s"

section \<open>The legend\<close>

definition workflowLegendLayout :: "scene \<Rightarrow> obstacle list \<Rightarrow> legend_layout" where
  "workflowLegendLayout s obstacles =
     \<lparr>ly_x = 20, ly_baselineY = legendY s, ly_width = (if readable s then legendPackingWidth s else view_width s - 40),
      ly_fontSize = 7, ly_itemGap = 7, ly_lineGap = 22, ly_swatchGap = 8, ly_minTitleY = lastLaneBottom s + 8,
      ly_obstacles = obstacles, ly_hide = (wf_legend (sn_workflow s) = None)\<rparr>"

definition workflowLegendRects :: "scene \<Rightarrow> legend_error + (jstring \<times> rect) list" where
  "workflowLegendRects s =
     (if sn_legend s = [] then Inr []
      else case measureLegend (sn_legend s) (workflowLegendLayout s []) of
        Inl err \<Rightarrow> Inl err
      | Inr None \<Rightarrow> Inr []
      | Inr (Some measured) \<Rightarrow>
          Inr ((js ''title'', \<lparr>rx = 20, ry = the (pl_titleY measured) - 10, rwidth = 48, rheight = 14\<rparr>) #
               map (\<lambda>e. (le_kind e, \<lparr>rx = pe_x e, ry = pe_baseline e - 10, rwidth = me_width e, rheight = 14\<rparr>)) (pl_entries measured)))"

section \<open>Nodes\<close>

record placed_node = box +
  pn_lane :: jstring
  pn_col :: nat

text \<open>\<open>value || fallback\<close> for numbers.\<close>

definition number_or :: "real option \<Rightarrow> real \<Rightarrow> real" where
  "number_or v fallback = (case v of Some x \<Rightarrow> if x = 0 then fallback else x | None \<Rightarrow> fallback)"

definition measureNode :: "scene \<Rightarrow> workflow_node \<Rightarrow> placed_node" where
  "measureNode s n =
     (let width = number_or (wn_width n) (ly_nodeW (sn_layout s));
          height = number_or (wn_height n) (if truthy (wn_tag n) then 68 else ly_nodeH (sn_layout s));
          cx = ly_colXs (sn_layout s) ! wn_col n;
          contentH = laneHeight s (wn_lane n) - ly_laneTitleH (sn_layout s) - laneGroupHeaderH s (wn_lane n) - laneGroupFooterH s (wn_lane n);
          y = laneTop s (wn_lane n) + ly_laneTitleH (sn_layout s) + laneGroupHeaderH s (wn_lane n) + (contentH - height) / 2 + y_offset n
      in \<lparr>rx = cx - width / 2, ry = y, rwidth = width, rheight = height, bcx = cx, bcy = y + height / 2, bid = wn_id n,
          pn_lane = wn_lane n, pn_col = wn_col n\<rparr>)"

text \<open>The map of the nodes: its keys in the order of their first node, each with its last node.\<close>

definition nodes :: "scene \<Rightarrow> placed_node list" where
  "nodes s = map (\<lambda>i. measureNode s (the (nodesById (sn_workflow s) i))) (node_ids (sn_workflow s))"

definition node_at :: "scene \<Rightarrow> jstring \<Rightarrow> placed_node option" where
  "node_at s i = map_option (measureNode s) (nodesById (sn_workflow s) i)"

section \<open>Frames and headings\<close>

definition spanForCols :: "scene \<Rightarrow> nat \<Rightarrow> nat \<Rightarrow> real \<Rightarrow> real \<Rightarrow> span_bounds" where
  "spanForCols s fromCol toCol pad minimumWidth =
     (let start = ly_colXs (sn_layout s) ! fromCol - pad;
          end_x = ly_colXs (sn_layout s) ! toCol + pad;
          width = max (end_x - start) minimumWidth;
          cx = (start + end_x) / 2
      in if fromCol = toCol \<and> end_x - start < width then \<lparr>sb_x = start, sb_width = width, sb_cx = start + width / 2\<rparr>
         else \<lparr>sb_x = cx - width / 2, sb_width = width, sb_cx = cx\<rparr>)"

definition phaseSpan :: "scene \<Rightarrow> workflow_span \<Rightarrow> span_bounds" where
  "phaseSpan s p = spanForCols s (ws_fromCol p) (ws_toCol p) 46
     (if readable s then real (textUnits (ws_label p)) * (56 / 10) + 8 else 0)"

definition groupSpan :: "scene \<Rightarrow> workflow_span \<Rightarrow> span_bounds" where
  "groupSpan s g =
     (if readable s then readableGroupBounds (sn_workflow s) g (ly_colXs (sn_layout s))
      else spanForCols s (ws_fromCol g) (ws_toCol g) 50 0)"

definition rect_frame :: "jstring \<Rightarrow> jstring \<Rightarrow> string \<Rightarrow> rect \<Rightarrow> real \<Rightarrow> frame" where
  "rect_frame i label kind r radius =
     \<lparr>fr_shape = Frame_rect r radius, fr_kind = Some (js kind), fr_label = Some label, fr_id = Some i\<rparr>"

definition lane_frames :: "scene \<Rightarrow> nat \<times> workflow_lane \<Rightarrow> frame list" where
  "lane_frames s = (\<lambda>(index, lane).
     let l = sn_layout s; y = laneTop s (wl_id lane); height = lane_height_at s (Some index)
     in rect_frame (js ''lane-'' @ decimal index) (wl_label lane) ''lane''
          \<lparr>rx = ly_laneX l, ry = y, rwidth = ly_laneW l, rheight = height\<rparr> 10 #
        (if wl_exception lane
         then [rect_frame (js ''lane-'' @ decimal index @ js ''-exception'') (wl_label lane @ js '' exception'') ''exception-lane''
                 \<lparr>rx = ly_laneX l + 6, ry = y + 6, rwidth = ly_laneW l - 12, rheight = height - 12\<rparr> 8]
         else []))"

definition group_rect :: "scene \<Rightarrow> workflow_span \<Rightarrow> rect" where
  "group_rect s g =
     \<lparr>rx = sb_x (groupSpan s g), ry = laneTop s (ws_lane g) + ly_laneTitleH (sn_layout s) + 8, rwidth = sb_width (groupSpan s g),
      rheight = (if readable s then laneHeight s (ws_lane g) - ly_laneTitleH (sn_layout s) - 8 - 4
                 else ly_laneH (sn_layout s) - ly_laneTitleH (sn_layout s) - 16)\<rparr>"

definition workflowCompositionFrames :: "scene \<Rightarrow> frame list" where
  "workflowCompositionFrames s =
     concat (map (lane_frames s) (enumerate 0 (wf_lanes (sn_workflow s)))) @
     map (\<lambda>(index, g). rect_frame (js ''group-'' @ decimal index) (ws_label g) ''group'' (group_rect s g) 9)
       (enumerate 0 (wf_groups (sn_workflow s)))"

record scene_obstacle = rect +
  so_kind :: jstring
  so_id :: jstring

definition within_columns :: "scene \<Rightarrow> workflow_span \<Rightarrow> bool" where
  "within_columns s p \<longleftrightarrow> ws_toCol p < length (ly_colXs (sn_layout s)) \<and> ws_fromCol p \<le> ws_toCol p"

definition lane_header :: "scene \<Rightarrow> nat \<times> workflow_lane \<Rightarrow> scene_obstacle" where
  "lane_header s = (\<lambda>(index, lane).
     let p = (if wl_exception lane then js ''EX'' else two_digits (Suc index))
     in \<lparr>rx = ly_laneX (sn_layout s) + 14, ry = laneTop s (wl_id lane) + 12,
         rwidth = real (textUnits (lane_heading p lane)) * (62 / 10), rheight = 14, so_kind = js ''lane-header'', so_id = wl_id lane\<rparr>)"

definition phase_header :: "scene \<Rightarrow> workflow_span \<Rightarrow> scene_obstacle" where
  "phase_header s p = \<lparr>rx = sb_x (phaseSpan s p), ry = 27, rwidth = sb_width (phaseSpan s p), rheight = 16,
     so_kind = js ''phase-header'', so_id = ws_id p\<rparr>"

definition group_label :: "scene \<Rightarrow> workflow_span \<Rightarrow> scene_obstacle" where
  "group_label s g =
     \<lparr>rx = sb_x (groupSpan s g) + 10, ry = laneTop s (ws_lane g) + ly_laneTitleH (sn_layout s) + 8 + - 2 - 10,
      rwidth = real (textUnits (ws_label g)) * (56 / 10), rheight = 14, so_kind = js ''group-label'', so_id = ws_id g\<rparr>"

definition workflowSceneLabelObstacles :: "scene \<Rightarrow> scene_obstacle list" where
  "workflowSceneLabelObstacles s =
     map (lane_header s) (enumerate 0 (wf_lanes (sn_workflow s))) @
     map (phase_header s) (filter (within_columns s) (wf_phases (sn_workflow s))) @
     map (group_label s) (filter (\<lambda>g. laneIndex s (ws_lane g) \<noteq> None \<and> within_columns s g) (wf_groups (sn_workflow s)))"

end
