(* ===== verification/Workflow_Routing.thy ===== *)
theory Workflow_Routing
  imports Workflow_Scene
begin

text \<open>
  Routes of the workflow compiler (\<open>renderers/workflow/workflow-compiler.mjs\<close>): the hard constraints of a readable
  route, its cost, the raw candidates, the selection of the cheapest feasible one, the expansion of a corridor to
  the right when none is feasible, the classification of a failure, and the way points of the authored presets.
\<close>

section \<open>Edges and placed routes\<close>

text \<open>An edge of the document as the shared geometry sees it; its position identifies the object.\<close>

record flow_edge = relation +
  fe_bias :: "real option"
  fe_role :: "jstring option"
  fe_key :: jstring

definition flow_edge_of :: "nat \<Rightarrow> workflow_edge \<Rightarrow> flow_edge" where
  "flow_edge_of i e =
     \<lparr>oid = i, rel_key = None, rel_id = we_id e, rel_from = we_from e, rel_to = we_to e, rel_label = we_label e,
      fromSide = we_fromSide e, toSide = we_toSide e, rel_route = we_route e, via = we_via e, channelX = we_channelX e,
      channelY = we_channelY e, labelAt = we_labelAt e, labelDx = we_labelDx e, labelDy = we_labelDy e,
      labelSegment = we_labelSegment e, fe_bias = we_bias e, fe_role = we_role e, fe_key = we_key e\<rparr>"

definition flow_edges :: "scene \<Rightarrow> flow_edge list" where
  "flow_edges s = map (\<lambda>(i, e). flow_edge_of i e) (enumerate 0 (wf_edges (sn_workflow s)))"

text \<open>\<open>pathCache\<close>: the routes placed so far, in the order in which they were placed.\<close>

type_synonym routes = "(flow_edge \<times> point list) list"

definition hasAbsoluteRoutePins :: "flow_edge \<Rightarrow> bool" where
  "hasAbsoluteRoutePins e \<longleftrightarrow> via e \<noteq> None \<or> channelX e \<noteq> None \<or> channelY e \<noteq> None"

definition auto_route :: "flow_edge \<Rightarrow> bool" where
  "auto_route e \<longleftrightarrow> \<not> truthy (rel_route e) \<or> rel_route e = Some (js ''auto'')"

definition bias_of :: "flow_edge \<Rightarrow> real" where
  "bias_of e = (case fe_bias e of Some b \<Rightarrow> b | None \<Rightarrow> 1 / 2)"

definition gapYBetween :: "scene \<Rightarrow> jstring \<Rightarrow> jstring \<Rightarrow> real \<Rightarrow> real" where
  "gapYBetween s fromLane toLane b = (let a = laneTop s fromLane + laneHeight s fromLane in a + (laneTop s toLane - a) * b)"

definition sameLaneAutoVia :: "point \<Rightarrow> point \<Rightarrow> point list" where
  "sameLaneAutoVia start end =
     (if fst start = fst end \<or> snd start = snd end then []
      else let midX = (fst start + fst end) / 2 in [(midX, snd start), (midX, snd end)])"

section \<open>Hard constraints\<close>

definition routeClearsUnrelatedNodes :: "scene \<Rightarrow> flow_edge \<Rightarrow> point list \<Rightarrow> real \<Rightarrow> bool" where
  "routeClearsUnrelatedNodes s e points clearance \<longleftrightarrow>
     (\<forall>n\<in>set (nodes s). bid n = rel_from e \<or> bid n = rel_to e \<or>
        (\<forall>seg\<in>set (pairs points). \<not> segmentIntersectsRect seg n clearance))"

datatype obstacle_role = Source_endpoint | Target_endpoint | Unrelated

record collision =
  co_node :: jstring
  co_role :: obstacle_role
  co_segment :: nat
  co_from :: point
  co_to :: point
  co_clearance :: real

definition endpoint_role :: "flow_edge \<Rightarrow> placed_node \<Rightarrow> obstacle_role" where
  "endpoint_role e n = (if bid n = rel_from e then Source_endpoint else if bid n = rel_to e then Target_endpoint else Unrelated)"

definition segment_collision :: "flow_edge \<Rightarrow> nat \<Rightarrow> placed_node \<Rightarrow> nat \<times> segment \<Rightarrow> collision option" where
  "segment_collision e lastSegment n = (\<lambda>(i, seg).
     let role = endpoint_role e n; clearance = (if role = Unrelated then 2 else 0)
     in if role = Source_endpoint \<and> i = 0 \<or> role = Target_endpoint \<and> i = lastSegment then None
        else if segmentIntersectsRect seg n clearance
        then Some \<lparr>co_node = bid n, co_role = role, co_segment = i, co_from = fst seg, co_to = snd seg, co_clearance = clearance\<rparr>
        else None)"

definition firstRouteNodeCollision :: "scene \<Rightarrow> flow_edge \<Rightarrow> point list \<Rightarrow> collision option" where
  "firstRouteNodeCollision s e points =
     first_some (\<lambda>n. first_some (segment_collision e (length points - 2) n) (enumerate 0 (pairs points))) (nodes s)"

definition orthogonalRoute :: "point list \<Rightarrow> bool" where
  "orthogonalRoute points \<longleftrightarrow>
     (\<forall>(p, q)\<in>set (pairs points). (\<bar>fst q - fst p\<bar> \<le> EPSILON) \<noteq> (\<bar>snd q - snd p\<bar> \<le> EPSILON))"

definition routeClearsEndpointNodes :: "point list \<Rightarrow> placed_node \<Rightarrow> placed_node \<Rightarrow> bool" where
  "routeClearsEndpointNodes points from to \<longleftrightarrow>
     (\<forall>(i, seg)\<in>set (enumerate 0 (pairs points)).
        \<not> (0 < i \<and> segmentIntersectsRect seg from 0) \<and> \<not> (i < length points - 2 \<and> segmentIntersectsRect seg to 0))"

definition routeMeetsHardRhythm :: "point list \<Rightarrow> bool" where
  "routeMeetsHardRhythm points \<longleftrightarrow>
     (if length points = 2
      then 28 \<le> hypot (fst (points ! 1) - fst (points ! 0)) (snd (points ! 1) - snd (points ! 0)) + EPSILON
      else \<forall>(i, p, q)\<in>set (enumerate 0 (pairs points)).
             (if i = 0 \<or> i = length points - 2 then 8 else 16) \<le> manhattan p q + EPSILON)"

section \<open>Labels\<close>

definition segment_order :: "nat \<times> segment \<Rightarrow> nat \<times> real \<times> nat" where
  "segment_order = (\<lambda>(i, p, q). (if \<bar>snd q - snd p\<bar> \<le> EPSILON then 0 else 1, - hypot (fst q - fst p) (snd q - snd p), i))"

text \<open>The label at a chosen segment; it moves down beside a vertical one.\<close>

definition label_on_segment :: "flow_edge \<Rightarrow> point list \<Rightarrow> nat \<Rightarrow> point option" where
  "label_on_segment e points i =
     map_option (\<lambda>p. if fst (points ! i) = fst (points ! Suc i) then (fst p, snd p + 10) else p)
       (labelPoint (relation.truncate e\<lparr>labelSegment := Some (int i)\<rparr>) points)"

definition workflowEdgeLabelPoint :: "scene \<Rightarrow> flow_edge \<Rightarrow> point list \<Rightarrow> point option" where
  "workflowEdgeLabelPoint s e points =
     (if wf_schemaVersion (sn_workflow s) = 1 then
        if labelAt e \<noteq> None \<or> labelSegment e \<noteq> None \<or> length points \<noteq> 3 then labelPoint (relation.truncate e) points
        else let len = (\<lambda>i. hypot (fst (points ! Suc i) - fst (points ! i)) (snd (points ! Suc i) - snd (points ! i)))
             in label_on_segment e points (if len 1 \<le> len 0 then 0 else 1)
      else if labelAt e \<noteq> None \<or> labelSegment e \<noteq> None \<or> length points \<le> 2 then labelPoint (relation.truncate e) points
      else label_on_segment e points (fst (hd (sort_key segment_order (enumerate 0 (pairs points))))))"

text \<open>No rectangle for an edge without a label. On a route of one point the code raises a \<open>TypeError\<close>.\<close>

definition candidateLabelRect :: "scene \<Rightarrow> flow_edge \<Rightarrow> point list \<Rightarrow> rect option" where
  "candidateLabelRect s e points =
     (if \<not> truthy (rel_label e) then None
      else let width = workflowLabelWidth (or_empty (rel_label e))
           in map_option (\<lambda>(lx, ly). \<lparr>rx = lx - width / 2, ry = ly - 10, rwidth = width, rheight = 14\<rparr>)
                (workflowEdgeLabelPoint s e points))"

text \<open>The label of a placed edge; \<open>points\<close> are its cached route.\<close>

definition labelRectFor :: "scene \<Rightarrow> flow_edge \<Rightarrow> point list \<Rightarrow> rect option" where
  "labelRectFor s e points =
     (if \<not> truthy (rel_label e) \<or> node_at s (rel_from e) = None \<or> node_at s (rel_to e) = None then None
      else candidateLabelRect s e points)"

definition routeLabelClearsNodes :: "scene \<Rightarrow> flow_edge \<Rightarrow> point list \<Rightarrow> bool" where
  "routeLabelClearsNodes s e points \<longleftrightarrow>
     \<not> truthy (rel_label e) \<or> labelAt e \<noteq> None \<or>
     (\<forall>r\<in>set_option (candidateLabelRect s e points). \<forall>n\<in>set (nodes s). \<not> rectsOverlap r n (- 2))"

text \<open>What the segments of a route lack to a clearance from a label.\<close>

definition clearance_deficit :: "real \<Rightarrow> rect \<Rightarrow> point list \<Rightarrow> real" where
  "clearance_deficit threshold r points =
     sum_list (map (\<lambda>seg. case segmentRectClearance seg r of Some c \<Rightarrow> max 0 (threshold - c) | None \<Rightarrow> 0) (pairs points))"

definition option_sum :: "('a \<Rightarrow> real) \<Rightarrow> 'a option \<Rightarrow> real" where
  "option_sum f v = (case v of Some x \<Rightarrow> f x | None \<Rightarrow> 0)"

definition labelRouteClearanceDeficit :: "scene \<Rightarrow> routes \<Rightarrow> flow_edge \<Rightarrow> point list \<Rightarrow> real" where
  "labelRouteClearanceDeficit s routes e points =
     sum_list (map (\<lambda>(other, placed).
         option_sum (\<lambda>r. clearance_deficit 8 r placed) (candidateLabelRect s e points) +
         option_sum (\<lambda>r. clearance_deficit 8 r points) (labelRectFor s other placed)) routes)"

definition segments_clear_label :: "rect \<Rightarrow> point list \<Rightarrow> bool" where
  "segments_clear_label r points \<longleftrightarrow>
     (\<forall>seg\<in>set (pairs points). case segmentRectClearance seg r of Some c \<Rightarrow> 4 \<le> c + EPSILON | None \<Rightarrow> True)"

definition routeClearsPlacedLabels :: "scene \<Rightarrow> routes \<Rightarrow> flow_edge \<Rightarrow> point list \<Rightarrow> bool" where
  "routeClearsPlacedLabels s routes e points \<longleftrightarrow>
     (\<forall>(other, placed)\<in>set routes.
        (\<forall>l\<in>set_option (candidateLabelRect s e points). \<forall>k\<in>set_option (labelRectFor s other placed). \<not> rectsOverlap l k (- 2)) \<and>
        (\<forall>l\<in>set_option (candidateLabelRect s e points). segments_clear_label l placed) \<and>
        (\<forall>k\<in>set_option (labelRectFor s other placed). segments_clear_label k points))"

text \<open>A readable legend always fits (\<open>readable_legend_fits\<close>), so its measurement raises no error here.\<close>

definition legend_rects :: "scene \<Rightarrow> rect list" where
  "legend_rects s = (case workflowLegendRects s of Inr rs \<Rightarrow> map snd rs | Inl _ \<Rightarrow> [])"

definition routeClearsLegend :: "scene \<Rightarrow> flow_edge \<Rightarrow> point list \<Rightarrow> bool" where
  "routeClearsLegend s e points \<longleftrightarrow>
     (\<forall>r\<in>set (legend_rects s). (\<forall>seg\<in>set (pairs points). \<not> segmentIntersectsRect seg r 0) \<and>
        (\<forall>l\<in>set_option (candidateLabelRect s e points). \<not> rectsOverlap l r 0))"

definition routeClearsSceneLabelObstacles :: "scene \<Rightarrow> flow_edge \<Rightarrow> point list \<Rightarrow> bool" where
  "routeClearsSceneLabelObstacles s e points \<longleftrightarrow>
     (\<forall>r\<in>set (workflowSceneLabelObstacles s). (\<forall>seg\<in>set (pairs points). \<not> segmentIntersectsRect seg r 0) \<and>
        (\<forall>l\<in>set_option (candidateLabelRect s e points). \<not> rectsOverlap l r 0))"

definition routeClearsFrameBorders :: "scene \<Rightarrow> point list \<Rightarrow> bool" where
  "routeClearsFrameBorders s points \<longleftrightarrow>
     collectBorderRuns [\<lparr>ro_relation = None, ro_index = None, ro_points = points, ro_segments = None\<rparr>]
       (workflowCompositionFrames s) = []"

definition routeExtentCoordinates :: "scene \<Rightarrow> flow_edge \<Rightarrow> point list \<Rightarrow> point list" where
  "routeExtentCoordinates s e points =
     points @ (if labelAt e \<noteq> None then []
               else case candidateLabelRect s e points of None \<Rightarrow> []
                    | Some l \<Rightarrow> [(rx l, ry l), (rx l + rwidth l, ry l + rheight l)])"

definition routeFitsCanvasOrigin :: "scene \<Rightarrow> flow_edge \<Rightarrow> point list \<Rightarrow> bool" where
  "routeFitsCanvasOrigin s e points \<longleftrightarrow> (\<forall>(x, y)\<in>set (routeExtentCoordinates s e points). 0 \<le> x \<and> 0 \<le> y)"

definition readableCandidateIsFeasible ::
  "scene \<Rightarrow> routes \<Rightarrow> flow_edge \<Rightarrow> point list \<Rightarrow> placed_node \<Rightarrow> placed_node \<Rightarrow> side \<Rightarrow> side \<Rightarrow> bool" where
  "readableCandidateIsFeasible s routes e points from to from_side to_side \<longleftrightarrow>
     2 \<le> length points
     \<and> orthogonalRoute points
     \<and> routeHonorsEndpointSides points (Some from_side) (Some to_side)
     \<and> routeMeetsHardRhythm points
     \<and> routeClearsEndpointNodes points from to
     \<and> routeClearsUnrelatedNodes s e points 2
     \<and> routeLabelClearsNodes s e points
     \<and> routeClearsPlacedLabels s routes e points
     \<and> routeClearsLegend s e points
     \<and> routeClearsSceneLabelObstacles s e points
     \<and> routeClearsFrameBorders s points
     \<and> routeFitsCanvasOrigin s e points"

section \<open>Costs\<close>

definition axisOverlapLength :: "point \<Rightarrow> point \<Rightarrow> point \<Rightarrow> point \<Rightarrow> real" where
  "axisOverlapLength a b c d =
     (let horizontal = (\<bar>snd a - snd b\<bar> \<le> EPSILON \<and> \<bar>snd c - snd d\<bar> \<le> EPSILON \<and> \<bar>snd a - snd c\<bar> \<le> EPSILON);
          vertical = (\<bar>fst a - fst b\<bar> \<le> EPSILON \<and> \<bar>fst c - fst d\<bar> \<le> EPSILON \<and> \<bar>fst a - fst c\<bar> \<le> EPSILON);
          v = coord (if horizontal then 0 else 1)
      in if \<not> horizontal \<and> \<not> vertical then 0
         else max 0 (min (max (v a) (v b)) (max (v c) (v d)) - max (min (v a) (v b)) (min (v c) (v d))))"

definition properAxisCrossing :: "point \<Rightarrow> point \<Rightarrow> point \<Rightarrow> point \<Rightarrow> bool" where
  "properAxisCrossing a b c d =
     (let firstHorizontal = (\<bar>snd a - snd b\<bar> \<le> EPSILON); secondHorizontal = (\<bar>snd c - snd d\<bar> \<le> EPSILON)
      in if firstHorizontal = secondHorizontal then False
         else let (h1, h2) = (if firstHorizontal then (a, b) else (c, d));
                  (v1, v2) = (if firstHorizontal then (c, d) else (a, b));
                  x = fst v1; y = snd h1
              in min (fst h1) (fst h2) + EPSILON < x \<and> x < max (fst h1) (fst h2) - EPSILON \<and>
                 min (snd v1) (snd v2) + EPSILON < y \<and> y < max (snd v1) (snd v2) - EPSILON)"

definition shares_node :: "flow_edge \<Rightarrow> flow_edge \<Rightarrow> bool" where
  "shares_node e other \<longleftrightarrow> (\<exists>i\<in>set [rel_from e, rel_to e]. i = rel_from other \<or> i = rel_to other)"

definition interacting_segments :: "routes \<Rightarrow> flow_edge \<Rightarrow> point list \<Rightarrow> (segment \<times> segment) list" where
  "interacting_segments routes e points =
     concat (map (\<lambda>(other, placed). List.product (pairs points) (pairs placed)) (filter (\<lambda>(other, placed). \<not> shares_node e other) routes))"

definition properCrossingCount :: "routes \<Rightarrow> flow_edge \<Rightarrow> point list \<Rightarrow> nat" where
  "properCrossingCount routes e points =
     length (filter (\<lambda>((a, b), (c, d)). properAxisCrossing a b c d) (interacting_segments routes e points))"

definition sharedCorridorPx :: "routes \<Rightarrow> flow_edge \<Rightarrow> point list \<Rightarrow> real" where
  "sharedCorridorPx routes e points = sum_list (map (\<lambda>((a, b), (c, d)). axisOverlapLength a b c d) (interacting_segments routes e points))"

definition automaticForwardReversePx :: "scene \<Rightarrow> flow_edge \<Rightarrow> point list \<Rightarrow> real" where
  "automaticForwardReversePx s e points =
     (case (node_at s (rel_from e), node_at s (rel_to e)) of
        (Some from, Some to) \<Rightarrow>
          if fe_role e = Some (js ''return'') \<or> fe_role e = Some (js ''error'') \<or> pn_col to \<le> pn_col from then 0
          else sum_list (map (\<lambda>(p, q). max 0 (fst p - fst q)) (pairs points))
      | _ \<Rightarrow> 0)"

record candidate_cost =
  cc_automaticForwardReversePx :: real
  cc_properCrossingCount :: real
  cc_sharedCorridorPx :: real
  cc_labelRouteClearanceDeficit :: real
  cc_interiorPreferred28Deficit :: real
  cc_bendCount :: real
  cc_stretchMilli :: real
  cc_canvasGrowthPx :: real
  cc_portDisplacementMilli :: real
  cc_legacyCoordinateDisplacement :: real
  cc_stableCandidateOrdinal :: real

text \<open>The dimensions of a cost by \<open>READABLE_CANDIDATE_COST_PRIORITY\<close>.\<close>

definition cost_list :: "candidate_cost \<Rightarrow> real list" where
  "cost_list c = [cc_automaticForwardReversePx c, cc_properCrossingCount c, cc_sharedCorridorPx c, cc_labelRouteClearanceDeficit c,
     cc_interiorPreferred28Deficit c, cc_bendCount c, cc_stretchMilli c, cc_canvasGrowthPx c, cc_portDisplacementMilli c,
     cc_legacyCoordinateDisplacement c, cc_stableCandidateOrdinal c]"

fun first_difference :: "real list \<Rightarrow> real list \<Rightarrow> real" where
  "first_difference (l # ls) (r # rs) = (if l \<noteq> r then l - r else first_difference ls rs)"
| "first_difference ls rs = 0"

definition compareCost :: "candidate_cost \<Rightarrow> candidate_cost \<Rightarrow> real" where
  "compareCost left right = first_difference (cost_list left) (cost_list right)"

definition route_length :: "point list \<Rightarrow> real" where
  "route_length points = sum_list (map (\<lambda>(p, q). manhattan p q) (pairs points))"

definition canvas_growth :: "scene \<Rightarrow> point list \<Rightarrow> real" where
  "canvas_growth s points =
     (let xs = map fst points; ys = map snd points
      in max 0 (- Min (set xs)) + max 0 (Max (set xs) - minimumCanvasWidth s) + max 0 (- Min (set ys)) + max 0 (Max (set ys) - autoHeight s))"

definition readableCandidateCost :: "scene \<Rightarrow> routes \<Rightarrow> flow_edge \<Rightarrow> point list \<Rightarrow> nat \<Rightarrow> side \<Rightarrow> side \<Rightarrow> candidate_cost" where
  "readableCandidateCost s routes e points ordinal natural_from natural_to =
     (let from = the (node_at s (rel_from e)); to = the (node_at s (rel_to e));
          directLength = manhattan (hd points) (last points);
          naturalStart = anchor (box.truncate from) natural_from; naturalEnd = anchor (box.truncate to) natural_to;
          portDisplacementPx = manhattan naturalStart (hd points) + manhattan naturalEnd (last points)
      in \<lparr>cc_automaticForwardReversePx = automaticForwardReversePx s e points,
          cc_properCrossingCount = real (properCrossingCount routes e points),
          cc_sharedCorridorPx = sharedCorridorPx routes e points,
          cc_labelRouteClearanceDeficit = labelRouteClearanceDeficit s routes e points,
          cc_interiorPreferred28Deficit =
            sum_list (map (\<lambda>(p, q). max 0 (28 - manhattan p q)) (butlast (tl (pairs points)))),
          cc_bendCount = real (length points - 2),
          cc_stretchMilli = of_int (js_round ((if 0 < directLength then route_length points / directLength else 1) * 1000)),
          cc_canvasGrowthPx = canvas_growth s points,
          cc_portDisplacementMilli = of_int (js_round (portDisplacementPx * 1000)),
          cc_legacyCoordinateDisplacement =
            \<bar>bcx from - LEGACY_COLUMN_CENTERS ! pn_col from\<bar> + \<bar>bcx to - LEGACY_COLUMN_CENTERS ! pn_col to\<bar>,
          cc_stableCandidateOrdinal = real ordinal\<rparr>)"

section \<open>Candidates\<close>

definition outwardStub :: "point \<Rightarrow> side \<Rightarrow> point" where
  "outwardStub p s = (let (dx, dy) = (case PORT_OUTWARD_VECTOR s of Some v \<Rightarrow> v | None \<Rightarrow> (0, 0)) in (fst p + dx * 16, snd p + dy * 16))"

definition corridorViaY :: "point \<Rightarrow> point \<Rightarrow> side \<Rightarrow> side \<Rightarrow> real \<Rightarrow> point list" where
  "corridorViaY start end from_side to_side y =
     (let a = outwardStub start from_side; b = outwardStub end to_side in [a, (fst a, y), (fst b, y), b])"

definition corridorViaX :: "point \<Rightarrow> point \<Rightarrow> side \<Rightarrow> side \<Rightarrow> real \<Rightarrow> point list" where
  "corridorViaX start end from_side to_side x =
     (let a = outwardStub start from_side; b = outwardStub end to_side in [a, (x, snd a), (x, snd b), b])"

definition outside_right :: "scene \<Rightarrow> real" where
  "outside_right s = ly_laneX (sn_layout s) + ly_laneW (sn_layout s) + 12"

definition raw_candidates :: "scene \<Rightarrow> flow_edge \<Rightarrow> placed_node \<Rightarrow> placed_node \<Rightarrow> point \<Rightarrow> point \<Rightarrow> side \<Rightarrow> side \<Rightarrow> (jstring \<times> point list) list" where
  "raw_candidates s e from to start end from_side to_side =
     (let midX = (fst start + fst end) / 2;
          laneGapY = (if pn_lane from = pn_lane to then laneTop s (pn_lane from) - 16
                      else gapYBetween s (pn_lane from) (pn_lane to) (bias_of e));
          topY = max 8 (min (laneTop s (pn_lane from)) (laneTop s (pn_lane to)) - 16);
          bottomY = max (laneTop s (pn_lane from) + laneHeight s (pn_lane from)) (laneTop s (pn_lane to) + laneHeight s (pn_lane to)) + 16
      in [(js ''facing-straight'', []),
          (js ''horizontal-then-vertical'', [(fst end, snd start)]),
          (js ''vertical-then-horizontal'', [(fst start, snd end)]),
          (js ''lane-gap-corridor'', corridorViaY start end from_side to_side laneGapY),
          (js ''column-gap-corridor'', corridorViaX start end from_side to_side midX),
          (js ''outside-left'', corridorViaX start end from_side to_side (ly_laneX (sn_layout s) - 20)),
          (js ''outside-right'', corridorViaX start end from_side to_side (outside_right s)),
          (js ''top-corridor'', corridorViaY start end from_side to_side topY),
          (js ''bottom-corridor'', corridorViaY start end from_side to_side bottomY)])"

text \<open>A plan: a feasible route with its cost and the sides it uses.\<close>

record plan =
  pl_family :: jstring
  pl_ordinal :: nat
  pl_points :: "point list"
  pl_cost :: candidate_cost
  pl_from :: side
  pl_to :: side

definition cheapest_first :: "plan list \<Rightarrow> plan list" where
  "cheapest_first = sort_key (\<lambda>p. cost_list (pl_cost p))"

definition readableAutomaticCandidateSet ::
  "scene \<Rightarrow> routes \<Rightarrow> flow_edge \<Rightarrow> placed_node \<Rightarrow> placed_node \<Rightarrow> point \<Rightarrow> point \<Rightarrow> side \<Rightarrow> side \<Rightarrow> nat \<Rightarrow> side \<Rightarrow> side \<Rightarrow> plan list" where
  "readableAutomaticCandidateSet s routes e from to start end from_side to_side ordinalOffset natural_from natural_to =
     cheapest_first (map (\<lambda>(i, family, points).
         \<lparr>pl_family = family, pl_ordinal = ordinalOffset + i, pl_points = points,
          pl_cost = readableCandidateCost s routes e points (ordinalOffset + i) natural_from natural_to,
          pl_from = from_side, pl_to = to_side\<rparr>)
       (filter (\<lambda>(i, family, points). readableCandidateIsFeasible s routes e points from to from_side to_side)
         (enumerate 0 (map (\<lambda>(family, mid). (family, normalizeRoutePoints (start # mid @ [end])))
           (raw_candidates s e from to start end from_side to_side)))))"

section \<open>Outcomes\<close>

datatype request_kind = Rank_gap_minimum nat nat | Lane_gap_minimum

text \<open>What \<open>WorkflowLayoutFeedback\<close> asks of the next layout.\<close>

record layout_request =
  lq_kind :: request_kind
  lq_minimum :: real
  lq_edge :: "jstring option"
  lq_from :: jstring
  lq_to :: jstring
  lq_families :: "jstring list"

text \<open>
  \<open>Route_type_error\<close> is a JavaScript \<open>TypeError\<close>, not a diagnostic. The evidence of a pin conflict, which the code
  finds by compiling variants of the document, is left out.
\<close>

datatype routing_error =
    Layout_feedback layout_request
  | Explicit_pin_conflict
  | Solver_budget_exhausted "jstring list"
  | Route_preset_conflict jstring "point list"
  | Route_type_error

section \<open>An automatic route and its expansion to the right\<close>

text \<open>\<open>Math.ceil(value * 1000) / 1000\<close>.\<close>

definition ceil_milli :: "real \<Rightarrow> real" where
  "ceil_milli v = of_int \<lceil>v * 1000\<rceil> / 1000"

definition node_deficits :: "scene \<Rightarrow> rect \<Rightarrow> real list" where
  "node_deficits s l = map (\<lambda>n. rx n + rwidth n - 2 - rx l) (filter (\<lambda>n. rectsOverlap l n (- 2)) (nodes s))"

definition placed_deficits :: "scene \<Rightarrow> rect \<Rightarrow> flow_edge \<times> point list \<Rightarrow> real list" where
  "placed_deficits s l = (\<lambda>(other, placed).
     (case labelRectFor s other placed of
        Some k \<Rightarrow> if rectsOverlap l k (- 2) then [rx k + rwidth k - 2 - rx l] else []
      | None \<Rightarrow> []) @
     List.map_filter (\<lambda>seg. case segmentRectClearance seg l of
         Some c \<Rightarrow> if 4 \<le> c + EPSILON then None else Some (max (fst (fst seg)) (fst (snd seg)) + 4 - rx l)
       | None \<Rightarrow> None) (pairs placed))"

definition label_deficits :: "scene \<Rightarrow> routes \<Rightarrow> rect option \<Rightarrow> real list" where
  "label_deficits s routes label =
     (case label of None \<Rightarrow> [] | Some l \<Rightarrow> node_deficits s l @ concat (map (placed_deficits s l) routes))"

definition outsideRightMinX :: "scene \<Rightarrow> routes \<Rightarrow> rect option \<Rightarrow> real" where
  "outsideRightMinX s routes label =
     ceil_milli (foldl (\<lambda>x d. if 0 < d then max x (outside_right s + d * 2) else x) (outside_right s) (label_deficits s routes label))"

definition rightmostPlacedX :: "scene \<Rightarrow> routes \<Rightarrow> real" where
  "rightmostPlacedX s routes =
     foldl max (outside_right s)
       (map (\<lambda>n. rx n + rwidth n) (nodes s) @
        concat (map (\<lambda>(other, placed). map fst placed @
            (case labelRectFor s other placed of Some k \<Rightarrow> [rx k + rwidth k] | None \<Rightarrow> [])) routes))"

text \<open>The test of a corridor at \<open>x\<close>: its route when it is feasible.\<close>

definition expanded_points :: "point \<Rightarrow> point \<Rightarrow> side \<Rightarrow> side \<Rightarrow> real \<Rightarrow> point list" where
  "expanded_points start end from_side to_side x = normalizeRoutePoints (start # corridorViaX start end from_side to_side x @ [end])"

text \<open>The bisection between an infeasible and a feasible position; \<open>fuel\<close> counts the refinements.\<close>

fun refine_corridor :: "(real \<Rightarrow> bool) \<Rightarrow> nat \<Rightarrow> real \<Rightarrow> real \<Rightarrow> real" where
  "refine_corridor feasible 0 feasibleX infeasibleX = feasibleX"
| "refine_corridor feasible (Suc fuel) feasibleX infeasibleX =
     (if \<not> 1 / 1000 < feasibleX - infeasibleX then feasibleX
      else let midpointX = ceil_milli ((infeasibleX + feasibleX) / 2)
           in if feasibleX - EPSILON \<le> midpointX then feasibleX
              else if feasible midpointX then refine_corridor feasible fuel midpointX infeasibleX
              else refine_corridor feasible fuel feasibleX midpointX)"

fun probe_corridor :: "(real \<Rightarrow> bool) \<Rightarrow> real \<Rightarrow> nat \<Rightarrow> real \<Rightarrow> real \<Rightarrow> real \<Rightarrow> real option" where
  "probe_corridor feasible outsideRight 0 minX growth lastInfeasibleX = None"
| "probe_corridor feasible outsideRight (Suc fuel) minX growth lastInfeasibleX =
     (if outsideRight + EPSILON < minX \<and> feasible minX then Some (refine_corridor feasible 53 minX lastInfeasibleX)
      else probe_corridor feasible outsideRight fuel (ceil_milli (minX + growth)) (growth * 2)
             (if outsideRight + EPSILON < minX then minX else lastInfeasibleX))"

definition expand_right ::
  "scene \<Rightarrow> routes \<Rightarrow> flow_edge \<Rightarrow> placed_node \<Rightarrow> placed_node \<Rightarrow> point \<Rightarrow> point \<Rightarrow> side \<Rightarrow> side \<Rightarrow> point list option" where
  "expand_right s routes e from to start end from_side to_side =
     (let points_at = expanded_points start end from_side to_side;
          feasible = (\<lambda>x. readableCandidateIsFeasible s routes e (points_at x) from to from_side to_side);
          label = candidateLabelRect s e (points_at (outside_right s));
          minX = outsideRightMinX s routes label;
          growth = max (max 32 (case label of Some l \<Rightarrow> rwidth l | None \<Rightarrow> 0)) (rightmostPlacedX s routes + 16 - minX)
      in map_option points_at (probe_corridor feasible (outside_right s) 7 minX growth (outside_right s)))"

section \<open>Failures of an automatic route\<close>

definition label_entry_of :: "flow_edge \<Rightarrow> rect \<Rightarrow> label_entry" where
  "label_entry_of e r = \<lparr>le_rect = r, le_relation = Some (relation.truncate e), le_index = Some (oid e), le_label = rel_label e\<rparr>"

definition routed_of :: "flow_edge \<times> point list \<Rightarrow> routed" where
  "routed_of = (\<lambda>(e, points). \<lparr>ro_relation = Some (relation.truncate e), ro_index = Some (oid e), ro_points = points\<rparr>)"

text \<open>
  The raw candidates have no member \<open>points\<close>: the label of a labelled edge without \<open>labelAt\<close> is looked for on the
  value \<open>undefined\<close>, and the reverse test sees a route without points, which hits nothing.
\<close>

definition classifyFailedAutomaticCandidatePins :: "scene \<Rightarrow> routes \<Rightarrow> flow_edge \<Rightarrow> routing_error option" where
  "classifyFailedAutomaticCandidatePins s routes e =
     (let prior = filter (\<lambda>(other, placed). oid other \<noteq> oid e) routes
      in if prior = [] then None
         else if \<not> truthy (rel_label e) then None
         else if labelAt e = None then Some Route_type_error
         else case candidateLabelRect s e [] of
             None \<Rightarrow> None
           | Some l \<Rightarrow>
               if \<exists>(other, placed)\<in>set prior. \<exists>k\<in>set_option (labelRectFor s other placed). rectsOverlap l k (- 2) then Some Explicit_pin_conflict
               else if collectLabelRouteClearance [label_entry_of e l] (map routed_of prior) 4 \<noteq> [] then Some Explicit_pin_conflict
               else None)"

definition hasRelevantAbsolutePin :: "routes \<Rightarrow> flow_edge \<Rightarrow> bool" where
  "hasRelevantAbsolutePin routes e \<longleftrightarrow>
     labelAt e \<noteq> None \<or> (\<exists>(other, placed)\<in>set routes. labelAt other \<noteq> None \<or> hasAbsoluteRoutePins other)"

definition layout_request_for :: "flow_edge \<Rightarrow> request_kind \<Rightarrow> real \<Rightarrow> jstring list \<Rightarrow> layout_request" where
  "layout_request_for e kind minimum families =
     \<lparr>lq_kind = kind, lq_minimum = minimum, lq_edge = rel_id e, lq_from = rel_from e, lq_to = rel_to e, lq_families = families\<rparr>"

definition automatic_failure ::
  "scene \<Rightarrow> flow_edge \<Rightarrow> placed_node \<Rightarrow> placed_node \<Rightarrow> point \<Rightarrow> point \<Rightarrow> side \<Rightarrow> side \<Rightarrow> jstring list \<Rightarrow> routing_error" where
  "automatic_failure s e from to start end from_side to_side families =
     (let facing = (from_side = RightS \<and> to_side = LeftS \<and> fst start < fst end \<or> from_side = LeftS \<and> to_side = RightS \<and> fst end < fst start);
          fromCol = min (pn_col from) (pn_col to); toCol = max (pn_col from) (pn_col to);
          requiredRankGap = rwidth from / 2 + 32 + rwidth to / 2;
          actualRankGap = ly_colXs (sn_layout s) ! toCol - ly_colXs (sn_layout s) ! fromCol
      in if facing \<and> pn_col from \<noteq> pn_col to \<and> actualRankGap + EPSILON < requiredRankGap
         then Layout_feedback (layout_request_for e (Rank_gap_minimum fromCol toCol) (ceil_milli requiredRankGap) families)
         else if pn_lane from \<noteq> pn_lane to \<and> ly_laneGap (sn_layout s) < 32
         then Layout_feedback (layout_request_for e Lane_gap_minimum 32 families)
         else Solver_budget_exhausted families)"

definition readableAutomaticVia ::
  "scene \<Rightarrow> routes \<Rightarrow> flow_edge \<Rightarrow> placed_node \<Rightarrow> placed_node \<Rightarrow> point \<Rightarrow> point \<Rightarrow> side \<Rightarrow> side \<Rightarrow> routing_error + point list" where
  "readableAutomaticVia s routes e from to start end from_side to_side =
     (case readableAutomaticCandidateSet s routes e from to start end from_side to_side 0 from_side to_side of
        best # _ \<Rightarrow> Inr (butlast (tl (pl_points best)))
      | [] \<Rightarrow>
          (case expand_right s routes e from to start end from_side to_side of
             Some points \<Rightarrow> Inr (butlast (tl points))
           | None \<Rightarrow>
               (case (if hasRelevantAbsolutePin routes e then classifyFailedAutomaticCandidatePins s routes e else None) of
                  Some err \<Rightarrow> Inl err
                | None \<Rightarrow> Inl (automatic_failure s e from to start end from_side to_side
                                 (map fst (raw_candidates s e from to start end from_side to_side))))))"

section \<open>Routes that follow a preset\<close>

datatype segment_direction = Vertical_segment | Horizontal_segment | Diagonal_segment

definition segmentOrientation :: "segment \<Rightarrow> segment_direction" where
  "segmentOrientation = (\<lambda>(p, q).
     if \<bar>fst p - fst q\<bar> \<le> EPSILON then Vertical_segment else if \<bar>snd p - snd q\<bar> \<le> EPSILON then Horizontal_segment else Diagonal_segment)"

definition contains_channel :: "point list \<Rightarrow> nat \<Rightarrow> real \<Rightarrow> bool" where
  "contains_channel points axis v \<longleftrightarrow>
     (\<exists>(p, q)\<in>set (pairs points). coord axis p = v \<and> coord axis q = v \<and> EPSILON < \<bar>coord (1 - axis) q - coord (1 - axis) p\<bar>)"

definition corridorTopologyMatches :: "point list \<Rightarrow> nat \<Rightarrow> real \<Rightarrow> bool" where
  "corridorTopologyMatches points axis v \<longleftrightarrow>
     (let collapsed = normalizeRoutePoints points; start = hd collapsed; end = last collapsed;
          mid = (if axis = 0 then [(v, snd start), (v, snd end)] else [(fst start, v), (fst end, v)])
      in map segmentOrientation (pairs collapsed) = map segmentOrientation (pairs (normalizeRoutePoints (start # mid @ [end]))) \<and>
         contains_channel collapsed axis v)"

definition routeMatchesPresetFamily :: "jstring \<Rightarrow> point list \<Rightarrow> placed_node \<Rightarrow> placed_node \<Rightarrow> bool" where
  "routeMatchesPresetFamily preset points from to =
     (let collapsed = normalizeRoutePoints points; segments = pairs collapsed;
          along = (\<lambda>d axis P. \<exists>seg\<in>set segments. segmentOrientation seg = d \<and> P (coord axis (fst seg)) \<and>
                     corridorTopologyMatches points axis (coord axis (fst seg)));
          (upper, lower) = (if bcy from \<le> bcy to then (from, to) else (to, from))
      in if preset = js ''straight'' then length collapsed = 2
         else if preset = js ''drop'' then
           pn_lane from \<noteq> pn_lane to \<and>
           (length collapsed = 2 \<and> segmentOrientation (hd segments) = Vertical_segment \<or>
            along Horizontal_segment 1 (\<lambda>y. ry upper + rheight upper - EPSILON \<le> y \<and> y \<le> ry lower + EPSILON))
         else if preset = js ''outside-right'' then
           along Vertical_segment 0 (\<lambda>x. max (rx from + rwidth from) (rx to + rwidth to) + EPSILON < x)
         else if preset = js ''return-left'' then along Vertical_segment 0 (\<lambda>x. x < min (rx from) (rx to) - EPSILON)
         else if preset = js ''bottom-channel'' then
           along Horizontal_segment 1 (\<lambda>y. max (ry from + rheight from) (ry to + rheight to) + EPSILON < y)
         else if preset = js ''up-channel'' then along Horizontal_segment 1 (\<lambda>y. y < min (ry from) (ry to) - EPSILON)
         else False)"

text \<open>The way points of the six presets; \<open>x\<close> and \<open>y\<close> are the pinned channels, if any.\<close>

definition preset_via ::
  "scene \<Rightarrow> flow_edge \<Rightarrow> placed_node \<Rightarrow> placed_node \<Rightarrow> point \<Rightarrow> point \<Rightarrow> real option \<Rightarrow> real option \<Rightarrow> point list option" where
  "preset_via s e from to start end x y =
     (let at_x = (\<lambda>v. Some (let c = case_option v id x in [(c, snd start), (c, snd end)]));
          at_y = (\<lambda>v. Some (let c = case_option v id y in [(fst start, c), (fst end, c)]))
      in if rel_route e = Some (js ''straight'') then Some []
         else if rel_route e = Some (js ''drop'') then at_y (gapYBetween s (pn_lane from) (pn_lane to) (bias_of e))
         else if rel_route e = Some (js ''outside-right'') then at_x (outside_right s)
         else if rel_route e = Some (js ''return-left'') then at_x (min (rx from) (rx to) - 28)
         else if rel_route e = Some (js ''bottom-channel'') then at_y (max (ry from + rheight from) (ry to + rheight to) + 32)
         else if rel_route e = Some (js ''up-channel'') then at_y (min (ry from) (ry to) - 28)
         else None)"

definition readablePresetVia ::
  "scene \<Rightarrow> routes \<Rightarrow> flow_edge \<Rightarrow> placed_node \<Rightarrow> placed_node \<Rightarrow> point \<Rightarrow> point \<Rightarrow> side \<Rightarrow> side \<Rightarrow> routing_error + point list" where
  "readablePresetVia s routes e from to start end from_side to_side =
     (case preset_via s e from to start end None None of
        None \<Rightarrow> readableAutomaticVia s routes e from to start end from_side to_side
      | Some mid \<Rightarrow>
          let points = normalizeRoutePoints (start # mid @ [end]); preset = or_empty (rel_route e)
          in if readableCandidateIsFeasible s routes e points from to from_side to_side \<and> routeMatchesPresetFamily preset points from to
             then Inr (butlast (tl points))
             else Inl (Route_preset_conflict preset points))"

definition oneBendCrossLaneVia :: "scene \<Rightarrow> flow_edge \<Rightarrow> point \<Rightarrow> point \<Rightarrow> side \<Rightarrow> side \<Rightarrow> point list option" where
  "oneBendCrossLaneVia s e start end from_side to_side =
     (let fromVertical = (from_side \<in> {TopS, BottomS}); toVertical = (to_side \<in> {TopS, BottomS});
          corner = (if fromVertical then (fst start, snd end) else (fst end, snd start));
          points = normalizeRoutePoints [start, corner, end]
      in if fromVertical = toVertical then None
         else if length points \<noteq> 3 \<or> \<not> routeHonorsEndpointSides points (Some from_side) (Some to_side) then None
         else if \<not> (\<forall>(p, q)\<in>set (pairs points). 8 \<le> hypot (fst q - fst p) (snd q - snd p)) \<or> \<not> routeClearsUnrelatedNodes s e points 2
         then None
         else Some (butlast (tl points)))"

definition routeVia ::
  "scene \<Rightarrow> routes \<Rightarrow> flow_edge \<Rightarrow> placed_node \<Rightarrow> placed_node \<Rightarrow> point \<Rightarrow> point \<Rightarrow> side \<Rightarrow> side \<Rightarrow> bool \<Rightarrow> routing_error + point list" where
  "routeVia s routes e from to start end from_side to_side validateReadablePreset =
     (case via e of Some v \<Rightarrow> Inr v | None \<Rightarrow>
        if readable s \<and> \<not> auto_route e \<and> channelX e = None \<and> channelY e = None \<and> validateReadablePreset
        then readablePresetVia s routes e from to start end from_side to_side
        else case preset_via s e from to start end (channelX e) (channelY e) of
          Some mid \<Rightarrow> Inr mid
        | None \<Rightarrow>
            if readable s then
              (case (channelX e, channelY e) of
                 (Some x, Some y) \<Rightarrow> Inr [(x, snd start), (x, y), (fst end, y)]
               | (Some x, None) \<Rightarrow> Inr [(x, snd start), (x, snd end)]
               | (None, Some y) \<Rightarrow> Inr [(fst start, y), (fst end, y)]
               | (None, None) \<Rightarrow> readableAutomaticVia s routes e from to start end from_side to_side)
            else if pn_lane from = pn_lane to then Inr (sameLaneAutoVia start end)
            else case oneBendCrossLaneVia s e start end from_side to_side of
              Some mid \<Rightarrow> Inr mid
            | None \<Rightarrow> let y = gapYBetween s (pn_lane from) (pn_lane to) (bias_of e) in Inr [(fst start, y), (fst end, y)])"

end
