(* ===== verification/Workflow_Paths.thy ===== *)
theory Workflow_Paths
  imports Workflow_Routing
begin

text \<open>
  The routes of a whole document: the pairs of sides, the automatic and the controlled route of an edge,
  \<open>pathFor\<close> with its caches as an explicit state, and the rounds of layout feedback at the end of
  \<open>compileWorkflow\<close>.
\<close>

section \<open>Sides of automatic routes\<close>

definition sideOrder :: "side list" where "sideOrder = [RightS, BottomS, LeftS, TopS]"

definition authored_or_all :: "side option \<Rightarrow> side list" where
  "authored_or_all authored = (case authored of Some a \<Rightarrow> [a] | None \<Rightarrow> sideOrder)"

definition natural_side :: "side option \<Rightarrow> side \<Rightarrow> side" where
  "natural_side authored fallback = (case authored of Some a \<Rightarrow> a | None \<Rightarrow> fallback)"

definition natural_sides :: "flow_edge \<Rightarrow> placed_node \<Rightarrow> placed_node \<Rightarrow> side \<times> side" where
  "natural_sides e from to =
     (natural_side (authored_side (fromSide e)) (defaultFromSide (box.truncate from) (box.truncate to)),
      natural_side (authored_side (toSide e)) (defaultToSide (box.truncate from) (box.truncate to)))"

text \<open>
  The side pairs in the order of the search: the preferred ones, then all, without those that contradict an
  authored side and without repetitions.
\<close>

definition side_pairs :: "flow_edge \<Rightarrow> (side \<times> side) list \<Rightarrow> (side \<times> side) list" where
  "side_pairs e preferred =
     (let a = authored_side (fromSide e); b = authored_side (toSide e)
      in first_occurrences (filter (\<lambda>(f, t). (a = None \<or> a = Some f) \<and> (b = None \<or> b = Some t))
           (preferred @ List.product (authored_or_all a) (authored_or_all b))))"

definition legacyAutomaticOneBendSides :: "scene \<Rightarrow> flow_edge \<Rightarrow> placed_node \<Rightarrow> placed_node \<Rightarrow> (side \<times> side) option" where
  "legacyAutomaticOneBendSides s e from to =
     (if via e \<noteq> None \<or> \<not> auto_route e \<or> authored_side (fromSide e) \<noteq> None \<or> authored_side (toSide e) \<noteq> None \<or>
         pn_lane from = pn_lane to then None
      else if bcx from = bcx to \<or> bcy from = bcy to then None
      else find (\<lambda>(f, t). oneBendCrossLaneVia s e (anchor (box.truncate from) f) (anchor (box.truncate to) t) f t \<noteq> None)
        [(if bcy to < bcy from then TopS else BottomS, if bcx to < bcx from then RightS else LeftS),
         (if bcx to < bcx from then LeftS else RightS, if bcy to < bcy from then BottomS else TopS)])"

definition free_route :: "flow_edge \<Rightarrow> bool" where
  "free_route e \<longleftrightarrow> via e = None \<and> channelX e = None \<and> channelY e = None \<and> auto_route e"

definition pair_candidates :: "scene \<Rightarrow> routes \<Rightarrow> flow_edge \<Rightarrow> placed_node \<Rightarrow> placed_node \<Rightarrow> nat \<times> side \<times> side \<Rightarrow> plan list" where
  "pair_candidates s routes e from to = (\<lambda>(pairOrdinal, f, t).
     case natural_sides e from to of (nf, nt) \<Rightarrow>
       readableAutomaticCandidateSet s routes e from to (anchor (box.truncate from) f) (anchor (box.truncate to) t) f t
         (pairOrdinal * 9) nf nt)"

text \<open>The computation behind \<open>readableSideCache\<close>; the cache itself is part of the routing state below.\<close>

definition readableAutomaticSides :: "scene \<Rightarrow> routes \<Rightarrow> flow_edge \<Rightarrow> placed_node \<Rightarrow> placed_node \<Rightarrow> (side \<times> side) option" where
  "readableAutomaticSides s routes e from to =
     (let sidePairs = side_pairs e ((case legacyAutomaticOneBendSides s e from to of Some p \<Rightarrow> [p] | None \<Rightarrow> []) @ [natural_sides e from to]);
          primary = hd sidePairs
      in if sidePairs \<noteq> [] \<and> pair_candidates s routes e from to (0, primary) \<noteq> [] then Some primary
         else case cheapest_first (concat (map (pair_candidates s routes e from to) (enumerate 0 sidePairs))) of
             best # _ \<Rightarrow> Some (pl_from best, pl_to best)
           | [] \<Rightarrow> None)"

section \<open>The automatic route of an edge\<close>

definition port_or_anchor :: "point option \<Rightarrow> bool \<Rightarrow> placed_node \<Rightarrow> side \<Rightarrow> point" where
  "port_or_anchor port primary n sd = (case port of Some p \<Rightarrow> if primary then p else anchor (box.truncate n) sd | None \<Rightarrow> anchor (box.truncate n) sd)"

definition pair_plans ::
  "scene \<Rightarrow> routes \<Rightarrow> flow_edge \<Rightarrow> placed_node \<Rightarrow> placed_node \<Rightarrow> ports option \<Rightarrow> nat \<times> side \<times> side \<Rightarrow> routing_error + plan list" where
  "pair_plans s routes e from to ports = (\<lambda>(pairOrdinal, f, t).
     let (nf, nt) = natural_sides e from to;
         start = port_or_anchor (Option.bind ports port_from) (pairOrdinal = 0) from f;
         end = port_or_anchor (Option.bind ports port_to) (pairOrdinal = 0) to t;
         planned = readableAutomaticCandidateSet s routes e from to start end f t (pairOrdinal * 9) nf nt
     in if planned \<noteq> [] then Inr planned
        else case readableAutomaticVia s routes e from to start end f t of
            Inl err \<Rightarrow> Inl err
          | Inr mid \<Rightarrow>
              let points = normalizeRoutePoints (start # mid @ [end]); ordinal = pairOrdinal * 9 + 6
              in Inr [\<lparr>pl_family = js ''outside-right'', pl_ordinal = ordinal, pl_points = points,
                       pl_cost = readableCandidateCost s routes e points ordinal nf nt, pl_from = f, pl_to = t\<rparr>])"

definition feedback_of :: "routing_error + 'a \<Rightarrow> layout_request option" where
  "feedback_of r = (case r of Inl (Layout_feedback q) \<Rightarrow> Some q | _ \<Rightarrow> None)"

definition failure_of :: "routing_error + 'a \<Rightarrow> routing_error option" where
  "failure_of r = (case r of Inl (Layout_feedback q) \<Rightarrow> None | Inl err \<Rightarrow> Some err | Inr _ \<Rightarrow> None)"

definition feedback_priority :: "layout_request \<Rightarrow> nat" where
  "feedback_priority q = (case lq_kind q of Rank_gap_minimum _ _ \<Rightarrow> 0 | Lane_gap_minimum \<Rightarrow> 1)"

text \<open>Some pair always remains, so the error after the loop is that of a request, of the pins or of a pair.\<close>

definition readableAutomaticRoute ::
  "scene \<Rightarrow> routes \<Rightarrow> flow_edge \<Rightarrow> placed_node \<Rightarrow> placed_node \<Rightarrow> side \<times> side \<Rightarrow> ports option \<Rightarrow> routing_error + plan" where
  "readableAutomaticRoute s routes e from to primarySides ports =
     (let outcomes = map (pair_plans s routes e from to ports) (enumerate 0 (side_pairs e [primarySides]))
      in case cheapest_first (concat (List.map_filter (\<lambda>r. case r of Inr ps \<Rightarrow> Some ps | Inl _ \<Rightarrow> None) outcomes)) of
           best # _ \<Rightarrow> Inr best
         | [] \<Rightarrow>
             (case sort_key feedback_priority (List.map_filter feedback_of outcomes) of
                q # _ \<Rightarrow> Inl (Layout_feedback q)
              | [] \<Rightarrow>
                  if authored_side (fromSide e) \<noteq> None \<or> authored_side (toSide e) \<noteq> None then Inl Explicit_pin_conflict
                  else Inl (hd (List.map_filter failure_of outcomes))))"

section \<open>Controlled routes\<close>

definition isReadableControlledRoute :: "scene \<Rightarrow> flow_edge \<Rightarrow> bool" where
  "isReadableControlledRoute s e \<longleftrightarrow> readable s \<and> (hasAbsoluteRoutePins e \<or> \<not> auto_route e)"

definition keeps_channel_pins :: "flow_edge \<Rightarrow> point list \<Rightarrow> bool" where
  "keeps_channel_pins e points \<longleftrightarrow>
     (\<forall>x\<in>set_option (channelX e). contains_channel points 0 x) \<and> (\<forall>y\<in>set_option (channelY e). contains_channel points 1 y)"

text \<open>The route of a side pair; a controlled edge needs no automatic way points here.\<close>

definition materialized :: "scene \<Rightarrow> routes \<Rightarrow> flow_edge \<Rightarrow> placed_node \<Rightarrow> placed_node \<Rightarrow> side \<times> side \<Rightarrow> routing_error + point list" where
  "materialized s routes e from to = (\<lambda>(f, t).
     let start = anchor (box.truncate from) f; end = anchor (box.truncate to) t
     in case routeVia s routes e from to start end f t False of
          Inl err \<Rightarrow> Inl err
        | Inr mid \<Rightarrow> Inr (if hasAbsoluteRoutePins e then start # mid @ [end] else normalizeRoutePoints (start # mid @ [end])))"

definition controlled_plans ::
  "scene \<Rightarrow> routes \<Rightarrow> flow_edge \<Rightarrow> placed_node \<Rightarrow> placed_node \<Rightarrow> (nat \<times> (side \<times> side) \<times> point list) list \<Rightarrow> plan list" where
  "controlled_plans s routes e from to routed =
     (let (nf, nt) = natural_sides e from to
      in map (\<lambda>(ordinal, (f, t), points).
             \<lparr>pl_family = or_empty (rel_route e), pl_ordinal = ordinal, pl_points = points,
              pl_cost = readableCandidateCost s routes e points ordinal nf nt, pl_from = f, pl_to = t\<rparr>)
           (filter (\<lambda>(ordinal, (f, t), points).
               readableCandidateIsFeasible s routes e points from to f t \<and>
               (auto_route e \<or> routeMatchesPresetFamily (or_empty (rel_route e)) points from to) \<and>
               keeps_channel_pins e points) routed))"

fun collect_results :: "('a \<Rightarrow> 'e + 'b) \<Rightarrow> 'a list \<Rightarrow> 'e + 'b list" where
  "collect_results f [] = Inr []"
| "collect_results f (v # vs) =
     (case f v of Inl err \<Rightarrow> Inl err | Inr r \<Rightarrow> (case collect_results f vs of Inl err \<Rightarrow> Inl err | Inr rs \<Rightarrow> Inr (r # rs)))"

definition readableControlledRoute ::
  "scene \<Rightarrow> routes \<Rightarrow> flow_edge \<Rightarrow> placed_node \<Rightarrow> placed_node \<Rightarrow> routing_error + (point list \<times> side \<times> side)" where
  "readableControlledRoute s routes e from to =
     (let sidePairs = side_pairs e [natural_sides e from to]
      in case collect_results (materialized s routes e from to) sidePairs of
           Inl err \<Rightarrow> Inl err
         | Inr routed \<Rightarrow>
             (let entries = zip sidePairs routed
              in case cheapest_first (controlled_plans s routes e from to (enumerate 0 entries)) of
                   best # _ \<Rightarrow> Inr (pl_points best, pl_from best, pl_to best)
                 | [] \<Rightarrow>
                     if hasAbsoluteRoutePins e then
                       (case find (\<lambda>((f, t), points). 2 \<le> length points \<and> routeHonorsEndpointSides points (Some f) (Some t)) entries of
                          Some ((f, t), points) \<Rightarrow> Inr (points, f, t)
                        | None \<Rightarrow> (case hd entries of ((f, t), points) \<Rightarrow> Inr (points, f, t)))
                     else
                       (case hd entries of ((f, t), points) \<Rightarrow>
                          (case readablePresetVia s routes e from to (hd points) (last points) f t of
                             Inl err \<Rightarrow> Inl err
                           | Inr mid \<Rightarrow> Inr (normalizeRoutePoints (hd points # mid @ [last points]), f, t)))))"

section \<open>Placing routes\<close>

text \<open>\<open>pathCache\<close> and \<open>readableSideCache\<close>; \<open>Some None\<close> is a cached \<open>null\<close>.\<close>

record routing_state =
  rs_paths :: routes
  rs_sides :: "nat \<Rightarrow> (side \<times> side) option option"

definition automaticOneBendSides ::
  "scene \<Rightarrow> routing_state \<Rightarrow> flow_edge \<Rightarrow> placed_node \<Rightarrow> placed_node \<Rightarrow> (side \<times> side) option \<times> routing_state" where
  "automaticOneBendSides s st e from to =
     (if \<not> readable s then (legacyAutomaticOneBendSides s e from to, st)
      else if \<not> free_route e \<or> authored_side (fromSide e) \<noteq> None \<and> authored_side (toSide e) \<noteq> None then (None, st)
      else case rs_sides st (oid e) of
          Some cached \<Rightarrow> (cached, st)
        | None \<Rightarrow>
            let found = readableAutomaticSides s (rs_paths st) e from to
            in (found, st\<lparr>rs_sides := (rs_sides st)(oid e \<mapsto> found)\<rparr>))"

definition edgeSides :: "scene \<Rightarrow> routing_state \<Rightarrow> flow_edge \<Rightarrow> placed_node \<Rightarrow> placed_node \<Rightarrow> (side \<times> side) \<times> routing_state" where
  "edgeSides s st e from to =
     (case (if readable s then rs_sides st (oid e) else None) of
        Some (Some resolved) \<Rightarrow> (resolved, st)
      | _ \<Rightarrow>
          (case automaticOneBendSides s st e from to of
             (Some sides, st') \<Rightarrow> (sides, st')
           | (None, st') \<Rightarrow>
               if readable s \<and> fe_key e \<in> set (ly_channelLabelEdgeKeys (sn_layout s)) \<and> fromSide e = None \<and> toSide e = None
               then ((TopS, TopS), st')
               else ((chosenSide (fromSide e) (defaultFromSide (box.truncate from) (box.truncate to)),
                      chosenSide (toSide e) (defaultToSide (box.truncate from) (box.truncate to))), st')))"

text \<open>
  The initial state: \<open>automaticPortSpread\<close> asks for the sides of every edge it may move while no route is placed,
  which fills the side cache.
\<close>

definition spread_sides :: "scene \<Rightarrow> flow_edge \<Rightarrow> routing_state \<Rightarrow> routing_state" where
  "spread_sides s e st =
     (if \<not> free_route e \<or> labelAt e \<noteq> None then st
      else case (node_at s (rel_from e), node_at s (rel_to e)) of
          (Some from, Some to) \<Rightarrow> snd (edgeSides s st e from to)
        | _ \<Rightarrow> st)"

definition initial_state :: "scene \<Rightarrow> routing_state" where
  "initial_state s = foldl (\<lambda>st e. spread_sides s e st) \<lparr>rs_paths = [], rs_sides = (\<lambda>_. None)\<rparr> (flow_edges s)"

text \<open>The callbacks \<open>sideFor\<close> of the port spread and \<open>fromSideFor\<close>, \<open>toSideFor\<close> of the side gate.\<close>

definition side_for :: "scene \<Rightarrow> routing_state \<Rightarrow> Routes.relation \<Rightarrow> endpoint \<Rightarrow> side option" where
  "side_for s st r endpoint =
     (case (node_at s (rel_from r), node_at s (rel_to r)) of
        (Some from, Some to) \<Rightarrow>
          let (f, t) = fst (edgeSides s st (flow_edges s ! oid r) from to) in Some (if endpoint = Source then f else t)
      | _ \<Rightarrow> None)"

definition automaticPorts :: "scene \<Rightarrow> nat \<Rightarrow> ports option" where
  "automaticPorts s =
     automaticPortSpread (map relation.truncate (flow_edges s)) (\<lambda>i. map_option box.truncate (node_at s i)) 16 14 (side_for s (initial_state s))"

definition place_route :: "flow_edge \<Rightarrow> point list \<Rightarrow> (side \<times> side) option \<Rightarrow> routing_state \<Rightarrow> routing_state" where
  "place_route e points sides st =
     \<lparr>rs_paths = rs_paths st @ [(e, points)],
      rs_sides = (case sides of None \<Rightarrow> rs_sides st | Some p \<Rightarrow> (rs_sides st)(oid e \<mapsto> Some p))\<rparr>"

definition cached_route :: "routing_state \<Rightarrow> 'a Routes.relation_scheme \<Rightarrow> point list option" where
  "cached_route st e = map_of (map (\<lambda>(other, points). (oid other, points)) (rs_paths st)) (oid e)"

definition plain_route :: "scene \<Rightarrow> routing_state \<Rightarrow> flow_edge \<Rightarrow> placed_node \<Rightarrow> placed_node \<Rightarrow> ports option \<Rightarrow> side \<times> side \<Rightarrow> routing_error + point list" where
  "plain_route s st e from to ports = (\<lambda>(f, t).
     let start = port_or_anchor (Option.bind ports port_from) True from f; end = port_or_anchor (Option.bind ports port_to) True to t
     in case routeVia s (rs_paths st) e from to start end f t True of
          Inl err \<Rightarrow> Inl err
        | Inr mid \<Rightarrow>
            Inr (if readable s \<and> \<not> hasAbsoluteRoutePins e then normalizeRoutePoints (start # mid @ [end]) else start # mid @ [end]))"

definition pathFor :: "scene \<Rightarrow> routing_state \<Rightarrow> flow_edge \<Rightarrow> routing_error + point list \<times> routing_state" where
  "pathFor s st e =
     (case cached_route st e of
        Some points \<Rightarrow> Inr (points, st)
      | None \<Rightarrow>
          (case (node_at s (rel_from e), node_at s (rel_to e)) of
             (Some from, Some to) \<Rightarrow>
               if isReadableControlledRoute s e then
                 (case readableControlledRoute s (rs_paths st) e from to of
                    Inl err \<Rightarrow> Inl err
                  | Inr (points, sides) \<Rightarrow> Inr (points, place_route e points (Some sides) st))
               else
                 (case edgeSides s st e from to of
                    (sides, st') \<Rightarrow>
                      if readable s \<and> free_route e then
                        (case readableAutomaticRoute s (rs_paths st') e from to sides (automaticPorts s (oid e)) of
                           Inl err \<Rightarrow> Inl err
                         | Inr best \<Rightarrow> Inr (pl_points best, place_route e (pl_points best) (Some (pl_from best, pl_to best)) st'))
                      else
                        (case plain_route s st' e from to (automaticPorts s (oid e)) sides of
                           Inl err \<Rightarrow> Inl err
                         | Inr points \<Rightarrow> Inr (points, place_route e points None st')))
           | _ \<Rightarrow> Inl Route_type_error))"

text \<open>The labels of the placed edges, in the order of the document.\<close>

definition placed_labels :: "scene \<Rightarrow> routing_state \<Rightarrow> (flow_edge \<times> rect) list" where
  "placed_labels s st = List.map_filter (\<lambda>e. case cached_route st e of
      None \<Rightarrow> None | Some points \<Rightarrow> map_option (Pair e) (labelRectFor s e points)) (flow_edges s)"

section \<open>Rounds of layout feedback\<close>

definition MAX_READABLE_LAYOUT_FEEDBACK_ROUNDS :: nat where "MAX_READABLE_LAYOUT_FEEDBACK_ROUNDS = 3"

text \<open>\<open>rankGapMinimums\<close> under its text keys \<open>from:to\<close>, in the order in which \<open>sort\<close> reads them.\<close>

definition rank_gap_minimum :: "layout_feedback \<Rightarrow> nat \<times> nat \<Rightarrow> real option" where
  "rank_gap_minimum fb = map_of (lf_rankGapMinimums fb)"

definition gap_key :: "(nat \<times> nat) \<times> real \<Rightarrow> jstring" where
  "gap_key = (\<lambda>((f, t), minimum). decimal f @ js '':'' @ decimal t)"

definition set_rank_gap :: "layout_feedback \<Rightarrow> nat \<times> nat \<Rightarrow> real \<Rightarrow> layout_feedback" where
  "set_rank_gap fb k v = fb\<lparr>lf_rankGapMinimums := sort_key gap_key ((k, v) # filter (\<lambda>(k', _). k' \<noteq> k) (lf_rankGapMinimums fb))\<rparr>"

definition exceeds :: "real \<Rightarrow> real option \<Rightarrow> bool" where
  "exceeds v current = (case current of None \<Rightarrow> True | Some c \<Rightarrow> c + EPSILON < v)"

definition next_feedback :: "layout_feedback \<Rightarrow> layout_request \<Rightarrow> layout_feedback option" where
  "next_feedback fb q =
     (case lq_kind q of
        Rank_gap_minimum f t \<Rightarrow> if exceeds (lq_minimum q) (rank_gap_minimum fb (f, t)) then Some (set_rank_gap fb (f, t) (lq_minimum q)) else None
      | Lane_gap_minimum \<Rightarrow> if exceeds (lq_minimum q) (lf_laneGapMin fb) then Some (fb\<lparr>lf_laneGapMin := Some (lq_minimum q)\<rparr>) else None)"

text \<open>
  \<open>compile\<close> is \<open>compileWorkflowInternal\<close>: it asks for another layout or returns; \<open>failed\<close> is \<open>feedbackFailure\<close>. The
  first argument counts the attempts that remain after this one.
\<close>

fun feedback_rounds :: "nat \<Rightarrow> (layout_feedback \<Rightarrow> layout_request + 'r) \<Rightarrow> (layout_request \<Rightarrow> 'r) \<Rightarrow> layout_feedback \<Rightarrow> 'r" where
  "feedback_rounds remaining compile failed fb =
     (case compile fb of
        Inr result \<Rightarrow> result
      | Inl request \<Rightarrow>
          (case next_feedback fb request of
             None \<Rightarrow> failed request
           | Some fb' \<Rightarrow> (case remaining of 0 \<Rightarrow> failed request | Suc n \<Rightarrow> feedback_rounds n compile failed fb')))"

definition compileWorkflowWithFeedback :: "(layout_feedback \<Rightarrow> layout_request + 'r) \<Rightarrow> (layout_request \<Rightarrow> 'r) \<Rightarrow> 'r" where
  "compileWorkflowWithFeedback compile failed =
     feedback_rounds MAX_READABLE_LAYOUT_FEEDBACK_ROUNDS compile failed no_feedback"

end
