(* ===== verification/Workflow_Validation.thy ===== *)
theory Workflow_Validation
  imports Workflow_Paths
begin

text \<open>
  What a readable document has to satisfy before and after its routes are placed: the checks of its inputs, the
  geometry of pinned routes and labels edge by edge and pair by pair, and \<open>validateWorkflow\<close> with its seven
  gates. Every check keeps the position the code gives it, so the first failure is the one the code reports. The
  wording of problems and the verified fixes, which the code finds by compiling variants, are left out.
\<close>

section \<open>Failures\<close>

datatype input_problem =
    Duplicate_lane_id jstring
  | Duplicate_node_id jstring
  | Unknown_edge_endpoint endpoint jstring
  | Unknown_node_lane jstring
  | Invalid_node_column jstring
  | Node_overlap jstring jstring

datatype pin_invariant =
    Preset_compatibility | Origin_containment | Non_zero_segments | Orthogonal_segments | Endpoint_stub | Interior_turn
  | Channel_preservation | Endpoint_direction | Node_clearance | Legend_clearance | Scene_label_clearance | Frame_border
  | Label_node | Label_legend | Label_scene | Label_route | Label_label | Route_crossing | Route_corridor

datatype workflow_problem =
    No_lanes | Lane_ids | Node_ids | Phase_ids | Group_ids
  | Unknown_lane jstring | Bad_column jstring | Label_too_wide jstring | Brand_rail jstring | Sublabel_too_wide jstring
  | Tag_too_wide jstring | Outside_lane jstring | Lane_boundary jstring
  | Phase_columns jstring | Phase_label jstring | Phase_overlap jstring jstring
  | Group_lane jstring | Group_columns jstring | Group_empty jstring
  | Nodes_close jstring jstring | Unknown_source jstring | Unknown_target jstring | Short_edge jstring jstring
  | Gate_problem problem
  | Main_path_node jstring | Main_path_unlinked jstring jstring | Main_path_backward jstring jstring
  | Label_over_node jstring jstring | Labels_overlap jstring jstring
  | Viewbox_clips_lanes | Legend_below_viewbox

text \<open>A pin conflict carries the positions of the edges it is about; an error of the canvas its measures.\<close>

datatype compile_error =
    Input_problem input_problem
  | Pin_conflict pin_invariant "nat list"
  | Routing routing_error
  | Column_capacity nat
  | Layout_validation "workflow_problem list"
  | Outside_origin bool
  | Viewbox_capacity "real \<times> real"

section \<open>Inputs\<close>

fun first_duplicate :: "jstring list \<Rightarrow> jstring list \<Rightarrow> jstring option" where
  "first_duplicate seen [] = None"
| "first_duplicate seen (i # ids) = (if i \<in> set seen then Some i else first_duplicate (i # seen) ids)"

definition endpoint_problem :: "scene \<Rightarrow> workflow_edge \<Rightarrow> input_problem option" where
  "endpoint_problem s e =
     (if we_from e \<notin> bid ` set (nodes s) then Some (Unknown_edge_endpoint Source (we_from e))
      else if we_to e \<notin> bid ` set (nodes s) then Some (Unknown_edge_endpoint Target (we_to e))
      else None)"

text \<open>Coordinates are real numbers here, so no node has a non-finite one.\<close>

definition placement_problem :: "scene \<Rightarrow> workflow_node \<Rightarrow> input_problem option" where
  "placement_problem s n =
     (if wn_lane n \<notin> wl_id ` set (wf_lanes (sn_workflow s)) then Some (Unknown_node_lane (wn_id n))
      else if length (ly_colXs (sn_layout s)) \<le> wn_col n then Some (Invalid_node_column (wn_id n))
      else None)"

definition overlap_problem :: "scene \<Rightarrow> workflow_node list \<Rightarrow> jstring \<Rightarrow> input_problem option" where
  "overlap_problem s authoredNodes lane =
     first_some (\<lambda>(left, right). if rectsOverlap (measureNode s left) (measureNode s right) 8
         then Some (Node_overlap (wn_id left) (wn_id right)) else None)
       (ordered_pairs (filter (\<lambda>n. wn_lane n = lane) authoredNodes))"

text \<open>\<open>authored\<close> is the document before \<open>canonicalReadableWorkflow\<close>: the lists are read in its order.\<close>

definition validateReadableInputsBeforeRouting :: "scene \<Rightarrow> workflow \<Rightarrow> compile_error + unit" where
  "validateReadableInputsBeforeRouting s authored =
     (if \<not> readable s then Inr ()
      else case first_duplicate [] (map wl_id (wf_lanes authored)) of
        Some i \<Rightarrow> Inl (Input_problem (Duplicate_lane_id i))
      | None \<Rightarrow> (case first_duplicate [] (map wn_id (wf_nodes authored)) of
          Some i \<Rightarrow> Inl (Input_problem (Duplicate_node_id i))
        | None \<Rightarrow> (case first_some (endpoint_problem s) (wf_edges authored) of
            Some p \<Rightarrow> Inl (Input_problem p)
          | None \<Rightarrow> (case first_some (placement_problem s) (wf_nodes authored) of
              Some p \<Rightarrow> Inl (Input_problem p)
            | None \<Rightarrow> (case first_some (overlap_problem s (wf_nodes authored)) (first_occurrences (map wn_lane (wf_nodes authored))) of
                Some p \<Rightarrow> Inl (Input_problem p)
              | None \<Rightarrow> Inr ())))))"

section \<open>Authored route controls\<close>

text \<open>Which channels a preset takes: \<open>channelX\<close> and \<open>channelY\<close>.\<close>

definition READABLE_PRESET_PIN_FIELDS :: "jstring \<Rightarrow> bool \<times> bool" where
  "READABLE_PRESET_PIN_FIELDS preset =
     (preset = js ''outside-right'' \<or> preset = js ''return-left'',
      preset = js ''drop'' \<or> preset = js ''bottom-channel'' \<or> preset = js ''up-channel'')"

definition validateReadableRouteControls :: "flow_edge \<Rightarrow> compile_error + unit" where
  "validateReadableRouteControls e =
     (case READABLE_PRESET_PIN_FIELDS (or_empty (rel_route e)) of (allowX, allowY) \<Rightarrow>
        throw_if (\<not> auto_route e \<and> (channelX e \<noteq> None \<and> \<not> allowX \<or> channelY e \<noteq> None \<and> \<not> allowY))
          (Pin_conflict Preset_compatibility [oid e]))"

definition hasAuthoredRouteAssertions :: "'a Routes.relation_scheme \<Rightarrow> bool" where
  "hasAuthoredRouteAssertions r \<longleftrightarrow>
     via r \<noteq> None \<or> channelX r \<noteq> None \<or> channelY r \<noteq> None \<or> truthy (rel_route r) \<and> rel_route r \<noteq> Some (js ''auto'') \<or>
     authored_side (fromSide r) \<noteq> None \<or> authored_side (toSide r) \<noteq> None"

definition route_of :: "scene \<Rightarrow> flow_edge \<Rightarrow> routing_state \<Rightarrow> compile_error + point list \<times> routing_state" where
  "route_of s e st = (case pathFor s st e of Inl err \<Rightarrow> Inl (Routing err) | Inr r \<Rightarrow> Inr r)"

text \<open>\<open>labelRectFor\<close> with its call of \<open>pathFor\<close>.\<close>

definition label_of :: "scene \<Rightarrow> flow_edge \<Rightarrow> routing_state \<Rightarrow> compile_error + rect option \<times> routing_state" where
  "label_of s e st =
     (if \<not> truthy (rel_label e) \<or> node_at s (rel_from e) = None \<or> node_at s (rel_to e) = None then Inr (None, st)
      else bind_result (route_of s e st) (\<lambda>(points, st'). Inr (labelRectFor s e points, st')))"

section \<open>Pinned geometry\<close>

fun first_failure :: "(bool \<times> pin_invariant) list \<Rightarrow> pin_invariant option" where
  "first_failure [] = None"
| "first_failure ((failed, i) # checks) = (if failed then Some i else first_failure checks)"

definition pinned_segment :: "nat \<Rightarrow> nat \<times> segment \<Rightarrow> pin_invariant option" where
  "pinned_segment n = (\<lambda>(i, p, q).
     let dx = \<bar>fst q - fst p\<bar>; dy = \<bar>snd q - snd p\<bar>; endpoint = (i = 0 \<or> i = n - 2);
         minimumPx = (if n = 2 then 28 else if endpoint then 8 else 16)
     in first_failure
          [(dx \<le> EPSILON \<and> dy \<le> EPSILON, Non_zero_segments), (EPSILON < dx \<and> EPSILON < dy, Orthogonal_segments),
           (dx + dy + EPSILON < minimumPx, if endpoint then Endpoint_stub else Interior_turn)])"

definition pinned_route :: "scene \<Rightarrow> flow_edge \<Rightarrow> point list \<Rightarrow> side \<times> side \<Rightarrow> placed_node \<Rightarrow> placed_node \<Rightarrow> pin_invariant option" where
  "pinned_route s e points sides src tgt =
     (case first_some (pinned_segment (length points)) (enumerate 0 (pairs points)) of
        Some i \<Rightarrow> Some i
      | None \<Rightarrow> first_failure
          [(via e \<noteq> None \<and> \<not> keeps_channel_pins e points, Channel_preservation),
           (\<not> auto_route e \<and> \<not> routeMatchesPresetFamily (or_empty (rel_route e)) points src tgt, Preset_compatibility),
           (\<not> routeHonorsEndpointSides points (Some (fst sides)) (Some (snd sides)), Endpoint_direction),
           (firstRouteNodeCollision s e points \<noteq> None, Node_clearance),
           (\<exists>r\<in>set (legend_rects s). \<exists>seg\<in>set (pairs points). segmentIntersectsRect seg r 0, Legend_clearance),
           (\<exists>r\<in>set (workflowSceneLabelObstacles s). \<exists>seg\<in>set (pairs points). segmentIntersectsRect seg r 0, Scene_label_clearance),
           (\<not> routeClearsFrameBorders s points, Frame_border)])"

definition pinned_label :: "scene \<Rightarrow> rect option \<Rightarrow> pin_invariant option" where
  "pinned_label s label =
     (case label of None \<Rightarrow> None
      | Some l \<Rightarrow> first_failure
          [(\<exists>n\<in>set (nodes s). rectsOverlap l n (- 2), Label_node),
           (\<exists>r\<in>set (legend_rects s). rectsOverlap l r 0, Label_legend),
           (\<exists>r\<in>set (workflowSceneLabelObstacles s). rectsOverlap l r 0, Label_scene)])"

definition fail_pin :: "flow_edge \<Rightarrow> pin_invariant option \<Rightarrow> compile_error + unit" where
  "fail_pin e p = (case p of None \<Rightarrow> Inr () | Some i \<Rightarrow> Inl (Pin_conflict i [oid e]))"

definition negative_pin :: "flow_edge \<Rightarrow> bool" where
  "negative_pin e \<longleftrightarrow>
     (\<exists>points\<in>set_option (via e). \<exists>(x, y)\<in>set points. x < 0 \<or> y < 0) \<or>
     (\<exists>x\<in>set_option (channelX e). x < 0) \<or> (\<exists>y\<in>set_option (channelY e). y < 0)"

text \<open>The label of an edge that has a label position, with the route it needs.\<close>

definition label_at_of :: "scene \<Rightarrow> flow_edge \<Rightarrow> routing_state \<Rightarrow> compile_error + rect option \<times> routing_state" where
  "label_at_of s e st = (if labelAt e = None then Inr (None, st) else label_of s e st)"

definition validate_pinned_edge :: "scene \<Rightarrow> flow_edge \<Rightarrow> routing_state \<Rightarrow> compile_error + routing_state" where
  "validate_pinned_edge s e st =
     (case (node_at s (rel_from e), node_at s (rel_to e)) of
        (Some src, Some tgt) \<Rightarrow>
          bind_result (validateReadableRouteControls e) (\<lambda>_.
          bind_result (label_at_of s e st) (\<lambda>(label, st1).
          bind_result (throw_if (\<exists>l\<in>set_option label. rx l < 0 \<or> ry l < 0) (Pin_conflict Origin_containment [oid e])) (\<lambda>_.
          bind_result (throw_if (negative_pin e) (Pin_conflict Origin_containment [oid e])) (\<lambda>_.
          bind_result (route_of s e st1) (\<lambda>(points, st2).
          case (if hasAbsoluteRoutePins e then edgeSides s st2 e src tgt else ((Auto, Auto), st2)) of (sides, st3) \<Rightarrow>
          bind_result (fail_pin e (if hasAbsoluteRoutePins e then pinned_route s e points sides src tgt else None)) (\<lambda>_.
          bind_result (fail_pin e (pinned_label s label)) (\<lambda>_. Inr st3)))))))
      | _ \<Rightarrow> Inr st)"

fun fold_result :: "('a \<Rightarrow> 's \<Rightarrow> 'e + 's) \<Rightarrow> 'a list \<Rightarrow> 's \<Rightarrow> 'e + 's" where
  "fold_result f [] st = Inr st"
| "fold_result f (v # vs) st = bind_result (f v st) (fold_result f vs)"

section \<open>Pairs of pinned relations\<close>

definition placed_relations :: "scene \<Rightarrow> routing_state \<Rightarrow> (flow_edge \<times> point list) list" where
  "placed_relations s st =
     List.map_filter (\<lambda>e. if node_at s (rel_from e) = None \<or> node_at s (rel_to e) = None then None else map_option (Pair e) (cached_route st e))
       (flow_edges s)"

definition properOrthogonalIntersection :: "segment \<Rightarrow> segment \<Rightarrow> point option" where
  "properOrthogonalIntersection left right =
     (let l = segmentOrientation left; r = segmentOrientation right
      in if l = r \<or> l = Diagonal_segment \<or> r = Diagonal_segment then None
         else let (h1, h2) = (if l = Horizontal_segment then left else right);
                  (v1, v2) = (if l = Vertical_segment then left else right);
                  p = (fst v1, snd h1)
              in if min (fst h1) (fst h2) + EPSILON < fst p \<and> fst p < max (fst h1) (fst h2) - EPSILON \<and>
                    min (snd v1) (snd v2) + EPSILON < snd p \<and> snd p < max (snd v1) (snd v2) - EPSILON
                 then Some p else None)"

definition pinned_crossing :: "(flow_edge \<times> point list) \<times> flow_edge \<times> point list \<Rightarrow> bool" where
  "pinned_crossing = (\<lambda>((l, left), (r, right)).
     (hasAuthoredRouteAssertions l \<or> hasAuthoredRouteAssertions r) \<and> \<not> shares_node l r \<and>
     (\<exists>a\<in>set (forwardCollinearAnalysisSegments left). \<exists>b\<in>set (forwardCollinearAnalysisSegments right).
        properOrthogonalIntersection (an_start a, an_end a) (an_start b, an_end b) \<noteq> None))"

definition label_conflict :: "(flow_edge \<times> rect) \<times> flow_edge \<times> rect \<Rightarrow> bool" where
  "label_conflict = (\<lambda>((l, left), (r, right)). rectsOverlap left right (- 2) \<and> (labelAt l \<noteq> None \<or> labelAt r \<noteq> None))"

definition label_route_conflict :: "label_hit \<Rightarrow> bool" where
  "label_route_conflict hit \<longleftrightarrow>
     (\<exists>r\<in>set_option (le_relation (lh_label hit)). labelAt r \<noteq> None) \<or>
     (\<exists>r\<in>set_option (lr_relation (lh_other hit)). hasAuthoredRouteAssertions r)"

definition corridor_conflict :: "corridor_hit \<Rightarrow> bool" where
  "corridor_conflict hit \<longleftrightarrow>
     hasAuthoredRouteAssertions (co_relation (ch_left hit)) \<or> hasAuthoredRouteAssertions (co_relation (ch_right hit))"

definition validateReadablePairwisePinConflicts :: "scene \<Rightarrow> routing_state \<Rightarrow> compile_error + unit" where
  "validateReadablePairwisePinConflicts s st =
     (let labels = placed_labels s st; relations = placed_relations s st; routed = map routed_of relations
      in case find label_route_conflict (collectLabelRouteClearance (map (\<lambda>(e, r). label_entry_of e r) labels) routed 4) of
           Some hit \<Rightarrow> Inl (Pin_conflict Label_route [lh_labelRelationIndex hit, lr_index (lh_other hit)])
         | None \<Rightarrow> (case find label_conflict (ordered_pairs labels) of
             Some ((l, _), (r, _)) \<Rightarrow> Inl (Pin_conflict Label_label [oid l, oid r])
           | None \<Rightarrow>
               if wf_profile (sn_workflow s) \<noteq> Some (js ''showcase'') then Inr ()
               else case find pinned_crossing (ordered_pairs relations) of
                 Some ((l, _), (r, _)) \<Rightarrow> Inl (Pin_conflict Route_crossing [oid l, oid r])
               | None \<Rightarrow> (case find corridor_conflict (collectAmbiguousCorridors routed 8) of
                   Some hit \<Rightarrow> Inl (Pin_conflict Route_corridor [co_index (ch_left hit), co_index (ch_right hit)])
                 | None \<Rightarrow> Inr ())))"

definition validateReadablePinnedGeometry :: "scene \<Rightarrow> routing_state \<Rightarrow> compile_error + routing_state" where
  "validateReadablePinnedGeometry s st =
     (if \<not> readable s then Inr st
      else bind_result (fold_result (validate_pinned_edge s) (flow_edges s) st) (\<lambda>st'.
           bind_result (validateReadablePairwisePinConflicts s st') (\<lambda>_. Inr st')))"

section \<open>The validated document\<close>

text \<open>The columns of a fixed layout cannot move, so two linked nodes of a lane may lack room; the first such edge.\<close>

definition column_capacity :: "scene \<Rightarrow> flow_edge \<Rightarrow> nat option" where
  "column_capacity s e =
     (case (nodesById (sn_workflow s) (rel_from e), nodesById (sn_workflow s) (rel_to e)) of
        (Some f, Some t) \<Rightarrow>
          let src = measureNode s f; tgt = measureNode s t;
              clearance = \<bar>bcx tgt - bcx src\<bar> - rwidth src / 2 - rwidth tgt / 2;
              direct = (via e = None \<and> (auto_route e \<or> rel_route e = Some (js ''straight'')) \<and> \<bar>bcy src - bcy tgt\<bar> < EPSILON)
          in if wn_lane f \<noteq> wn_lane t \<or> wn_col f = wn_col t \<or>
                \<not> verticalIntervalsOverlap (f\<lparr>wn_height := Some (rheight src)\<rparr>) (t\<lparr>wn_height := Some (rheight tgt)\<rparr>) 8
             then None
             else if clearance < (if direct then 28 else 8) then Some (oid e) else None
      | _ \<Rightarrow> None)"

definition enforceLegacyColumnCapacity :: "scene \<Rightarrow> compile_error + unit" where
  "enforceLegacyColumnCapacity s =
     (if wf_schemaVersion (sn_workflow s) \<noteq> 1 then Inr ()
      else case first_some (column_capacity s) (flow_edges s) of Some i \<Rightarrow> Inl (Column_capacity i) | None \<Rightarrow> Inr ())"

definition when_true :: "bool \<Rightarrow> 'a \<Rightarrow> 'a list" where
  "when_true b v = (if b then [v] else [])"

text \<open>\<open>branded\<close> tells whether \<open>brandMarkFor\<close> finds a mark for a node.\<close>

definition node_text_problems :: "(workflow_node \<Rightarrow> bool) \<Rightarrow> workflow_node \<Rightarrow> real \<Rightarrow> workflow_problem list" where
  "node_text_problems branded n width =
     when_true (width + 6 < real (textUnits (wn_label n)) * (68 / 10)) (Label_too_wide (wn_id n)) @
     when_true (branded n \<and> width - 48 < real (textUnits (wn_label n)) * 9 * (6 / 10)) (Brand_rail (wn_id n)) @
     when_true (truthy (wn_sublabel n) \<and> availableNodeTextWidth width < minimumNodeTextWidth (or_empty (wn_sublabel n)) 6) (Sublabel_too_wide (wn_id n)) @
     when_true (truthy (wn_tag n) \<and> availableNodeTextWidth width < minimumNodeTextWidth (or_empty (wn_tag n)) 6) (Tag_too_wide (wn_id n))"

definition node_problems :: "scene \<Rightarrow> (workflow_node \<Rightarrow> bool) \<Rightarrow> workflow_node \<Rightarrow> workflow_problem list" where
  "node_problems s branded n =
     (if wn_lane n \<notin> wl_id ` set (wf_lanes (sn_workflow s)) then [Unknown_lane (wn_id n)]
      else if length (ly_colXs (sn_layout s)) \<le> wn_col n then [Bad_column (wn_id n)]
      else
        let r = measureNode s n; l = sn_layout s; top = laneTop s (wn_lane n);
            contentTop = top + ly_laneTitleH l + laneGroupHeaderH s (wn_lane n)
        in node_text_problems branded n (rwidth r) @
           when_true (rx r < ly_laneX l \<or> ly_laneX l + ly_laneW l < rx r + rwidth r) (Outside_lane (wn_id n)) @
           when_true (ry r < contentTop \<or> top + laneHeight s (wn_lane n) < ry r + rheight r) (Lane_boundary (wn_id n)))"

definition phase_problems :: "scene \<Rightarrow> workflow_span \<Rightarrow> workflow_problem list" where
  "phase_problems s p =
     (let n = length (ly_colXs (sn_layout s)); width = sb_width (phaseSpan s p)
      in when_true (\<not> within_columns s p) (Phase_columns (ws_id p)) @
         when_true (ws_fromCol p < n \<and> ws_toCol p < n \<and> width + 8 < real (textUnits (ws_label p)) * (56 / 10)) (Phase_label (ws_id p)))"

definition range_key :: "workflow_span \<Rightarrow> nat \<times> nat" where
  "range_key p = (ws_fromCol p, ws_toCol p)"

fun phase_overlaps :: "workflow_span list \<Rightarrow> workflow_problem list" where
  "phase_overlaps [] = []"
| "phase_overlaps (p # ps) =
     map (\<lambda>q. Phase_overlap (ws_id q) (ws_id p)) (takeWhile (\<lambda>q. ws_fromCol q \<le> ws_toCol p) ps) @ phase_overlaps ps"

definition group_problems :: "scene \<Rightarrow> workflow_span \<Rightarrow> workflow_problem list" where
  "group_problems s g =
     (if ws_lane g \<notin> wl_id ` set (wf_lanes (sn_workflow s)) then [Group_lane (ws_id g)]
      else when_true (\<not> within_columns s g) (Group_columns (ws_id g)) @
           when_true (\<not> (\<exists>n\<in>set (nodes s). pn_lane n = ws_lane g \<and> ws_fromCol g \<le> pn_col n \<and> pn_col n \<le> ws_toCol g)) (Group_empty (ws_id g)))"

definition close_nodes :: "scene \<Rightarrow> workflow_problem list" where
  "close_nodes s = concat (map (\<lambda>lane.
     map (\<lambda>(a, b). Nodes_close (bid a) (bid b))
       (filter (\<lambda>(a, b). rectsOverlap a b 8) (ordered_pairs (filter (\<lambda>n. pn_lane n = lane) (nodes s)))))
     (first_occurrences (map pn_lane (nodes s))))"

text \<open>The problems of an edge's ends and of a straight route; the route is placed when it is not yet.\<close>

definition edge_problems :: "scene \<Rightarrow> flow_edge \<Rightarrow> workflow_problem list \<times> routing_state \<Rightarrow> compile_error + workflow_problem list \<times> routing_state" where
  "edge_problems s e = (\<lambda>(problems, st).
     let unknown = when_true (node_at s (rel_from e) = None) (Unknown_source (rel_from e)) @
           when_true (node_at s (rel_to e) = None) (Unknown_target (rel_to e))
     in if unknown \<noteq> [] then Inr (problems @ unknown, st)
        else bind_result (route_of s e st) (\<lambda>(points, st').
          Inr (problems @ when_true (length points = 2 \<and>
                 hypot (fst (points ! 1) - fst (points ! 0)) (snd (points ! 1) - snd (points ! 0)) < 28)
               (Short_edge (rel_from e) (rel_to e)), st')))"

definition workflow_context :: gate_context where
  "workflow_context = \<lparr>gc_diagramType = js ''workflow'', gc_collection = js ''edges'', gc_routeHint = []\<rparr>"

text \<open>The seven gates, with the profile of the document and the routes that are placed.\<close>

definition gate_problems_before_labels :: "scene \<Rightarrow> routing_state \<Rightarrow> problem list" where
  "gate_problems_before_labels s st =
     (let rs = map relation.truncate (flow_edges s); ids = bid ` set (nodes s); path = cached_route st;
          profile = wf_profile (sn_workflow s); c = workflow_context
      in cleanEndpointSideProblems c rs ids path (\<lambda>r. side_for s st r Source) (\<lambda>r. side_for s st r Target) (\<lambda>_ _. True) @
         cleanFlowProblems c rs (map box.truncate (nodes s)) path (js ''node'') 2 @
         cleanCrossingProblems c None rs ids path profile True (readable s) @
         cleanAmbiguousCorridorProblems c None rs (Some ids) path profile True 8 @
         cleanBorderRunProblems c None rs (Some ids) (workflowCompositionFrames s) path profile True @
         cleanRouteRhythmProblems c None rs (Some ids) path profile True 16 8)"

definition label_gate_problems :: "scene \<Rightarrow> routing_state \<Rightarrow> problem list" where
  "label_gate_problems s st =
     cleanLabelRouteClearanceProblems workflow_context None (map relation.truncate (flow_edges s))
       (map (\<lambda>(e, r). label_entry_of e r) (placed_labels s st)) (Some (bid ` set (nodes s))) (cached_route st)
       (wf_profile (sn_workflow s)) True 4"

definition main_path_problems :: "scene \<Rightarrow> workflow_problem list" where
  "main_path_problems s =
     (case wf_mainPath (sn_workflow s) of
        None \<Rightarrow> []
      | Some ids \<Rightarrow>
          map Main_path_node (filter (\<lambda>i. node_at s i = None) ids) @
          concat (map (\<lambda>(f, t).
            case (node_at s f, node_at s t) of
              (Some src, Some tgt) \<Rightarrow>
                when_true (\<not> (\<exists>e\<in>set (wf_edges (sn_workflow s)). we_from e = f \<and> we_to e = t)) (Main_path_unlinked f t) @
                when_true (pn_col tgt < pn_col src) (Main_path_backward f t)
            | _ \<Rightarrow> []) (zip ids (tl ids))))"

definition label_problems :: "scene \<Rightarrow> routing_state \<Rightarrow> workflow_problem list" where
  "label_problems s st =
     (let labels = placed_labels s st; text_of = (\<lambda>e. or_empty (rel_label e))
      in concat (map (\<lambda>(e, r). List.map_filter (\<lambda>n. if rectsOverlap r n (- 2) then Some (Label_over_node (text_of e) (bid n)) else None) (nodes s)) labels) @
         map (\<lambda>((e, _), (e', _)). Labels_overlap (text_of e) (text_of e')) (filter (\<lambda>((_, r), (_, r')). rectsOverlap r r' (- 2)) (ordered_pairs labels)))"

definition canvas_problems :: "scene \<Rightarrow> workflow_problem list" where
  "canvas_problems s =
     (if wf_schemaVersion (sn_workflow s) \<noteq> 1 then []
      else let l = sn_layout s; (width, height) = (case wf_viewBox (sn_workflow s) of Some v \<Rightarrow> v | None \<Rightarrow> (minimumCanvasWidth s, autoHeight s))
        in when_true (width < ly_laneX l + ly_laneW l + 16) Viewbox_clips_lanes @
           when_true (height < legendY s + 18) Legend_below_viewbox)"

definition identity_problems :: "workflow \<Rightarrow> workflow_problem list" where
  "identity_problems w =
     when_true (\<not> distinct (map wl_id (wf_lanes w))) Lane_ids @ when_true (\<not> distinct (map wn_id (wf_nodes w))) Node_ids @
     when_true (\<not> distinct (map ws_id (wf_phases w))) Phase_ids @ when_true (\<not> distinct (map ws_id (wf_groups w))) Group_ids"

text \<open>
  \<open>validateWorkflow\<close> on a document that fits the schema, so its members exist and have their types. It returns the
  state in which every route is placed.
\<close>

definition validateWorkflow :: "scene \<Rightarrow> (workflow_node \<Rightarrow> bool) \<Rightarrow> routing_state \<Rightarrow> compile_error + routing_state" where
  "validateWorkflow s branded st =
     (let w = sn_workflow s
      in bind_result (throw_if (wf_lanes w = []) (Layout_validation [No_lanes])) (\<lambda>_.
         bind_result (enforceLegacyColumnCapacity s) (\<lambda>_.
         bind_result (fold_result (edge_problems s) (flow_edges s)
             (identity_problems w @
              concat (map (\<lambda>i. node_problems s branded (the (nodesById w i))) (node_ids w)) @
              concat (map (phase_problems s) (wf_phases w)) @
              phase_overlaps (sort_key range_key (filter (within_columns s) (wf_phases w))) @
              concat (map (group_problems s) (wf_groups w)) @ close_nodes s, st)) (\<lambda>(problems, st').
         let all = problems @ map Gate_problem (gate_problems_before_labels s st') @ main_path_problems s @ label_problems s st' @
               map Gate_problem (label_gate_problems s st') @ canvas_problems s
         in bind_result (throw_if (all \<noteq> []) (Layout_validation all)) (\<lambda>_. Inr st')))))"

end
