(* ===== verification/Workflow_Compile.thy ===== *)
theory Workflow_Compile
  imports Workflow_Validation
begin

text \<open>
  \<open>finalizeReadableViewBox\<close> with the bounds of the measured content, the receipt, and the compiler itself:
  schema, semantic contract, scene, the four stages of the geometry, and the rounds of layout feedback. The schema
  validator, the localised labels and the brand marks are arguments.
\<close>

section \<open>The canvas\<close>

record content_bounds =
  cb_left :: real
  cb_top :: real
  cb_right :: real
  cb_bottom :: real

definition includePoint :: "point \<Rightarrow> content_bounds \<Rightarrow> content_bounds" where
  "includePoint = (\<lambda>(x, y) b.
     \<lparr>cb_left = (if x < cb_left b then x else cb_left b), cb_top = (if y < cb_top b then y else cb_top b),
      cb_right = (if cb_right b < x then x else cb_right b), cb_bottom = (if cb_bottom b < y then y else cb_bottom b)\<rparr>)"

definition corners :: "'a rect_scheme \<Rightarrow> point list" where
  "corners r = [(rx r, ry r), (rx r + rwidth r, ry r + rheight r)]"

definition edge_content :: "scene \<Rightarrow> routing_state \<Rightarrow> flow_edge \<Rightarrow> point list" where
  "edge_content s st e =
     (if node_at s (rel_from e) = None \<or> node_at s (rel_to e) = None then []
      else case cached_route st e of
          None \<Rightarrow> []
        | Some points \<Rightarrow> points @ (case labelRectFor s e points of None \<Rightarrow> [] | Some l \<Rightarrow> corners l))"

definition content_points :: "scene \<Rightarrow> routing_state \<Rightarrow> point list" where
  "content_points s st =
     concat (map corners (nodes s)) @
     concat (map (edge_content s st) (flow_edges s)) @
     concat (map (\<lambda>p. corners (phase_header s p)) (filter (within_columns s) (wf_phases (sn_workflow s)))) @
     concat (map (\<lambda>g. corners (group_rect s g) @ (if readable s then corners (group_label s g) else []))
       (filter (\<lambda>g. laneIndex s (ws_lane g) \<noteq> None \<and> within_columns s g) (wf_groups (sn_workflow s)))) @
     concat (map corners (legend_rects s))"

text \<open>The names of what determines each bound are left out.\<close>

definition measuredContentBounds :: "scene \<Rightarrow> routing_state \<Rightarrow> content_bounds" where
  "measuredContentBounds s st =
     fold includePoint (content_points s st)
       \<lparr>cb_left = ly_laneX (sn_layout s), cb_top = 27, cb_right = ly_laneX (sn_layout s) + ly_laneW (sn_layout s),
        cb_bottom = legendY s + 18\<rparr>"

text \<open>The result is the final \<open>viewBox\<close> with \<open>requiredViewBox\<close>.\<close>

definition finalizeReadableViewBox :: "scene \<Rightarrow> routing_state \<Rightarrow> compile_error + (real \<times> real) \<times> real \<times> real" where
  "finalizeReadableViewBox s st =
     (let authored = wf_viewBox (sn_workflow s)
      in if \<not> readable s
         then (let v = (case authored of Some v \<Rightarrow> v | None \<Rightarrow> (minimumCanvasWidth s, autoHeight s)) in Inr (v, v))
         else
           let b = measuredContentBounds s st;
               required = (max (minimumCanvasWidth s) (of_int \<lceil>cb_right b + 16\<rceil>), max (autoHeight s) (of_int \<lceil>cb_bottom b + 18\<rceil>))
           in if cb_left b < 0 \<or> cb_top b < 0
              then Inl (Outside_origin (\<exists>e\<in>set (flow_edges s). hasAbsoluteRoutePins e \<or> labelAt e \<noteq> None))
              else case authored of
                  None \<Rightarrow> Inr (required, required)
                | Some v \<Rightarrow> if fst v < fst required \<or> snd v < snd required then Inl (Viewbox_capacity required) else Inr (v, required))"

section \<open>Compilation\<close>

record receipt =
  re_viewBox :: "real \<times> real"
  re_requiredViewBox :: "real \<times> real"
  re_columns :: "real list"
  re_nodes :: "placed_node list"
  re_edges :: "(flow_edge \<times> point list) list"
  re_labels :: "(flow_edge \<times> point) list"

definition receipt_of :: "scene \<Rightarrow> routing_state \<Rightarrow> (real \<times> real) \<times> real \<times> real \<Rightarrow> receipt" where
  "receipt_of s st = (\<lambda>(viewBox, required).
     \<lparr>re_viewBox = viewBox, re_requiredViewBox = required, re_columns = ly_colXs (sn_layout s), re_nodes = nodes s,
      re_edges = List.map_filter (\<lambda>e. map_option (Pair e) (cached_route st e)) (flow_edges s),
      re_labels = List.map_filter (\<lambda>e.
        if \<not> truthy (rel_label e) \<or> node_at s (rel_from e) = None \<or> node_at s (rel_to e) = None then None
        else case cached_route st e of None \<Rightarrow> None | Some points \<Rightarrow> map_option (Pair e) (workflowEdgeLabelPoint s e points)) (flow_edges s)\<rparr>)"

text \<open>The four stages after the scene; the markup of the drawing is left out.\<close>

definition compile_scene :: "scene \<Rightarrow> workflow \<Rightarrow> (workflow_node \<Rightarrow> bool) \<Rightarrow> compile_error + receipt" where
  "compile_scene s authored branded =
     bind_result (validateReadableInputsBeforeRouting s authored) (\<lambda>_.
     bind_result (validateReadablePinnedGeometry s (initial_state s)) (\<lambda>st.
     bind_result (validateWorkflow s branded st) (\<lambda>st'.
     bind_result (finalizeReadableViewBox s st') (\<lambda>v. Inr (receipt_of s st' v)))))"

text \<open>\<open>Type_error_thrown\<close> is an exception of the whole call; the other failures are results with \<open>ok: false\<close>.\<close>

datatype compilation =
    Compiled receipt
  | Schema_failure
  | Semantic_failure "semantic_diagnostic list"
  | Compile_failure compile_error
  | Feedback_failure layout_request
  | Type_error_thrown

definition resolve_profile :: "jstring option \<Rightarrow> workflow \<Rightarrow> workflow" where
  "resolve_profile qualityProfile w = (if truthy qualityProfile then w\<lparr>wf_profile := qualityProfile\<rparr> else w)"

text \<open>\<open>valid\<close> is the schema validator, \<open>label\<close> the localised legend labels.\<close>

definition compileWorkflowInternal ::
  "(workflow \<Rightarrow> bool) \<Rightarrow> (jstring \<Rightarrow> jstring) \<Rightarrow> (workflow_node \<Rightarrow> bool) \<Rightarrow> workflow \<Rightarrow> layout_feedback \<Rightarrow>
     layout_request + compilation" where
  "compileWorkflowInternal valid label branded w fb =
     (if \<not> valid w then Inr Schema_failure
      else let c = canonicalReadableWorkflow w
        in if semanticContractDiagnostics c \<noteq> [] then Inr (Semantic_failure (semanticContractDiagnostics c))
           else case compile_scene (scene_of c fb label) w branded of
               Inr r \<Rightarrow> Inr (Compiled r)
             | Inl err \<Rightarrow>
                 (case err of
                    Routing (Layout_feedback q) \<Rightarrow> Inl q
                  | Routing Route_type_error \<Rightarrow> Inr Type_error_thrown
                  | _ \<Rightarrow> Inr (Compile_failure err)))"

definition compileWorkflow ::
  "(workflow \<Rightarrow> bool) \<Rightarrow> (jstring \<Rightarrow> jstring) \<Rightarrow> (workflow_node \<Rightarrow> bool) \<Rightarrow> jstring option \<Rightarrow> workflow \<Rightarrow> compilation" where
  "compileWorkflow valid label branded qualityProfile w =
     compileWorkflowWithFeedback (compileWorkflowInternal valid label branded (resolve_profile qualityProfile w)) Feedback_failure"

end
