(* ===== verification/Workflow_Layout_Laws.thy ===== *)
theory Workflow_Layout_Laws
  imports Workflow_Layout Migration_Laws "HOL-Library.Multiset"
begin

text \<open>
  What the documents and layouts of the workflow compiler satisfy: the search of the semantic contract decides
  reachability, and the contract has no diagnostics exactly when it holds; the canonical order depends on the
  nodes, edges, phases and groups only; the columns solve the constraints and are the least that do; hence nodes,
  labels and lane edges keep their clearances.
\<close>

section \<open>Reachability\<close>

lemma set_first_occurrences [simp]: "set (first_occurrences vs) = set vs"
  by (simp add: first_occurrences_def)

lemma set_adjacency: "i \<in> set (adjacency es f) \<longleftrightarrow> (f, i) \<in> set es"
  by (force simp: adjacency_def)

definition reach_inv :: "(jstring \<times> jstring) list \<Rightarrow> jstring \<Rightarrow> jstring \<Rightarrow> jstring list \<Rightarrow> jstring list \<Rightarrow> bool" where
  "reach_inv es start to visited pending \<longleftrightarrow>
     start \<in> set visited \<and> set pending \<subseteq> set visited \<and> (\<forall>v\<in>set visited. (start, v) \<in> (set es)\<^sup>*) \<and>
     (\<forall>v \<in> set visited - set pending. v \<noteq> to \<and> (\<forall>i. (v, i) \<in> set es \<longrightarrow> i \<in> set visited))"

lemma reach_inv_step:
  assumes "reach_inv es start to visited (current # pending)" "current \<noteq> to"
    and "foldl visit (visited, pending) (adjacency es current) = (visited', pending')"
  shows "reach_inv es start to visited' pending'"
proof -
  note v = visit_loop [OF assms(3)]
  have cur: "(start, current) \<in> (set es)\<^sup>*" using assms(1) by (auto simp: reach_inv_def)
  have r: "(start, i) \<in> (set es)\<^sup>*" if "i \<in> set visited'" for i
  proof (cases "i \<in> set visited")
    case True
    then show ?thesis using assms(1) by (simp add: reach_inv_def)
  next
    case False
    then have "(current, i) \<in> set es" using that v set_adjacency by blast
    then show ?thesis by (rule rtrancl_into_rtrancl [OF cur])
  qed
  have c: "i \<noteq> to \<and> (\<forall>j. (i, j) \<in> set es \<longrightarrow> j \<in> set visited')" if "i \<in> set visited' - set pending'" for i
  proof (cases "i = current")
    case True
    then show ?thesis using v assms(2) set_adjacency by auto
  next
    case False
    then have "i \<in> set visited - set (current # pending)" using that v by auto
    then show ?thesis using assms(1) v unfolding reach_inv_def by blast
  qed
  have "start \<in> set visited'" "set pending' \<subseteq> set visited'" using assms(1) v by (auto simp: reach_inv_def)
  then show ?thesis using r c by (simp add: reach_inv_def)
qed

lemma reach_loop_iff: "reach_inv es start to visited pending \<Longrightarrow> reach_loop es to visited pending \<longleftrightarrow> (start, to) \<in> (set es)\<^sup>*"
proof (induction es to visited pending rule: reach_loop.induct)
  case (1 es to visited)
  have "v \<in> set visited" if "(start, v) \<in> (set es)\<^sup>*" for v
    using that by (induction rule: rtrancl_induct) (use 1 in \<open>auto simp: reach_inv_def\<close>)
  moreover have "to \<notin> set visited" using 1 by (auto simp: reach_inv_def)
  ultimately show ?case by auto
next
  case (2 es to visited current pending)
  show ?case
  proof (cases "current = to")
    case True
    then show ?thesis using 2(2) by (auto simp: reach_inv_def)
  next
    case False
    obtain visited' pending' where l: "foldl visit (visited, pending) (adjacency es current) = (visited', pending')" by fastforce
    show ?thesis using 2(1) [OF False l [symmetric]] reach_inv_step [OF 2(2) False l] False l by simp
  qed
qed

lemma node_reachable_iff: "node_reachable es from to \<longleftrightarrow> (from, to) \<in> (set es)\<^sup>*"
  unfolding node_reachable_def by (rule reach_loop_iff) (simp add: reach_inv_def)

section \<open>The contract\<close>

definition workflow_edges :: "workflow \<Rightarrow> (jstring \<times> jstring) set" where
  "workflow_edges w = {(we_from e, we_to e) | e. e \<in> set (wf_edges w)}"

text \<open>The edges between nodes of the document, as a relation.\<close>

definition node_edges :: "workflow \<Rightarrow> (jstring \<times> jstring) set" where
  "node_edges w = workflow_edges w \<inter> (wn_id ` set (wf_nodes w) \<times> wn_id ` set (wf_nodes w))"

definition ids_named :: "semantic_checks \<Rightarrow> jstring set" where
  "ids_named c = (\<Union>vs \<in> set_option (sc_allowedRoots c) \<union> set_option (sc_allowedTerminals c). set vs) \<union>
     (\<Union>r \<in> set (sc_requiredEdges c) \<union> set (sc_requiredPaths c). {sr_from r, sr_to r})"

definition contract_holds :: "workflow \<Rightarrow> semantic_checks \<Rightarrow> bool" where
  "contract_holds w c \<longleftrightarrow>
     ids_named c \<subseteq> wn_id ` set (wf_nodes w) \<and>
     (\<forall>roots. sc_allowedRoots c = Some roots \<longrightarrow> wn_id ` set (wf_nodes w) - Range (node_edges w) \<subseteq> set roots) \<and>
     (\<forall>ends. sc_allowedTerminals c = Some ends \<longrightarrow> wn_id ` set (wf_nodes w) - Domain (node_edges w) \<subseteq> set ends) \<and>
     (\<forall>r\<in>set (sc_requiredEdges c). (sr_from r, sr_to r) \<in> workflow_edges w) \<and>
     (\<forall>r\<in>set (sc_requiredPaths c). (sr_from r, sr_to r) \<in> (node_edges w)\<^sup>*)"

lemma set_node_ids: "set (node_ids w) = wn_id ` set (wf_nodes w)"
  by (simp add: node_ids_def)

lemma set_known_edges: "set (known_edges w) = node_edges w"
  by (auto simp: known_edges_def node_edges_def workflow_edges_def set_node_ids)

lemma incoming_0: "incoming w i = 0 \<longleftrightarrow> i \<notin> Range (node_edges w)"
  by (auto simp: incoming_def filter_empty_conv simp flip: set_known_edges)

lemma outgoing_0: "outgoing w i = 0 \<longleftrightarrow> i \<notin> Domain (node_edges w)"
  by (auto simp: outgoing_def filter_empty_conv simp flip: set_known_edges)

lemma fst_id_references: "fst ` set (id_references path ids) = (\<Union>vs \<in> set_option ids. set vs)"
proof -
  have "fst ` set (map (\<lambda>(i, v). (v, f i)) (enumerate n vs)) = set vs" for f :: "nat \<Rightarrow> jstring" and n and vs :: "jstring list"
    by (induction vs arbitrary: n) auto
  then show ?thesis by (cases ids) (simp_all only: id_references_def, simp_all)
qed

lemma fst_relation_references: "fst ` set (relation_references path rs) = (\<Union>r\<in>set rs. {sr_from r, sr_to r})"
proof -
  have "fst ` set (concat (map (\<lambda>(i, r). [(sr_from r, f i), (sr_to r, g i)]) (enumerate n rs))) =
      (\<Union>r\<in>set rs. {sr_from r, sr_to r})" for f g :: "nat \<Rightarrow> jstring" and n
    by (induction rs arbitrary: n) auto
  then show ?thesis by (simp only: relation_references_def)
qed

lemma fst_referenced_nodes: "fst ` set (referenced_nodes c) = ids_named c"
  by (simp add: referenced_nodes_def image_Un fst_id_references fst_relation_references ids_named_def Un_ac)

lemma reference_diagnostics_Nil: "reference_diagnostics w c = [] \<longleftrightarrow> ids_named c \<subseteq> wn_id ` set (wf_nodes w)"
  unfolding reference_diagnostics_def fst_referenced_nodes [symmetric]
  by (auto simp: filter_empty_conv set_node_ids)

lemma root_diagnostics_Nil:
  "root_diagnostics w c = [] \<longleftrightarrow>
   (\<forall>roots. sc_allowedRoots c = Some roots \<longrightarrow> wn_id ` set (wf_nodes w) - Range (node_edges w) \<subseteq> set roots)"
  by (cases "sc_allowedRoots c") (auto simp: root_diagnostics_def filter_empty_conv set_node_ids incoming_0)

lemma terminal_diagnostics_Nil:
  "terminal_diagnostics w c = [] \<longleftrightarrow>
   (\<forall>ends. sc_allowedTerminals c = Some ends \<longrightarrow> wn_id ` set (wf_nodes w) - Domain (node_edges w) \<subseteq> set ends)"
  by (cases "sc_allowedTerminals c") (auto simp: terminal_diagnostics_def filter_empty_conv set_node_ids outgoing_0)

lemma filter_enumerate_snd: "map f (filter (\<lambda>(i, r). P r) (enumerate n rs)) = [] \<longleftrightarrow> (\<forall>r\<in>set rs. \<not> P r)"
  by (induction rs arbitrary: n) auto

lemma required_edge_Nil:
  "required_edge_diagnostics w c = [] \<longleftrightarrow> (\<forall>r\<in>set (sc_requiredEdges c). (sr_from r, sr_to r) \<in> workflow_edges w)"
  unfolding required_edge_diagnostics_def filter_enumerate_snd workflow_edges_def by auto

lemma required_path_Nil:
  "required_path_diagnostics w c = [] \<longleftrightarrow> (\<forall>r\<in>set (sc_requiredPaths c). (sr_from r, sr_to r) \<in> (node_edges w)\<^sup>*)"
  unfolding required_path_diagnostics_def filter_enumerate_snd node_reachable_iff set_known_edges by simp

lemma semanticContractDiagnostics_Nil:
  "semanticContractDiagnostics w = [] \<longleftrightarrow> (case wf_semanticChecks w of None \<Rightarrow> True | Some c \<Rightarrow> contract_holds w c)"
  by (cases "wf_semanticChecks w")
    (auto simp: semanticContractDiagnostics_def contract_holds_def reference_diagnostics_Nil root_diagnostics_Nil
      terminal_diagnostics_Nil required_edge_Nil required_path_Nil)

section \<open>The canonical order\<close>

text \<open>Documents that list the same nodes, edges, phases and groups in another order.\<close>

definition reordered :: "workflow \<Rightarrow> workflow \<Rightarrow> bool" where
  "reordered v w \<longleftrightarrow>
     wf_schemaVersion v = wf_schemaVersion w \<and> wf_profile v = wf_profile w \<and> wf_mainPath v = wf_mainPath w \<and> wf_viewBox v = wf_viewBox w \<and> wf_legend v = wf_legend w \<and> wf_lanes v = wf_lanes w \<and> wf_semanticChecks v = wf_semanticChecks w \<and>
     mset (wf_nodes v) = mset (wf_nodes w) \<and> mset (wf_edges v) = mset (wf_edges w) \<and>
     mset (wf_phases v) = mset (wf_phases w) \<and> mset (wf_groups v) = mset (wf_groups w)"

text \<open>Ids identify nodes, phases and groups; the text of an edge identifies it.\<close>

definition identified :: "workflow \<Rightarrow> bool" where
  "identified w \<longleftrightarrow> inj_on wn_id (set (wf_nodes w)) \<and> inj_on we_key (set (wf_edges w)) \<and>
     inj_on ws_id (set (wf_phases w)) \<and> inj_on ws_id (set (wf_groups w))"

lemma sort_key_mset:
  assumes "mset vs = mset ws" "inj_on f (set vs)"
  shows "sort_key f vs = sort_key f ws"
  by (rule sort_key_inj_key_eq) (use assms in simp_all)

lemma canonical_reordered:
  assumes "reordered v w" "identified v" "wf_schemaVersion v = 2"
  shows "canonicalReadableWorkflow v = canonicalReadableWorkflow w"
proof -
  have l: "laneOrder v = laneOrder w" using assms(1) by (simp add: laneOrder_def reordered_def)
  then have k: "node_key v = node_key w" "group_key v = group_key w"
    by (simp_all add: fun_eq_iff node_key_def group_key_def lane_rank_def)
  have i: "inj_on (node_key w) (set (wf_nodes v))" "inj_on edge_key (set (wf_edges v))"
    "inj_on phase_key (set (wf_phases v))" "inj_on (group_key w) (set (wf_groups v))"
    using assms(2) by (auto simp: identified_def inj_on_def node_key_def edge_key_def phase_key_def group_key_def)
  show ?thesis
    using assms(1,3) k sort_key_mset [OF _ i(1)] sort_key_mset [OF _ i(2)] sort_key_mset [OF _ i(3)] sort_key_mset [OF _ i(4)]
    by (simp add: canonicalReadableWorkflow_def reordered_def)
qed

section \<open>Relaxation\<close>

lemma relax_length [simp]: "length (relax to xs c) = length xs"
  by (simp add: relax_def Let_def)

lemma relax_other [simp]: "k \<noteq> to \<Longrightarrow> relax to xs c ! k = xs ! k"
  by (simp add: relax_def Let_def)

lemma relax_mono: "xs ! k \<le> relax to xs c ! k"
  by (cases "to < length xs"; cases "k = to") (auto simp: relax_def Let_def EPSILON_def not_less nth_list_update list_update_beyond)

lemma relax_reaches:
  assumes "rc_to c = to" "to < length xs"
  shows "xs ! rc_from c + rc_minimum c \<le> relax to xs c ! to + EPSILON"
  using assms by (auto simp: relax_def Let_def EPSILON_def not_less)

lemma relax_loop_simps [simp]: "length (foldl (relax to) xs cs) = length xs" "k \<noteq> to \<Longrightarrow> foldl (relax to) xs cs ! k = xs ! k"
  by (induction cs arbitrary: xs) simp_all

lemma relax_loop_mono: "xs ! k \<le> foldl (relax to) xs cs ! k"
proof (induction cs arbitrary: xs)
  case (Cons c cs)
  then show ?case using relax_mono [of xs k to c] by (metis foldl_Cons order_trans)
qed simp

lemma relax_loop_reaches:
  assumes "c \<in> set cs" "rc_to c = to" "rc_from c \<noteq> to" "to < length xs"
  shows "xs ! rc_from c + rc_minimum c \<le> foldl (relax to) xs cs ! to + EPSILON"
  using assms
proof (induction cs arbitrary: xs)
  case (Cons d cs)
  show ?case
  proof (cases "c = d")
    case True
    then show ?thesis using relax_reaches [of c to xs] relax_loop_mono [of "relax to xs c" to to cs] Cons.prems by simp
  next
    case False
    then show ?thesis using Cons.IH [of "relax to xs d"] Cons.prems by simp
  qed
qed simp

text \<open>The columns up to \<open>n\<close> are final after round \<open>n\<close>.\<close>

lemma rank_loop:
  assumes "length xs = 6" "n \<le> 6" "\<forall>c\<in>set cs. valid_constraint c"
  shows "length (foldl (\<lambda>ys to. foldl (relax to) ys cs) xs [1..<n]) = 6 \<and>
    (\<forall>c\<in>set cs. rc_to c < n \<longrightarrow> foldl (\<lambda>ys to. foldl (relax to) ys cs) xs [1..<n] ! rc_from c + rc_minimum c
       \<le> foldl (\<lambda>ys to. foldl (relax to) ys cs) xs [1..<n] ! rc_to c + EPSILON) \<and>
    (\<forall>k. xs ! k \<le> foldl (\<lambda>ys to. foldl (relax to) ys cs) xs [1..<n] ! k)"
  using assms(2)
proof (induction n)
  case 0
  then show ?case using assms(1) by simp
next
  case (Suc n)
  show ?case
  proof (cases "n = 0")
    case True
    have "\<not> rc_to c < Suc 0" if "c \<in> set cs" for c using assms(3) that by (auto simp: valid_constraint_def)
    then show ?thesis using True assms(1) by fastforce
  next
    case False
    define ys where "ys = foldl (\<lambda>ys to. foldl (relax to) ys cs) xs [1..<n]"
    have e: "foldl (\<lambda>ys to. foldl (relax to) ys cs) xs [1..<Suc n] = foldl (relax n) ys cs"
      using False by (simp add: ys_def)
    have ih: "length ys = 6" "\<forall>c\<in>set cs. rc_to c < n \<longrightarrow> ys ! rc_from c + rc_minimum c \<le> ys ! rc_to c + EPSILON"
      "\<forall>k. xs ! k \<le> ys ! k" using Suc by (simp_all add: ys_def)
    have "foldl (relax n) ys cs ! rc_from c + rc_minimum c \<le> foldl (relax n) ys cs ! rc_to c + EPSILON"
      if c: "c \<in> set cs" "rc_to c < Suc n" for c
    proof (cases "rc_to c = n")
      case True
      then show ?thesis using relax_loop_reaches [OF c(1), of n ys] assms(3) c ih(1) Suc.prems by (auto simp: valid_constraint_def)
    next
      case False
      then have "rc_to c < n" "rc_from c < n" using c assms(3) by (auto simp: valid_constraint_def)
      then show ?thesis using ih(2) c by simp
    qed
    then show ?thesis unfolding e using ih(1,3) relax_loop_mono order_trans by (auto intro: order_trans)
  qed
qed

lemma solve_columns_spec:
  shows "length (solve_columns cs) = 6"
    and "c \<in> set cs \<Longrightarrow> valid_constraint c \<Longrightarrow> solve_columns cs ! rc_from c + rc_minimum c \<le> solve_columns cs ! rc_to c + EPSILON"
    and "solve_columns cs ! k \<ge> start_columns ! k"
proof -
  let ?cs = "sort_key constraint_key (filter valid_constraint cs)"
  have "length start_columns = 6" "\<forall>c\<in>set ?cs. valid_constraint c" by (simp_all add: start_columns_def)
  note r = rank_loop [OF this(1) order_refl this(2)]
  show "length (solve_columns cs) = 6" "solve_columns cs ! k \<ge> start_columns ! k" using r by (simp_all add: solve_columns_def Let_def)
  show "c \<in> set cs \<Longrightarrow> valid_constraint c \<Longrightarrow> solve_columns cs ! rc_from c + rc_minimum c \<le> solve_columns cs ! rc_to c + EPSILON"
    using r by (simp add: solve_columns_def Let_def valid_constraint_def)
qed

text \<open>No other placement that meets the constraints is further left in any column.\<close>

definition admissible :: "rank_constraint list \<Rightarrow> real list \<Rightarrow> bool" where
  "admissible cs ys \<longleftrightarrow> (\<forall>k < columnCount. start_columns ! k \<le> ys ! k) \<and>
     (\<forall>c\<in>set cs. valid_constraint c \<longrightarrow> ys ! rc_from c + rc_minimum c \<le> ys ! rc_to c)"

lemma solve_columns_least:
  assumes "admissible cs ys" "k < columnCount"
  shows "solve_columns cs ! k \<le> ys ! k"
proof -
  let ?cs = "sort_key constraint_key (filter valid_constraint cs)"
  define P where "P xs \<longleftrightarrow> length xs = 6 \<and> (\<forall>k < columnCount. xs ! k \<le> ys ! k)" for xs :: "real list"
  have c: "P (relax to xs c)" if "P xs" "c \<in> set ?cs" for xs to c
  proof -
    have "valid_constraint c" "ys ! rc_from c + rc_minimum c \<le> ys ! rc_to c" using that(2) assms(1) by (auto simp: admissible_def)
    then show ?thesis using that(1) unfolding P_def
      by (auto simp: relax_def Let_def nth_list_update valid_constraint_def dest!: spec [of _ "rc_from c"])
  qed
  have "P (foldl (relax to) xs ds)" if "P xs" "set ds \<subseteq> set ?cs" for xs to ds
    using that by (induction ds arbitrary: xs) (auto simp: c)
  then have "P (foldl (\<lambda>xs to. foldl (relax to) xs ?cs) xs tos)" if "P xs" for xs tos
    using that by (induction tos arbitrary: xs) auto
  moreover have "P start_columns" using assms(1) by (simp add: P_def admissible_def start_columns_def)
  ultimately have "P (solve_columns cs)" by (simp add: solve_columns_def Let_def)
  then show ?thesis using assms(2) by (simp add: P_def)
qed

section \<open>The columns of the layout\<close>

definition layout_constraints :: "workflow \<Rightarrow> layout_feedback \<Rightarrow> rank_constraint list" where
  "layout_constraints w fb = rank_constraints w fb @ label_constraints w"

lemma ranked_columns_eq: "ranked_columns w fb = solve_columns (layout_constraints w fb)"
  by (simp add: ranked_columns_def layout_constraints_def)

lemma shifted_columns_shift: "\<exists>d. d \<ge> left_shift w xs \<and> shifted_columns w xs = map (\<lambda>x. x + d) xs"
proof -
  define a where "a = shift_columns (left_shift w xs) xs"
  define h where "h = (if 0 < header_shift w a then header_shift w a else 0)"
  define b where "b = (if 0 < header_shift w a then shift_columns (header_shift w a) a else a)"
  define c where "c = (if 0 < content_left_shift w b then content_left_shift w b else 0)"
  have "b = map (\<lambda>x. x + (left_shift w xs + h)) xs" unfolding b_def a_def h_def by (auto simp: shift_columns_def)
  then have "shifted_columns w xs = map (\<lambda>x. x + (left_shift w xs + h + c)) xs"
    unfolding shifted_columns_def Let_def a_def [symmetric] b_def [symmetric] c_def by (auto simp: shift_columns_def)
  moreover have "0 \<le> h" "0 \<le> c" by (auto simp: h_def c_def)
  ultimately show ?thesis by (intro exI [of _ "left_shift w xs + h + c"]) simp
qed

definition layout_columns :: "workflow \<Rightarrow> layout_feedback \<Rightarrow> real list" where
  "layout_columns w fb = ly_colXs (createReadableLayout w fb)"

lemma layout_columns_shift:
  "\<exists>d. d \<ge> left_shift w (ranked_columns w fb) \<and> layout_columns w fb = map (\<lambda>x. x + d) (ranked_columns w fb)"
  unfolding layout_columns_def createReadableLayout_def Let_def using shifted_columns_shift by simp

lemma layout_columns_constraint:
  assumes "c \<in> set (layout_constraints w fb)" "rc_from c < rc_to c" "rc_to c < columnCount"
  shows "layout_columns w fb ! rc_from c + rc_minimum c \<le> layout_columns w fb ! rc_to c + EPSILON"
proof -
  obtain d where d: "layout_columns w fb = map (\<lambda>x. x + d) (ranked_columns w fb)" using layout_columns_shift by blast
  have "length (ranked_columns w fb) = 6" using solve_columns_spec(1) by (simp add: ranked_columns_eq)
  then show ?thesis
    using solve_columns_spec(2) [OF assms(1)] assms(2,3) unfolding d by (simp add: ranked_columns_eq valid_constraint_def)
qed

lemma length_layout_columns [simp]: "length (layout_columns w fb) = 6"
  using layout_columns_shift [of w fb] solve_columns_spec(1) by (auto simp: ranked_columns_eq)

lemma layout_pitch: "i < 5 \<Longrightarrow> layout_columns w fb ! i + 120 \<le> layout_columns w fb ! Suc i + EPSILON"
proof -
  assume i: "i < 5"
  let ?c = "\<lparr>rc_from = i, rc_to = Suc i, rc_minimum = 120\<rparr>"
  have "?c \<in> set (layout_constraints w fb)" using i by (simp add: layout_constraints_def rank_constraints_def baseline_constraints_def)
  from layout_columns_constraint [OF this] show ?thesis using i by simp
qed

lemma earlier_later_cases: "earlier_later l r = (a, b) \<Longrightarrow> wn_col l \<noteq> wn_col r \<Longrightarrow> wn_col a < wn_col b \<and> {a, b} = {l, r}"
  by (auto simp: earlier_later_def split: if_splits)

lemma clearance_kept:
  assumes "clearance_constraint gap (a, b) \<in> set (layout_constraints w fb)" "wn_col a < wn_col b" "wn_col b < columnCount"
  shows "layout_columns w fb ! wn_col a + authoredNodeWidth a / 2 + gap \<le> layout_columns w fb ! wn_col b - authoredNodeWidth b / 2 + EPSILON"
  using layout_columns_constraint [OF assms(1)] assms(2,3) by (simp add: clearance_constraint_def)

lemma vertical_sym: "verticalIntervalsOverlap a b c = verticalIntervalsOverlap b a c"
  by (auto simp: verticalIntervalsOverlap_def abs_minus_commute add.commute)

lemma node_clearance:
  assumes "\<forall>n\<in>set (wf_nodes w). wn_col n < columnCount" "a \<in> set (wf_nodes w)" "b \<in> set (wf_nodes w)"
    and "wn_lane a = wn_lane b" "wn_col a < wn_col b" "verticalIntervalsOverlap a b 8"
  shows "layout_columns w fb ! wn_col a + authoredNodeWidth a / 2 + 8 \<le> layout_columns w fb ! wn_col b - authoredNodeWidth b / 2 + EPSILON"
proof -
  obtain i j where ij: "i < length (wf_nodes w)" "wf_nodes w ! i = a" "j < length (wf_nodes w)" "wf_nodes w ! j = b"
    using assms(2,3) by (auto simp: in_set_conv_nth)
  then have "i \<noteq> j" using assms(5) by auto
  then consider "(a, b) \<in> set (ordered_pairs (wf_nodes w))" | "(b, a) \<in> set (ordered_pairs (wf_nodes w))"
    using ij set_ordered_pairs by (metis linorder_neqE_nat)
  then have "clearance_constraint 8 (a, b) \<in> set (node_constraints w)"
  proof cases
    case 1
    have "pair_constraint (a, b) = Some (clearance_constraint 8 (a, b))"
      using assms(4-6) by (simp add: pair_constraint_def earlier_later_def)
    then show ?thesis unfolding node_constraints_def set_map_filter_iff using 1 by blast
  next
    case 2
    have "pair_constraint (b, a) = Some (clearance_constraint 8 (a, b))"
      using assms(4-6) vertical_sym [of a b] by (simp add: pair_constraint_def earlier_later_def)
    then show ?thesis unfolding node_constraints_def set_map_filter_iff using 2 by blast
  qed
  then have "clearance_constraint 8 (a, b) \<in> set (layout_constraints w fb)" by (simp add: layout_constraints_def rank_constraints_def)
  from clearance_kept [OF this assms(5)] show ?thesis using assms(1,3) by simp
qed

lemma nodesById_Some: "nodesById w i = Some n \<Longrightarrow> n \<in> set (wf_nodes w) \<and> wn_id n = i"
  by (auto simp: nodesById_def dest!: map_of_SomeD)

lemma direct_ends_Some:
  "direct_ends w e = Some (a, b) \<Longrightarrow> a \<in> set (wf_nodes w) \<and> b \<in> set (wf_nodes w) \<and> wn_col a < wn_col b \<and> wn_lane a = wn_lane b"
  by (auto simp: direct_ends_def earlier_later_def split: option.splits if_splits dest!: nodesById_Some)

lemma direct_clearance:
  assumes "\<forall>n\<in>set (wf_nodes w). wn_col n < columnCount" "e \<in> set (wf_edges w)" "direct_ends w e = Some (a, b)"
  shows "layout_columns w fb ! wn_col a + authoredNodeWidth a / 2 + (if prefers_channel e then 28 else labeled_clearance e) \<le>
    layout_columns w fb ! wn_col b - authoredNodeWidth b / 2 + EPSILON"
proof -
  note d = direct_ends_Some [OF assms(3)]
  have "clearance_constraint 28 (a, b) \<in> set (direct_constraints w)"
    unfolding direct_constraints_def set_map_filter_iff using assms(2,3) by (intro bexI [of _ e]) simp_all
  then have 1: "clearance_constraint 28 (a, b) \<in> set (layout_constraints w fb)" by (simp add: layout_constraints_def rank_constraints_def)
  have 2: "clearance_constraint (labeled_clearance e) (a, b) \<in> set (layout_constraints w fb)"
    if "\<not> prefers_channel e" "28 < labeled_clearance e"
  proof -
    have "clearance_constraint (labeled_clearance e) (a, b) \<in> set (label_constraints w)"
      unfolding label_constraints_def set_map_filter_iff using assms(2,3) that by (intro bexI [of _ e]) simp_all
    then show ?thesis by (simp add: layout_constraints_def)
  qed
  have "labeled_clearance e \<ge> 28" by (simp add: labeled_clearance_def)
  then show ?thesis using clearance_kept [OF 1] clearance_kept [OF 2] d assms(1) by (cases "28 < labeled_clearance e") auto
qed

section \<open>The lane\<close>

lemma farther_ge: "b \<le> farther b v" "v \<le> farther b v + EPSILON"
  by (auto simp: farther_def EPSILON_def)

lemma farther_loop: "b \<le> foldl farther b vs \<and> (\<forall>v\<in>set vs. v \<le> foldl farther b vs + EPSILON)"
proof (induction vs arbitrary: b)
  case (Cons v vs)
  have "v \<le> foldl farther (farther b v) vs + EPSILON" using Cons [of "farther b v"] farther_ge(2) [of v b] by linarith
  then show ?case using Cons [of "farther b v"] farther_ge(1) [of b v] by fastforce
qed simp

lemma node_right_edge:
  assumes "n \<in> set (wf_nodes w)" "wn_col n < columnCount"
  shows "layout_columns w fb ! wn_col n + authoredNodeWidth n / 2 + 8 \<le> 40 + ly_laneW (createReadableLayout w fb) + EPSILON"
proof -
  let ?xs = "layout_columns w fb"
  have "?xs ! wn_col n + authoredNodeWidth n / 2 \<le> rightmost_of w ?xs + EPSILON"
  proof -
    let ?vs = "map (\<lambda>n. ?xs ! wn_col n + authoredNodeWidth n / 2) (filter (\<lambda>n. wn_col n < columnCount) (wf_nodes w))"
    have "?xs ! wn_col n + authoredNodeWidth n / 2 \<in> set ?vs" using assms by auto
    then have "?xs ! wn_col n + authoredNodeWidth n / 2 \<le> foldl farther (?xs ! (columnCount - 1) + 50) ?vs + EPSILON"
      using farther_loop by blast
    also have "foldl farther (?xs ! (columnCount - 1) + 50) ?vs \<le> rightmost_of w ?xs"
      unfolding rightmost_of_def using farther_loop by blast
    finally show ?thesis by simp
  qed
  moreover have "rightmost_of w ?xs - 40 + 8 \<le> lane_width w ?xs"
    unfolding lane_width_def by (meson le_max_iff_disj le_of_int_ceiling)
  moreover have "ly_laneW (createReadableLayout w fb) = lane_width w ?xs"
    by (simp add: layout_columns_def createReadableLayout_def Let_def)
  ultimately show ?thesis by simp
qed

lemma foldl_max_ge: "b \<le> foldl (\<lambda>m n. max m (f n)) b ns \<and> (\<forall>n\<in>set ns. f n \<le> foldl (\<lambda>m n. max m (f n)) b (ns::'a list))" for f :: "'a \<Rightarrow> real"
proof (induction ns arbitrary: b)
  case (Cons n ns)
  have "max b (f n) \<le> foldl (\<lambda>m n. max m (f n)) (max b (f n)) ns" using Cons [of "max b (f n)"] by blast
  then show ?case using Cons [of "max b (f n)"] by simp
qed simp

lemma node_left_edge:
  assumes "n \<in> set (wf_nodes w)" "wn_col n = 0"
  shows "48 \<le> layout_columns w fb ! wn_col n - authoredNodeWidth n / 2"
proof -
  obtain d where d: "d \<ge> left_shift w (ranked_columns w fb)" "layout_columns w fb = map (\<lambda>x. x + d) (ranked_columns w fb)"
    using layout_columns_shift by blast
  have "authoredNodeWidth n / 2 \<le> first_extent w" unfolding first_extent_def using foldl_max_ge assms by fastforce
  moreover have "length (ranked_columns w fb) = 6" using solve_columns_spec(1) by (simp add: ranked_columns_eq)
  ultimately show ?thesis using d assms(2) by (simp add: left_shift_def)
qed

lemma rank_columns_mapper:
  assumes "length xs = 6" "\<forall>i < 5. xs ! i < xs ! Suc i"
  shows "\<exists>m. createHorizontalRankMapper LEGACY_COLUMN_CENTERS xs = Inr m"
proof -
  obtain a b c d e f where xs: "xs = [a, b, c, d, e, f]" using assms(1) by (auto simp: length_Suc_conv eval_nat_numeral)
  have "a < b" "b < c" "c < d" "d < e" "e < f"
    using assms(2) [rule_format, of 0] assms(2) [rule_format, of 1] assms(2) [rule_format, of 2] assms(2) [rule_format, of 3]
      assms(2) [rule_format, of 4] unfolding xs by simp_all
  then show ?thesis by (simp add: createHorizontalRankMapper_def LEGACY_COLUMN_CENTERS_def xs)
qed

section \<open>Properties\<close>

text \<open>
  C10: A readable layout keeps its promises, up to a ten-thousandth of a pixel: neighbouring columns are at least
  120 apart; nodes of a lane whose vertical extents come within 8 of each other are 8 apart; the ends of a
  direct edge leave room for the arrow and, when the label stays on the edge, for the label; every node ends
  8 before the right edge of its lane and a node of the first column starts 8 after the left one. The columns
  are therefore always accepted as the target of the rank mapping of a migration from the legacy layout.
\<close>

theorem readable_layout_keeps_clearances:
  assumes "\<forall>n\<in>set (wf_nodes w). wn_col n < columnCount"
  shows "(\<forall>i<5. layout_columns w fb ! i + 120 \<le> layout_columns w fb ! Suc i + EPSILON) \<and>
    (\<forall>a\<in>set (wf_nodes w). \<forall>b\<in>set (wf_nodes w). wn_lane a = wn_lane b \<and> wn_col a < wn_col b \<and> verticalIntervalsOverlap a b 8 \<longrightarrow>
       layout_columns w fb ! wn_col a + authoredNodeWidth a / 2 + 8 \<le> layout_columns w fb ! wn_col b - authoredNodeWidth b / 2 + EPSILON) \<and>
    (\<forall>e\<in>set (wf_edges w). \<forall>a b. direct_ends w e = Some (a, b) \<longrightarrow>
       layout_columns w fb ! wn_col a + authoredNodeWidth a / 2 + (if prefers_channel e then 28 else labeled_clearance e) \<le>
       layout_columns w fb ! wn_col b - authoredNodeWidth b / 2 + EPSILON) \<and>
    (\<forall>n\<in>set (wf_nodes w).
       layout_columns w fb ! wn_col n + authoredNodeWidth n / 2 + 8 \<le> 40 + ly_laneW (createReadableLayout w fb) + EPSILON \<and>
       (wn_col n = 0 \<longrightarrow> 40 + 8 \<le> layout_columns w fb ! wn_col n - authoredNodeWidth n / 2)) \<and>
    (\<exists>m. createHorizontalRankMapper (ly_colXs createLegacyLayout) (layout_columns w fb) = Inr m)"
proof -
  have "layout_columns w fb ! i < layout_columns w fb ! Suc i" if "i < 5" for i
    using layout_pitch [OF that, of w fb] by (simp add: EPSILON_def)
  then have m: "\<exists>m. createHorizontalRankMapper (ly_colXs createLegacyLayout) (layout_columns w fb) = Inr m"
    using rank_columns_mapper by (simp add: createLegacyLayout_def)
  have r: "layout_columns w fb ! wn_col n + authoredNodeWidth n / 2 + 8 \<le> 40 + ly_laneW (createReadableLayout w fb) + EPSILON \<and>
      (wn_col n = 0 \<longrightarrow> 40 + 8 \<le> layout_columns w fb ! wn_col n - authoredNodeWidth n / 2)" if "n \<in> set (wf_nodes w)" for n
    using node_right_edge [OF that] node_left_edge [OF that] assms that by simp
  have "\<forall>i<5. layout_columns w fb ! i + 120 \<le> layout_columns w fb ! Suc i + EPSILON" by (simp add: layout_pitch)
  moreover have "\<forall>a\<in>set (wf_nodes w). \<forall>b\<in>set (wf_nodes w). wn_lane a = wn_lane b \<and> wn_col a < wn_col b \<and> verticalIntervalsOverlap a b 8 \<longrightarrow>
       layout_columns w fb ! wn_col a + authoredNodeWidth a / 2 + 8 \<le> layout_columns w fb ! wn_col b - authoredNodeWidth b / 2 + EPSILON"
    using node_clearance [OF assms] by blast
  moreover have "\<forall>e\<in>set (wf_edges w). \<forall>a b. direct_ends w e = Some (a, b) \<longrightarrow>
       layout_columns w fb ! wn_col a + authoredNodeWidth a / 2 + (if prefers_channel e then 28 else labeled_clearance e) \<le>
       layout_columns w fb ! wn_col b - authoredNodeWidth b / 2 + EPSILON"
    using direct_clearance [OF assms] by blast
  moreover from r have "\<forall>n\<in>set (wf_nodes w).
       layout_columns w fb ! wn_col n + authoredNodeWidth n / 2 + 8 \<le> 40 + ly_laneW (createReadableLayout w fb) + EPSILON \<and>
       (wn_col n = 0 \<longrightarrow> 40 + 8 \<le> layout_columns w fb ! wn_col n - authoredNodeWidth n / 2)" by (rule ballI)
  moreover note m
  ultimately show ?thesis by (rule conjI [OF _ conjI [OF _ conjI [OF _ conjI]]])
qed

definition wide_node :: "jstring \<Rightarrow> nat \<Rightarrow> workflow_node" where
  "wide_node i col = \<lparr>wn_id = i, wn_type = js ''backend'', wn_lane = js ''l'', wn_col = col, wn_width = Some 200, wn_height = None, wn_yOffset = None, wn_tag = None,
     wn_label = js ''wide'', wn_sublabel = None\<rparr>"

definition wide_workflow :: workflow where
  "wide_workflow = \<lparr>wf_schemaVersion = 2, wf_profile = None, wf_viewBox = None, wf_legend = None, wf_lanes = [\<lparr>wl_id = js ''l'', wl_label = js ''L'', wl_exception = False\<rparr>],
     wf_nodes = [wide_node (js ''b'') 1, wide_node (js ''a'') 0], wf_edges = [], wf_phases = [], wf_groups = [],
     wf_mainPath = None, wf_semanticChecks = Some \<lparr>sc_allowedRoots = None, sc_allowedTerminals = None, sc_requiredEdges = [],
       sc_requiredPaths = [\<lparr>sr_from = js ''a'', sr_to = js ''a''\<rparr>]\<rparr>\<rparr>"

theorem wide_layout_witness: "layout_columns wide_workflow no_feedback ! 0 + 208 \<le> layout_columns wide_workflow no_feedback ! 1 + EPSILON"
proof -
  have "\<forall>n\<in>set (wf_nodes wide_workflow). wn_col n < columnCount" by (simp add: wide_workflow_def wide_node_def)
  note c = readable_layout_keeps_clearances [OF this, of no_feedback, THEN conjunct2, THEN conjunct1]
  have "wide_node (js ''a'') 0 \<in> set (wf_nodes wide_workflow)" "wide_node (js ''b'') 1 \<in> set (wf_nodes wide_workflow)"
    by (simp_all add: wide_workflow_def)
  moreover have "verticalIntervalsOverlap (wide_node (js ''a'') 0) (wide_node (js ''b'') 1) 8"
    by (simp add: verticalIntervalsOverlap_def y_offset_def wide_node_def authoredNodeHeight_def)
  ultimately have "layout_columns wide_workflow no_feedback ! 0 + 200 / 2 + 8 \<le> layout_columns wide_workflow no_feedback ! 1 - 200 / 2 + EPSILON"
    using bspec [OF bspec [OF c], of "wide_node (js ''a'') 0" "wide_node (js ''b'') 1"]
    by (simp add: wide_node_def authoredNodeWidth_def del: js_simps)
  then show ?thesis by simp
qed

text \<open>
  C32: The columns before the shifts are the tightest ones: they meet every constraint up to the epsilon, and any
  other columns that start no further left and meet the constraints are at least as far right in every rank.
\<close>

theorem readable_columns_are_least:
  "(\<forall>c\<in>set (layout_constraints w fb). valid_constraint c \<longrightarrow>
      ranked_columns w fb ! rc_from c + rc_minimum c \<le> ranked_columns w fb ! rc_to c + EPSILON) \<and>
   (admissible (layout_constraints w fb) ys \<longrightarrow> (\<forall>k<columnCount. ranked_columns w fb ! k \<le> ys ! k))"
  using solve_columns_spec(2) solve_columns_least by (simp add: ranked_columns_eq)

theorem least_columns_witness: "ranked_columns wide_workflow no_feedback ! 2 \<le> 422"
proof -
  have six: "(\<forall>k<columnCount. P k) \<longleftrightarrow> P 0 \<and> P 1 \<and> P 2 \<and> P 3 \<and> P 4 \<and> P 5" for P
    by (simp add: numeral_eq_Suc All_less_Suc conj_ac)
  have "layout_constraints wide_workflow no_feedback = baseline_constraints @ [\<lparr>rc_from = 0, rc_to = 1, rc_minimum = 208\<rparr>]"
    by (simp add: layout_constraints_def rank_constraints_def gap_constraints_def no_feedback_def node_constraints_def direct_constraints_def
        label_constraints_def wide_workflow_def wide_node_def pair_constraint_def earlier_later_def clearance_constraint_def
        authoredNodeWidth_def authoredNodeHeight_def verticalIntervalsOverlap_def y_offset_def map_filter_def)
  then have "admissible (layout_constraints wide_workflow no_feedback) [94, 302, 422, 542, 662, 782]"
    by (auto simp: admissible_def six start_columns_def baseline_constraints_def upt_rec)
  then show ?thesis using readable_columns_are_least [of wide_workflow no_feedback "[94, 302, 422, 542, 662, 782]"]
    unfolding six by simp
qed

text \<open>
  C33: The semantic contract is decided exactly: there are no diagnostics precisely when every id the contract
  names is a node, every node without an incoming edge is an allowed root, every node without an outgoing edge
  an allowed terminal, every required edge is authored and every required path exists in the graph.
\<close>

theorem semantic_contract_is_decided:
  "semanticContractDiagnostics w = [] \<longleftrightarrow> (case wf_semanticChecks w of None \<Rightarrow> True | Some c \<Rightarrow> contract_holds w c)"
  by (rule semanticContractDiagnostics_Nil)

text \<open>
  The order in which an author lists nodes, edges, phases and groups does not matter: documents that differ
  only in it have the same canonical form, hence the same layout and the same contract diagnostics.
\<close>

theorem authoring_order_is_irrelevant:
  assumes "reordered v w" "identified v" "wf_schemaVersion v = 2"
  shows "canonicalReadableWorkflow v = canonicalReadableWorkflow w \<and>
    createReadableLayout (canonicalReadableWorkflow v) fb = createReadableLayout (canonicalReadableWorkflow w) fb \<and>
    semanticContractDiagnostics (canonicalReadableWorkflow v) = semanticContractDiagnostics (canonicalReadableWorkflow w)"
  using canonical_reordered [OF assms] by simp

theorem authoring_order_witness:
  "canonicalReadableWorkflow wide_workflow = canonicalReadableWorkflow (wide_workflow\<lparr>wf_nodes := rev (wf_nodes wide_workflow)\<rparr>)"
proof -
  have "reordered wide_workflow (wide_workflow\<lparr>wf_nodes := rev (wf_nodes wide_workflow)\<rparr>)" by (simp add: reordered_def)
  moreover have "identified wide_workflow" "wf_schemaVersion wide_workflow = 2"
    by (simp_all add: identified_def wide_workflow_def wide_node_def)
  ultimately show ?thesis using authoring_order_is_irrelevant by blast
qed

end
