(* ===== verification/Workflow_Scene_Laws.thy ===== *)
theory Workflow_Scene_Laws
  imports Workflow_Scene Workflow_Layout_Laws
begin

text \<open>
  Laws of a readable scene: lanes stacked without contact, nodes inside their lane and apart from each other,
  group frames around their members, and a legend that always fits its packing width.
\<close>

section \<open>Lanes of a readable scene\<close>

text \<open>The nodes of a document as the schema and the input checks leave them.\<close>

definition drawable :: "workflow \<Rightarrow> bool" where
  "drawable w \<longleftrightarrow> wf_schemaVersion w = 2 \<and> inj_on wn_id (set (wf_nodes w)) \<and>
     (\<forall>n\<in>set (wf_nodes w). wn_col n < columnCount \<and> laneOrder w (wn_lane n) \<noteq> None \<and> wn_width n \<noteq> Some 0 \<and> wn_height n \<noteq> Some 0)"

lemma laneOrder_Some: "laneOrder w i = Some k \<Longrightarrow> k < length (wf_lanes w) \<and> wl_id (wf_lanes w ! k) = i"
  by (auto simp: laneOrder_def dest!: map_of_SomeD simp: set_zip)

lemma scene_simps [simp]:
  "sn_workflow (scene_of w fb label) = w"
  "wf_schemaVersion w = 2 \<Longrightarrow> sn_layout (scene_of w fb label) = createReadableLayout w fb"
  by (simp_all add: scene_of_def)

lemma readable_layout_simps [simp]:
  "ly_nodeW (createReadableLayout w fb) = 92" "ly_nodeH (createReadableLayout w fb) = 52"
  "ly_laneTitleH (createReadableLayout w fb) = 30" "ly_laneX (createReadableLayout w fb) = 40"
  "ly_laneH (createReadableLayout w fb) = 30 + base_content_height w"
  by (simp_all add: createReadableLayout_def Let_def)

definition reserve_at :: "workflow \<Rightarrow> layout_feedback \<Rightarrow> nat \<Rightarrow> real \<times> real" where
  "reserve_at w fb k = lane_reserve w (layout_columns w fb) (wf_lanes w ! k)"

lemma readable_reserves:
  "ly_laneHeights (createReadableLayout w fb) =
     Some (map (\<lambda>k. 30 + base_content_height w + fst (reserve_at w fb k) + snd (reserve_at w fb k)) [0..<length (wf_lanes w)])"
  "ly_groupHeaderHeights (createReadableLayout w fb) = Some (map (\<lambda>k. fst (reserve_at w fb k)) [0..<length (wf_lanes w)])"
  "ly_groupFooterHeights (createReadableLayout w fb) = Some (map (\<lambda>k. snd (reserve_at w fb k)) [0..<length (wf_lanes w)])"
proof -
  have m: "map f (map (lane_reserve w (layout_columns w fb)) (wf_lanes w)) = map (\<lambda>k. f (reserve_at w fb k)) [0..<length (wf_lanes w)]"
    for f :: "real \<times> real \<Rightarrow> real"
    by (rule nth_equalityI) (simp_all add: reserve_at_def)
  have l: "createReadableLayout w fb = createReadableLayout w fb\<lparr>
      ly_laneHeights := Some (map (\<lambda>r. 30 + base_content_height w + fst r + snd r) (map (lane_reserve w (layout_columns w fb)) (wf_lanes w))),
      ly_groupHeaderHeights := Some (map fst (map (lane_reserve w (layout_columns w fb)) (wf_lanes w))),
      ly_groupFooterHeights := Some (map snd (map (lane_reserve w (layout_columns w fb)) (wf_lanes w)))\<rparr>"
    by (simp add: createReadableLayout_def layout_columns_def Let_def split_beta)
  show "ly_laneHeights (createReadableLayout w fb) =
      Some (map (\<lambda>k. 30 + base_content_height w + fst (reserve_at w fb k) + snd (reserve_at w fb k)) [0..<length (wf_lanes w)])"
    by (subst l, simp only: layout.select_convs layout.update_convs m)
      (simp add: m del: map_map)
  show "ly_groupHeaderHeights (createReadableLayout w fb) = Some (map (\<lambda>k. fst (reserve_at w fb k)) [0..<length (wf_lanes w)])"
    by (subst l) (simp add: m del: map_map)
  show "ly_groupFooterHeights (createReadableLayout w fb) = Some (map (\<lambda>k. snd (reserve_at w fb k)) [0..<length (wf_lanes w)])"
    by (subst l) (simp add: m del: map_map)
qed

lemma pair_max_loop:
  "h0 \<le> fst (foldl (\<lambda>(header, footer) (h, f). (max header h, max footer f)) (h0, f0) rs) \<and>
   f0 \<le> snd (foldl (\<lambda>(header, footer) (h, f). (max header h, max footer f)) (h0, f0) rs) \<and>
   (\<forall>(h, f)\<in>set rs. h \<le> fst (foldl (\<lambda>(header, footer) (h, f). (max header h, max footer f)) (h0, f0) rs) \<and>
     f \<le> snd (foldl (\<lambda>(header, footer) (h, f). (max header h, max footer f)) (h0, f0) rs))" for rs :: "(real \<times> real) list"
proof (induction rs arbitrary: h0 f0)
  case (Cons r rs)
  obtain h f where r: "r = (h, f)" by fastforce
  show ?case using Cons [of "max h0 h" "max f0 f"] by (simp add: r)
qed simp

lemma reserve_nonneg: "0 \<le> fst (reserve_at w fb k)" "0 \<le> snd (reserve_at w fb k)"
  unfolding reserve_at_def lane_reserve_def using pair_max_loop [of 0 0] by blast+

lemma content_pos: "74 \<le> base_content_height w"
  by (simp add: base_content_height_def)

lemma scene_heights:
  assumes "wf_schemaVersion w = 2" "k < length (wf_lanes w)"
  shows "lane_height_at (scene_of w fb label) (Some k) =
    30 + base_content_height w + fst (reserve_at w fb k) + snd (reserve_at w fb k)"
  using assms by (simp add: lane_height_at_def height_at_def readable_reserves)

lemma scene_lane:
  assumes "wf_schemaVersion w = 2" "laneOrder w i = Some k"
  shows "laneHeight (scene_of w fb label) i = 30 + base_content_height w + fst (reserve_at w fb k) + snd (reserve_at w fb k)"
    and "laneGroupHeaderH (scene_of w fb label) i = fst (reserve_at w fb k)"
    and "laneGroupFooterH (scene_of w fb label) i = snd (reserve_at w fb k)"
    and "laneTop (scene_of w fb label) i = lane_top_at (scene_of w fb label) k"
  using assms laneOrder_Some [OF assms(2)] scene_heights [of w k fb label]
  by (simp_all add: laneHeight_def laneIndex_def laneGroupHeaderH_def laneGroupFooterH_def laneTop_def height_at_def readable_reserves)

lemma gap_ge: "20 \<le> ly_laneGap (createReadableLayout w fb)"
  by (simp add: createReadableLayout_def Let_def)

lemma lane_top_Suc:
  "lane_top_at s (Suc k) = lane_top_at s k + lane_height_at s (Some k) + ly_laneGap (sn_layout s)"
  by (simp add: lane_top_at_def algebra_simps)

lemma lanes_apart:
  assumes "wf_schemaVersion w = 2" "i < j" "j < length (wf_lanes w)"
  shows "lane_top_at (scene_of w fb label) i + lane_height_at (scene_of w fb label) (Some i) + 20 \<le> lane_top_at (scene_of w fb label) j"
  using assms(2,3)
proof (induction j)
  case (Suc j)
  have g: "20 \<le> ly_laneGap (sn_layout (scene_of w fb label))" using gap_ge assms(1) by simp
  have h: "0 \<le> lane_height_at (scene_of w fb label) (Some j)"
    using Suc.prems scene_heights [OF assms(1), of j] content_pos [of w] reserve_nonneg [of w fb j] by simp
  show ?case
  proof (cases "i = j")
    case False
    then have "lane_top_at (scene_of w fb label) i + lane_height_at (scene_of w fb label) (Some i) + 20 \<le> lane_top_at (scene_of w fb label) j"
      using Suc by simp
    then show ?thesis using g h by (simp add: lane_top_Suc)
  qed (use g in \<open>simp add: lane_top_Suc\<close>)
qed simp

section \<open>Nodes of a readable scene\<close>

lemma measured_node:
  assumes "drawable w" "n \<in> set (wf_nodes w)" "laneOrder w (wn_lane n) = Some k"
  shows "rwidth (measureNode (scene_of w fb label) n) = authoredNodeWidth n"
    and "rheight (measureNode (scene_of w fb label) n) = authoredNodeHeight n"
    and "rx (measureNode (scene_of w fb label) n) = layout_columns w fb ! wn_col n - authoredNodeWidth n / 2"
    and "ry (measureNode (scene_of w fb label) n) =
      lane_top_at (scene_of w fb label) k + 30 + fst (reserve_at w fb k) + (base_content_height w - authoredNodeHeight n) / 2 + y_offset n"
proof -
  have v: "wf_schemaVersion w = 2" using assms(1) by (simp add: drawable_def)
  have "wn_width n \<noteq> Some 0" "wn_height n \<noteq> Some 0" using assms(1,2) by (auto simp: drawable_def)
  then have wh: "number_or (wn_width n) 92 = authoredNodeWidth n"
    "number_or (wn_height n) (if truthy (wn_tag n) then 68 else 52) = authoredNodeHeight n"
    by (auto simp: number_or_def authoredNodeWidth_def authoredNodeHeight_def split: option.splits)
  show "rwidth (measureNode (scene_of w fb label) n) = authoredNodeWidth n"
    "rheight (measureNode (scene_of w fb label) n) = authoredNodeHeight n"
    "rx (measureNode (scene_of w fb label) n) = layout_columns w fb ! wn_col n - authoredNodeWidth n / 2"
    "ry (measureNode (scene_of w fb label) n) =
      lane_top_at (scene_of w fb label) k + 30 + fst (reserve_at w fb k) + (base_content_height w - authoredNodeHeight n) / 2 + y_offset n"
    using wh by (simp_all add: measureNode_def Let_def v scene_lane [OF v assms(3)] layout_columns_def split: if_splits)
qed

lemma node_extent:
  assumes "n \<in> set (wf_nodes w)"
  shows "authoredNodeHeight n + 2 * \<bar>y_offset n\<bar> + 8 \<le> base_content_height w + 2 * EPSILON"
proof -
  have "authoredNodeHeight n / 2 + \<bar>y_offset n\<bar> \<le> max_vertical_extent w + EPSILON"
    unfolding max_vertical_extent_def using farther_loop [of 0 "map (\<lambda>n. authoredNodeHeight n / 2 + \<bar>y_offset n\<bar>) (wf_nodes w)"] assms by auto
  moreover have "max_vertical_extent w * 2 + 8 \<le> base_content_height w" unfolding base_content_height_def by linarith
  ultimately show ?thesis by simp
qed

lemma node_in_lane:
  assumes "drawable w" "n \<in> set (wf_nodes w)" "laneOrder w (wn_lane n) = Some k"
  shows "lane_top_at (scene_of w fb label) k + 30 + 4 \<le> ry (measureNode (scene_of w fb label) n) + EPSILON"
    and "ry (measureNode (scene_of w fb label) n) + rheight (measureNode (scene_of w fb label) n) + 4 \<le>
      lane_top_at (scene_of w fb label) k + lane_height_at (scene_of w fb label) (Some k) + EPSILON"
proof -
  note m = measured_node [OF assms, of fb label]
  have v: "wf_schemaVersion w = 2" using assms(1) by (simp add: drawable_def)
  note h = scene_heights [OF v conjunct1 [OF laneOrder_Some [OF assms(3)]], of fb label]
  note e = node_extent [OF assms(2)] reserve_nonneg [of w fb k]
  show "lane_top_at (scene_of w fb label) k + 30 + 4 \<le> ry (measureNode (scene_of w fb label) n) + EPSILON"
    using e unfolding m by (simp add: field_simps abs_le_iff)
  show "ry (measureNode (scene_of w fb label) n) + rheight (measureNode (scene_of w fb label) n) + 4 \<le>
      lane_top_at (scene_of w fb label) k + lane_height_at (scene_of w fb label) (Some k) + EPSILON"
    using e unfolding m h by (simp add: field_simps abs_le_iff)
qed

lemma measured_bcx: "bcx (measureNode s n) = ly_colXs (sn_layout s) ! wn_col n"
  by (simp add: measureNode_def Let_def)

text \<open>Nodes of one lane: by columns when their vertical extents come close, by rows otherwise.\<close>

lemma lane_mates_apart:
  assumes w: "drawable w" and a: "a \<in> set (wf_nodes w)" and b: "b \<in> set (wf_nodes w)"
    and "wn_lane a = wn_lane b" "wn_col a < wn_col b"
  shows "\<not> rectsOverlap (measureNode (scene_of w fb label) a) (measureNode (scene_of w fb label) b) (8 - EPSILON)"
proof -
  obtain k where k: "laneOrder w (wn_lane a) = Some k" "laneOrder w (wn_lane b) = Some k" using w a assms(4) by (auto simp: drawable_def)
  note m = measured_node [OF w a k(1), of fb label] measured_node [OF w b k(2), of fb label]
  show ?thesis
  proof (cases "verticalIntervalsOverlap a b 8")
    case True
    have "\<forall>n\<in>set (wf_nodes w). wn_col n < columnCount" using w by (simp add: drawable_def)
    from node_clearance [OF this a b assms(4,5) True, of fb] show ?thesis by (simp add: rectsOverlap_def m)
  next
    case False
    then show ?thesis unfolding rectsOverlap_def m verticalIntervalsOverlap_def EPSILON_def by (simp add: abs_if field_simps split: if_splits) linarith?
  qed
qed

lemma nodes_in_lanes_apart:
  assumes w: "drawable w" and a: "a \<in> set (wf_nodes w)" and b: "b \<in> set (wf_nodes w)"
    and k: "laneOrder w (wn_lane a) = Some i" "laneOrder w (wn_lane b) = Some j" "i < j"
  shows "\<not> rectsOverlap (measureNode (scene_of w fb label) a) (measureNode (scene_of w fb label) b) (8 - EPSILON)"
proof -
  have v: "wf_schemaVersion w = 2" using w by (simp add: drawable_def)
  have "lane_top_at (scene_of w fb label) i + lane_height_at (scene_of w fb label) (Some i) + 20 \<le> lane_top_at (scene_of w fb label) j"
    using lanes_apart [OF v k(3)] laneOrder_Some [OF k(2)] by simp
  then show ?thesis
    using node_in_lane(2) [OF w a k(1), of fb label] node_in_lane(1) [OF w b k(2), of fb label]
    by (simp add: rectsOverlap_def EPSILON_def)
qed

lemma laneOrder_inj: "laneOrder w i = Some k \<Longrightarrow> laneOrder w j = Some k \<Longrightarrow> i = j"
  using laneOrder_Some by metis

lemma drawn_nodes_apart:
  assumes w: "drawable w" and a: "a \<in> set (wf_nodes w)" and b: "b \<in> set (wf_nodes w)"
    and ne: "wn_lane a \<noteq> wn_lane b \<or> wn_col a \<noteq> wn_col b"
  shows "\<not> rectsOverlap (measureNode (scene_of w fb label) a) (measureNode (scene_of w fb label) b) (8 - EPSILON)"
proof (cases "wn_lane a = wn_lane b")
  case True
  then consider "wn_col a < wn_col b" | "wn_col b < wn_col a" using ne by linarith
  then show ?thesis using lane_mates_apart [OF w a b True] lane_mates_apart [OF w b a True [symmetric]] rectsOverlap_sym by cases blast+
next
  case False
  have "laneOrder w (wn_lane a) \<noteq> None" "laneOrder w (wn_lane b) \<noteq> None" using w a b by (simp_all add: drawable_def)
  then obtain i j where k: "laneOrder w (wn_lane a) = Some i" "laneOrder w (wn_lane b) = Some j" by blast
  then have "i \<noteq> j" using laneOrder_inj False by metis
  then consider "i < j" | "j < i" by linarith
  then show ?thesis using nodes_in_lanes_apart [OF w a b k] nodes_in_lanes_apart [OF w b a k(2,1)] rectsOverlap_sym by cases blast+
qed

text \<open>The nodes of a scene are the measured nodes of the document.\<close>

lemma nodesById_self:
  assumes "inj_on wn_id (set (wf_nodes w))" "n \<in> set (wf_nodes w)"
  shows "nodesById w (wn_id n) = Some n"
proof -
  have "nodesById w (wn_id n) \<noteq> None" using assms(2) by (auto simp: nodesById_def map_of_eq_None_iff image_image)
  then obtain m where m: "nodesById w (wn_id n) = Some m" by blast
  from nodesById_Some [OF this] assms show ?thesis using m by (auto dest: inj_onD)
qed

lemma scene_nodes:
  assumes "drawable w"
  shows "set (nodes (scene_of w fb label)) = measureNode (scene_of w fb label) ` set (wf_nodes w)"
  using assms nodesById_self [of w] by (auto simp: nodes_def set_node_ids drawable_def image_image intro!: image_cong)

section \<open>Groups of a readable scene\<close>

lemma group_loop:
  fixes f g :: "'a \<Rightarrow> real"
  shows "fst (foldl (\<lambda>(l, r) n. (min l (f n), max r (g n))) (l, r) ns) \<le> l \<and>
    r \<le> snd (foldl (\<lambda>(l, r) n. (min l (f n), max r (g n))) (l, r) ns) \<and>
    (\<forall>n\<in>set ns. fst (foldl (\<lambda>(l, r) n. (min l (f n), max r (g n))) (l, r) ns) \<le> f n \<and>
       g n \<le> snd (foldl (\<lambda>(l, r) n. (min l (f n), max r (g n))) (l, r) ns))"
proof (induction ns arbitrary: l r)
  case (Cons n ns)
  show ?case using Cons [of "min l (f n)" "max r (g n)"] by simp
qed simp

lemma group_bounds_contain:
  assumes "n \<in> set (wf_nodes w)" "in_span g n" "ws_toCol g < length xs"
  shows "sb_x (readableGroupBounds w g xs) + 4 \<le> xs ! wn_col n - authoredNodeWidth n / 2 \<and>
    xs ! wn_col n + authoredNodeWidth n / 2 + 4 \<le> sb_x (readableGroupBounds w g xs) + sb_width (readableGroupBounds w g xs)"
proof -
  have c: "\<not> (ws_toCol g < ws_fromCol g \<or> length xs \<le> ws_toCol g)" "wn_col n < length xs" using assms(2,3) by (auto simp: in_span_def)
  define f where "f m = xs ! wn_col m - authoredNodeWidth m / 2 - 4" for m
  define h where "h m = xs ! wn_col m + authoredNodeWidth m / 2 + 4" for m
  define ns where "ns = filter (\<lambda>m. in_span g m \<and> wn_col m < length xs) (wf_nodes w)"
  have n: "n \<in> set ns" using assms(1,2) c(2) by (simp add: ns_def)
  obtain l r where b: "readableGroupBounds w g xs =
      (case foldl (\<lambda>(l, r) n. (min l (f n), max r (h n))) (l, r) ns of (left, right) \<Rightarrow>
        \<lparr>sb_x = left, sb_width = right - left, sb_cx = left + (right - left) / 2\<rparr>)"
    by (rule that) (unfold readableGroupBounds_def Let_def f_def h_def ns_def, subst if_not_P [OF c(1)], rule refl)
  have "f n \<ge> fst (foldl (\<lambda>(l, r) n. (min l (f n), max r (h n))) (l, r) ns)" "h n \<le> snd (foldl (\<lambda>(l, r) n. (min l (f n), max r (h n))) (l, r) ns)"
    using group_loop [of f h l r ns] n by blast+
  then show ?thesis by (simp add: b split_beta f_def h_def)
qed

lemma group_reserve:
  assumes "drawable w" "g \<in> set (wf_groups w)" "laneOrder w (ws_lane g) = Some k" "n \<in> set (wf_nodes w)" "in_span g n"
  shows "fst (node_reserve w (layout_columns w fb) g n) \<le> fst (reserve_at w fb k) \<and>
    snd (node_reserve w (layout_columns w fb) g n) \<le> snd (reserve_at w fb k)"
proof -
  have "wl_id (wf_lanes w ! k) = ws_lane g" using laneOrder_Some [OF assms(3)] by simp
  moreover have "wn_col n < 6" using assms(1,4) by (simp add: drawable_def)
  ultimately have "node_reserve w (layout_columns w fb) g n \<in>
      set (concat (map (\<lambda>g. map (node_reserve w (layout_columns w fb) g)
        (filter (\<lambda>n. in_span g n \<and> wn_col n < length (layout_columns w fb)) (wf_nodes w)))
         (filter (\<lambda>g. ws_lane g = wl_id (wf_lanes w ! k)) (wf_groups w))))"
    using assms(2,4,5) by auto
  with pair_max_loop [of 0 0] show ?thesis unfolding reserve_at_def lane_reserve_def by fastforce
qed

lemma ceiling_le: "of_int \<lceil>v\<rceil> \<le> u \<Longrightarrow> v \<le> (u::real)"
  by linarith

lemma group_frame_contains:
  fixes fb label
  assumes w: "drawable w" and g: "g \<in> set (wf_groups w)" "ws_toCol g < columnCount" and n: "n \<in> set (wf_nodes w)" "in_span g n"
  defines "s \<equiv> scene_of w fb label"
  shows "rx (group_rect s g) + 4 \<le> rx (measureNode s n)"
    and "rx (measureNode s n) + rwidth (measureNode s n) + 4 \<le> rx (group_rect s g) + rwidth (group_rect s g)"
    and "ry (group_rect s g) + 1 \<le> ry (measureNode s n)"
    and "ry (measureNode s n) + rheight (measureNode s n) + 1 \<le> ry (group_rect s g) + rheight (group_rect s g)"
    and "\<not> rectsOverlap (group_label s g) (measureNode s n) 0"
proof -
  have v: "wf_schemaVersion w = 2" using w by (simp add: drawable_def)
  have l: "wn_lane n = ws_lane g" using n(2) by (simp add: in_span_def)
  obtain k where k: "laneOrder w (wn_lane n) = Some k" using w n(1) by (auto simp: drawable_def)
  note m = measured_node [OF w n(1) k, of fb label, folded s_def] and lane = scene_lane [OF v k, of fb label, folded s_def, unfolded l]
  have vs: "readable s" "sn_layout s = createReadableLayout w fb" by (simp_all add: s_def v)
  have x: "groupSpan s g = readableGroupBounds w g (layout_columns w fb)" by (simp add: groupSpan_def s_def v layout_columns_def)
  have b: "sb_x (readableGroupBounds w g (layout_columns w fb)) + 4 \<le> layout_columns w fb ! wn_col n - authoredNodeWidth n / 2 \<and>
      layout_columns w fb ! wn_col n + authoredNodeWidth n / 2 + 4 \<le>
      sb_x (readableGroupBounds w g (layout_columns w fb)) + sb_width (readableGroupBounds w g (layout_columns w fb))"
    using group_bounds_contain [OF n] g(2) by simp
  have r: "ry (group_rect s g) = lane_top_at s k + 30 + 8" "rheight (group_rect s g) = base_content_height w + fst (reserve_at w fb k) + snd (reserve_at w fb k) - 8 - 4"
    "rx (group_rect s g) = sb_x (readableGroupBounds w g (layout_columns w fb))"
    "rwidth (group_rect s g) = sb_width (readableGroupBounds w g (layout_columns w fb))"
    using lane by (simp_all add: group_rect_def x vs)
  have q: "fst (node_reserve w (layout_columns w fb) g n) \<le> fst (reserve_at w fb k)" "snd (node_reserve w (layout_columns w fb) g n) \<le> snd (reserve_at w fb k)"
    using group_reserve [OF w g(1) k [unfolded l] n] by blast+
  define labelled where "labelled \<longleftrightarrow> sb_x (readableGroupBounds w g (layout_columns w fb)) + 10 < layout_columns w fb ! wn_col n + authoredNodeWidth n / 2 \<and>
    layout_columns w fb ! wn_col n - authoredNodeWidth n / 2 < sb_x (readableGroupBounds w g (layout_columns w fb)) + 10 + real (textUnits (ws_label g)) * (56 / 10)"
  have t: "(if labelled then 11 else 9) - ((base_content_height w - authoredNodeHeight n) / 2 + y_offset n) \<le> fst (reserve_at w fb k)"
    "1 - (base_content_height w - 4 - ((base_content_height w - authoredNodeHeight n) / 2 + y_offset n) - authoredNodeHeight n) \<le> snd (reserve_at w fb k)"
    using q [unfolded node_reserve_def Let_def fst_conv snd_conv, THEN ceiling_le] unfolding labelled_def by blast+
  show "rx (group_rect s g) + 4 \<le> rx (measureNode s n)"
    "rx (measureNode s n) + rwidth (measureNode s n) + 4 \<le> rx (group_rect s g) + rwidth (group_rect s g)"
    using b by (simp_all add: r m)
  show "ry (group_rect s g) + 1 \<le> ry (measureNode s n)" using t(1) by (simp add: r m split: if_splits)
  show "ry (measureNode s n) + rheight (measureNode s n) + 1 \<le> ry (group_rect s g) + rheight (group_rect s g)"
    using t(2) by (simp add: r m)
  show "\<not> rectsOverlap (group_label s g) (measureNode s n) 0"
    using t(1) lane(4) by (cases labelled) (auto simp: rectsOverlap_def group_label_def x m vs labelled_def not_less)
qed

section \<open>The legend of a readable scene\<close>

lemma max_member_width:
  assumes "ms \<noteq> []" "m \<in> set ms"
  shows "me_width m \<le> Max (set (map me_width ms))"
  using assms by (simp add: Max_ge)

lemma footprint_width: "fp_minWidth (legendFootprint es w fs ig lg sg) = fp_minWidth (legendFootprint es w' fs ig lg sg)"
  by (simp add: legendFootprint_def Let_def)

lemma readable_legend_fits:
  assumes "readable s"
  shows "\<exists>rs. workflowLegendRects s = Inr rs"
proof (cases "sn_legend s = []")
  case False
  let ?l = "workflowLegendLayout s []" and ?w = "legendPackingWidth s"
  define f where "f = legendFootprint (sn_legend s) ?w 7 7 22 8"
  have l: "ly_width ?l = ?w" "ly_fontSize ?l = 7" "ly_itemGap ?l = 7" "ly_lineGap ?l = 22" "ly_swatchGap ?l = 8" "ly_obstacles ?l = []"
    "ly_baselineY ?l = lastLaneBottom s + 44 + fp_extraHeight f" "ly_minTitleY ?l = lastLaneBottom s + 8"
    using assms by (simp_all add: workflowLegendLayout_def legendY_def legendExtraHeight_def workflow_footprint_def f_def)
  have ne: "fp_measured f \<noteq> []" "fp_minWidth f = Max (set (map me_width (fp_measured f)))"
    using False by (simp_all add: f_def legendFootprint_def Let_def image_image)
  have "fp_minWidth f + 40 \<le> minimumCanvasWidth s"
    using assms footprint_width [of "sn_legend s" ?w 7 7 22 8 "real MAX_SAFE_INTEGER"]
    by (simp add: minimumCanvasWidth_def workflow_footprint_def f_def)
  then have "fp_minWidth f \<le> ?w" using assms by (simp add: legendPackingWidth_def)
  then have "\<not> ?w < me_width m" if "m \<in> set (fp_measured f)" for m using max_member_width [OF ne(1) that] ne(2) by simp
  then have find: "find (\<lambda>e. ?w < me_width e) (fp_measured f) = None" by (simp add: find_None_iff)
  have none: "find (\<lambda>(k, r). \<exists>ob\<in>set ([]::obstacle list). obstructs r ob) rects = None" for rects :: "(jstring \<times> rect) list"
    by (auto simp: find_None_iff)
  have "\<exists>p. measureLegend (sn_legend s) ?l = Inr (Some p)"
    unfolding measureLegend_def l Let_def f_def [symmetric] find option.case none using False by simp
  then show ?thesis using False by (auto simp: workflowLegendRects_def)
qed (simp add: workflowLegendRects_def)

end
