(* ===== verification/Workflow_Routing_Laws.thy ===== *)
theory Workflow_Routing_Laws
  imports Workflow_Paths Workflow_Scene_Laws Gate_Laws
begin

text \<open>
  Laws of the routing: normalised routes are fixed points of the normalisation, the selection returns a feasible
  and cheapest plan, the routing state keeps an invariant along every sequence of \<open>pathFor\<close>, and a document whose
  edges are all routed automatically leaves the quality gates silent.
\<close>

section \<open>Settled routes\<close>

text \<open>A list without a way point the popping loop would drop, and with neighbours the first loop would keep.\<close>

definition bends :: "point list \<Rightarrow> bool" where
  "bends ps \<longleftrightarrow> (\<forall>i. i + 2 < length ps \<longrightarrow> \<not> collinearForward (ps ! i) (ps ! (i + 1)) (ps ! (i + 2)))"

definition far :: "point \<Rightarrow> point \<Rightarrow> bool" where
  "far p q \<longleftrightarrow> EPSILON < \<bar>fst q - fst p\<bar> \<or> EPSILON < \<bar>snd q - snd p\<bar>"

lemma bends_butlast: "bends ps \<Longrightarrow> bends (butlast ps)"
  by (simp add: bends_def nth_butlast)

lemma pop_collinear_bends: "bends ns \<Longrightarrow> bends (pop_collinear ns p @ [p])"
proof (induction ns p rule: pop_collinear.induct)
  case (1 ns p)
  show ?case
  proof (cases "2 \<le> length ns \<and> collinearForward (ns ! (length ns - 2)) (last ns) p")
    case True
    then show ?thesis using 1 bends_butlast by (simp add: pop_collinear.simps [of ns p])
  next
    case False
    have "\<not> collinearForward ((ns @ [p]) ! i) ((ns @ [p]) ! (i + 1)) ((ns @ [p]) ! (i + 2))" if i: "i + 2 < length (ns @ [p])" for i
    proof (cases "i + 2 < length ns")
      case True
      then show ?thesis using "1.prems" by (simp add: bends_def nth_append)
    next
      case short: False
      then have e: "length ns = i + 2" using i by simp
      then have "last ns = ns ! (i + 1)" by (subst last_conv_nth) auto
      then show ?thesis using e False by (simp add: nth_append)
    qed
    then have "bends (ns @ [p])" by (simp add: bends_def)
    then show ?thesis by (subst pop_collinear.simps, subst if_not_P [OF False])
  qed
qed

lemma pop_collinear_hd: "ns \<noteq> [] \<Longrightarrow> pop_collinear ns p \<noteq> [] \<and> hd (pop_collinear ns p) = hd ns"
proof (induction ns p rule: pop_collinear.induct)
  case (1 ns p)
  show ?case
  proof (cases "2 \<le> length ns \<and> collinearForward (ns ! (length ns - 2)) (last ns) p")
    case True
    then have "butlast ns \<noteq> []" "hd (butlast ns) = hd ns" by (cases ns; cases "tl ns"; auto)+
    then show ?thesis using 1 True by (simp add: pop_collinear.simps [of ns p])
  qed (use 1 in \<open>auto simp: pop_collinear.simps [of ns p]\<close>)
qed

lemma normalize_loop:
  "bends ns \<Longrightarrow> bends (foldl normalize_step ns ps) \<and>
    (ns \<noteq> [] \<longrightarrow> foldl normalize_step ns ps \<noteq> [] \<and> hd (foldl normalize_step ns ps) = hd ns) \<and>
    (ps \<noteq> [] \<longrightarrow> last (foldl normalize_step ns ps) = last ps)"
proof (induction ps arbitrary: ns)
  case (Cons p ps)
  have b: "bends (normalize_step ns p)" using pop_collinear_bends Cons.prems by (simp add: normalize_step_def)
  have h: "normalize_step ns p \<noteq> []" "ns \<noteq> [] \<Longrightarrow> hd (normalize_step ns p) = hd ns" "last (normalize_step ns p) = p"
    using pop_collinear_hd [of ns p] by (simp_all add: normalize_step_def)
  show ?case using Cons.IH [OF b] h by (cases "ps = []") auto
qed simp

lemma dedupe_loop:
  "ns \<noteq> [] \<Longrightarrow> foldl dedupe_step ns ps \<noteq> [] \<and> hd (foldl dedupe_step ns ps) = hd ns"
  by (induction ps arbitrary: ns) (auto simp: dedupe_step_def)

lemma bends_short: "length ps \<le> 2 \<Longrightarrow> bends ps"
  by (simp add: bends_def)

lemma normalize_bends: "bends (normalizeRoutePoints ps)"
  using normalize_loop [of "[]"] bends_short by (simp add: normalizeRoutePoints_def)

lemma normalize_hd: "normalizeRoutePoints (p # ps) \<noteq> [] \<and> hd (normalizeRoutePoints (p # ps)) = p"
proof -
  have d: "foldl dedupe_step [] (p # ps) \<noteq> [] \<and> hd (foldl dedupe_step [] (p # ps)) = p"
    using dedupe_loop [of "[p]" ps] by (simp add: dedupe_step_def)
  then obtain qs where q: "foldl dedupe_step [] (p # ps) = p # qs" by (metis list.exhaust_sel)
  have one: "normalize_step [] p = [p]" by (simp add: normalize_step_def pop_collinear.simps)
  have "normalizeRoutePoints (p # ps) = foldl normalize_step [p] qs"
    unfolding normalizeRoutePoints_def q by (simp add: one)
  then show ?thesis using normalize_loop [of "[p]" qs] bends_short [of "[p]"] by simp
qed

lemma dedupe_fix:
  "(\<forall>(p, q)\<in>set (pairs (n # ps)). far p q) \<Longrightarrow> foldl dedupe_step (ns @ [n]) ps = ns @ n # ps"
proof (induction ps arbitrary: ns n)
  case (Cons p ps)
  have "dedupe_step (ns @ [n]) p = (ns @ [n]) @ [p]" using Cons.prems by (auto simp: dedupe_step_def far_def EPSILON_def)
  then show ?case using Cons.IH [of p "ns @ [n]"] Cons.prems by simp
qed simp

lemma bends_append1: "bends (ns @ [p]) \<Longrightarrow> \<not> (2 \<le> length ns \<and> collinearForward (ns ! (length ns - 2)) (last ns) p)"
proof
  assume b: "bends (ns @ [p])" and c: "2 \<le> length ns \<and> collinearForward (ns ! (length ns - 2)) (last ns) p"
  then obtain k where k: "length ns = k + 2" by (metis add.commute le_Suc_ex)
  then have "last ns = ns ! (k + 1)" by (subst last_conv_nth) auto
  then show False using b [unfolded bends_def, rule_format, of k] c k by (simp add: nth_append)
qed

lemma bends_prefix: "bends (ns @ ps) \<Longrightarrow> bends ns"
  unfolding bends_def
proof (intro allI impI)
  fix i assume b: "\<forall>i. i + 2 < length (ns @ ps) \<longrightarrow> \<not> collinearForward ((ns @ ps) ! i) ((ns @ ps) ! (i + 1)) ((ns @ ps) ! (i + 2))" and i: "i + 2 < length ns"
  then show "\<not> collinearForward (ns ! i) (ns ! (i + 1)) (ns ! (i + 2))" using b [rule_format, of i] by (simp add: nth_append)
qed

lemma normalize_fix: "bends (ns @ ps) \<Longrightarrow> foldl normalize_step ns ps = ns @ ps"
proof (induction ps arbitrary: ns)
  case (Cons p ps)
  then have "bends ((ns @ [p]) @ ps)" by simp
  moreover from this have "pop_collinear ns p = ns"
    using bends_append1 [OF bends_prefix] by (subst pop_collinear.simps) (rule if_not_P)
  ultimately show ?case using Cons.IH [of "ns @ [p]"] by (simp add: normalize_step_def)
qed simp

definition settled :: "point list \<Rightarrow> bool" where
  "settled ps \<longleftrightarrow> bends ps \<and> (\<forall>(p, q)\<in>set (pairs ps). far p q)"

lemma settled_fix: "settled ps \<Longrightarrow> normalizeRoutePoints ps = ps"
proof (cases ps)
  case (Cons p qs)
  assume s: "settled ps"
  have "foldl dedupe_step [] ps = ps" using dedupe_fix [of p qs "[]"] s by (simp add: Cons settled_def dedupe_step_def)
  then show ?thesis using normalize_fix [of "[]" ps] s by (simp add: normalizeRoutePoints_def settled_def)
qed (simp add: normalizeRoutePoints_def)

text \<open>The last point stays when its way point is far enough from it.\<close>

lemma dedupe_last_near:
  "ns \<noteq> [] \<Longrightarrow> \<not> far (last (foldl dedupe_step ns (ps @ [p]))) p"
  by (simp add: dedupe_step_def far_def EPSILON_def abs_minus_commute)

lemma dedupe_keeps_last:
  assumes "2 * EPSILON < \<bar>fst q - fst p\<bar> \<or> 2 * EPSILON < \<bar>snd q - snd p\<bar>" "ns \<noteq> []"
  shows "\<exists>ms. ms \<noteq> [] \<and> foldl dedupe_step ns (ps @ [p, q]) = ms @ [q]"
proof -
  let ?ms = "foldl dedupe_step ns (ps @ [p])"
  have "\<not> far (last ?ms) p" by (rule dedupe_last_near [OF assms(2)])
  then have "far (last ?ms) q" using assms(1) unfolding far_def EPSILON_def by linarith
  then have "dedupe_step ?ms q = ?ms @ [q]" by (simp add: dedupe_step_def far_def EPSILON_def)
  moreover have "?ms \<noteq> []" using dedupe_loop [OF assms(2)] by blast
  moreover have "foldl dedupe_step ns (ps @ [p, q]) = dedupe_step ?ms q" by simp
  ultimately show ?thesis by metis
qed

lemma normalize_last:
  assumes "2 * EPSILON < \<bar>fst q - fst p\<bar> \<or> 2 * EPSILON < \<bar>snd q - snd p\<bar>"
  shows "last (normalizeRoutePoints (n # ps @ [p, q])) = q"
proof -
  have "foldl dedupe_step [] (n # ps @ [p, q]) = foldl dedupe_step [n] (ps @ [p, q])" by (simp add: dedupe_step_def)
  then obtain ms where "foldl dedupe_step [] (n # ps @ [p, q]) = ms @ [q]" using dedupe_keeps_last [OF assms, of "[n]" ps] by auto
  then show ?thesis using normalize_loop [of "[]" "ms @ [q]"] bends_short [of "[]"] by (simp add: normalizeRoutePoints_def del: foldl_append)
qed

section \<open>Feasible routes\<close>

lemma manhattan_far: "8 \<le> manhattan p q + EPSILON \<Longrightarrow> far p q"
  unfolding manhattan_def far_def EPSILON_def by linarith

lemma hypot_manhattan: "hypot u v \<le> \<bar>u\<bar> + \<bar>v\<bar>"
  unfolding hypot_def by (rule real_le_lsqrt) (auto simp: power2_eq_square algebra_simps abs_mult [symmetric])

lemma hard_rhythm_pairs:
  assumes "routeMeetsHardRhythm points" "(i, p, q) \<in> set (enumerate 0 (pairs points))"
  shows "(if i = 0 \<or> i = length points - 2 then 8 else 16) \<le> manhattan p q + EPSILON"
proof (cases "length points = 2")
  case True
  then obtain a b where ab: "points = [a, b]" by (auto simp: length_Suc_conv eval_nat_numeral)
  have "hypot (fst b - fst a) (snd b - snd a) \<le> manhattan a b" using hypot_manhattan by (simp add: manhattan_def)
  then show ?thesis using assms by (simp add: routeMeetsHardRhythm_def ab)
qed (use assms in \<open>auto simp: routeMeetsHardRhythm_def\<close>)

lemma hard_rhythm_far: "routeMeetsHardRhythm points \<Longrightarrow> (p, q) \<in> set (pairs points) \<Longrightarrow> far p q"
proof -
  assume r: "routeMeetsHardRhythm points" and "(p, q) \<in> set (pairs points)"
  then obtain i where "(i, p, q) \<in> set (enumerate 0 (pairs points))" by (metis in_set_conv_nth set_enumerate_iff)
  from hard_rhythm_pairs [OF r this] show ?thesis by (intro manhattan_far) (auto split: if_splits)
qed

lemma feasible_settled:
  "readableCandidateIsFeasible s routes e (normalizeRoutePoints ps) from to f t \<Longrightarrow> settled (normalizeRoutePoints ps)"
  using hard_rhythm_far normalize_bends by (auto simp: settled_def readableCandidateIsFeasible_def)

lemma candidate_set_members:
  assumes "p \<in> set (readableAutomaticCandidateSet s routes e from to start end f t off nf nt)"
  shows "readableCandidateIsFeasible s routes e (pl_points p) from to f t \<and> settled (pl_points p) \<and> pl_from p = f \<and> pl_to p = t \<and>
    hd (pl_points p) = start"
proof -
  obtain mid where m: "pl_points p = normalizeRoutePoints (start # mid @ [end])" "pl_from p = f" "pl_to p = t"
    "readableCandidateIsFeasible s routes e (pl_points p) from to f t"
    using assms unfolding readableAutomaticCandidateSet_def cheapest_first_def set_sort set_map set_filter
    by (auto simp: in_set_enumerate_eq split: prod.splits)
  then show ?thesis using feasible_settled normalize_hd by metis
qed

lemma refine_feasible: "feasible x \<Longrightarrow> feasible (refine_corridor feasible n x y)"
  by (induction feasible n x y rule: refine_corridor.induct) (auto simp: Let_def)

lemma probe_feasible: "probe_corridor feasible out n x g l = Some y \<Longrightarrow> feasible y"
  by (induction feasible out n x g l rule: probe_corridor.induct) (auto split: if_splits intro: refine_feasible)

definition concrete_pair :: "side \<times> side \<Rightarrow> bool" where
  "concrete_pair p \<longleftrightarrow> fst p \<noteq> Auto \<and> snd p \<noteq> Auto"

lemma expand_right_feasible:
  assumes "expand_right s routes e from to start end f t = Some points" "t \<noteq> Auto"
  shows "readableCandidateIsFeasible s routes e points from to f t \<and> settled points \<and> hd points = start \<and> last points = end"
proof -
  obtain x where x: "points = expanded_points start end f t x"
    "readableCandidateIsFeasible s routes e (expanded_points start end f t x) from to f t"
    using assms(1) probe_feasible unfolding expand_right_def Let_def by fastforce
  have stub: "2 * EPSILON < \<bar>fst end - fst (outwardStub end t)\<bar> \<or> 2 * EPSILON < \<bar>snd end - snd (outwardStub end t)\<bar>"
    using assms(2) by (cases t) (simp_all add: outwardStub_def PORT_OUTWARD_VECTOR_def EPSILON_def)
  obtain mid where m: "start # corridorViaX start end f t x @ [end] = start # mid @ [outwardStub end t, end]"
    using that [of "butlast (corridorViaX start end f t x)"] by (simp add: corridorViaX_def Let_def)
  have "hd points = start" unfolding x(1) expanded_points_def using normalize_hd by blast
  moreover have "last points = end" unfolding x(1) expanded_points_def m using normalize_last [OF stub] by simp
  ultimately show ?thesis using x feasible_settled by (simp add: expanded_points_def)
qed

section \<open>The cheapest plan\<close>

lemma first_difference_order:
  "length ls = length rs \<Longrightarrow> (first_difference ls rs < 0 \<longleftrightarrow> ls < rs) \<and> (first_difference ls rs = 0 \<longleftrightarrow> ls = rs)"
  by (induction ls rs rule: first_difference.induct) auto

lemma compareCost_le: "compareCost a b \<le> 0 \<longleftrightarrow> cost_list a \<le> cost_list b"
  using first_difference_order [of "cost_list a" "cost_list b"] by (auto simp: compareCost_def cost_list_def le_less)

lemma cheapest_first_hd:
  "cheapest_first ps = best # rest \<Longrightarrow> best \<in> set ps \<and> (\<forall>p\<in>set ps. cost_list (pl_cost best) \<le> cost_list (pl_cost p))"
proof -
  assume c: "cheapest_first ps = best # rest"
  then have s: "set ps = set (best # rest)" unfolding cheapest_first_def by (metis set_sort)
  have "sorted (map (\<lambda>p. cost_list (pl_cost p)) (best # rest))" using c unfolding cheapest_first_def by (metis sorted_sort_key)
  then show ?thesis using s by auto
qed

lemma cheapest_first_Nil: "cheapest_first ps = [] \<longleftrightarrow> ps = []"
  unfolding cheapest_first_def by (metis set_empty set_sort)

section \<open>Side pairs\<close>

lemma authored_not_Auto: "authored_side v \<noteq> Some Auto"
  by (simp add: authored_side_def)

lemma default_sides_concrete: "defaultFromSide a b \<noteq> Auto" "defaultToSide a b \<noteq> Auto"
  by (auto simp: defaultFromSide_def defaultToSide_def split: if_splits)

lemma natural_sides_concrete: "concrete_pair (natural_sides e from to)"
  using authored_not_Auto [of "fromSide e"] authored_not_Auto [of "toSide e"] default_sides_concrete
  by (auto simp: natural_sides_def natural_side_def concrete_pair_def split: option.splits)

lemma set_first_occurrences_filter [simp]: "set (first_occurrences (filter P vs)) = {v \<in> set vs. P v}"
  by simp

lemma authored_or_all_concrete: "f \<in> set (authored_or_all (authored_side v)) \<Longrightarrow> f \<noteq> Auto"
  using authored_not_Auto [of v] by (auto simp: authored_or_all_def sideOrder_def split: option.splits)

lemma side_pairs_concrete:
  assumes "\<forall>p\<in>set preferred. concrete_pair p" "p \<in> set (side_pairs e preferred)"
  shows "concrete_pair p"
  using assms authored_or_all_concrete unfolding side_pairs_def Let_def concrete_pair_def by fastforce

lemma side_pairs_not_Nil: "side_pairs e preferred \<noteq> []"
proof -
  obtain f t where "f \<in> set (authored_or_all (authored_side (fromSide e)))" "authored_side (fromSide e) = None \<or> authored_side (fromSide e) = Some f"
    "t \<in> set (authored_or_all (authored_side (toSide e)))" "authored_side (toSide e) = None \<or> authored_side (toSide e) = Some t"
    by (cases "authored_side (fromSide e)"; cases "authored_side (toSide e)") (auto simp: authored_or_all_def sideOrder_def)
  then have "(f, t) \<in> set (side_pairs e preferred)" unfolding side_pairs_def Let_def by auto
  then show ?thesis by auto
qed

section \<open>Plans of an automatic route\<close>

lemma candidate_set_Nil:
  "readableAutomaticCandidateSet s routes e from to start end f t off nf nt = [] \<longleftrightarrow>
   readableAutomaticCandidateSet s routes e from to start end f t off' nf' nt' = []"
  by (simp add: readableAutomaticCandidateSet_def cheapest_first_Nil)

lemma rejoin: "2 \<le> length ps \<Longrightarrow> hd ps # butlast (tl ps) @ [last ps] = ps"
  by (cases ps; cases "tl ps") auto

lemma pair_plans_members:
  assumes "pair_plans s routes e from to ports (i, f, t) = Inr ps" "t \<noteq> Auto" "p \<in> set ps"
  shows "readableCandidateIsFeasible s routes e (pl_points p) from to f t \<and> settled (pl_points p) \<and> pl_from p = f \<and> pl_to p = t"
proof -
  obtain nf nt where n: "natural_sides e from to = (nf, nt)" by fastforce
  define start where "start = port_or_anchor (Option.bind ports port_from) (i = 0) from f"
  define fin where "fin = port_or_anchor (Option.bind ports port_to) (i = 0) to t"
  define planned where "planned = readableAutomaticCandidateSet s routes e from to start fin f t (i * 9) nf nt"
  note unf = assms(1) [unfolded pair_plans_def prod.case Let_def n, folded start_def fin_def, folded planned_def]
  show ?thesis
  proof (cases "planned = []")
    case False
    then have "p \<in> set planned" using unf assms(3) by simp
    then show ?thesis unfolding planned_def using candidate_set_members by metis
  next
    case True
    then have z: "readableAutomaticCandidateSet s routes e from to start fin f t 0 f t = []" unfolding planned_def using candidate_set_Nil by metis
    obtain mid where v: "readableAutomaticVia s routes e from to start fin f t = Inr mid" using unf True by (auto split: sum.splits)
    then obtain points where x: "expand_right s routes e from to start fin f t = Some points" "mid = butlast (tl points)"
      by (auto simp: readableAutomaticVia_def z split: option.splits)
    note ok = expand_right_feasible [OF x(1) assms(2)]
    then have "2 \<le> length points" by (simp add: readableCandidateIsFeasible_def)
    then have "start # mid @ [fin] = points" using rejoin ok x(2) by metis
    then have "normalizeRoutePoints (start # mid @ [fin]) = points" using ok settled_fix by simp
    then show ?thesis using unf True v assms(3) ok by auto
  qed
qed

lemma results_concat:
  "p \<in> set (concat (List.map_filter (\<lambda>r. case r of Inr ps \<Rightarrow> Some ps | Inl _ \<Rightarrow> None) (map g xs))) \<longleftrightarrow>
   (\<exists>x\<in>set xs. \<exists>ps. g x = Inr ps \<and> p \<in> set ps)"
proof (induction xs)
  case (Cons x xs)
  then show ?case by (cases "g x") (simp_all add: map_filter_simps)
qed (simp add: map_filter_simps)

text \<open>What the selection returns, and that nothing planned is cheaper.\<close>

lemma readableAutomaticRoute_Inr:
  assumes "readableAutomaticRoute s routes e from to primary ports = Inr best" "concrete_pair primary"
  shows "readableCandidateIsFeasible s routes e (pl_points best) from to (pl_from best) (pl_to best) \<and> settled (pl_points best) \<and>
    concrete_pair (pl_from best, pl_to best) \<and> (pl_from best, pl_to best) \<in> set (side_pairs e [primary])"
    and "entry \<in> set (enumerate 0 (side_pairs e [primary])) \<Longrightarrow> pair_plans s routes e from to ports entry = Inr ps \<Longrightarrow> p \<in> set ps \<Longrightarrow>
      compareCost (pl_cost best) (pl_cost p) \<le> 0"
proof -
  define outcomes where "outcomes = map (pair_plans s routes e from to ports) (enumerate 0 (side_pairs e [primary]))"
  define plans where "plans = concat (List.map_filter (\<lambda>r. case r of Inr ps \<Rightarrow> Some ps | Inl _ \<Rightarrow> None) outcomes)"
  obtain rest where "cheapest_first plans = best # rest"
    using assms(1) unfolding readableAutomaticRoute_def Let_def outcomes_def [symmetric] plans_def [symmetric]
    by (auto split: list.splits if_splits)
  note b = cheapest_first_hd [OF this]
  have mem: "p \<in> set plans \<longleftrightarrow> (\<exists>entry\<in>set (enumerate 0 (side_pairs e [primary])). \<exists>ps. pair_plans s routes e from to ports entry = Inr ps \<and> p \<in> set ps)" for p
    unfolding plans_def outcomes_def by (rule results_concat)
  then obtain i f t qs where i: "(i, f, t) \<in> set (enumerate 0 (side_pairs e [primary]))" "pair_plans s routes e from to ports (i, f, t) = Inr qs" "best \<in> set qs"
    using b by fastforce
  then have ft: "(f, t) \<in> set (side_pairs e [primary])" using i(1) by (metis set_enumerate_iff nth_mem)
  then have c: "concrete_pair (f, t)" using side_pairs_concrete [of "[primary]"] assms(2) by simp
  then have "t \<noteq> Auto" by (simp add: concrete_pair_def)
  from pair_plans_members [OF i(2) this i(3)] c ft
  show "readableCandidateIsFeasible s routes e (pl_points best) from to (pl_from best) (pl_to best) \<and> settled (pl_points best) \<and>
    concrete_pair (pl_from best, pl_to best) \<and> (pl_from best, pl_to best) \<in> set (side_pairs e [primary])" by simp
  show "compareCost (pl_cost best) (pl_cost p) \<le> 0"
    if "entry \<in> set (enumerate 0 (side_pairs e [primary]))" "pair_plans s routes e from to ports entry = Inr ps" "p \<in> set ps"
    using b mem that compareCost_le by blast
qed

text \<open>A feasible pair is enough for a route.\<close>

lemma readableAutomaticRoute_exists:
  assumes "entry \<in> set (enumerate 0 (side_pairs e [primary]))" "pair_plans s routes e from to ports entry = Inr (p # ps)"
  shows "\<exists>best. readableAutomaticRoute s routes e from to primary ports = Inr best"
proof -
  define outcomes where "outcomes = map (pair_plans s routes e from to ports) (enumerate 0 (side_pairs e [primary]))"
  define plans where "plans = concat (List.map_filter (\<lambda>r. case r of Inr ps \<Rightarrow> Some ps | Inl _ \<Rightarrow> None) outcomes)"
  have "Inr (p # ps) \<in> set outcomes" unfolding outcomes_def using assms by (metis image_eqI set_map)
  then have "p \<in> set plans" unfolding plans_def by (force simp: set_map_filter_iff)
  then have "cheapest_first plans \<noteq> []" using cheapest_first_Nil by fastforce
  then show ?thesis unfolding readableAutomaticRoute_def Let_def outcomes_def [symmetric] plans_def [symmetric]
    by (auto simp: neq_Nil_conv)
qed

section \<open>Reachable routing states\<close>

inductive routable :: "scene \<Rightarrow> routing_state \<Rightarrow> bool" for s :: scene where
  start: "routable s (initial_state s)"
| place: "routable s st \<Longrightarrow> e \<in> set (flow_edges s) \<Longrightarrow> pathFor s st e = Inr (points, st') \<Longrightarrow> routable s st'"

definition concrete_sides :: "routing_state \<Rightarrow> bool" where
  "concrete_sides st \<longleftrightarrow> (\<forall>i p. rs_sides st i = Some (Some p) \<longrightarrow> concrete_pair p)"

text \<open>What an automatic edge of a readable scene satisfies beside the routes placed before it.\<close>

definition fitted :: "scene \<Rightarrow> routes \<Rightarrow> flow_edge \<Rightarrow> point list \<Rightarrow> side \<times> side \<Rightarrow> bool" where
  "fitted s prior e points p \<longleftrightarrow>
     (\<exists>from to. node_at s (rel_from e) = Some from \<and> node_at s (rel_to e) = Some to \<and>
        readableCandidateIsFeasible s prior e points from to (fst p) (snd p)) \<and>
     settled points \<and> concrete_pair p \<and>
     (authored_side (fromSide e) = None \<or> authored_side (fromSide e) = Some (fst p)) \<and>
     (authored_side (toSide e) = None \<or> authored_side (toSide e) = Some (snd p))"

definition entry_fits :: "scene \<Rightarrow> routing_state \<Rightarrow> nat \<Rightarrow> bool" where
  "entry_fits s st j \<longleftrightarrow>
     (let (e, points) = rs_paths st ! j
      in free_route e \<longrightarrow> (\<exists>p. rs_sides st (oid e) = Some (Some p) \<and> fitted s (take j (rs_paths st)) e points p))"

definition sound_state :: "scene \<Rightarrow> routing_state \<Rightarrow> bool" where
  "sound_state s st \<longleftrightarrow> concrete_sides st \<and> distinct (map (\<lambda>(e, points). oid e) (rs_paths st)) \<and>
     fst ` set (rs_paths st) \<subseteq> set (flow_edges s) \<and> (readable s \<longrightarrow> (\<forall>j<length (rs_paths st). entry_fits s st j))"

section \<open>Sides stay concrete\<close>

lemma legacy_sides_concrete: "legacyAutomaticOneBendSides s e from to = Some p \<Longrightarrow> concrete_pair p"
  by (auto simp: legacyAutomaticOneBendSides_def concrete_pair_def find_Some_iff nth_Cons' split: if_splits)

lemma pair_candidates_sides:
  assumes "p \<in> set (pair_candidates s routes e from to (i, f, t))"
  shows "pl_from p = f \<and> pl_to p = t"
proof -
  obtain nf nt where "natural_sides e from to = (nf, nt)" by fastforce
  then have "p \<in> set (readableAutomaticCandidateSet s routes e from to (anchor (box.truncate from) f) (anchor (box.truncate to) t) f t (i * 9) nf nt)"
    using assms by (simp add: pair_candidates_def)
  from candidate_set_members [OF this] show ?thesis by simp
qed

lemma automatic_sides_concrete:
  assumes "readableAutomaticSides s routes e from to = Some p"
  shows "concrete_pair p"
proof -
  define preferred where "preferred = (case legacyAutomaticOneBendSides s e from to of Some p \<Rightarrow> [p] | None \<Rightarrow> []) @ [natural_sides e from to]"
  have "\<forall>q\<in>set preferred. concrete_pair q"
    using legacy_sides_concrete natural_sides_concrete by (auto simp: preferred_def split: option.splits)
  then have c: "concrete_pair q" if "q \<in> set (side_pairs e preferred)" for q using side_pairs_concrete that by blast
  consider "p = hd (side_pairs e preferred)"
    | best rest where "cheapest_first (concat (map (pair_candidates s routes e from to) (enumerate 0 (side_pairs e preferred)))) = best # rest"
        "p = (pl_from best, pl_to best)"
    using assms unfolding readableAutomaticSides_def preferred_def [symmetric] Let_def by (auto split: if_splits list.splits)
  then show ?thesis
  proof cases
    case 1
    then show ?thesis using c [of p] side_pairs_not_Nil by simp
  next
    case 2
    then obtain i f t where i: "(i, f, t) \<in> set (enumerate 0 (side_pairs e preferred))" "best \<in> set (pair_candidates s routes e from to (i, f, t))"
      using cheapest_first_hd [OF 2(1)] by auto
    then have "pl_from best = f" "pl_to best = t" using pair_candidates_sides [OF i(2)] by simp_all
    moreover have "(f, t) \<in> set (side_pairs e preferred)" using i(1) by (metis set_enumerate_iff nth_mem)
    ultimately show ?thesis using 2(2) c by simp
  qed
qed

lemma chosen_default: "d \<noteq> Auto \<Longrightarrow> chosenSide v d \<noteq> Auto"
  by (auto simp: chosenSide_def split: option.splits)

text \<open>What asking for the sides of an edge does.\<close>

lemma edgeSides_spec:
  assumes "edgeSides s st e from to = (p, st')" "concrete_sides st"
  shows "concrete_pair p \<and> concrete_sides st' \<and> rs_paths st' = rs_paths st \<and> (\<forall>i. i \<noteq> oid e \<longrightarrow> rs_sides st' i = rs_sides st i)"
proof -
  have a: "(\<forall>q. r = Some q \<longrightarrow> concrete_pair q) \<and> concrete_sides st1 \<and> rs_paths st1 = rs_paths st \<and> (\<forall>i. i \<noteq> oid e \<longrightarrow> rs_sides st1 i = rs_sides st i)"
    if "automaticOneBendSides s st e from to = (r, st1)" for r st1
    using that assms(2) legacy_sides_concrete automatic_sides_concrete
    by (auto simp: automaticOneBendSides_def concrete_sides_def Let_def split: if_splits option.splits)
  obtain r st1 where r: "automaticOneBendSides s st e from to = (r, st1)" by fastforce
  show ?thesis
  proof (cases "(if readable s then rs_sides st (oid e) else None) = Some (Some p) \<and> st' = st")
    case True
    then have "rs_sides st (oid e) = Some (Some p)" by (simp split: if_splits)
    then show ?thesis using True assms(2) unfolding concrete_sides_def by blast
  next
    case False
    then have "st' = st1 \<and> (r = Some p \<or> p = (TopS, TopS) \<or>
       p = (chosenSide (fromSide e) (defaultFromSide (box.truncate from) (box.truncate to)), chosenSide (toSide e) (defaultToSide (box.truncate from) (box.truncate to))))"
      using assms(1) r by (auto simp: edgeSides_def split: option.splits if_splits)
    then show ?thesis using a [OF r] chosen_default default_sides_concrete by (cases p) (auto simp: concrete_pair_def)
  qed
qed

lemma spread_sides_spec: "concrete_sides st \<and> rs_paths st = [] \<Longrightarrow> concrete_sides (spread_sides s e st) \<and> rs_paths (spread_sides s e st) = []"
  using edgeSides_spec [of s st e] by (auto simp: spread_sides_def split: option.splits) (metis prod.collapse)+

lemma initial_state_spec: "concrete_sides (initial_state s) \<and> rs_paths (initial_state s) = []"
proof -
  have "concrete_sides st \<and> rs_paths st = [] \<Longrightarrow>
      concrete_sides (foldl (\<lambda>st e. spread_sides s e st) st es) \<and> rs_paths (foldl (\<lambda>st e. spread_sides s e st) st es) = []" for st es
  proof (induction es arbitrary: st)
    case (Cons e es)
    show ?case using Cons.IH [OF spread_sides_spec [OF Cons.prems]] by simp
  qed simp
  from this [of "\<lparr>rs_paths = [], rs_sides = (\<lambda>_. None)\<rparr>" "flow_edges s"] show ?thesis
    unfolding initial_state_def [symmetric] by (simp add: concrete_sides_def)
qed

section \<open>Every automatic route fits\<close>

lemma cached_route_None: "cached_route st e = None \<longleftrightarrow> oid e \<notin> set (map (\<lambda>(e, points). oid e) (rs_paths st))"
  by (auto simp: cached_route_def map_of_eq_None_iff image_iff)

lemma controlled_sides_concrete:
  assumes "readableControlledRoute s routes e from to = Inr (points, p)"
  shows "concrete_pair p"
proof -
  have c: "concrete_pair q" if "q \<in> set (side_pairs e [natural_sides e from to])" for q
    using side_pairs_concrete [of "[natural_sides e from to]"] natural_sides_concrete that by simp
  obtain routed where r: "collect_results (materialized s routes e from to) (side_pairs e [natural_sides e from to]) = Inr routed"
    using assms by (auto simp: readableControlledRoute_def Let_def split: sum.splits)
  have len: "length rs = length ps" if "collect_results f ps = Inr rs" for f :: "side \<times> side \<Rightarrow> routing_error + point list" and ps rs
    using that by (induction ps arbitrary: rs) (auto split: sum.splits)
  define entries where "entries = zip (side_pairs e [natural_sides e from to]) routed"
  have ent: "q \<in> set (side_pairs e [natural_sides e from to])" if "(q, pts) \<in> set entries" for q pts
    using that unfolding entries_def by (rule set_zip_leftD)
  have ne: "entries \<noteq> []" using len [OF r] side_pairs_not_Nil unfolding entries_def by (cases routed) (auto simp: neq_Nil_conv)
  obtain nf nt where n: "natural_sides e from to = (nf, nt)" by fastforce
  have plan: "\<exists>pts. ((pl_from q, pl_to q), pts) \<in> set entries" if "q \<in> set (controlled_plans s routes e from to (enumerate 0 entries))" for q
  proof -
    have "\<exists>i pts. (i, (pl_from q, pl_to q), pts) \<in> set (enumerate 0 entries)" using that by (auto simp: controlled_plans_def n) blast+
    then show ?thesis by (metis set_enumerate_iff nth_mem)
  qed
  obtain f t pts where h: "hd entries = ((f, t), pts)" by (metis surj_pair)
  note unf = assms [unfolded readableControlledRoute_def Let_def r sum.case, folded entries_def]
  show ?thesis
  proof (cases "cheapest_first (controlled_plans s routes e from to (enumerate 0 entries))")
    case (Cons best rest)
    then have "p = (pl_from best, pl_to best)" using unf by simp
    then show ?thesis using plan [of best] cheapest_first_hd [OF Cons] ent c by blast
  next
    case Nil
    define ok where "ok = (\<lambda>((f, t), points). 2 \<le> length points \<and> routeHonorsEndpointSides points (Some f) (Some t))"
    have "p = (f, t) \<or> (\<exists>pts. find ok entries = Some (p, pts))"
      using unf unfolding Nil h ok_def [symmetric] by (auto split: if_splits option.splits sum.splits)
    moreover have "find ok entries = Some x \<Longrightarrow> x \<in> set entries" for x by (metis find_Some_iff nth_mem)
    ultimately show ?thesis using h ent c ne hd_in_set by metis
  qed
qed

lemma side_pairs_authored:
  assumes "(f, t) \<in> set (side_pairs e preferred)"
  shows "(authored_side (fromSide e) = None \<or> authored_side (fromSide e) = Some f) \<and> (authored_side (toSide e) = None \<or> authored_side (toSide e) = Some t)"
  using assms unfolding side_pairs_def Let_def by auto

text \<open>The cases of a successful \<open>pathFor\<close>.\<close>

lemma pathFor_cases:
  assumes "pathFor s st e = Inr (points, st')" "concrete_sides st"
  obtains (cached) "cached_route st e = Some points" "st' = st"
  | (controlled) p where "cached_route st e = None" "isReadableControlledRoute s e" "concrete_pair p" "st' = place_route e points (Some p) st"
  | (automatic) src tgt best st1 sides where "cached_route st e = None" "readable s" "free_route e"
      "node_at s (rel_from e) = Some src" "node_at s (rel_to e) = Some tgt" "edgeSides s st e src tgt = (sides, st1)"
      "readableAutomaticRoute s (rs_paths st1) e src tgt sides (automaticPorts s (oid e)) = Inr best"
      "points = pl_points best" "st' = place_route e points (Some (pl_from best, pl_to best)) st1"
  | (plain) src tgt st1 sides where "cached_route st e = None" "\<not> (readable s \<and> free_route e)" "edgeSides s st e src tgt = (sides, st1)"
      "st' = place_route e points None st1"
proof (cases "cached_route st e")
  case (Some ps)
  then have "points = ps" "st' = st" using assms(1) by (simp_all add: pathFor_def)
  then show ?thesis using cached Some by blast
next
  case None
  then obtain src tgt where n: "node_at s (rel_from e) = Some src" "node_at s (rel_to e) = Some tgt"
    using assms(1) by (auto simp: pathFor_def split: option.splits)
  obtain sides st1 where e: "edgeSides s st e src tgt = (sides, st1)" by fastforce
  show ?thesis
  proof (cases "isReadableControlledRoute s e")
    case True
    then obtain p where "readableControlledRoute s (rs_paths st) e src tgt = Inr (points, p)" "st' = place_route e points (Some p) st"
      using assms(1) by (simp add: pathFor_def None n) (auto split: sum.splits)
    then show ?thesis using controlled [OF None True] controlled_sides_concrete by blast
  next
    case False
    show ?thesis
    proof (cases "readable s \<and> free_route e")
      case True
      then obtain best where "readableAutomaticRoute s (rs_paths st1) e src tgt sides (automaticPorts s (oid e)) = Inr best"
        "points = pl_points best" "st' = place_route e points (Some (pl_from best, pl_to best)) st1"
        using assms(1) False by (simp add: pathFor_def None n e) (auto split: sum.splits)
      then show ?thesis using automatic [OF None _ _ n e] True by blast
    next
      case plainly: False
      then have "st' = place_route e points None st1"
        using assms(1) False by (simp add: pathFor_def None n e) (auto split: sum.splits)
      then show ?thesis using plain [OF None plainly e] by blast
    qed
  qed
qed

lemma placed_entries_fit:
  assumes "sound_state s st" "e \<in> set (flow_edges s)" "cached_route st e = None" "concrete_sides st1" "rs_paths st1 = rs_paths st"
    and "\<forall>i. i \<noteq> oid e \<longrightarrow> rs_sides st1 i = rs_sides st i" "\<forall>p. q = Some p \<longrightarrow> concrete_pair p"
    and "readable s \<Longrightarrow> free_route e \<Longrightarrow> \<exists>p. q = Some p \<and> fitted s (rs_paths st) e points p"
  shows "sound_state s (place_route e points q st1)"
proof -
  let ?st = "place_route e points q st1"
  have paths: "rs_paths ?st = rs_paths st @ [(e, points)]" by (simp add: place_route_def assms(5))
  have new: "oid e \<notin> set (map (\<lambda>(e, points). oid e) (rs_paths st))" using assms(3) cached_route_None by blast
  have sides: "rs_sides ?st i = rs_sides st i" if "i \<noteq> oid e" for i
    using that assms(6) by (simp add: place_route_def split: option.splits)
  have "concrete_sides ?st" using assms(4,7) by (auto simp: concrete_sides_def place_route_def split: option.splits if_splits)
  moreover have "entry_fits s ?st j" if r: "readable s" and j: "j < length (rs_paths ?st)" for j
  proof (cases "j < length (rs_paths st)")
    case True
    obtain e' points' where e': "rs_paths st ! j = (e', points')" by fastforce
    then have "(e', points') \<in> set (rs_paths st)" using True by (metis nth_mem)
    then have "oid e' \<noteq> oid e" using new by force
    moreover have "entry_fits s st j" using assms(1) r True by (simp add: sound_state_def)
    ultimately show ?thesis using e' True sides by (simp add: entry_fits_def paths nth_append)
  next
    case False
    then have "j = length (rs_paths st)" using j paths by simp
    moreover have "rs_sides ?st (oid e) = Some (Some p)" if "q = Some p" for p using that by (simp add: place_route_def)
    ultimately show ?thesis using assms(8) [OF r] by (auto simp: entry_fits_def paths)
  qed
  ultimately show ?thesis using assms(1,2) new by (auto simp: sound_state_def paths)
qed

lemma pathFor_sound:
  assumes s: "sound_state s st" and e: "e \<in> set (flow_edges s)" and p: "pathFor s st e = Inr (points, st')"
  shows "sound_state s st'"
proof -
  have c: "concrete_sides st" using s by (simp add: sound_state_def)
  from p c show ?thesis
  proof (cases rule: pathFor_cases)
    case cached
    then show ?thesis using s by simp
  next
    case (controlled q)
    have "\<not> (readable s \<and> free_route e)" using controlled(2) by (auto simp: isReadableControlledRoute_def free_route_def hasAbsoluteRoutePins_def)
    then show ?thesis unfolding controlled(4) using controlled(3) by (intro placed_entries_fit [OF s e controlled(1) c]) auto
  next
    case (automatic src tgt best st1 sides)
    note es = edgeSides_spec [OF automatic(6) c]
    note r = readableAutomaticRoute_Inr(1) [OF automatic(7)] side_pairs_authored
    have "fitted s (rs_paths st) e points (pl_from best, pl_to best)"
      unfolding fitted_def using r es automatic by fastforce
    then show ?thesis unfolding automatic(9) using es r(1) by (intro placed_entries_fit [OF s e automatic(1)]) auto
  next
    case (plain src tgt st1 sides)
    then show ?thesis unfolding plain(4) using plain(2) edgeSides_spec [OF plain(3) c] by (intro placed_entries_fit [OF s e plain(1)]) auto
  qed
qed

lemma routed_sound: "routable s st \<Longrightarrow> sound_state s st"
proof (induction rule: routable.induct)
  case start
  then show ?case using initial_state_spec [of s] by (simp add: sound_state_def)
next
  case (place st e points st')
  then show ?case using pathFor_sound by blast
qed

section \<open>Placed automatic routes\<close>

lemma flow_edges_nth: "i < length (flow_edges s) \<Longrightarrow> oid (flow_edges s ! i) = i"
  by (simp add: flow_edges_def flow_edge_of_def nth_enumerate_eq)

lemma flow_edges_unique: "e \<in> set (flow_edges s) \<Longrightarrow> e' \<in> set (flow_edges s) \<Longrightarrow> oid e = oid e' \<Longrightarrow> e = e'"
  by (metis in_set_conv_nth flow_edges_nth)

text \<open>Every edge of the scene is automatic and has its route.\<close>

definition automatically_routed :: "scene \<Rightarrow> routing_state \<Rightarrow> bool" where
  "automatically_routed s st \<longleftrightarrow> readable s \<and> routable s st \<and> (\<forall>e\<in>set (flow_edges s). free_route e \<and> cached_route st e \<noteq> None)"

lemma placed_route:
  assumes "sound_state s st" "e \<in> set (flow_edges s)" "cached_route st e = Some points"
  shows "\<exists>j<length (rs_paths st). rs_paths st ! j = (e, points)"
proof -
  have "(oid e, points) \<in> set (map (\<lambda>(other, points). (oid other, points)) (rs_paths st))"
    using assms(3) unfolding cached_route_def by (rule map_of_SomeD)
  then obtain e' where e': "(e', points) \<in> set (rs_paths st)" "oid e' = oid e" by auto
  moreover have "e' \<in> set (flow_edges s)" using assms(1) e'(1) by (force simp: sound_state_def)
  ultimately show ?thesis using flow_edges_unique assms(2) by (metis in_set_conv_nth)
qed

lemma automatic_route_fits:
  assumes "automatically_routed s st" "e \<in> set (flow_edges s)" "cached_route st e = Some points"
  obtains j p where "j < length (rs_paths st)" "rs_paths st ! j = (e, points)" "rs_sides st (oid e) = Some (Some p)"
    "fitted s (take j (rs_paths st)) e points p"
proof -
  have s: "sound_state s st" using assms(1) routed_sound by (simp add: automatically_routed_def)
  then obtain j where j: "j < length (rs_paths st)" "rs_paths st ! j = (e, points)" using placed_route assms(2,3) by blast
  moreover have "free_route e" using assms(1,2) by (simp add: automatically_routed_def)
  ultimately show ?thesis using s assms(1) that by (auto simp: sound_state_def entry_fits_def automatically_routed_def)
qed

lemma fitted_feasible:
  assumes "fitted s prior e points p"
  shows "2 \<le> length points" "routeHonorsEndpointSides points (Some (fst p)) (Some (snd p))" "routeMeetsHardRhythm points"
    "routeClearsUnrelatedNodes s e points 2" "routeLabelClearsNodes s e points" "routeClearsPlacedLabels s prior e points"
    "routeClearsFrameBorders s points" "settled points"
  using assms by (auto simp: fitted_def readableCandidateIsFeasible_def)

lemma truncate_simps [simp]:
  "oid (relation.truncate r) = oid r" "rel_from (relation.truncate r) = rel_from r" "rel_to (relation.truncate r) = rel_to r"
  "fromSide (relation.truncate r) = fromSide r" "toSide (relation.truncate r) = toSide r" "rel_route (relation.truncate r) = rel_route r"
  "via (relation.truncate r) = via r" "cached_route st (relation.truncate r) = cached_route st r"
  by (simp_all add: relation.truncate_def cached_route_def)

lemma box_truncate_simps [simp]:
  "bid (box.truncate n) = bid n" "segmentIntersectsRect seg (box.truncate n) g = segmentIntersectsRect seg n g"
  by (simp_all add: box.truncate_def segmentIntersectsRect_def expand_rect_def)

section \<open>The gates\<close>

lemma side_gate_silent:
  assumes "automatically_routed s st"
  shows "cleanEndpointSideProblems ctx (map relation.truncate (flow_edges s)) ids (cached_route st)
    (\<lambda>r. side_for s st r Source) (\<lambda>r. side_for s st r Target) (\<lambda>_ _. True) = []"
proof -
  have "endpoint_checks (relation.truncate e) points (\<lambda>r. side_for s st r Source) (\<lambda>r. side_for s st r Target) = []"
    if "i < length (flow_edges s)" "e = flow_edges s ! i" "cached_route st e = Some points" for i e points
  proof -
    have e: "e \<in> set (flow_edges s)" "oid e = i" using that flow_edges_nth by auto
    from automatic_route_fits [OF assms e(1) that(3)] obtain j p where jp: "rs_sides st (oid e) = Some (Some p)"
      "fitted s (take j (rs_paths st)) e points p" by blast
    then obtain src tgt where n: "node_at s (rel_from e) = Some src" "node_at s (rel_to e) = Some tgt" by (auto simp: fitted_def)
    have "readable s" "free_route e" using assms e(1) by (auto simp: automatically_routed_def)
    then have sd: "side_for s st (relation.truncate e) ep = Some (if ep = Source then fst p else snd p)" for ep
      using jp(1) n that(2) e(2) by (auto simp: side_for_def edgeSides_def split: prod.splits)
    have g: "\<not> hasAuthoredRouteGeometry (relation.truncate e)"
      using \<open>free_route e\<close> by (auto simp: hasAuthoredRouteGeometry_def free_route_def auto_route_def)
    have a: "(case authored_side (fromSide e) of None \<Rightarrow> Some (fst p) | v \<Rightarrow> v) = Some (fst p)"
      "(case authored_side (toSide e) of None \<Rightarrow> Some (snd p) | v \<Rightarrow> v) = Some (snd p)"
      using jp(2) by (auto simp: fitted_def)
    show ?thesis using fitted_feasible(2) [OF jp(2)] by (simp add: endpoint_checks_def Let_def g sd a routeHonorsEndpointSides_def)
  qed
  then show ?thesis unfolding cleanEndpointSideProblems_def concat_map_Nil_iff ball_enumerate
    by (auto split: option.splits)
qed

lemma flow_gate_silent:
  assumes "automatically_routed s st"
  shows "cleanFlowProblems ctx (map relation.truncate (flow_edges s)) (map box.truncate (nodes s)) (cached_route st) kind 2 = []"
proof -
  have "flow_problem ctx kind 2 i (relation.truncate e) points (box.truncate n) = None"
    if e: "e \<in> set (flow_edges s)" "cached_route st e = Some points" and n: "n \<in> set (nodes s)" for i e points n
  proof -
    from automatic_route_fits [OF assms e] obtain j p where "fitted s (take j (rs_paths st)) e points p" by blast
    from fitted_feasible(4) [OF this] n show ?thesis
      by (auto simp: flow_problem_None flow_hit_def routeClearsUnrelatedNodes_def)
  qed
  then show ?thesis unfolding cleanFlowProblems_def concat_map_Nil_iff ball_enumerate
    by (auto simp: map_filter_Nil_iff split: option.splits)
qed

lemma border_runs_Nil:
  "collectBorderRuns bs frames = [] \<longleftrightarrow> (\<forall>b\<in>set bs. collectBorderRuns [b] frames = [])"
  by (simp add: collectBorderRuns_def)

lemma border_run_points:
  assumes "ro_points b = ro_points c" "ro_segments b = None" "ro_segments c = None"
  shows "collectBorderRuns [b] frames = [] \<longleftrightarrow> collectBorderRuns [c] frames = []"
proof -
  have "border_hit_for b segs i f sd = None \<longleftrightarrow> border_hit_for c segs i f sd = None" for segs i f sd
    by (simp add: border_hit_for_def Let_def)
  then show ?thesis using assms by (simp add: collectBorderRuns_def Let_def map_filter_Nil_iff split_beta)
qed

lemma eligible_routes:
  assumes "r \<in> set (collectEligibleRoutedRelations (map relation.truncate (flow_edges s)) ids path)"
  shows "\<exists>e\<in>set (flow_edges s). ro_relation r = Some (relation.truncate e) \<and> ro_index r = Some (oid e) \<and>
    ro_points r = (case path (relation.truncate e) of None \<Rightarrow> [] | Some ps \<Rightarrow> ps)"
proof -
  obtain i where "i < length (flow_edges s)" "r = \<lparr>ro_relation = Some (relation.truncate (flow_edges s ! i)), ro_index = Some i,
      ro_points = (case path (relation.truncate (flow_edges s ! i)) of None \<Rightarrow> [] | Some ps \<Rightarrow> ps)\<rparr>"
    using assms by (auto simp: collectEligibleRoutedRelations_def set_map_filter_iff in_set_enumerate_eq split: if_splits)
  then show ?thesis by (intro bexI [of _ "flow_edges s ! i"]) (auto simp: flow_edges_nth)
qed

lemma border_gate_silent:
  assumes "automatically_routed s st"
  shows "cleanBorderRunProblems ctx env (map relation.truncate (flow_edges s)) ids (workflowCompositionFrames s) (cached_route st) profile a = []"
proof -
  have "collectBorderRuns [routed.extend r \<lparr>ro_segments = None\<rparr>] (workflowCompositionFrames s) = []"
    if el: "r \<in> set (collectEligibleRoutedRelations (map relation.truncate (flow_edges s)) ids (cached_route st))" for r
  proof -
    obtain e where e: "e \<in> set (flow_edges s)" "ro_points r = (case cached_route st e of None \<Rightarrow> [] | Some ps \<Rightarrow> ps)"
      using eligible_routes [OF el] by auto
    then obtain points where p: "cached_route st e = Some points" "ro_points r = points"
      using assms by (auto simp: automatically_routed_def)
    from automatic_route_fits [OF assms e(1) p(1)] obtain j q where "fitted s (take j (rs_paths st)) e points q" by blast
    from fitted_feasible(7) [OF this] show ?thesis
      unfolding routeClearsFrameBorders_def by (subst border_run_points) (auto simp: p(2) routed.extend_def)
  qed
  then have "collectBorderRuns (map (\<lambda>r. routed.extend r \<lparr>ro_segments = None\<rparr>)
      (collectEligibleRoutedRelations (map relation.truncate (flow_edges s)) ids (cached_route st))) (workflowCompositionFrames s) = []"
    by (subst border_runs_Nil) simp
  then show ?thesis by (simp add: cleanBorderRunProblems_def)
qed

lemma rhythm_gate_silent:
  assumes "automatically_routed s st"
  shows "cleanRouteRhythmProblems ctx env (map relation.truncate (flow_edges s)) ids (cached_route st) profile a 16 8 = []"
proof -
  have "route_rhythm_issues 16 8 (k, r) = []"
    if el: "r \<in> set (collectEligibleRoutedRelations (map relation.truncate (flow_edges s)) ids (cached_route st))" for k r
  proof -
    obtain e where e: "e \<in> set (flow_edges s)" "ro_points r = (case cached_route st e of None \<Rightarrow> [] | Some ps \<Rightarrow> ps)"
      using eligible_routes [OF el] by auto
    then obtain points where p: "cached_route st e = Some points" "ro_points r = points"
      using assms by (auto simp: automatically_routed_def)
    from automatic_route_fits [OF assms e(1) p(1)] obtain j q where f: "fitted s (take j (rs_paths st)) e points q" by blast
    note n = settled_fix [OF fitted_feasible(8) [OF f]]
    have "segment_rhythm_issue 16 8 r k (length points - 1) (i, u, v) = None" if "(i, u, v) \<in> set (enumerate 0 (pairs points))" for i u v
      using hard_rhythm_pairs [OF fitted_feasible(3) [OF f] that]
      by (auto simp: segment_rhythm_issue_def Let_def rhythm_code_for_def segmentPosition_def EPSILON_def split: if_splits)
    then show ?thesis by (auto simp: route_rhythm_issues_def Let_def p(2) n map_filter_Nil_iff)
  qed
  then have "collectRouteRhythmIssues (collectEligibleRoutedRelations (map relation.truncate (flow_edges s)) ids (cached_route st)) 16 8 = []"
    unfolding collectRouteRhythmIssues_def concat_map_Nil_iff ball_enumerate by auto
  then show ?thesis by (simp add: cleanRouteRhythmProblems_def)
qed

section \<open>Labels\<close>

lemma placed_labels_member:
  "(e, r) \<in> set (placed_labels s st) \<longleftrightarrow> e \<in> set (flow_edges s) \<and> (\<exists>points. cached_route st e = Some points \<and> labelRectFor s e points = Some r)"
  by (auto simp: placed_labels_def set_map_filter_iff split: option.splits)

lemma label_is_candidate: "labelRectFor s e points = Some r \<Longrightarrow> candidateLabelRect s e points = Some r"
  by (simp add: labelRectFor_def split: if_splits)

lemma labels_and_routes_clear:
  assumes "automatically_routed s st" "(e, r) \<in> set (placed_labels s st)" "e' \<in> set (flow_edges s)" "cached_route st e' = Some points'" "e \<noteq> e'"
  shows "segments_clear_label r points' \<and> (\<forall>r'. labelRectFor s e' points' = Some r' \<longrightarrow> \<not> rectsOverlap r r' (- 2))"
proof -
  obtain points where p: "e \<in> set (flow_edges s)" "cached_route st e = Some points" "labelRectFor s e points = Some r"
    using assms(2) placed_labels_member by blast
  from automatic_route_fits [OF assms(1) p(1,2)] obtain j q where j: "j < length (rs_paths st)" "rs_paths st ! j = (e, points)"
    "fitted s (take j (rs_paths st)) e points q" by blast
  from automatic_route_fits [OF assms(1,3,4)] obtain j' q' where j': "j' < length (rs_paths st)" "rs_paths st ! j' = (e', points')"
    "fitted s (take j' (rs_paths st)) e' points' q'" by blast
  have "j \<noteq> j'" using assms(5) j(2) j'(2) by auto
  then consider "j < j'" | "j' < j" by linarith
  then show ?thesis
  proof cases
    case 1
    then have "(e, points) \<in> set (take j' (rs_paths st))" using j(1,2) j'(1) by (metis in_set_conv_nth length_take min.absorb4 nth_take)
    then show ?thesis using fitted_feasible(6) [OF j'(3)] p(3) label_is_candidate rectsOverlap_sym
      unfolding routeClearsPlacedLabels_def by fastforce
  next
    case 2
    then have "(e', points') \<in> set (take j (rs_paths st))" using j'(1,2) j(1) by (metis in_set_conv_nth length_take min.absorb4 nth_take)
    then show ?thesis using fitted_feasible(6) [OF j(3)] label_is_candidate [OF p(3)]
      unfolding routeClearsPlacedLabels_def by fastforce
  qed
qed

lemma first_by_subset: "set (first_by f seen vs) \<subseteq> set vs"
  by (induction f seen vs rule: first_by.induct) auto

lemma label_gate_silent:
  assumes "automatically_routed s st"
  shows "cleanLabelRouteClearanceProblems ctx env (map relation.truncate (flow_edges s))
    (map (\<lambda>(e, r). label_entry_of e r) (placed_labels s st)) ids (cached_route st) profile a 4 = []"
proof -
  let ?routed = "collectEligibleRoutedRelations (map relation.truncate (flow_edges s)) ids (cached_route st)"
  have hit: "label_route_hit 4 (label_index (k, label_entry_of e r)) (label_entry_of e r) route = None"
    if l: "(e, r) \<in> set (placed_labels s st)" "valid_rect r" and rt: "route \<in> set (label_routes ?routed)" for k e r route
  proof -
    from rt obtain i x where "(i, x) \<in> set (enumerate 0 ?routed)" and
      lr: "2 \<le> length (normalizeRoutePoints (ro_points x))" "lr_points route = normalizeRoutePoints (ro_points x)" "lr_index route = (case ro_index x of Some i \<Rightarrow> i | None \<Rightarrow> i)"
      unfolding label_routes_def using first_by_subset by (fastforce simp: set_map_filter_iff Let_def split: if_splits)
    then have "x \<in> set ?routed" by (auto simp: in_set_enumerate_eq)
    then obtain e' where e': "e' \<in> set (flow_edges s)" "ro_index x = Some (oid e')" "ro_points x = (case cached_route st e' of None \<Rightarrow> [] | Some ps \<Rightarrow> ps)"
      using eligible_routes by fastforce
    then obtain points' where p': "cached_route st e' = Some points'" "ro_points x = points'" using assms by (auto simp: automatically_routed_def)
    from automatic_route_fits [OF assms e'(1) p'(1)] obtain j q where "fitted s (take j (rs_paths st)) e' points' q" by blast
    from settled_fix [OF fitted_feasible(8) [OF this]] lr p' e' have rt: "lr_points route = points'" "2 \<le> length points'" "lr_index route = oid e'" by simp_all
    show ?thesis
    proof (cases "e = e'")
      case True
      then show ?thesis using rt(3) by (simp add: label_route_hit_def label_index_def label_entry_of_def)
    next
      case False
      from labels_and_routes_clear [OF assms l(1) e'(1) p'(1) False] have "segments_clear_label r points'" by blast
      then show ?thesis using rt l(2) by (subst label_route_hit_None) (auto simp: label_entry_of_def segments_clear_label_def EPSILON_def)
    qed
  qed
  have "collectLabelRouteClearance (map (\<lambda>(e, r). label_entry_of e r) (placed_labels s st)) ?routed 4 = []"
  proof -
    have "List.map_filter (label_route_hit 4 (label_index x) (snd x)) (label_routes ?routed) = []"
      if x: "x \<in> set (filter (\<lambda>(_, label). valid_rect (le_rect label)) (enumerate 0 (map (\<lambda>(e, r). label_entry_of e r) (placed_labels s st))))" for x
    proof -
      obtain k e r where "x = (k, label_entry_of e r)" "(e, r) \<in> set (placed_labels s st)" "valid_rect r"
      proof -
        have "valid_rect (le_rect (snd x))" "snd x \<in> snd ` set (enumerate 0 (map (\<lambda>(e, r). label_entry_of e r) (placed_labels s st)))"
          using x unfolding set_filter by auto
        note v = this(1)
        from \<open>snd x \<in> snd ` _\<close> have "snd x \<in> set (map (\<lambda>(e, r). label_entry_of e r) (placed_labels s st))"
          by (metis map_snd_enumerate set_map)
        then obtain e r where "snd x = label_entry_of e r" "(e, r) \<in> set (placed_labels s st)" by auto
        moreover from this(1) have "le_rect (snd x) = r" by (simp add: label_entry_of_def)
        ultimately show ?thesis using v that [of "fst x" e r] by (simp add: prod_eq_iff)
      qed
      then show ?thesis using hit by (simp add: map_filter_Nil_iff)
    qed
    then have "\<forall>x\<in>set (first_by f [] (filter (\<lambda>(_, label). valid_rect (le_rect label)) (enumerate 0 (map (\<lambda>(e, r). label_entry_of e r) (placed_labels s st))))).
        List.map_filter (label_route_hit 4 (label_index x) (snd x)) (label_routes ?routed) = []" for f
      using first_by_subset by (meson subsetD)
    then show ?thesis unfolding collectLabelRouteClearance_def concat_map_Nil_iff by simp
  qed
  then show ?thesis by (simp add: cleanLabelRouteClearanceProblems_def)
qed

end
