(* ===== verification/Workflow_Compile_Laws.thy ===== *)
theory Workflow_Compile_Laws
  imports Workflow_Compile Workflow_Routing_Laws
begin

text \<open>
  Laws of the validation and the compiler: what the checks of the inputs decide, why a document without pins cannot
  fail in its routed geometry, what holds of a document that compiles, and where the layout requests come from.
\<close>

section \<open>Accepted inputs\<close>

lemma first_duplicate_None: "first_duplicate seen ids = None \<longleftrightarrow> distinct ids \<and> set ids \<inter> set seen = {}"
  by (induction seen ids rule: first_duplicate.induct) auto

lemma ordered_pairs_symmetric:
  assumes "distinct vs" "\<And>a b. P a b \<longleftrightarrow> P b a"
  shows "(\<forall>(a, b)\<in>set (ordered_pairs vs). P a b) \<longleftrightarrow> (\<forall>a\<in>set vs. \<forall>b\<in>set vs. a \<noteq> b \<longrightarrow> P a b)"
proof
  assume p: "\<forall>(a, b)\<in>set (ordered_pairs vs). P a b"
  show "\<forall>a\<in>set vs. \<forall>b\<in>set vs. a \<noteq> b \<longrightarrow> P a b"
  proof (intro ballI impI)
    fix a b assume "a \<in> set vs" "b \<in> set vs" "a \<noteq> b"
    then obtain i j where "i < length vs" "vs ! i = a" "j < length vs" "vs ! j = b" "i < j \<or> j < i" by (metis in_set_conv_nth linorder_neqE_nat)
    then have "(a, b) \<in> set (ordered_pairs vs) \<or> (b, a) \<in> set (ordered_pairs vs)" by (auto simp: set_ordered_pairs)
    then show "P a b" using p assms(2) by blast
  qed
next
  assume p: "\<forall>a\<in>set vs. \<forall>b\<in>set vs. a \<noteq> b \<longrightarrow> P a b"
  have "a \<in> set vs \<and> b \<in> set vs \<and> a \<noteq> b" if "(a, b) \<in> set (ordered_pairs vs)" for a b
    using that assms(1) by (auto simp: set_ordered_pairs nth_eq_iff_index_eq)
  then show "\<forall>(a, b)\<in>set (ordered_pairs vs). P a b" using p by blast
qed

text \<open>What the checks before routing decide, independently of the order of the document's lists.\<close>

definition well_placed :: "scene \<Rightarrow> workflow \<Rightarrow> bool" where
  "well_placed s w \<longleftrightarrow>
     distinct (map wl_id (wf_lanes w)) \<and> distinct (map wn_id (wf_nodes w)) \<and>
     (\<forall>e\<in>set (wf_edges w). {we_from e, we_to e} \<subseteq> bid ` set (nodes s)) \<and>
     (\<forall>n\<in>set (wf_nodes w). wn_lane n \<in> wl_id ` set (wf_lanes (sn_workflow s)) \<and> wn_col n < length (ly_colXs (sn_layout s))) \<and>
     (\<forall>a\<in>set (wf_nodes w). \<forall>b\<in>set (wf_nodes w). a \<noteq> b \<and> wn_lane a = wn_lane b \<longrightarrow> \<not> rectsOverlap (measureNode s a) (measureNode s b) 8)"

lemma endpoint_problem_None: "endpoint_problem s e = None \<longleftrightarrow> {we_from e, we_to e} \<subseteq> bid ` set (nodes s)"
  by (auto simp: endpoint_problem_def)

lemma placement_problem_None:
  "placement_problem s n = None \<longleftrightarrow> wn_lane n \<in> wl_id ` set (wf_lanes (sn_workflow s)) \<and> wn_col n < length (ly_colXs (sn_layout s))"
  by (auto simp: placement_problem_def)

lemma overlap_problem_None:
  assumes "distinct (map wn_id ns)"
  shows "overlap_problem s ns lane = None \<longleftrightarrow>
    (\<forall>a\<in>set ns. \<forall>b\<in>set ns. a \<noteq> b \<and> wn_lane a = lane \<and> wn_lane b = lane \<longrightarrow> \<not> rectsOverlap (measureNode s a) (measureNode s b) 8)"
proof -
  have d: "distinct (filter (\<lambda>n. wn_lane n = lane) ns)" using assms by (simp add: distinct_map)
  have "overlap_problem s ns lane = None \<longleftrightarrow>
      (\<forall>(a, b)\<in>set (ordered_pairs (filter (\<lambda>n. wn_lane n = lane) ns)). \<not> rectsOverlap (measureNode s a) (measureNode s b) 8)"
    by (auto simp: overlap_problem_def split: if_splits)
  also have "\<dots> \<longleftrightarrow> (\<forall>a\<in>set (filter (\<lambda>n. wn_lane n = lane) ns). \<forall>b\<in>set (filter (\<lambda>n. wn_lane n = lane) ns).
      a \<noteq> b \<longrightarrow> \<not> rectsOverlap (measureNode s a) (measureNode s b) 8)"
    by (rule ordered_pairs_symmetric [OF d, where P = "\<lambda>a b. \<not> rectsOverlap (measureNode s a) (measureNode s b) 8"]) (metis rectsOverlap_sym)
  finally show ?thesis by auto
qed

lemma inputs_accepted:
  assumes "readable s"
  shows "validateReadableInputsBeforeRouting s w = Inr () \<longleftrightarrow> well_placed s w"
proof -
  have "(\<forall>lane\<in>set (first_occurrences (map wn_lane (wf_nodes w))). overlap_problem s (wf_nodes w) lane = None) \<longleftrightarrow>
      (\<forall>a\<in>set (wf_nodes w). \<forall>b\<in>set (wf_nodes w). a \<noteq> b \<and> wn_lane a = wn_lane b \<longrightarrow> \<not> rectsOverlap (measureNode s a) (measureNode s b) 8)"
    if "distinct (map wn_id (wf_nodes w))"
    unfolding overlap_problem_None [OF that] set_first_occurrences by auto
  moreover have "validateReadableInputsBeforeRouting s w = Inr () \<longleftrightarrow>
      first_duplicate [] (map wl_id (wf_lanes w)) = None \<and> first_duplicate [] (map wn_id (wf_nodes w)) = None \<and>
      first_some (endpoint_problem s) (wf_edges w) = None \<and> first_some (placement_problem s) (wf_nodes w) = None \<and>
      first_some (overlap_problem s (wf_nodes w)) (first_occurrences (map wn_lane (wf_nodes w))) = None"
    using assms by (cases "first_duplicate [] (map wl_id (wf_lanes w))"; cases "first_duplicate [] (map wn_id (wf_nodes w))";
        cases "first_some (endpoint_problem s) (wf_edges w)"; cases "first_some (placement_problem s) (wf_nodes w)";
        cases "first_some (overlap_problem s (wf_nodes w)) (first_occurrences (map wn_lane (wf_nodes w)))")
      (simp_all add: validateReadableInputsBeforeRouting_def del: first_some_None)
  ultimately show ?thesis
    unfolding well_placed_def first_duplicate_None first_some_None endpoint_problem_None placement_problem_None by auto
qed

lemma inputs_rejected:
  "validateReadableInputsBeforeRouting s w \<noteq> Inr () \<Longrightarrow> \<exists>p. validateReadableInputsBeforeRouting s w = Inl (Input_problem p)"
  by (auto simp: validateReadableInputsBeforeRouting_def simp del: first_some_None split: if_splits option.splits)

lemma canonical_fields:
  "wf_schemaVersion (canonicalReadableWorkflow w) = wf_schemaVersion w" "wf_lanes (canonicalReadableWorkflow w) = wf_lanes w"
  "set (wf_nodes (canonicalReadableWorkflow w)) = set (wf_nodes w)" "set (wf_edges (canonicalReadableWorkflow w)) = set (wf_edges w)"
  by (simp_all add: canonicalReadableWorkflow_def)

text \<open>The schema asks for positive sizes; with that, an accepted document is one that the laws of scenes speak about.\<close>

definition positive_sizes :: "workflow \<Rightarrow> bool" where
  "positive_sizes w \<longleftrightarrow> (\<forall>n\<in>set (wf_nodes w). wn_width n \<noteq> Some 0 \<and> wn_height n \<noteq> Some 0)"

lemma laneOrder_known: "laneOrder w i \<noteq> None \<longleftrightarrow> i \<in> wl_id ` set (wf_lanes w)"
proof -
  have "fst ` set (rev (zip (map wl_id (wf_lanes w)) [0..<length (wf_lanes w)])) = wl_id ` set (wf_lanes w)"
    unfolding set_rev set_map [symmetric] by simp
  then show ?thesis by (simp add: laneOrder_def map_of_eq_None_iff)
qed

lemma well_placed_drawable:
  assumes "well_placed (scene_of (canonicalReadableWorkflow w) fb label) w" "wf_schemaVersion w = 2" "positive_sizes w"
  shows "drawable (canonicalReadableWorkflow w)"
proof -
  have "length (ly_colXs (createReadableLayout c fb)) = 6" for c using length_layout_columns by (simp add: layout_columns_def)
  moreover have "inj_on wn_id (set (wf_nodes w))" using assms(1) by (simp add: well_placed_def distinct_map)
  ultimately show ?thesis
    using assms unfolding drawable_def well_placed_def positive_sizes_def canonical_fields laneOrder_known by (simp add: canonical_fields)
qed

section \<open>Documents without pins\<close>

definition unpinned :: "flow_edge \<Rightarrow> bool" where
  "unpinned e \<longleftrightarrow> free_route e \<and> labelAt e = None \<and> authored_side (fromSide e) = None \<and> authored_side (toSide e) = None"

definition endpoints_known :: "scene \<Rightarrow> flow_edge \<Rightarrow> bool" where
  "endpoints_known s e \<longleftrightarrow> node_at s (rel_from e) \<noteq> None \<and> node_at s (rel_to e) \<noteq> None"

definition unpinned_scene :: "scene \<Rightarrow> bool" where
  "unpinned_scene s \<longleftrightarrow> readable s \<and> (\<forall>e\<in>set (flow_edges s). unpinned e \<and> endpoints_known s e)"

lemma unpinned_no_assertions: "unpinned e \<Longrightarrow> \<not> hasAuthoredRouteAssertions e"
  by (simp add: unpinned_def hasAuthoredRouteAssertions_def free_route_def auto_route_def)

lemma assertions_truncate [simp]: "hasAuthoredRouteAssertions (relation.truncate e) = hasAuthoredRouteAssertions e"
  by (simp add: hasAuthoredRouteAssertions_def relation.truncate_def)

text \<open>The check of an edge without pins only places its route.\<close>

lemma unpinned_edge:
  assumes "unpinned e" "endpoints_known s e"
  shows "validate_pinned_edge s e st = (case pathFor s st e of Inl err \<Rightarrow> Inl (Routing err) | Inr (points, st') \<Rightarrow> Inr st')"
proof -
  obtain src tgt where n: "node_at s (rel_from e) = Some src" "node_at s (rel_to e) = Some tgt"
    using assms(2) by (auto simp: endpoints_known_def)
  have p: "\<not> hasAbsoluteRoutePins e" "auto_route e" "\<not> negative_pin e" "labelAt e = None"
    using assms(1) by (simp_all add: unpinned_def free_route_def hasAbsoluteRoutePins_def negative_pin_def)
  then show ?thesis
    by (simp add: validate_pinned_edge_def n validateReadableRouteControls_def label_at_of_def throw_if_def route_of_def fail_pin_def
        pinned_label_def split: sum.split prod.split)
qed

lemma pathFor_caches:
  assumes "pathFor s st e = Inr (points, st')" "concrete_sides st"
  shows "cached_route st' e = Some points \<and> (\<forall>(e' :: flow_edge) pts. cached_route st e' = Some pts \<longrightarrow> cached_route st' e' = Some pts)"
proof -
  have placed: "cached_route (place_route e points q st1) e = Some points \<and>
      (\<forall>(e' :: flow_edge) pts. cached_route st e' = Some pts \<longrightarrow> cached_route (place_route e points q st1) e' = Some pts)"
    if "cached_route st e = None" "rs_paths st1 = rs_paths st" for q st1
    using that by (simp add: cached_route_def place_route_def map_add_def split: option.splits)
  show ?thesis
    using assms
  proof (cases rule: pathFor_cases)
    case cached
    then show ?thesis by simp
  next
    case (controlled p)
    then show ?thesis using placed by simp
  next
    case (automatic src tgt best st1 sides)
    then show ?thesis using placed edgeSides_spec [OF automatic(6) assms(2)] by simp
  next
    case (plain src tgt st1 sides)
    then show ?thesis using placed edgeSides_spec [OF plain(3) assms(2)] by simp
  qed
qed

lemma routable_concrete: "routable s st \<Longrightarrow> concrete_sides st"
  using routed_sound by (simp add: sound_state_def)

lemma unpinned_edges_placed:
  assumes "\<forall>e\<in>set es. unpinned e \<and> endpoints_known s e" "set es \<subseteq> set (flow_edges s)" "routable s st"
  shows "case fold_result (validate_pinned_edge s) es st of
      Inl err \<Rightarrow> \<exists>r. err = Routing r
    | Inr st' \<Rightarrow> routable s st' \<and> (\<forall>e. e \<in> set es \<or> cached_route st e \<noteq> None \<longrightarrow> cached_route st' e \<noteq> None)"
  using assms
proof (induction es arbitrary: st)
  case (Cons e es)
  have v: "validate_pinned_edge s e st = (case pathFor s st e of Inl err \<Rightarrow> Inl (Routing err) | Inr (points, st') \<Rightarrow> Inr st')"
    using Cons.prems(1) unpinned_edge by simp
  show ?case
  proof (cases "pathFor s st e")
    case (Inl err)
    then show ?thesis by (simp add: v)
  next
    case (Inr r)
    obtain points st1 where r: "r = (points, st1)" by fastforce
    have "routable s st1" by (rule routable.place [OF Cons.prems(3)]) (use Cons.prems(2) Inr r in auto)
    moreover have "cached_route st1 e \<noteq> None \<and> (\<forall>e' :: flow_edge. cached_route st e' \<noteq> None \<longrightarrow> cached_route st1 e' \<noteq> None)"
      using pathFor_caches [of s st e points st1] Inr r routable_concrete [OF Cons.prems(3)] by auto
    ultimately show ?thesis using Cons.IH [of st1] Cons.prems(1,2) Inr r by (auto simp: v split: sum.splits)
  qed
qed simp

section \<open>No conflicts between routes without pins\<close>

lemma eligible_are_placed:
  assumes "\<forall>e\<in>set (flow_edges s). endpoints_known s e \<and> cached_route st e \<noteq> None"
  shows "collectEligibleRoutedRelations (map relation.truncate (flow_edges s)) None (cached_route st) = map routed_of (placed_relations s st)"
proof -
  have g: "List.map_filter (\<lambda>(i, r). Some \<lparr>ro_relation = Some r, ro_index = Some i,
        ro_points = (case cached_route st r of None \<Rightarrow> [] | Some ps \<Rightarrow> ps)\<rparr>) (enumerate k (map relation.truncate es)) =
      map routed_of (List.map_filter (\<lambda>e. if node_at s (rel_from e) = None \<or> node_at s (rel_to e) = None then None
        else map_option (Pair e) (cached_route st e)) es)"
    if "\<forall>e\<in>set es. endpoints_known s e \<and> cached_route st e \<noteq> None" "\<forall>i<length es. oid (es ! i) = k + i" for es :: "flow_edge list" and k
    using that
  proof (induction es arbitrary: k)
    case (Cons e es)
    obtain points where p: "cached_route st e = Some points" using Cons.prems(1) by auto
    have "oid e = k" "\<forall>i<length es. oid (es ! i) = Suc k + i" using Cons.prems(2) by force+
    then show ?case using Cons.IH [of "Suc k"] Cons.prems(1) p
      by (simp add: map_filter_simps endpoints_known_def routed_of_def del: map_filter_map_filter)
  qed (simp add: map_filter_simps)
  show ?thesis unfolding collectEligibleRoutedRelations_def placed_relations_def using g [of "flow_edges s" 0] assms flow_edges_nth by simp
qed

lemma labels_clear_of_routes:
  assumes "automatically_routed s st" "\<forall>e\<in>set (flow_edges s). endpoints_known s e"
  shows "collectLabelRouteClearance (map (\<lambda>(e, r). label_entry_of e r) (placed_labels s st)) (map routed_of (placed_relations s st)) 4 = []"
proof -
  have "cleanLabelRouteClearanceProblems workflow_context None (map relation.truncate (flow_edges s))
    (map (\<lambda>(e, r). label_entry_of e r) (placed_labels s st)) None (cached_route st) (Some (js ''showcase'')) True 4 = []"
    using label_gate_silent [OF assms(1)] .
  then have "collectLabelRouteClearance (map (\<lambda>(e, r). label_entry_of e r) (placed_labels s st))
      (collectEligibleRoutedRelations (map relation.truncate (flow_edges s)) None (cached_route st)) 4 = []"
    by (simp add: cleanLabelRouteClearanceProblems_def is_showcase_def qualityProfileForGate_def)
  then show ?thesis using eligible_are_placed assms by (simp add: automatically_routed_def)
qed

lemma corridor_hit_sides:
  assumes "corridor_longest left right px = Some h"
  shows "ch_left h = left \<and> ch_right h = right"
proof -
  have "foldl (corridor_step left right px) longest segs = Some h \<Longrightarrow>
      (\<forall>g. longest = Some g \<longrightarrow> ch_left g = left \<and> ch_right g = right) \<Longrightarrow> ch_left h = left \<and> ch_right h = right" for longest segs
  proof (induction segs arbitrary: longest)
    case (Cons sg segs)
    have "\<forall>g. corridor_step left right px longest sg = Some g \<longrightarrow> ch_left g = left \<and> ch_right g = right"
      using Cons.prems(2) by (auto simp: corridor_step_def Let_def split: option.splits)
    then show ?case using Cons.IH [of "corridor_step left right px longest sg"] Cons.prems(1) by simp
  qed simp
  from this [OF assms [unfolded corridor_longest_def]] show ?thesis by simp
qed

lemma corridor_relations:
  assumes "h \<in> set (collectAmbiguousCorridors (map routed_of rs) px)"
  shows "\<exists>e\<in>fst ` set rs. \<exists>e'\<in>fst ` set rs. co_relation (ch_left h) = relation.truncate e \<and> co_relation (ch_right h) = relation.truncate e'"
proof -
  have c: "\<exists>e\<in>fst ` set rs. co_relation r = relation.truncate e" if "r \<in> set (corridor_routes (map routed_of rs))" for r
  proof -
    from that obtain x where x: "x \<in> set (enumerate 0 (map routed_of rs))" and
      c: "(case x of (i, b) \<Rightarrow> case ro_relation b of None \<Rightarrow> None | Some relation \<Rightarrow>
          (let points = normalizeRoutePoints (ro_points b) in if length points < 2 then None
           else Some \<lparr>co_relation = relation, co_index = (case ro_index b of Some j \<Rightarrow> j | None \<Rightarrow> i), co_points = points\<rparr>)) = Some r"
      unfolding corridor_routes_def set_map_filter_iff by blast
    obtain i b where ib: "x = (i, b)" by fastforce
    note b = c [unfolded ib prod.case] and x [unfolded ib]
    then have "b \<in> routed_of ` set rs" by (auto simp: in_set_enumerate_eq)
    then obtain e points where "(e, points) \<in> set rs" "b = routed_of (e, points)" by auto
    then show ?thesis using b by (force simp: routed_of_def Let_def split: if_splits)
  qed
  obtain l r where lr: "(l, r) \<in> set (ordered_pairs (corridor_routes (map routed_of rs)))" "corridor_longest l r px = Some h"
    using assms by (auto simp: collectAmbiguousCorridors_def set_map_filter_iff split: if_splits)
  then have "l \<in> set (corridor_routes (map routed_of rs))" "r \<in> set (corridor_routes (map routed_of rs))"
    by (auto simp: set_ordered_pairs)
  then show ?thesis using c corridor_hit_sides [OF lr(2)] by metis
qed

lemma placed_relations_edges: "fst ` set (placed_relations s st) \<subseteq> set (flow_edges s)"
  by (auto simp: placed_relations_def set_map_filter_iff split: if_splits)

lemma ordered_pairs_members: "(a, b) \<in> set (ordered_pairs vs) \<Longrightarrow> a \<in> set vs \<and> b \<in> set vs"
  by (auto simp: set_ordered_pairs)

lemma no_pairwise_conflicts:
  assumes "automatically_routed s st" "unpinned_scene s"
  shows "validateReadablePairwisePinConflicts s st = Inr ()"
proof -
  have u: "unpinned e" if "e \<in> set (flow_edges s)" for e using assms(2) that by (simp add: unpinned_scene_def)
  have l: "find label_route_conflict (collectLabelRouteClearance (map (\<lambda>(e, r). label_entry_of e r) (placed_labels s st)) (map routed_of (placed_relations s st)) 4) = None"
    using labels_clear_of_routes [OF assms(1)] assms(2) by (simp add: unpinned_scene_def)
  have "labelAt e = None" if "(e, r) \<in> set (placed_labels s st)" for e r
    using u that by (auto simp: placed_labels_member unpinned_def)
  then have ll: "find label_conflict (ordered_pairs (placed_labels s st)) = None"
    by (auto simp: find_None_iff label_conflict_def dest!: ordered_pairs_members)
  have ua: "\<not> hasAuthoredRouteAssertions e" if "e \<in> fst ` set (placed_relations s st)" for e
    using u placed_relations_edges that unpinned_no_assertions by blast
  then have x: "find pinned_crossing (ordered_pairs (placed_relations s st)) = None"
    by (force simp: find_None_iff pinned_crossing_def dest!: ordered_pairs_members)
  have "\<not> corridor_conflict h" if "h \<in> set (collectAmbiguousCorridors (map routed_of (placed_relations s st)) 8)" for h
    using corridor_relations [OF that] ua unfolding corridor_conflict_def by (metis assertions_truncate)
  then have c: "find corridor_conflict (collectAmbiguousCorridors (map routed_of (placed_relations s st)) 8) = None" by (simp add: find_None_iff)
  show ?thesis unfolding validateReadablePairwisePinConflicts_def Let_def l ll x c by simp
qed

text \<open>The pinned geometry of a document without pins can only fail in the routing, and otherwise routes every edge.\<close>

lemma unpinned_geometry:
  assumes "unpinned_scene s"
  shows "case validateReadablePinnedGeometry s (initial_state s) of Inl err \<Rightarrow> \<exists>r. err = Routing r | Inr st \<Rightarrow> automatically_routed s st"
proof -
  have e: "\<forall>e\<in>set (flow_edges s). unpinned e \<and> endpoints_known s e" "readable s" using assms by (simp_all add: unpinned_scene_def)
  note f = unpinned_edges_placed [OF e(1) subset_refl routable.start]
  show ?thesis
  proof (cases "fold_result (validate_pinned_edge s) (flow_edges s) (initial_state s)")
    case (Inl err)
    then show ?thesis using f e(2) by (simp add: validateReadablePinnedGeometry_def)
  next
    case (Inr st)
    then have "automatically_routed s st" using f e by (auto simp: automatically_routed_def unpinned_def)
    then show ?thesis using no_pairwise_conflicts assms Inr e(2) by (simp add: validateReadablePinnedGeometry_def)
  qed
qed

section \<open>Problems of a routed document\<close>

text \<open>The problems that only the routing and the placement of labels can cause, crossings and corridors apart.\<close>

fun routing_problem :: "workflow_problem \<Rightarrow> bool" where
  "routing_problem (Gate_problem g) \<longleftrightarrow> pr_code g \<noteq> Proper_crossing \<and> pr_code g \<noteq> Ambiguous_corridor"
| "routing_problem (Label_over_node t i) \<longleftrightarrow> True"
| "routing_problem (Labels_overlap t t') \<longleftrightarrow> True"
| "routing_problem (Unknown_source i) \<longleftrightarrow> True"
| "routing_problem (Unknown_target i) \<longleftrightarrow> True"
| "routing_problem _ \<longleftrightarrow> False"

lemma when_true_mem [simp]: "p \<in> set (when_true b v) \<longleftrightarrow> b \<and> p = v"
  by (auto simp: when_true_def)

lemma cached_path: "cached_route st e = Some points \<Longrightarrow> pathFor s st e = Inr (points, st)"
  by (simp add: pathFor_def)

lemma placed_edge_problems:
  assumes "endpoints_known s e" "cached_route st e = Some points"
  shows "\<exists>new. edge_problems s e (ps, st) = Inr (ps @ new, st) \<and> (\<forall>p\<in>set new. \<not> routing_problem p)"
  using assms by (simp add: edge_problems_def endpoints_known_def when_true_def route_of_def cached_path)

lemma placed_edges_problems:
  assumes "\<forall>e\<in>set es. endpoints_known s e \<and> cached_route st e \<noteq> None"
  shows "\<exists>new. fold_result (edge_problems s) es (ps, st) = Inr (ps @ new, st) \<and> (\<forall>p\<in>set new. \<not> routing_problem p)"
  using assms
proof (induction es arbitrary: ps)
  case (Cons e es)
  obtain points where "cached_route st e = Some points" using Cons.prems by auto
  then obtain n1 where n1: "edge_problems s e (ps, st) = Inr (ps @ n1, st)" "\<forall>p\<in>set n1. \<not> routing_problem p"
    using placed_edge_problems [of s e st points ps] Cons.prems by auto
  obtain n2 where "fold_result (edge_problems s) es (ps @ n1, st) = Inr ((ps @ n1) @ n2, st)" "\<forall>p\<in>set n2. \<not> routing_problem p"
    using Cons.IH [of "ps @ n1"] Cons.prems by auto
  then show ?case using n1 by (intro exI [of _ "n1 @ n2"]) auto
qed simp

lemma gate_problem_code [simp]: "pr_code (gate_problem c code i r ev) = code"
  by (simp add: gate_problem_def)

lemma crossing_codes: "g \<in> set (cleanCrossingProblems c env rs ids path profile a m) \<Longrightarrow> pr_code g = Proper_crossing"
  by (auto simp: cleanCrossingProblems_def set_map_filter_iff split: if_splits option.splits)

lemma corridor_codes: "g \<in> set (cleanAmbiguousCorridorProblems c env rs ids path profile a px) \<Longrightarrow> pr_code g = Ambiguous_corridor"
  by (auto simp: cleanAmbiguousCorridorProblems_def split: if_splits)

lemma routed_gates:
  assumes "automatically_routed s st" "g \<in> set (gate_problems_before_labels s st)"
  shows "pr_code g = Proper_crossing \<or> pr_code g = Ambiguous_corridor"
  using assms crossing_codes corridor_codes
  unfolding gate_problems_before_labels_def Let_def side_gate_silent [OF assms(1)] flow_gate_silent [OF assms(1)]
    border_gate_silent [OF assms(1)] rhythm_gate_silent [OF assms(1)] by auto

lemma routed_label_gate: "automatically_routed s st \<Longrightarrow> label_gate_problems s st = []"
  unfolding label_gate_problems_def by (rule label_gate_silent)

lemma distinct_map_filter:
  assumes "distinct vs" "\<And>v w. v \<in> set vs \<Longrightarrow> f v = Some w \<Longrightarrow> g w = v"
  shows "distinct (map g (List.map_filter f vs))"
  using assms
proof (induction vs)
  case (Cons v vs)
  have "g w \<noteq> v" if "w \<in> set (List.map_filter f vs)" for w
  proof -
    from that obtain u where "u \<in> set vs" "f u = Some w" unfolding set_map_filter_iff by blast
    then show ?thesis using Cons.prems by (metis distinct.simps(2) list.set_intros(2))
  qed
  moreover have "distinct (map g (List.map_filter f vs))" by (rule Cons.IH) (use Cons.prems in auto)
  moreover have "g w = v" if "f v = Some w" for w using Cons.prems(2) that by simp
  ultimately show ?case by (cases "f v") (auto simp: map_filter_simps image_iff, metis)
qed (simp add: map_filter_simps)

lemma distinct_flow_edges: "distinct (flow_edges s)"
  by (auto simp: distinct_conv_nth) (metis flow_edges_nth)

lemma distinct_labelled_edges: "distinct (map fst (placed_labels s st))"
  unfolding placed_labels_def by (rule distinct_map_filter [OF distinct_flow_edges]) (auto split: option.splits)

lemma routed_labels:
  assumes "automatically_routed s st" "unpinned_scene s"
  shows "label_problems s st = []"
proof -
  have "\<not> rectsOverlap r n (- 2)" if er: "(e, r) \<in> set (placed_labels s st)" and n: "n \<in> set (nodes s)" for e r n
  proof -
    obtain points where p: "e \<in> set (flow_edges s)" "cached_route st e = Some points" "labelRectFor s e points = Some r"
      using er placed_labels_member by blast
    from automatic_route_fits [OF assms(1) p(1,2)] obtain j q where "fitted s (take j (rs_paths st)) e points q" by blast
    moreover have "labelAt e = None" "truthy (rel_label e)" using assms(2) p by (auto simp: unpinned_scene_def unpinned_def labelRectFor_def split: if_splits)
    ultimately show ?thesis using fitted_feasible(5) n label_is_candidate [OF p(3)] by (fastforce simp: routeLabelClearsNodes_def)
  qed
  moreover have "\<not> rectsOverlap r r' (- 2)" if "((e, r), (e', r')) \<in> set (ordered_pairs (placed_labels s st))" for e r e' r'
  proof -
    have m: "(e, r) \<in> set (placed_labels s st)" "(e', r') \<in> set (placed_labels s st)" using ordered_pairs_members [OF that] by simp_all
    have "e \<noteq> e'" using that distinct_labelled_edges [of s st] by (auto simp: set_ordered_pairs distinct_conv_nth) (metis fst_conv less_trans nat_neq_iff)
    moreover obtain points' where "e' \<in> set (flow_edges s)" "cached_route st e' = Some points'" "labelRectFor s e' points' = Some r'"
      using m(2) placed_labels_member by blast
    ultimately show ?thesis using labels_and_routes_clear [OF assms(1) m(1)] by blast
  qed
  ultimately show ?thesis
    unfolding label_problems_def Let_def by (auto simp: map_filter_Nil_iff filter_empty_conv)
qed

lemma unpinned_validation:
  assumes "automatically_routed s st" "unpinned_scene s"
  shows "case validateWorkflow s branded st of
      Inr st' \<Rightarrow> st' = st
    | Inl err \<Rightarrow> \<exists>ps. err = Layout_validation ps \<and> (\<forall>p\<in>set ps. \<not> routing_problem p)"
proof -
  have e: "\<forall>e\<in>set (flow_edges s). endpoints_known s e \<and> cached_route st e \<noteq> None"
    using assms by (simp add: automatically_routed_def unpinned_scene_def)
  have r: "enforceLegacyColumnCapacity s = Inr ()" using assms(1) by (simp add: automatically_routed_def enforceLegacyColumnCapacity_def)
  define first where "first = identity_problems (sn_workflow s) @
      concat (map (\<lambda>i. node_problems s branded (the (nodesById (sn_workflow s) i))) (node_ids (sn_workflow s))) @
      concat (map (phase_problems s) (wf_phases (sn_workflow s))) @
      phase_overlaps (sort_key range_key (filter (within_columns s) (wf_phases (sn_workflow s)))) @
      concat (map (group_problems s) (wf_groups (sn_workflow s))) @ close_nodes s"
  obtain new where n: "fold_result (edge_problems s) (flow_edges s) (first, st) = Inr (first @ new, st)" "\<forall>p\<in>set new. \<not> routing_problem p"
    using placed_edges_problems [OF e] by blast
  have po: "\<not> routing_problem p" if "p \<in> set (phase_overlaps ps)" for p ps
    using that by (induction ps rule: phase_overlaps.induct) auto
  have f: "\<not> routing_problem p" if "p \<in> set first" for p
    using that po unfolding first_def identity_problems_def node_problems_def node_text_problems_def phase_problems_def group_problems_def close_nodes_def Let_def
    by (auto split: if_splits)
  have g: "\<not> routing_problem p" if "p \<in> set (map Gate_problem (gate_problems_before_labels s st))" for p
  proof -
    from that obtain x where "p = Gate_problem x" "x \<in> set (gate_problems_before_labels s st)" by auto
    then show ?thesis using routed_gates [OF assms(1), of x] by simp
  qed
  have m: "\<not> routing_problem p" if "p \<in> set (main_path_problems s @ canvas_problems s)" for p
    using that by (auto simp: main_path_problems_def canvas_problems_def Let_def split: option.splits if_splits prod.splits)
  define all where "all = (first @ new) @ map Gate_problem (gate_problems_before_labels s st) @ main_path_problems s @ label_problems s st @
      map Gate_problem (label_gate_problems s st) @ canvas_problems s"
  have "\<forall>p\<in>set all. \<not> routing_problem p"
    using f n(2) g m unfolding all_def routed_labels [OF assms] routed_label_gate [OF assms(1)] by auto
  moreover have "validateWorkflow s branded st =
      (if wf_lanes (sn_workflow s) = [] then Inl (Layout_validation [No_lanes]) else if all \<noteq> [] then Inl (Layout_validation all) else Inr st)"
    unfolding validateWorkflow_def Let_def first_def [symmetric] r n(1) bind_result.simps prod.case all_def [symmetric]
    by (simp add: throw_if_def r n(1) all_def)
  ultimately show ?thesis by simp
qed

section \<open>The canvas\<close>

lemma include_points:
  "(let b' = fold includePoint ps b in cb_left b' \<le> cb_left b \<and> cb_top b' \<le> cb_top b \<and> cb_right b \<le> cb_right b' \<and> cb_bottom b \<le> cb_bottom b' \<and>
     (\<forall>(x, y)\<in>set ps. cb_left b' \<le> x \<and> cb_top b' \<le> y \<and> x \<le> cb_right b' \<and> y \<le> cb_bottom b'))"
proof (induction ps arbitrary: b)
  case (Cons p ps)
  obtain x y where p: "p = (x, y)" by fastforce
  have "cb_left (includePoint p b) \<le> cb_left b \<and> cb_left (includePoint p b) \<le> x \<and> cb_top (includePoint p b) \<le> cb_top b \<and> cb_top (includePoint p b) \<le> y \<and>
      cb_right b \<le> cb_right (includePoint p b) \<and> x \<le> cb_right (includePoint p b) \<and> cb_bottom b \<le> cb_bottom (includePoint p b) \<and> y \<le> cb_bottom (includePoint p b)"
    by (simp add: includePoint_def p)
  then show ?case using Cons.IH [of "includePoint p b"] unfolding Let_def by (auto simp: p)
qed simp

text \<open>The points that lie inside a canvas with the margins of the compiler.\<close>

definition inside_canvas :: "real \<times> real \<Rightarrow> point \<Rightarrow> bool" where
  "inside_canvas v = (\<lambda>(x, y). 0 \<le> x \<and> 0 \<le> y \<and> x + 16 \<le> fst v \<and> y + 18 \<le> snd v)"

lemma finalized_content:
  assumes "finalizeReadableViewBox s st = Inr (v, required)" "readable s" "p \<in> set (content_points s st)"
  shows "inside_canvas v p"
proof -
  obtain x y where p: "p = (x, y)" by fastforce
  let ?b = "measuredContentBounds s st"
  have b: "cb_left ?b \<le> x" "cb_top ?b \<le> y" "x \<le> cb_right ?b" "y \<le> cb_bottom ?b"
    using include_points [of "content_points s st"] assms(3) unfolding measuredContentBounds_def Let_def p by (fastforce simp: Let_def)+
  have f: "0 \<le> cb_left ?b" "0 \<le> cb_top ?b" "of_int \<lceil>cb_right ?b + 16\<rceil> \<le> fst v" "of_int \<lceil>cb_bottom ?b + 18\<rceil> \<le> snd v"
    using assms(1,2) by (auto simp: finalizeReadableViewBox_def Let_def split: if_splits option.splits)
  have "cb_right ?b + 16 \<le> fst v" "cb_bottom ?b + 18 \<le> snd v" using f(3,4) by (simp_all add: ceiling_le)
  then show ?thesis using b f by (simp add: inside_canvas_def p)
qed

section \<open>Compiled documents\<close>

lemma bind_result_Inl: "bind_result r f = Inl e \<longleftrightarrow> r = Inl e \<or> (\<exists>v. r = Inr v \<and> f v = Inl e)"
  by (cases r) auto

lemma fold_result_invariant:
  assumes "\<And>v st st'. v \<in> set vs \<Longrightarrow> P st \<Longrightarrow> f v st = Inr st' \<Longrightarrow> P st'" "P st" "fold_result f vs st = Inr st'"
  shows "P st'"
  using assms
proof (induction vs arbitrary: st)
  case (Cons v vs)
  obtain st1 where "f v st = Inr st1" "fold_result f vs st1 = Inr st'" using Cons.prems(3) by (auto simp: bind_result_Inr)
  then show ?case using Cons.IH [of st1] Cons.prems(1) [of v st st1] Cons.prems(1,2) by (metis list.set_intros)
qed simp

lemma compile_scene_stages:
  assumes "compile_scene s authored branded = Inr r"
  obtains st st' v where "validateReadableInputsBeforeRouting s authored = Inr ()" "validateReadablePinnedGeometry s (initial_state s) = Inr st"
    "validateWorkflow s branded st = Inr st'" "finalizeReadableViewBox s st' = Inr v" "r = receipt_of s st' v"
  using assms by (auto simp: compile_scene_def bind_result_Inr)

text \<open>A validated document has no problem, and its routes are those of the state that is returned.\<close>

lemma validated:
  assumes "validateWorkflow s branded st = Inr st'"
  shows "fold_result (edge_problems s) (flow_edges s) ([], st) = Inr ([], st') \<and>
    gate_problems_before_labels s st' = [] \<and> label_gate_problems s st' = [] \<and> label_problems s st' = [] \<and> close_nodes s = [] \<and>
    identity_problems (sn_workflow s) = [] \<and> main_path_problems s = [] \<and>
    (\<forall>i\<in>set (node_ids (sn_workflow s)). node_problems s branded (the (nodesById (sn_workflow s) i)) = [])"
proof -
  define first where "first = identity_problems (sn_workflow s) @
      concat (map (\<lambda>i. node_problems s branded (the (nodesById (sn_workflow s) i))) (node_ids (sn_workflow s))) @
      concat (map (phase_problems s) (wf_phases (sn_workflow s))) @
      phase_overlaps (sort_key range_key (filter (within_columns s) (wf_phases (sn_workflow s)))) @
      concat (map (group_problems s) (wf_groups (sn_workflow s))) @ close_nodes s"
  obtain problems where p: "fold_result (edge_problems s) (flow_edges s) (first, st) = Inr (problems, st')"
    "problems @ map Gate_problem (gate_problems_before_labels s st') @ main_path_problems s @ label_problems s st' @
      map Gate_problem (label_gate_problems s st') @ canvas_problems s = []"
    using assms unfolding validateWorkflow_def Let_def first_def [symmetric] by (auto simp: bind_result_Inr)
  have "length (fst a) \<le> length (fst b)" if "edge_problems s e a = Inr b" for e a b
    using that by (cases a) (auto simp: edge_problems_def Let_def bind_result_Inr split: if_splits)
  then have "length first \<le> length (fst (problems, st'))"
    using fold_result_invariant [of "flow_edges s" "\<lambda>a. length first \<le> length (fst a)" "edge_problems s" "(first, st)" "(problems, st')"] p(1)
    by (metis fst_conv order_trans order_refl)
  then have f: "first = []" using p(2) by simp
  have z: "fold_result (edge_problems s) (flow_edges s) ([], st) = Inr ([], st')" using p f by simp
  show ?thesis using p(2) f unfolding first_def by (simp add: z)
qed

lemma pathFor_concrete:
  assumes "pathFor s st e = Inr (points, st')" "concrete_sides st"
  shows "concrete_sides st'"
proof -
  have placed: "concrete_sides (place_route e points q st1)" if "concrete_sides st1" "\<forall>p. q = Some p \<longrightarrow> concrete_pair p" for q st1
    using that by (auto simp: concrete_sides_def place_route_def split: option.splits if_splits)
  show ?thesis
    using assms
  proof (cases rule: pathFor_cases)
    case cached
    then show ?thesis using assms by simp
  next
    case (controlled p)
    then show ?thesis using assms(2) by (auto intro!: placed)
  next
    case (automatic src tgt best st1 sides)
    have "concrete_pair sides" "concrete_sides st1" using edgeSides_spec [OF automatic(6) assms(2)] by simp_all
    then show ?thesis using placed readableAutomaticRoute_Inr(1) [OF automatic(7)] automatic(9) by simp
  next
    case (plain src tgt st1 sides)
    then show ?thesis using placed edgeSides_spec [OF plain(3) assms(2)] by simp
  qed
qed

lemma edge_problem_routes:
  assumes "edge_problems s e (ps, st) = Inr ([], st')"
  shows "endpoints_known s e \<and> ps = [] \<and> (\<exists>points. pathFor s st e = Inr (points, st'))"
  using assms by (auto simp: edge_problems_def endpoints_known_def Let_def bind_result_Inr route_of_def when_true_def split: if_splits sum.splits)

lemma edges_placed:
  assumes "fold_result (edge_problems s) es (ps, st) = Inr ([], st')" "concrete_sides st"
  shows "ps = [] \<and> concrete_sides st' \<and> (\<forall>e :: flow_edge. e \<in> set es \<or> cached_route st e \<noteq> None \<longrightarrow> cached_route st' e \<noteq> None) \<and>
    (\<forall>e\<in>set es. endpoints_known s e)"
  using assms
proof (induction es arbitrary: ps st)
  case (Cons e es)
  obtain ps1 st1 where e: "edge_problems s e (ps, st) = Inr (ps1, st1)" "fold_result (edge_problems s) es (ps1, st1) = Inr ([], st')"
    using Cons.prems(1) by (auto simp: bind_result_Inr)
  have "concrete_sides st1 \<and> (\<forall>e' :: flow_edge. cached_route st e' \<noteq> None \<longrightarrow> cached_route st1 e' \<noteq> None) \<or> \<not> endpoints_known s e"
  proof (cases "\<exists>points. pathFor s st e = Inr (points, st1)")
    case True
    then show ?thesis using pathFor_caches [OF _ Cons.prems(2)] pathFor_concrete [OF _ Cons.prems(2)] by (metis option.distinct(1) not_None_eq)
  next
    case False
    then show ?thesis using e(1) by (auto simp: edge_problems_def endpoints_known_def Let_def bind_result_Inr route_of_def when_true_def split: if_splits sum.splits)
  qed
  moreover have "concrete_sides st1"
    using e(1) Cons.prems(2) pathFor_concrete by (auto simp: edge_problems_def Let_def bind_result_Inr route_of_def split: if_splits sum.splits)
  then have n: "ps1 = []" "concrete_sides st'" "\<forall>e :: flow_edge. e \<in> set es \<or> cached_route st1 e \<noteq> None \<longrightarrow> cached_route st' e \<noteq> None" "\<forall>e\<in>set es. endpoints_known s e"
    using Cons.IH [OF e(2)] by blast+
  moreover obtain points where "endpoints_known s e" "ps = []" "pathFor s st e = Inr (points, st1)"
    using edge_problem_routes e(1) n(1) by blast
  moreover from this(3) have "cached_route st1 e \<noteq> None" using pathFor_caches Cons.prems(2) by fastforce
  ultimately show ?case by auto
qed simp

section \<open>Rounds\<close>

lemma feedback_rounds_cases: "(\<exists>fb'. compile fb' = Inr (feedback_rounds n compile failed fb)) \<or> (\<exists>q. feedback_rounds n compile failed fb = failed q)"
proof (induction n compile failed fb rule: feedback_rounds.induct)
  case (1 n compile failed fb)
  show ?case
  proof (cases "compile fb")
    case (Inl q)
    show ?thesis
    proof (cases "next_feedback fb q")
      case (Some fb')
      show ?thesis
      proof (cases n)
        case (Suc k)
        then show ?thesis using "1.IH" [OF Inl Some Suc] by (simp add: Inl Some)
      qed (auto simp: Inl Some)
    qed (auto simp: Inl)
  qed auto
qed

lemma compiled_scene:
  assumes "compileWorkflow valid label branded option w = Compiled r"
  obtains fb where "compile_scene (scene_of (canonicalReadableWorkflow (resolve_profile option w)) fb label) (resolve_profile option w) branded = Inr r"
proof -
  obtain fb where "compileWorkflowInternal valid label branded (resolve_profile option w) fb = Inr (Compiled r)"
    using feedback_rounds_cases [of "compileWorkflowInternal valid label branded (resolve_profile option w)" MAX_READABLE_LAYOUT_FEEDBACK_ROUNDS Feedback_failure no_feedback]
      assms by (auto simp: compileWorkflow_def compileWorkflowWithFeedback_def)
  then have "compile_scene (scene_of (canonicalReadableWorkflow (resolve_profile option w)) fb label) (resolve_profile option w) branded = Inr r"
    by (auto simp: compileWorkflowInternal_def Let_def split: if_splits sum.splits compile_error.splits routing_error.splits)
  then show ?thesis by (rule that)
qed

section \<open>The receipt\<close>

lemma receipt_simps [simp]:
  "re_nodes (receipt_of s st v) = nodes s" "re_viewBox (receipt_of s st v) = fst v" "re_columns (receipt_of s st v) = ly_colXs (sn_layout s)"
  "re_requiredViewBox (receipt_of s st v) = snd v"
  by (simp_all add: receipt_of_def split: prod.splits)

lemma receipt_edges: "(e, points) \<in> set (re_edges (receipt_of s st v)) \<longleftrightarrow> e \<in> set (flow_edges s) \<and> cached_route st e = Some points"
  by (auto simp: receipt_of_def set_map_filter_iff split: prod.splits)

lemma receipt_all_edges:
  assumes "\<forall>e\<in>set (flow_edges s). cached_route st e \<noteq> None"
  shows "map fst (re_edges (receipt_of s st v)) = flow_edges s"
proof -
  have "map fst (List.map_filter (\<lambda>e. map_option (Pair e) (cached_route st e)) es) = es" if "\<forall>e\<in>set es. cached_route st e \<noteq> None" for es :: "flow_edge list"
    using that by (induction es) (auto simp: map_filter_simps)
  then show ?thesis using assms by (simp add: receipt_of_def split: prod.splits)
qed

lemma receipt_labels:
  "(e, lx, ly) \<in> set (re_labels (receipt_of s st v)) \<longleftrightarrow>
     e \<in> set (flow_edges s) \<and> truthy (rel_label e) \<and> endpoints_known s e \<and>
     (\<exists>points. cached_route st e = Some points \<and> workflowEdgeLabelPoint s e points = Some (lx, ly))"
  by (auto simp: receipt_of_def set_map_filter_iff endpoints_known_def split: prod.splits if_splits option.splits)

text \<open>The rectangle that the label of an edge covers, from its point in the receipt.\<close>

definition label_corners :: "flow_edge \<times> point \<Rightarrow> point list" where
  "label_corners = (\<lambda>(e, lx, ly). let width = workflowLabelWidth (or_empty (rel_label e)) in [(lx - width / 2, ly - 10), (lx + width / 2, ly + 4)])"

lemma receipt_content:
  assumes "\<forall>e\<in>set (flow_edges s). endpoints_known s e"
  shows "n \<in> set (nodes s) \<Longrightarrow> set (corners n) \<subseteq> set (content_points s st)"
    and "(e, points) \<in> set (re_edges (receipt_of s st v)) \<Longrightarrow> set points \<subseteq> set (content_points s st)"
    and "l \<in> set (re_labels (receipt_of s st v)) \<Longrightarrow> set (label_corners l) \<subseteq> set (content_points s st)"
proof -
  show "n \<in> set (nodes s) \<Longrightarrow> set (corners n) \<subseteq> set (content_points s st)" by (auto simp: content_points_def)
  have ec: "set (edge_content s st e) \<subseteq> set (content_points s st)" if "e \<in> set (flow_edges s)" for e
    using that by (auto simp: content_points_def)
  show "set points \<subseteq> set (content_points s st)" if "(e, points) \<in> set (re_edges (receipt_of s st v))"
  proof -
    have "set points \<subseteq> set (edge_content s st e)"
      using that assms by (auto simp: receipt_edges edge_content_def endpoints_known_def split: option.splits)
    then show ?thesis using ec that by (auto simp: receipt_edges)
  qed
  show "set (label_corners l) \<subseteq> set (content_points s st)" if l: "l \<in> set (re_labels (receipt_of s st v))"
  proof -
    obtain e lx ly where lxy: "l = (e, lx, ly)" by (metis surj_pair)
    note m = l [unfolded lxy receipt_labels]
    then obtain points where p: "cached_route st e = Some points" "workflowEdgeLabelPoint s e points = Some (lx, ly)" by blast
    have "set (label_corners l) \<subseteq> set (edge_content s st e)"
      using m p by (auto simp: edge_content_def endpoints_known_def labelRectFor_def candidateLabelRect_def Let_def corners_def label_corners_def lxy)
    then show ?thesis using ec m by blast
  qed
qed

section \<open>The sides stay concrete\<close>

lemma route_of_concrete: "route_of s e st = Inr (points, st') \<Longrightarrow> concrete_sides st \<Longrightarrow> concrete_sides st'"
  using pathFor_concrete by (auto simp: route_of_def split: sum.splits)

lemma label_at_concrete: "label_at_of s e st = Inr (label, st') \<Longrightarrow> concrete_sides st \<Longrightarrow> concrete_sides st'"
  using route_of_concrete by (auto simp: label_at_of_def label_of_def bind_result_Inr split: if_splits)

lemma pinned_edge_concrete:
  assumes "validate_pinned_edge s e st = Inr st'" "concrete_sides st"
  shows "concrete_sides st'"
proof (cases "endpoints_known s e")
  case True
  then obtain src tgt where n: "node_at s (rel_from e) = Some src" "node_at s (rel_to e) = Some tgt" by (auto simp: endpoints_known_def)
  have "\<exists>l1 p1. label_at_of s e st = Inr l1 \<and> route_of s e (snd l1) = Inr p1 \<and>
      snd (if hasAbsoluteRoutePins e then edgeSides s (snd p1) e src tgt else ((Auto, Auto), snd p1)) = st'"
    using assms(1) unfolding validate_pinned_edge_def n case_prod_beta fst_conv snd_conv option.case bind_result_Inr sum.inject by blast
  then obtain label st1 points st2 where l: "label_at_of s e st = Inr (label, st1)" "route_of s e st1 = Inr (points, st2)"
    "snd (if hasAbsoluteRoutePins e then edgeSides s st2 e src tgt else ((Auto, Auto), st2)) = st'"
    unfolding split_paired_Ex snd_conv by blast
  have "concrete_sides st2" using route_of_concrete [OF l(2) label_at_concrete [OF l(1) assms(2)]] .
  moreover have "concrete_sides (snd (edgeSides s st2 e src tgt))" if "concrete_sides st2"
    using edgeSides_spec [of s st2 e src tgt "fst (edgeSides s st2 e src tgt)" "snd (edgeSides s st2 e src tgt)"] that by simp
  ultimately show ?thesis using l(3) by (metis snd_conv)
next
  case False
  then show ?thesis using assms by (auto simp: validate_pinned_edge_def endpoints_known_def split: option.splits)
qed

lemma pinned_geometry_concrete:
  assumes "validateReadablePinnedGeometry s (initial_state s) = Inr st" "readable s"
  shows "concrete_sides st"
proof -
  have "fold_result (validate_pinned_edge s) (flow_edges s) (initial_state s) = Inr st"
    using assms by (auto simp: validateReadablePinnedGeometry_def bind_result_Inr)
  from fold_result_invariant [OF _ _ this, of concrete_sides] show ?thesis using pinned_edge_concrete initial_state_spec by blast
qed

section \<open>Compiled scenes\<close>

lemma flow_gate_segments:
  assumes "cleanFlowProblems c (map relation.truncate (flow_edges s)) (map box.truncate (nodes s)) (cached_route st) kind 2 = []"
    and "e \<in> set (flow_edges s)" "endpoints_known s e" "cached_route st e = Some points" "2 \<le> length points"
    and "n \<in> set (nodes s)" "bid n \<notin> {rel_from e, rel_to e}" "seg \<in> set (pairs points)"
  shows "\<not> segmentIntersectsRect seg n 2"
proof -
  have b: "i \<in> bid ` set (nodes s)" if "node_at s i \<noteq> None" for i
  proof -
    from that obtain v where v: "nodesById (sn_workflow s) i = Some v" by (auto simp: node_at_def)
    then have "i \<in> set (node_ids (sn_workflow s))" "wn_id v = i" using nodesById_Some [OF v] by (auto simp: set_node_ids)
    then show ?thesis using v by (force simp: nodes_def measureNode_def Let_def image_iff)
  qed
  obtain i where i: "i < length (flow_edges s)" "e = flow_edges s ! i" using assms(2) by (metis in_set_conv_nth)
  have "\<forall>i<length (map relation.truncate (flow_edges s)). (\<lambda>(relationIndex, relation).
        if rel_from relation \<notin> bid ` set (map box.truncate (nodes s)) \<or> rel_to relation \<notin> bid ` set (map box.truncate (nodes s)) then []
        else case cached_route st relation of None \<Rightarrow> [] | Some points \<Rightarrow> if length points < 2 then []
          else List.map_filter (flow_problem c kind 2 relationIndex relation points) (map box.truncate (nodes s)))
        (i, map relation.truncate (flow_edges s) ! i) = []"
    using assms(1) unfolding cleanFlowProblems_def concat_map_Nil_iff ball_enumerate by simp
  from this [rule_format, of i] have "flow_problem c kind 2 i (relation.truncate e) points (box.truncate n) = None"
    using i assms(3-6) b by (simp add: endpoints_known_def image_image map_filter_Nil_iff)
  then show ?thesis using assms(7,8) by (auto simp: flow_problem_None flow_hit_def)
qed

lemma close_nodes_Nil:
  assumes "close_nodes s = []" "a \<in> set (nodes s)" "b \<in> set (nodes s)" "a \<noteq> b" "pn_lane a = pn_lane b"
  shows "\<not> rectsOverlap a b 8"
proof -
  have "\<forall>(a, b)\<in>set (ordered_pairs (filter (\<lambda>n. pn_lane n = pn_lane a) (nodes s))). \<not> rectsOverlap a b 8"
  proof -
    have "pn_lane a \<in> set (first_occurrences (map pn_lane (nodes s)))" using assms(2) unfolding set_first_occurrences by simp
    then have "\<forall>pair\<in>set (ordered_pairs (filter (\<lambda>n. pn_lane n = pn_lane a) (nodes s))). \<not> (case pair of (a, b) \<Rightarrow> rectsOverlap a b 8)"
      using assms(1) unfolding close_nodes_def concat_map_Nil_iff map_is_Nil_conv filter_empty_conv by (rule_tac bspec)
    then show ?thesis by blast
  qed
  moreover have "(a, b) \<in> set (ordered_pairs (filter (\<lambda>n. pn_lane n = pn_lane a) (nodes s))) \<or> (b, a) \<in> set (ordered_pairs (filter (\<lambda>n. pn_lane n = pn_lane a) (nodes s)))"
  proof -
    have "a \<in> set (filter (\<lambda>n. pn_lane n = pn_lane a) (nodes s))" "b \<in> set (filter (\<lambda>n. pn_lane n = pn_lane a) (nodes s))" using assms by simp_all
    then obtain i j where "i < length (filter (\<lambda>n. pn_lane n = pn_lane a) (nodes s))" "filter (\<lambda>n. pn_lane n = pn_lane a) (nodes s) ! i = a"
      "j < length (filter (\<lambda>n. pn_lane n = pn_lane a) (nodes s))" "filter (\<lambda>n. pn_lane n = pn_lane a) (nodes s) ! j = b" unfolding in_set_conv_nth by blast
    moreover from this have "i < j \<or> j < i" using assms(4) by (cases i j rule: linorder_cases) auto
    ultimately show ?thesis unfolding set_ordered_pairs by blast
  qed
  ultimately show ?thesis using rectsOverlap_sym by blast
qed

lemma compiled_scene_laws:
  assumes "compile_scene s authored branded = Inr r" "readable s"
  shows "map fst (re_edges r) = flow_edges s \<and> re_nodes r = nodes s \<and>
    (\<forall>n\<in>set (re_nodes r). \<forall>p\<in>set (corners n). inside_canvas (re_viewBox r) p) \<and>
    (\<forall>(e, points)\<in>set (re_edges r). \<forall>p\<in>set points. inside_canvas (re_viewBox r) p) \<and>
    (\<forall>l\<in>set (re_labels r). \<forall>p\<in>set (label_corners l). inside_canvas (re_viewBox r) p) \<and>
    (\<forall>a\<in>set (re_nodes r). \<forall>b\<in>set (re_nodes r). a \<noteq> b \<and> pn_lane a = pn_lane b \<longrightarrow> \<not> rectsOverlap a b 8) \<and>
    (\<forall>(e, points)\<in>set (re_edges r). 2 \<le> length points \<longrightarrow> (\<forall>n\<in>set (re_nodes r). bid n \<notin> {rel_from e, rel_to e} \<longrightarrow>
       (\<forall>seg\<in>set (pairs points). \<not> segmentIntersectsRect seg n 2))) \<and>
    (\<exists>st. gate_problems_before_labels s st = [] \<and> label_gate_problems s st = [] \<and> label_problems s st = [] \<and>
       (\<forall>e points. (e, points) \<in> set (re_edges r) \<longleftrightarrow> e \<in> set (flow_edges s) \<and> cached_route st e = Some points))"
proof -
  obtain st st' v where stages: "validateReadablePinnedGeometry s (initial_state s) = Inr st"
    "validateWorkflow s branded st = Inr st'" "finalizeReadableViewBox s st' = Inr v" "r = receipt_of s st' v"
    by (rule compile_scene_stages [OF assms(1)])
  note ok = validated [OF stages(2)]
  have c: "concrete_sides st" by (rule pinned_geometry_concrete [OF stages(1) assms(2)])
  have p: "\<forall>e\<in>set (flow_edges s). cached_route st' e \<noteq> None" "\<forall>e\<in>set (flow_edges s). endpoints_known s e"
    using edges_placed [OF ok [THEN conjunct1] c] by blast+
  have inside: "inside_canvas (fst v) q" if "q \<in> set (content_points s st')" for q
    using finalized_content [of s st' "fst v" "snd v" q] stages(3) assms(2) that by simp
  have flow: "cleanFlowProblems workflow_context (map relation.truncate (flow_edges s)) (map box.truncate (nodes s)) (cached_route st') (js ''node'') 2 = []"
    using ok by (simp add: gate_problems_before_labels_def Let_def)
  show ?thesis unfolding stages(4) receipt_simps receipt_all_edges [OF p(1)]
  proof (intro conjI)
    show "\<forall>n\<in>set (nodes s). \<forall>p\<in>set (corners n). inside_canvas (fst v) p" using receipt_content(1) [OF p(2)] inside by blast
    show "\<forall>(e, points)\<in>set (re_edges (receipt_of s st' v)). \<forall>p\<in>set points. inside_canvas (fst v) p" using receipt_content(2) [OF p(2)] inside by blast
    show "\<forall>l\<in>set (re_labels (receipt_of s st' v)). \<forall>p\<in>set (label_corners l). inside_canvas (fst v) p" using receipt_content(3) [OF p(2)] inside by blast
    show "\<forall>a\<in>set (nodes s). \<forall>b\<in>set (nodes s). a \<noteq> b \<and> pn_lane a = pn_lane b \<longrightarrow> \<not> rectsOverlap a b 8" using close_nodes_Nil ok by blast
    show "\<forall>(e, points)\<in>set (re_edges (receipt_of s st' v)). 2 \<le> length points \<longrightarrow> (\<forall>n\<in>set (nodes s). bid n \<notin> {rel_from e, rel_to e} \<longrightarrow>
       (\<forall>seg\<in>set (pairs points). \<not> segmentIntersectsRect seg n 2))"
      using flow_gate_segments [OF flow] p(2) by (fastforce simp: receipt_edges)
    show "\<exists>st. gate_problems_before_labels s st = [] \<and> label_gate_problems s st = [] \<and> label_problems s st = [] \<and>
       (\<forall>e points. (e, points) \<in> set (re_edges (receipt_of s st' v)) \<longleftrightarrow> e \<in> set (flow_edges s) \<and> cached_route st e = Some points)"
      using ok receipt_edges by blast
  qed simp_all
qed

end
