(* ===== verification/Workflow_Demo.thy ===== *)
theory Workflow_Demo
  imports Workflow_Routing_Laws
begin

text \<open>
  One readable document with two nodes and an automatic edge, evaluated step by step: its columns, its lane, the
  boxes of its nodes, the straight candidate between them, and the state after \<open>pathFor\<close> has placed its route.
\<close>

section \<open>A routed document\<close>

definition demo_node :: "jstring \<Rightarrow> nat \<Rightarrow> workflow_node" where
  "demo_node i col = \<lparr>wn_id = i, wn_type = js ''backend'', wn_lane = js ''l'', wn_col = col, wn_width = None, wn_height = None,
     wn_yOffset = None, wn_tag = None, wn_label = js ''N'', wn_sublabel = None\<rparr>"

definition demo_edge :: workflow_edge where
  "demo_edge = \<lparr>we_id = None, we_from = js ''a'', we_to = js ''b'', we_label = None, we_route = None, we_fromSide = None, we_toSide = None,
     we_via = None, we_labelAt = None, we_labelDx = None, we_labelDy = None, we_labelSegment = None, we_channelX = None,
     we_channelY = None, we_bias = None, we_role = None, we_key = js ''e''\<rparr>"

definition demo :: workflow where
  "demo = \<lparr>wf_schemaVersion = 2, wf_profile = None, wf_viewBox = None, wf_legend = Some \<lparr>lg_mode = Some (js ''hidden''), lg_entries = (\<lambda>_. None)\<rparr>,
     wf_lanes = [\<lparr>wl_id = js ''l'', wl_label = js ''L'', wl_exception = False\<rparr>],
     wf_nodes = [demo_node (js ''a'') 0, demo_node (js ''b'') 1], wf_edges = [demo_edge], wf_phases = [], wf_groups = [],
     wf_mainPath = None, wf_semanticChecks = None\<rparr>"

abbreviation demo_scene :: scene where "demo_scene \<equiv> scene_of demo no_feedback (\<lambda>k. k)"

lemma six_columns: "(\<forall>k<columnCount. P k) \<longleftrightarrow> P 0 \<and> P 1 \<and> P 2 \<and> P 3 \<and> P 4 \<and> P 5"
  by (simp add: numeral_eq_Suc All_less_Suc conj_ac)

lemma start_columns_list: "start_columns = [94, 214, 334, 454, 574, 694]"
  by (simp add: start_columns_def upt_rec)

lemma demo_nodes_simps [simp]:
  "wn_id (demo_node i c) = i" "wn_lane (demo_node i c) = js ''l''" "wn_col (demo_node i c) = c"
  "authoredNodeWidth (demo_node i c) = 92" "authoredNodeHeight (demo_node i c) = 52" "y_offset (demo_node i c) = 0"
  by (simp_all add: demo_node_def authoredNodeWidth_def authoredNodeHeight_def y_offset_def)

lemma demo_simps [simp]:
  "wf_schemaVersion demo = 2" "wf_nodes demo = [demo_node (js ''a'') 0, demo_node (js ''b'') 1]" "wf_edges demo = [demo_edge]"
  "wf_phases demo = []" "wf_groups demo = []" "wf_lanes demo = [\<lparr>wl_id = js ''l'', wl_label = js ''L'', wl_exception = False\<rparr>]"
  by (simp_all add: demo_def)

lemma demo_ends: "nodesById demo (js ''a'') = Some (demo_node (js ''a'') 0)" "nodesById demo (js ''b'') = Some (demo_node (js ''b'') 1)"
  by (simp_all add: nodesById_def)

lemma demo_direct: "direct_ends demo demo_edge = Some (demo_node (js ''a'') 0, demo_node (js ''b'') 1)"
  using demo_ends by (simp add: direct_ends_def demo_edge_def automatic_route_def earlier_later_def del: js_simps)

lemma demo_unlabelled: "labeled_clearance demo_edge = 28" "\<not> prefers_channel demo_edge"
  by (simp_all add: labeled_clearance_def prefers_channel_def demo_edge_def)

lemma demo_constraints: "layout_constraints demo no_feedback = baseline_constraints @
    [\<lparr>rc_from = 0, rc_to = 1, rc_minimum = 100\<rparr>, \<lparr>rc_from = 0, rc_to = 1, rc_minimum = 120\<rparr>]"
proof -
  have "node_constraints demo = [\<lparr>rc_from = 0, rc_to = 1, rc_minimum = 100\<rparr>]"
    by (simp add: node_constraints_def pair_constraint_def earlier_later_def clearance_constraint_def verticalIntervalsOverlap_def
      map_filter_simps del: js_simps)
  moreover have "direct_constraints demo = [\<lparr>rc_from = 0, rc_to = 1, rc_minimum = 120\<rparr>]"
    by (simp add: direct_constraints_def demo_direct clearance_constraint_def map_filter_simps del: js_simps)
  moreover have "label_constraints demo = []"
    by (simp add: label_constraints_def demo_direct demo_unlabelled map_filter_simps del: js_simps)
  ultimately show ?thesis
    by (simp add: layout_constraints_def rank_constraints_def gap_constraints_def no_feedback_def map_filter_simps del: js_simps)
qed

lemma demo_ranked: "ranked_columns demo no_feedback = [94, 214, 334, 454, 574, 694]"
proof (rule nth_equalityI)
  show len: "length (ranked_columns demo no_feedback) = length [94, 214, 334, 454, 574, 694 :: real]"
    using solve_columns_spec(1) by (simp add: ranked_columns_eq)
  have a: "admissible (layout_constraints demo no_feedback) start_columns"
    by (auto simp: admissible_def six_columns start_columns_list baseline_constraints_def upt_rec demo_constraints)
  have "ranked_columns demo no_feedback ! k = start_columns ! k" if "k < columnCount" for k
    unfolding ranked_columns_eq by (rule antisym [OF solve_columns_least [OF a that] solve_columns_spec(3)])
  then show "ranked_columns demo no_feedback ! k = [94, 214, 334, 454, 574, 694] ! k" if "k < length (ranked_columns demo no_feedback)" for k
    using that len by (simp add: start_columns_list)
qed

lemma demo_shifted: "shifted_columns demo [94, 214, 334, 454, 574, 694] = [94, 214, 334, 454, 574, 694]"
proof -
  have l: "left_shift demo [94, 214, 334, 454, 574, 694] = 0"
    by (simp add: left_shift_def first_extent_def)
  have h: "header_shift demo xs = 0" for xs
    by (simp add: header_shift_def unpinnedTopEndpointIds_def demo_edge_def first_occurrences_def map_filter_simps)
  have k: "channelLabelEdgeKeys demo = []"
    by (simp add: channelLabelEdgeKeys_def demo_unlabelled first_occurrences_def)
  have c: "content_left_shift demo xs = 0" for xs
    unfolding content_left_shift_def channel_label_left_def k by (simp add: map_filter_simps)
  show ?thesis by (simp add: shifted_columns_def Let_def shift_columns_def l h c)
qed

lemma demo_columns: "layout_columns demo no_feedback = [94, 214, 334, 454, 574, 694]"
  by (simp add: layout_columns_def createReadableLayout_def Let_def demo_ranked demo_shifted)

lemma demo_height: "base_content_height demo = 74"
  by (simp add: base_content_height_def max_vertical_extent_def farther_def EPSILON_def del: js_simps)

lemma demo_lane_width: "712 \<le> ly_laneW (createReadableLayout demo no_feedback)"
proof -
  have "rightmost_of demo [94, 214, 334, 454, 574, 694] = 744"
    by (simp add: rightmost_of_def farther_def EPSILON_def del: js_simps)
  then show ?thesis by (simp add: createReadableLayout_def Let_def demo_ranked demo_shifted lane_width_def)
qed

lemma demo_lane: "laneOrder demo (js ''l'') = Some 0"
  by (simp add: laneOrder_def)

lemma demo_reserve: "reserve_at demo no_feedback 0 = (0, 0)"
  by (simp add: reserve_at_def lane_reserve_def)

lemma demo_drawable: "drawable demo"
  using demo_lane by (simp add: drawable_def demo_node_def)

lemma demo_lane_box: "lane_top_at demo_scene 0 = 52" "lane_height_at demo_scene (Some 0) = 104"
  using scene_heights [of demo 0 no_feedback "\<lambda>k. k"]
  by (simp_all add: demo_height demo_reserve lane_top_at_def createReadableLayout_def Let_def)

lemma demo_box:
  assumes "i = js ''a'' \<and> c = 0 \<or> i = js ''b'' \<and> c = 1"
  shows "measureNode demo_scene (demo_node i c) =
    \<lparr>rx = 48 + 120 * real c, ry = 93, rwidth = 92, rheight = 52, bcx = 94 + 120 * real c, bcy = 119, bid = i, pn_lane = js ''l'', pn_col = c\<rparr>"
proof -
  have n: "demo_node i c \<in> set (wf_nodes demo)" using assms by auto
  have k: "laneOrder demo (wn_lane (demo_node i c)) = Some 0" using demo_lane by simp
  note m = measured_node [OF demo_drawable n k, of no_feedback "\<lambda>k. k"]
  have "layout_columns demo no_feedback ! c = 94 + 120 * real c" using assms by (auto simp: demo_columns)
  then have "rx (measureNode demo_scene (demo_node i c)) = 48 + 120 * real c" "ry (measureNode demo_scene (demo_node i c)) = 93"
    "bcx (measureNode demo_scene (demo_node i c)) = 94 + 120 * real c"
    by (simp_all add: m demo_lane_box demo_reserve demo_height measured_bcx layout_columns_def [symmetric])
  moreover have "bcy r = ry r + rheight r / 2 \<and> bid r = i \<and> pn_lane r = js ''l'' \<and> pn_col r = c" if "r = measureNode demo_scene (demo_node i c)" for r
    unfolding that by (simp add: measureNode_def Let_def del: js_simps)
  ultimately show ?thesis using m by (simp del: js_simps)
qed

abbreviation "demo_a \<equiv> \<lparr>rx = 48, ry = 93, rwidth = 92, rheight = 52, bcx = 94, bcy = 119, bid = js ''a'', pn_lane = js ''l'', pn_col = 0\<rparr> :: placed_node"
abbreviation "demo_b \<equiv> \<lparr>rx = 168, ry = 93, rwidth = 92, rheight = 52, bcx = 214, bcy = 119, bid = js ''b'', pn_lane = js ''l'', pn_col = 1\<rparr> :: placed_node"

lemma demo_node_at: "node_at demo_scene (js ''a'') = Some demo_a" "node_at demo_scene (js ''b'') = Some demo_b"
  using demo_box [of "js ''a''" 0] demo_box [of "js ''b''" 1] demo_ends by (simp_all add: node_at_def del: js_simps)

lemma demo_nodes: "nodes demo_scene = [demo_a, demo_b]"
proof -
  have "node_ids demo = [js ''a'', js ''b'']" by (simp add: node_ids_def first_occurrences_def)
  then show ?thesis using demo_box [of "js ''a''" 0] demo_box [of "js ''b''" 1] demo_ends by (simp add: nodes_def del: js_simps)
qed

definition straight :: "point list" where "straight = [(140, 119), (168, 119)]"

lemma demo_straight: "normalizeRoutePoints [(140, 119), (168, 119)] = straight"
  by (simp add: normalizeRoutePoints_def dedupe_step_def normalize_step_def pop_collinear.simps straight_def)

lemma demo_frames: "routeClearsFrameBorders demo_scene straight"
proof -
  let ?W = "ly_laneW (createReadableLayout demo no_feedback)"
  have f: "workflowCompositionFrames demo_scene = [rect_frame (js ''lane-'' @ decimal 0) (js ''L'') ''lane'' \<lparr>rx = 40, ry = 52, rwidth = ?W, rheight = 104\<rparr> 10]"
    using demo_lane demo_lane_box by (simp add: workflowCompositionFrames_def lane_frames_def Let_def laneTop_def laneIndex_def del: js_simps)
  have b: "set (frameBorderSegments (rect_frame i l k \<lparr>rx = 40, ry = 52, rwidth = ?W, rheight = 104\<rparr> 10)) \<subseteq>
      {(Top_side, (50, 52), (30 + ?W, 52)), (Right_side, (40 + ?W, 62), (40 + ?W, 146)), (Bottom_side, (30 + ?W, 156), (50, 156)),
       (Left_side, (40, 146), (40, 62))}" for i l k
    using demo_lane_width by (auto simp: frameBorderSegments_def rect_frame_def Let_def min_def)
  have o: "border_overlaps (pairs straight) (fst (snd d)) (snd (snd d)) = []"
    if "d \<in> {(Top_side, (50, 52), (30 + ?W, 52)), (Right_side, (40 + ?W, 62), (40 + ?W, 146)), (Bottom_side, (30 + ?W, 156), (50, 156)),
       (Left_side, (40, 146), (40, 62))}" for d :: "border_side \<times> point \<times> point"
    using that by (auto simp: border_overlaps_def straight_def collinearAxisOverlap_def map_filter_simps)
  have "border_hit_for r (pairs straight) k fr d = None" if "d \<in> set (frameBorderSegments (rect_frame i l kd \<lparr>rx = 40, ry = 52, rwidth = ?W, rheight = 104\<rparr> 10))" for r k fr d i l kd
    using o [OF subsetD [OF b that]] by (simp add: border_hit_for_def)
  then show ?thesis
    by (auto simp: routeClearsFrameBorders_def collectBorderRuns_def f map_filter_Nil_iff Let_def)
qed

lemma demo_headers: "routeClearsSceneLabelObstacles demo_scene demo_edge_flow straight" if "rel_label demo_edge_flow = None" for demo_edge_flow
proof -
  have o: "workflowSceneLabelObstacles demo_scene = [lane_header demo_scene (0, \<lparr>wl_id = js ''l'', wl_label = js ''L'', wl_exception = False\<rparr>)]"
    by (simp add: workflowSceneLabelObstacles_def del: js_simps)
  define r where "r = lane_header demo_scene (0, \<lparr>wl_id = js ''l'', wl_label = js ''L'', wl_exception = False\<rparr>)"
  have r: "rx r = 54" "ry r = 64" "rheight r = 14" "0 \<le> rwidth r"
    using demo_lane demo_lane_box by (simp_all add: r_def lane_header_def Let_def laneTop_def laneIndex_def del: js_simps)
  have "\<not> segmentIntersectsRect ((140, 119), (168, 119)) r 0"
    using r by (auto simp: segmentIntersectsRect_def Let_def expand_rect_def pointInBox_def segmentsIntersect_def orientation_def onSegment_def)
  then show ?thesis using that unfolding routeClearsSceneLabelObstacles_def o r_def [symmetric] candidateLabelRect_def by (simp add: straight_def)
qed

abbreviation demo_flow :: flow_edge where "demo_flow \<equiv> flow_edge_of 0 demo_edge"

lemma demo_flow_simps [simp]:
  "oid demo_flow = 0" "rel_from demo_flow = js ''a''" "rel_to demo_flow = js ''b''" "rel_label demo_flow = None" "labelAt demo_flow = None"
  "fromSide demo_flow = None" "toSide demo_flow = None" "rel_route demo_flow = None" "via demo_flow = None" "channelX demo_flow = None"
  "channelY demo_flow = None" "free_route demo_flow"
  by (simp_all add: flow_edge_of_def demo_edge_def free_route_def auto_route_def)

lemma demo_flow_edges: "flow_edges demo_scene = [demo_flow]"
  by (simp add: flow_edges_def)

lemma demo_feasible: "readableCandidateIsFeasible demo_scene [] demo_flow straight demo_a demo_b RightS LeftS"
proof -
  have n: "normalizeRoutePoints straight = straight" using demo_straight by (simp add: straight_def)
  have "orthogonalRoute straight" by (simp add: orthogonalRoute_def straight_def EPSILON_def)
  moreover have "routeHonorsEndpointSides straight (Some RightS) (Some LeftS)"
    by (simp add: routeHonorsEndpointSides_def endpointSideIssue_def n ENDPOINT_SIDE_RULES_def) (simp add: straight_def)
  moreover have "routeMeetsHardRhythm straight" by (simp add: routeMeetsHardRhythm_def straight_def EPSILON_def)
  moreover have "routeClearsEndpointNodes straight demo_a demo_b" by (simp add: routeClearsEndpointNodes_def straight_def)
  moreover have "routeClearsUnrelatedNodes demo_scene demo_flow straight 2"
    by (simp add: routeClearsUnrelatedNodes_def demo_nodes del: js_simps)
  moreover have "routeLabelClearsNodes demo_scene demo_flow straight" by (simp add: routeLabelClearsNodes_def)
  moreover have "routeClearsPlacedLabels demo_scene [] demo_flow straight" by (simp add: routeClearsPlacedLabels_def)
  moreover have "sn_legend demo_scene = []" by (simp add: scene_of_def demo_def resolveLegend_def or_empty_def)
  then have "routeClearsLegend demo_scene demo_flow straight" by (simp add: routeClearsLegend_def legend_rects_def workflowLegendRects_def)
  moreover have "routeClearsSceneLabelObstacles demo_scene demo_flow straight" by (rule demo_headers) simp
  moreover have "routeFitsCanvasOrigin demo_scene demo_flow straight"
    by (simp add: routeFitsCanvasOrigin_def routeExtentCoordinates_def candidateLabelRect_def straight_def)
  ultimately show ?thesis using demo_frames by (simp add: readableCandidateIsFeasible_def straight_def)
qed

text \<open>The straight candidate between facing sides is feasible, so every search that includes them succeeds.\<close>

lemma demo_candidates:
  "\<exists>p ps. readableAutomaticCandidateSet demo_scene [] demo_flow demo_a demo_b (140, 119) (168, 119) RightS LeftS k nf nt = p # ps"
proof -
  let ?raw = "raw_candidates demo_scene demo_flow demo_a demo_b (140, 119) (168, 119) RightS LeftS"
  have "\<exists>rest. ?raw = (js ''facing-straight'', []) # rest" by (simp add: raw_candidates_def Let_def del: js_simps)
  then obtain rest where r: "?raw = (js ''facing-straight'', []) # rest" by blast
  show ?thesis
    unfolding readableAutomaticCandidateSet_def r using demo_feasible demo_straight
    by (simp add: neq_Nil_conv [symmetric] cheapest_first_Nil del: js_simps)
qed

lemma pair_plans_planned:
  assumes "readableAutomaticCandidateSet s routes e src tgt (anchor (box.truncate src) f) (anchor (box.truncate tgt) t) f t (k * 9)
      (fst (natural_sides e src tgt)) (snd (natural_sides e src tgt)) = p # ps"
  shows "pair_plans s routes e src tgt None (k, f, t) = Inr (p # ps)"
proof -
  obtain nf nt where n: "natural_sides e src tgt = (nf, nt)" by fastforce
  have b: "port_or_anchor (Option.bind None g) q v sd = anchor (box.truncate v) sd" for g :: "ports \<Rightarrow> point option" and q v sd
    by (simp add: port_or_anchor_def)
  show ?thesis using assms unfolding pair_plans_def prod.case n b fst_conv snd_conv Let_def by simp
qed

lemma demo_route: "\<exists>best. readableAutomaticRoute demo_scene [] demo_flow demo_a demo_b sides None = Inr best"
proof -
  have "(RightS, LeftS) \<in> set (side_pairs demo_flow [sides])"
    by (auto simp: side_pairs_def authored_side_def authored_or_all_def sideOrder_def)
  then obtain k where "(k, RightS, LeftS) \<in> set (enumerate 0 (side_pairs demo_flow [sides]))" by (metis in_set_conv_nth set_enumerate_iff)
  moreover have a: "anchor (box.truncate demo_a) RightS = (140, 119)" "anchor (box.truncate demo_b) LeftS = (168, 119)"
    by (simp_all add: anchor_def box.truncate_def)
  obtain nf nt where n: "natural_sides demo_flow demo_a demo_b = (nf, nt)" by fastforce
  obtain p ps where "readableAutomaticCandidateSet demo_scene [] demo_flow demo_a demo_b (140, 119) (168, 119) RightS LeftS (k * 9) nf nt = p # ps"
    using demo_candidates by blast
  then have "pair_plans demo_scene [] demo_flow demo_a demo_b None (k, RightS, LeftS) = Inr (p # ps)"
    by (intro pair_plans_planned) (simp only: a n fst_conv snd_conv)
  ultimately show ?thesis by (rule readableAutomaticRoute_exists)
qed

lemma two_ports:
  assumes "bid p \<noteq> bid q" "length (bid p) = length (bid q)" "boxes (rel_from r) = Some p" "boxes (rel_to r) = Some q"
  shows "\<forall>items\<in>set (map snd (port_groups [r] boxes sd)). length items = 1"
proof -
  have "bid p @ 0 # xs \<noteq> bid q @ 0 # ys" for xs ys using assms(1,2) by simp
  then show ?thesis using assms(3,4) by (simp add: port_groups_def port_items_def Let_def add_port_def)
qed

lemma demo_ports: "automaticPorts demo_scene 0 = None"
proof -
  have g: "\<forall>items\<in>set (map snd (port_groups [relation.truncate demo_flow] (\<lambda>i. map_option box.truncate (node_at demo_scene i)) sd)). length items = 1" for sd
    by (rule two_ports [where p = "box.truncate demo_a" and q = "box.truncate demo_b"])
      (simp_all only: demo_flow_simps demo_node_at relation.truncate_def box.truncate_def relation.simps box.simps option.simps, simp_all)
  have "foldl (spread_group 16 14) m gs = m" if "\<forall>items\<in>set gs. length items = 1" for m gs
    using that by (induction gs arbitrary: m) (simp_all add: spread_group_def)
  then show ?thesis using g by (simp add: automaticPorts_def automaticPortSpread_def demo_flow_edges)
qed

lemma demo_routed: "\<exists>st. automatically_routed demo_scene st"
proof -
  let ?s = demo_scene and ?i = "initial_state demo_scene"
  have i: "concrete_sides ?i" "rs_paths ?i = []" using initial_state_spec by blast+
  obtain sides st1 where e: "edgeSides ?s ?i demo_flow demo_a demo_b = (sides, st1)" by fastforce
  have st1: "rs_paths st1 = []" using edgeSides_spec [OF e i(1)] i(2) by simp
  obtain best where b: "readableAutomaticRoute ?s [] demo_flow demo_a demo_b sides None = Inr best" using demo_route by blast
  let ?st = "place_route demo_flow (pl_points best) (Some (pl_from best, pl_to best)) st1"
  have c: "cached_route ?i demo_flow = None" by (simp add: cached_route_def i(2))
  have "\<not> isReadableControlledRoute ?s demo_flow"
    by (simp add: isReadableControlledRoute_def hasAbsoluteRoutePins_def auto_route_def)
  then have "pathFor ?s ?i demo_flow = Inr (pl_points best, ?st)"
    using demo_flow_simps demo_node_at e b by (simp add: pathFor_def c st1 demo_ports del: js_simps)
  then have "routable ?s ?st" using routable.place [OF routable.start] demo_flow_edges by (metis list.set_intros(1))
  moreover have "cached_route ?st demo_flow \<noteq> None" by (simp add: cached_route_def place_route_def st1)
  ultimately show ?thesis by (auto simp: automatically_routed_def demo_flow_edges)
qed

end
