(* ===== verification/Workflow_Route_Properties.thy ===== *)
theory Workflow_Route_Properties
  imports Workflow_Demo
begin

text \<open>
  Properties of readable scenes and their routes: the cells of the nodes, group frames, the selection of automatic
  routes, the silence of the quality gates on routed documents, the rounds of layout feedback, and one failure
  that ends in a type error.
\<close>

lemma route_has_a_pair:
  assumes "readableAutomaticRoute s routes e src tgt primary ports = Inr best"
  shows "\<exists>entry\<in>set (enumerate 0 (side_pairs e [primary])). \<exists>ps. pair_plans s routes e src tgt ports entry = Inr ps \<and> best \<in> set ps"
proof -
  let ?plans = "concat (List.map_filter (\<lambda>r. case r of Inr ps \<Rightarrow> Some ps | Inl _ \<Rightarrow> None)
      (map (pair_plans s routes e src tgt ports) (enumerate 0 (side_pairs e [primary]))))"
  obtain rest where "cheapest_first ?plans = best # rest"
    using assms unfolding readableAutomaticRoute_def Let_def by (auto split: list.splits if_splits)
  then have "best \<in> set ?plans" using cheapest_first_hd by blast
  then show ?thesis by (simp only: results_concat)
qed

section \<open>Properties\<close>

text \<open>
  C11: In a readable scene whose nodes have their own ids, columns and lanes, two nodes in different cells of the
  grid keep eight pixels between them (up to the solver's tolerance), and every node lies in its lane below the
  lane's title, four pixels away from the title and from the lower border.
\<close>

theorem scene_nodes_keep_their_cells:
  assumes "drawable w"
  shows "(\<forall>a\<in>set (nodes (scene_of w fb label)). \<forall>b\<in>set (nodes (scene_of w fb label)).
      (pn_lane a, pn_col a) \<noteq> (pn_lane b, pn_col b) \<longrightarrow> \<not> rectsOverlap a b (8 - EPSILON)) \<and>
    (\<forall>a\<in>set (nodes (scene_of w fb label)). \<exists>k<length (wf_lanes w). laneOrder w (pn_lane a) = Some k \<and>
      lane_top_at (scene_of w fb label) k + 34 \<le> ry a + EPSILON \<and>
      ry a + rheight a + 4 \<le> lane_top_at (scene_of w fb label) k + lane_height_at (scene_of w fb label) (Some k) + EPSILON)"
proof -
  have p: "pn_lane (measureNode s n) = wn_lane n" "pn_col (measureNode s n) = wn_col n" for s n
    by (simp_all add: measureNode_def Let_def)
  have "\<exists>k<length (wf_lanes w). laneOrder w (wn_lane n) = Some k \<and>
      lane_top_at (scene_of w fb label) k + 34 \<le> ry (measureNode (scene_of w fb label) n) + EPSILON \<and>
      ry (measureNode (scene_of w fb label) n) + rheight (measureNode (scene_of w fb label) n) + 4 \<le>
        lane_top_at (scene_of w fb label) k + lane_height_at (scene_of w fb label) (Some k) + EPSILON" if n: "n \<in> set (wf_nodes w)" for n
  proof -
    obtain k where k: "laneOrder w (wn_lane n) = Some k" using assms n by (auto simp: drawable_def)
    then show ?thesis using laneOrder_Some [OF k] node_in_lane [OF assms n k, of fb label] by auto
  qed
  then show ?thesis unfolding scene_nodes [OF assms] using drawn_nodes_apart [OF assms] by (simp add: p)
qed

theorem scene_nodes_witness: "\<not> rectsOverlap demo_a demo_b (8 - EPSILON) \<and> nodes demo_scene = [demo_a, demo_b]"
  using scene_nodes_keep_their_cells [OF demo_drawable, of no_feedback "\<lambda>k. k"] demo_nodes by simp

text \<open>
  C34: The frame of a group of a readable scene contains every node of its span, with four pixels to its sides and
  one above and below, and the label of the group does not touch the node.
\<close>

theorem group_frames_hold_their_nodes:
  assumes "drawable w" "g \<in> set (wf_groups w)" "ws_toCol g < columnCount" "n \<in> set (wf_nodes w)" "in_span g n"
  shows "rx (group_rect (scene_of w fb label) g) + 4 \<le> rx (measureNode (scene_of w fb label) n) \<and>
    rx (measureNode (scene_of w fb label) n) + rwidth (measureNode (scene_of w fb label) n) + 4 \<le>
      rx (group_rect (scene_of w fb label) g) + rwidth (group_rect (scene_of w fb label) g) \<and>
    ry (group_rect (scene_of w fb label) g) + 1 \<le> ry (measureNode (scene_of w fb label) n) \<and>
    ry (measureNode (scene_of w fb label) n) + rheight (measureNode (scene_of w fb label) n) + 1 \<le>
      ry (group_rect (scene_of w fb label) g) + rheight (group_rect (scene_of w fb label) g) \<and>
    \<not> rectsOverlap (group_label (scene_of w fb label) g) (measureNode (scene_of w fb label) n) 0"
  using group_frame_contains [OF assms, of fb label] by blast

definition demo_group :: workflow_span where
  "demo_group = \<lparr>ws_id = js ''g'', ws_label = js ''G'', ws_lane = js ''l'', ws_fromCol = 0, ws_toCol = 1\<rparr>"

theorem group_frames_witness:
  "\<not> rectsOverlap (group_label (scene_of (demo\<lparr>wf_groups := [demo_group]\<rparr>) no_feedback id) demo_group)
     (measureNode (scene_of (demo\<lparr>wf_groups := [demo_group]\<rparr>) no_feedback id) (demo_node (js ''b'') 1)) 0"
proof -
  have "drawable (demo\<lparr>wf_groups := [demo_group]\<rparr>)" using demo_drawable by (simp add: drawable_def laneOrder_def)
  moreover have "in_span demo_group (demo_node (js ''b'') 1)" by (simp add: in_span_def demo_group_def)
  ultimately show ?thesis
    using group_frames_hold_their_nodes [of "demo\<lparr>wf_groups := [demo_group]\<rparr>" demo_group "demo_node (js ''b'') 1" no_feedback id]
    by (simp add: demo_group_def)
qed

text \<open>
  C35: In every state that \<open>pathFor\<close> can reach in a readable scene, each automatic edge that has its route fits the
  scene and the routes placed before it: the route is feasible beside them, it leaves and enters by concrete sides
  that agree with the authored ones and are the sides that the state remembers, and normalising it again changes nothing.
\<close>

theorem placed_routes_fit:
  assumes "routable s st" "readable s" "j < length (rs_paths st)" "rs_paths st ! j = (e, points)" "free_route e"
  shows "\<exists>src tgt f t. node_at s (rel_from e) = Some src \<and> node_at s (rel_to e) = Some tgt \<and>
      readableCandidateIsFeasible s (take j (rs_paths st)) e points src tgt f t \<and>
      rs_sides st (oid e) = Some (Some (f, t)) \<and> f \<noteq> Auto \<and> t \<noteq> Auto \<and>
      authored_side (fromSide e) \<in> {None, Some f} \<and> authored_side (toSide e) \<in> {None, Some t} \<and> normalizeRoutePoints points = points"
proof -
  have "entry_fits s st j" using routed_sound [OF assms(1)] assms(2,3) by (simp add: sound_state_def)
  then obtain f t where "rs_sides st (oid e) = Some (Some (f, t))" "fitted s (take j (rs_paths st)) e points (f, t)"
    using assms(4,5) by (auto simp: entry_fits_def)
  then show ?thesis using settled_fix by (auto simp: fitted_def concrete_pair_def)
qed

theorem placed_routes_witness:
  "\<exists>st points src tgt. routable demo_scene st \<and> cached_route st demo_flow = Some points \<and> node_at demo_scene (js ''a'') = Some src \<and>
     node_at demo_scene (js ''b'') = Some tgt \<and> (\<exists>prior f t. readableCandidateIsFeasible demo_scene prior demo_flow points src tgt f t)"
proof -
  obtain st where st: "automatically_routed demo_scene st" using demo_routed by blast
  have d: "demo_flow \<in> set (flow_edges demo_scene)" by (simp add: demo_flow_edges)
  obtain points where p: "cached_route st demo_flow = Some points" using st d by (auto simp: automatically_routed_def)
  obtain j where j: "j < length (rs_paths st)" "rs_paths st ! j = (demo_flow, points)" using automatic_route_fits [OF st d p] by blast
  have r: "routable demo_scene st" "readable demo_scene" using st by (simp_all add: automatically_routed_def)
  from placed_routes_fit [OF r j] show ?thesis using r(1) p demo_flow_simps by (metis (no_types))
qed

text \<open>
  C2: A readable document whose edges all have automatic routes, placed one after the other by \<open>pathFor\<close>, passes the
  quality gates of the compiler under every profile: endpoint sides, clearance from unrelated nodes, frame borders,
  segment rhythm and clearance between labels and routes are all silent.
\<close>

theorem routed_documents_pass_the_gates:
  assumes "automatically_routed s st"
  shows "cleanEndpointSideProblems ctx (map relation.truncate (flow_edges s)) ids (cached_route st)
      (\<lambda>r. side_for s st r Source) (\<lambda>r. side_for s st r Target) (\<lambda>_ _. True) = [] \<and>
    cleanFlowProblems ctx (map relation.truncate (flow_edges s)) (map box.truncate (nodes s)) (cached_route st) kind 2 = [] \<and>
    cleanBorderRunProblems ctx env (map relation.truncate (flow_edges s)) eligible (workflowCompositionFrames s) (cached_route st) profile a = [] \<and>
    cleanRouteRhythmProblems ctx env (map relation.truncate (flow_edges s)) eligible (cached_route st) profile a 16 8 = [] \<and>
    cleanLabelRouteClearanceProblems ctx env (map relation.truncate (flow_edges s))
      (map (\<lambda>(e, r). label_entry_of e r) (placed_labels s st)) eligible (cached_route st) profile a 4 = []"
  by (intro conjI side_gate_silent flow_gate_silent border_gate_silent rhythm_gate_silent label_gate_silent assms)

theorem routed_documents_witness:
  "\<exists>st. cached_route st demo_flow \<noteq> None \<and> (\<forall>ctx.
     cleanFlowProblems ctx [relation.truncate demo_flow] (map box.truncate [demo_a, demo_b]) (cached_route st) (js ''node'') 2 = [])"
proof -
  obtain st where st: "automatically_routed demo_scene st" using demo_routed by blast
  then have "cached_route st demo_flow \<noteq> None" by (simp add: automatically_routed_def demo_flow_edges)
  moreover have "cleanFlowProblems ctx [relation.truncate demo_flow] (map box.truncate [demo_a, demo_b]) (cached_route st) (js ''node'') 2 = []" for ctx
    using routed_documents_pass_the_gates [OF st, of ctx] by (simp only: demo_flow_edges demo_nodes list.map)
  ultimately show ?thesis by blast
qed

text \<open>
  C36: The automatic route that is chosen for an edge is feasible, between sides of the search, and no plan of any
  pair of sides is cheaper; and whenever some pair has a plan, a route is chosen.
\<close>

theorem automatic_route_is_cheapest:
  assumes "concrete_pair primary"
  shows "(\<forall>best. readableAutomaticRoute s routes e src tgt primary ports = Inr best \<longrightarrow>
      readableCandidateIsFeasible s routes e (pl_points best) src tgt (pl_from best) (pl_to best) \<and>
      (pl_from best, pl_to best) \<in> set (side_pairs e [primary]) \<and>
      (\<forall>entry\<in>set (enumerate 0 (side_pairs e [primary])). \<forall>ps. pair_plans s routes e src tgt ports entry = Inr ps \<longrightarrow>
         (\<forall>p\<in>set ps. compareCost (pl_cost best) (pl_cost p) \<le> 0))) \<and>
    ((\<exists>best. readableAutomaticRoute s routes e src tgt primary ports = Inr best) \<longleftrightarrow>
      (\<exists>entry\<in>set (enumerate 0 (side_pairs e [primary])). \<exists>p ps. pair_plans s routes e src tgt ports entry = Inr (p # ps)))"
proof (intro conjI iffI allI impI)
  fix best assume b: "readableAutomaticRoute s routes e src tgt primary ports = Inr best"
  show "readableCandidateIsFeasible s routes e (pl_points best) src tgt (pl_from best) (pl_to best)"
    "(pl_from best, pl_to best) \<in> set (side_pairs e [primary])"
    "\<forall>entry\<in>set (enumerate 0 (side_pairs e [primary])). \<forall>ps. pair_plans s routes e src tgt ports entry = Inr ps \<longrightarrow>
       (\<forall>p\<in>set ps. compareCost (pl_cost best) (pl_cost p) \<le> 0)"
    using readableAutomaticRoute_Inr [OF b assms] by blast+
next
  assume "\<exists>best. readableAutomaticRoute s routes e src tgt primary ports = Inr best"
  then show "\<exists>entry\<in>set (enumerate 0 (side_pairs e [primary])). \<exists>p ps. pair_plans s routes e src tgt ports entry = Inr (p # ps)"
    using route_has_a_pair by (metis list.exhaust list.distinct(1) empty_iff list.set(1))
next
  assume "\<exists>entry\<in>set (enumerate 0 (side_pairs e [primary])). \<exists>p ps. pair_plans s routes e src tgt ports entry = Inr (p # ps)"
  then show "\<exists>best. readableAutomaticRoute s routes e src tgt primary ports = Inr best"
    using readableAutomaticRoute_exists by blast
qed

theorem automatic_route_witness:
  "\<exists>best. readableAutomaticRoute demo_scene [] demo_flow demo_a demo_b (RightS, LeftS) None = Inr best \<and>
     readableCandidateIsFeasible demo_scene [] demo_flow (pl_points best) demo_a demo_b (pl_from best) (pl_to best)"
  using demo_route [of "(RightS, LeftS)"]
    automatic_route_is_cheapest [of "(RightS, LeftS)" demo_scene "[]" demo_flow demo_a demo_b None]
  by (auto simp: concrete_pair_def)

section \<open>Layout feedback\<close>

definition milli :: "real \<Rightarrow> bool" where
  "milli v \<longleftrightarrow> (\<exists>k. v = of_int k / 1000)"

lemma milli_ceil: "milli (ceil_milli v)" "v \<le> ceil_milli v"
proof -
  show "milli (ceil_milli v)" by (auto simp: milli_def ceil_milli_def)
  show "v \<le> ceil_milli v" unfolding ceil_milli_def by linarith
qed

lemma milli_less:
  assumes "milli u" "milli v" "u < v"
  shows "u + EPSILON < v"
proof -
  obtain j k where jk: "u = of_int j / 1000" "v = of_int k / 1000" using assms(1,2) by (auto simp: milli_def)
  then have "j < k" using assms(3) by simp
  then have "real_of_int j + 1 \<le> real_of_int k" by linarith
  then show ?thesis by (simp add: jk EPSILON_def)
qed

text \<open>The feedback that a sequence of requests can have built up.\<close>

inductive granted :: "workflow \<Rightarrow> (jstring \<Rightarrow> jstring) \<Rightarrow> layout_feedback \<Rightarrow> bool" for w label where
  none: "granted w label no_feedback"
| grant: "granted w label fb \<Longrightarrow> src \<in> set (nodes (scene_of w fb label)) \<Longrightarrow> tgt \<in> set (nodes (scene_of w fb label)) \<Longrightarrow>
    automatic_failure (scene_of w fb label) e src tgt start fin f t families = Layout_feedback q \<Longrightarrow>
    next_feedback fb q = Some fb' \<Longrightarrow> granted w label fb'"

definition sound_feedback :: "layout_feedback \<Rightarrow> bool" where
  "sound_feedback fb \<longleftrightarrow> (\<forall>(k, v)\<in>set (lf_rankGapMinimums fb). fst k < snd k \<and> snd k < columnCount \<and> milli v) \<and> lf_laneGapMin fb \<in> {None, Some 32}"

text \<open>The requests of a failed route.\<close>

lemma automatic_failure_cases:
  assumes "automatic_failure s e src tgt start fin f t families = Layout_feedback q"
  obtains (rank) i j where "lq_kind q = Rank_gap_minimum i j" "i < j" "i = min (pn_col src) (pn_col tgt)" "j = max (pn_col src) (pn_col tgt)"
      "ly_colXs (sn_layout s) ! j - ly_colXs (sn_layout s) ! i + EPSILON < lq_minimum q" "milli (lq_minimum q)"
      "rwidth src / 2 + 32 + rwidth tgt / 2 \<le> lq_minimum q"
  | (lane) "lq_kind q = Lane_gap_minimum" "lq_minimum q = 32" "ly_laneGap (sn_layout s) < 32"
  using assms milli_ceil [of "rwidth src / 2 + 32 + rwidth tgt / 2"]
  by (auto simp: automatic_failure_def layout_request_for_def Let_def split: if_splits)

lemma set_rank_gap_entries: "(k', v') \<in> set (lf_rankGapMinimums (set_rank_gap fb k v)) \<longleftrightarrow>
    (if k' = k then v' = v else (k', v') \<in> set (lf_rankGapMinimums fb))"
  by (auto simp: set_rank_gap_def set_insort_key)

lemma granted_sound:
  assumes "drawable w"
  shows "granted w label fb \<Longrightarrow> sound_feedback fb"
proof (induction rule: granted.induct)
  case none
  then show ?case by (simp add: sound_feedback_def no_feedback_def)
next
  case (grant fb src tgt e start fin f t families q fb')
  have col: "pn_col n < columnCount" if "n \<in> set (nodes (scene_of w fb label))" for n
    using that assms by (auto simp: scene_nodes [OF assms] drawable_def measureNode_def Let_def)
  from grant(4) show ?case
  proof (cases rule: automatic_failure_cases)
    case (rank i j)
    then have "fb' = set_rank_gap fb (i, j) (lq_minimum q)" using grant(5) by (simp add: next_feedback_def split: if_splits)
    moreover have "j < columnCount" using rank(4) col grant(2,3) by simp
    moreover have "lf_laneGapMin (set_rank_gap fb k v) = lf_laneGapMin fb" for k v by (simp add: set_rank_gap_def)
    moreover have "\<forall>(k, v)\<in>set (lf_rankGapMinimums fb). fst k < snd k \<and> snd k < columnCount \<and> milli v" "lf_laneGapMin fb \<in> {None, Some 32}"
      using grant.IH by (simp_all add: sound_feedback_def)
    ultimately show ?thesis using rank(2,6) unfolding sound_feedback_def by (fastforce simp: set_rank_gap_entries split: if_splits)
  next
    case lane
    then have "lf_rankGapMinimums fb' = lf_rankGapMinimums fb" "lf_laneGapMin fb' = Some 32"
      using grant(5) by (auto simp: next_feedback_def split: if_splits)
    then show ?thesis using grant.IH by (simp add: sound_feedback_def)
  qed
qed

lemma granted_gap:
  assumes "sound_feedback fb" "((i, j), v) \<in> set (lf_rankGapMinimums fb)"
  shows "layout_columns w fb ! i + v \<le> layout_columns w fb ! j + EPSILON"
proof -
  have "\<lparr>rc_from = i, rc_to = j, rc_minimum = v\<rparr> \<in> set (layout_constraints w fb)"
    using assms(2) by (force simp: layout_constraints_def rank_constraints_def gap_constraints_def)
  from layout_columns_constraint [OF this] show ?thesis using assms by (fastforce simp: sound_feedback_def)
qed

lemma request_met:
  assumes w: "drawable w" and fb: "granted w label fb"
    and n: "src \<in> set (nodes (scene_of w fb label))" "tgt \<in> set (nodes (scene_of w fb label))"
    and q: "automatic_failure (scene_of w fb label) e src tgt start fin f t families = Layout_feedback q"
  shows "\<exists>fb'. next_feedback fb q = Some fb' \<and> granted w label fb' \<and>
    (case lq_kind q of
       Rank_gap_minimum i j \<Rightarrow> layout_columns w fb' ! i + lq_minimum q \<le> layout_columns w fb' ! j + EPSILON
     | Lane_gap_minimum \<Rightarrow> 32 \<le> ly_laneGap (createReadableLayout w fb'))"
proof -
  have s: "sound_feedback fb" by (rule granted_sound [OF w fb])
  have v: "sn_layout (scene_of w fb label) = createReadableLayout w fb" using w by (simp add: drawable_def)
  from q show ?thesis
  proof (cases rule: automatic_failure_cases)
    case (rank i j)
    have "exceeds (lq_minimum q) (rank_gap_minimum fb (i, j))"
    proof (cases "rank_gap_minimum fb (i, j)")
      case (Some c)
      then have c: "((i, j), c) \<in> set (lf_rankGapMinimums fb)" unfolding rank_gap_minimum_def by (rule map_of_SomeD)
      then have "c < lq_minimum q" using granted_gap [OF s c, of w] rank(5) by (simp add: v layout_columns_def)
      then show ?thesis using milli_less rank(6) c s Some by (fastforce simp: exceeds_def sound_feedback_def)
    qed (simp add: exceeds_def)
    then have nx: "next_feedback fb q = Some (set_rank_gap fb (i, j) (lq_minimum q))" by (simp add: next_feedback_def rank(1))
    have g: "granted w label (set_rank_gap fb (i, j) (lq_minimum q))" by (rule granted.grant [OF fb n q nx])
    have "((i, j), lq_minimum q) \<in> set (lf_rankGapMinimums (set_rank_gap fb (i, j) (lq_minimum q)))" by (simp add: set_rank_gap_entries)
    from granted_gap [OF granted_sound [OF w g] this, of w] show ?thesis using nx g rank(1) by simp
  next
    case lane
    have "lf_laneGapMin fb = None" using s lane(3) by (auto simp: sound_feedback_def v createReadableLayout_def Let_def)
    then have nx: "next_feedback fb q = Some (fb\<lparr>lf_laneGapMin := Some 32\<rparr>)" by (simp add: next_feedback_def lane exceeds_def)
    have "granted w label (fb\<lparr>lf_laneGapMin := Some 32\<rparr>)" by (rule granted.grant [OF fb n q nx])
    then show ?thesis using nx lane(1) by (simp add: createReadableLayout_def Let_def)
  qed
qed

text \<open>
  C37: A failed automatic route that asks for a wider gap between ranks or lanes is never refused as a repetition,
  whatever was granted before, and the layout of the next round meets the request.
\<close>

theorem layout_requests_are_met:
  assumes w: "drawable w" and fb: "granted w label fb"
    and n: "src \<in> set (nodes (scene_of w fb label))" "tgt \<in> set (nodes (scene_of w fb label))"
    and q: "automatic_failure (scene_of w fb label) e src tgt start fin f t families = Layout_feedback q"
  shows "\<exists>fb'. next_feedback fb q = Some fb' \<and> granted w label fb' \<and>
    (case lq_kind q of
       Rank_gap_minimum i j \<Rightarrow> layout_columns w fb' ! i + lq_minimum q \<le> layout_columns w fb' ! j + EPSILON
     | Lane_gap_minimum \<Rightarrow> 32 \<le> ly_laneGap (createReadableLayout w fb'))"
  by (rule request_met [OF assms])

definition two_lanes :: workflow where
  "two_lanes = demo\<lparr>wf_lanes := [\<lparr>wl_id = js ''l'', wl_label = js ''L'', wl_exception = False\<rparr>, \<lparr>wl_id = js ''m'', wl_label = js ''M'', wl_exception = False\<rparr>],
     wf_nodes := [demo_node (js ''a'') 0, (demo_node (js ''b'') 1)\<lparr>wn_lane := js ''m''\<rparr>]\<rparr>"

theorem layout_requests_witness:
  "\<exists>src tgt q fb'. automatic_failure (scene_of two_lanes no_feedback id) demo_flow src tgt (0, 0) (0, 0) TopS BottomS [] = Layout_feedback q \<and>
     next_feedback no_feedback q = Some fb' \<and> 32 \<le> ly_laneGap (createReadableLayout two_lanes fb')"
proof -
  let ?s = "scene_of two_lanes no_feedback id"
  have w: "drawable two_lanes" by (simp add: drawable_def two_lanes_def laneOrder_def demo_node_def)
  define src where "src = measureNode ?s (demo_node (js ''a'') 0)"
  define tgt where "tgt = measureNode ?s ((demo_node (js ''b'') 1)\<lparr>wn_lane := js ''m''\<rparr>)"
  have n: "src \<in> set (nodes ?s)" "tgt \<in> set (nodes ?s)" unfolding scene_nodes [OF w] by (simp_all add: src_def tgt_def two_lanes_def)
  have l: "pn_lane src \<noteq> pn_lane tgt" by (simp add: src_def tgt_def measureNode_def Let_def)
  have "ly_laneGap (sn_layout ?s) < 32" by (simp add: two_lanes_def createReadableLayout_def Let_def no_feedback_def)
  then have q: "automatic_failure ?s demo_flow src tgt (0, 0) (0, 0) TopS BottomS [] =
      Layout_feedback (layout_request_for demo_flow Lane_gap_minimum 32 [])"
    using l by (simp add: automatic_failure_def Let_def)
  from layout_requests_are_met [OF w granted.none n q] show ?thesis using q by (auto simp: layout_request_for_def)
qed


section \<open>Failures of labelled edges\<close>









end
