(* ===== verification/Workflow_Requests.thy ===== *)
theory Workflow_Requests
  imports Workflow_Compile_Laws Workflow_Route_Properties
begin

text \<open>
  Where layout requests come from: every request that reaches the rounds of feedback was made by a failed automatic
  route between two nodes of the scene, whatever path of the router led to it.
\<close>

section \<open>Where layout requests come from\<close>

text \<open>A request that a failed automatic route between two nodes of the scene makes.\<close>

definition route_request :: "scene \<Rightarrow> layout_request \<Rightarrow> bool" where
  "route_request s q \<longleftrightarrow> (\<exists>e src tgt start fin f t families. src \<in> set (nodes s) \<and> tgt \<in> set (nodes s) \<and>
     automatic_failure s e src tgt start fin f t families = Layout_feedback q)"

lemma classified_no_request: "classifyFailedAutomaticCandidatePins s routes e \<noteq> Some (Layout_feedback q)"
  by (simp add: classifyFailedAutomaticCandidatePins_def Let_def split: option.splits)

lemma automatic_via_request:
  assumes "readableAutomaticVia s routes e src tgt start fin f t = Inl (Layout_feedback q)" "src \<in> set (nodes s)" "tgt \<in> set (nodes s)"
  shows "route_request s q"
proof -
  have "automatic_failure s e src tgt start fin f t (map fst (raw_candidates s e src tgt start fin f t)) = Layout_feedback q"
    using assms(1) classified_no_request unfolding readableAutomaticVia_def by (auto split: list.splits option.splits if_splits)
  then show ?thesis using assms(2,3) unfolding route_request_def by blast
qed

lemma preset_via_request:
  assumes "readablePresetVia s routes e src tgt start fin f t = Inl (Layout_feedback q)" "src \<in> set (nodes s)" "tgt \<in> set (nodes s)"
  shows "route_request s q"
  using assms automatic_via_request unfolding readablePresetVia_def Let_def by (auto split: option.splits if_splits)

lemma routeVia_request:
  assumes "routeVia s routes e src tgt start fin f t v = Inl (Layout_feedback q)" "src \<in> set (nodes s)" "tgt \<in> set (nodes s)"
  shows "route_request s q"
  using assms automatic_via_request preset_via_request unfolding routeVia_def Let_def by (auto split: option.splits if_splits)

lemma pair_plans_request:
  assumes "pair_plans s routes e src tgt ports entry = Inl (Layout_feedback q)" "src \<in> set (nodes s)" "tgt \<in> set (nodes s)"
  shows "route_request s q"
proof -
  obtain k f t where en: "entry = (k, f, t)" by (cases entry)
  obtain nf nt where n: "natural_sides e src tgt = (nf, nt)" by fastforce
  show ?thesis using assms automatic_via_request unfolding en pair_plans_def prod.case n Let_def by (auto split: if_splits sum.splits)
qed

lemma pair_plans_found: "pair_plans s routes e src tgt ports entry \<noteq> Inr []"
proof -
  obtain k f t where en: "entry = (k, f, t)" by (cases entry)
  obtain nf nt where n: "natural_sides e src tgt = (nf, nt)" by fastforce
  show ?thesis unfolding en pair_plans_def prod.case n Let_def by (auto split: sum.splits)
qed

lemma feedback_of_Some: "feedback_of r = Some q \<Longrightarrow> r = Inl (Layout_feedback q)"
  by (auto simp: feedback_of_def split: sum.splits routing_error.splits)

lemma failure_of_no_request: "failure_of r \<noteq> Some (Layout_feedback q)"
  by (auto simp: failure_of_def split: sum.splits routing_error.splits)

lemma automatic_route_request:
  assumes "readableAutomaticRoute s routes e src tgt primary ports = Inl (Layout_feedback q)" "src \<in> set (nodes s)" "tgt \<in> set (nodes s)"
  shows "route_request s q"
proof -
  define outcomes where "outcomes = map (pair_plans s routes e src tgt ports) (enumerate 0 (side_pairs e [primary]))"
  have ne: "outcomes \<noteq> []" using side_pairs_not_Nil by (simp add: outcomes_def enumerate_eq_zip)
  note r = assms(1) [unfolded readableAutomaticRoute_def Let_def, folded outcomes_def]
  have none: "concat (List.map_filter (\<lambda>r. case r of Inr ps \<Rightarrow> Some ps | Inl _ \<Rightarrow> None) outcomes) = []"
    using r cheapest_first_Nil by (auto split: list.splits)
  show ?thesis
  proof (cases "List.map_filter feedback_of outcomes = []")
    case False
    then obtain x xs where x: "sort_key feedback_priority (List.map_filter feedback_of outcomes) = x # xs"
      by (cases "sort_key feedback_priority (List.map_filter feedback_of outcomes)") (metis set_empty set_sort, blast)
    have "cheapest_first (concat (List.map_filter (\<lambda>r. case r of Inr ps \<Rightarrow> Some ps | Inl _ \<Rightarrow> None) outcomes)) = []"
      using none cheapest_first_Nil by metis
    then have "x = q" using r by (simp only: x list.case sum.inject routing_error.inject)
    then have "q \<in> set (List.map_filter feedback_of outcomes)" using x by (metis list.set_intros(1) set_sort)
    then obtain out where "out \<in> set outcomes" "feedback_of out = Some q" unfolding set_map_filter_iff by blast
    then have "Inl (Layout_feedback q) \<in> set outcomes" using feedback_of_Some by blast
    then obtain entry where "pair_plans s routes e src tgt ports entry = Inl (Layout_feedback q)" unfolding outcomes_def by auto
    then show ?thesis using pair_plans_request assms(2,3) by blast
  next
    case True
    obtain out where out: "out \<in> set outcomes" using ne by (cases outcomes) auto
    have "\<exists>err. out = Inl err \<and> (\<forall>q. err \<noteq> Layout_feedback q)"
    proof (cases out)
      case (Inl err)
      then show ?thesis using True out by (auto simp: map_filter_Nil_iff feedback_of_def split: sum.splits routing_error.splits)
    next
      case (Inr ps)
      then have "ps \<in> set (List.map_filter (\<lambda>r. case r of Inr ps \<Rightarrow> Some ps | Inl _ \<Rightarrow> None) outcomes)"
        using out by (force simp: set_map_filter_iff)
      then have "ps = []" using none by (simp add: concat_eq_Nil_conv)
      moreover obtain entry where "out = pair_plans s routes e src tgt ports entry" using out unfolding outcomes_def set_map image_iff by blast
      ultimately show ?thesis using pair_plans_found Inr by metis
    qed
    then obtain err where "out = Inl err" "failure_of out = Some err" by (auto simp: failure_of_def split: routing_error.splits)
    then have "List.map_filter failure_of outcomes \<noteq> []" using out by (auto simp: map_filter_Nil_iff)
    then have "hd (List.map_filter failure_of outcomes) \<in> set (List.map_filter failure_of outcomes)" by simp
    then have "hd (List.map_filter failure_of outcomes) \<noteq> Layout_feedback q"
      unfolding set_map_filter_iff using failure_of_no_request by metis
    then show ?thesis using r none True by (simp add: cheapest_first_Nil [THEN iffD2] split: if_splits)
  qed
qed

lemma collect_results_Inl: "collect_results f vs = Inl err \<Longrightarrow> \<exists>v\<in>set vs. f v = Inl err"
  by (induction vs) (auto split: sum.splits)

lemma materialized_request:
  assumes "materialized s routes e src tgt p = Inl (Layout_feedback q)" "src \<in> set (nodes s)" "tgt \<in> set (nodes s)"
  shows "route_request s q"
  using assms routeVia_request unfolding materialized_def Let_def by (auto split: prod.splits sum.splits)

lemma controlled_route_request:
  assumes "readableControlledRoute s routes e src tgt = Inl (Layout_feedback q)" "src \<in> set (nodes s)" "tgt \<in> set (nodes s)"
  shows "route_request s q"
proof (cases "collect_results (materialized s routes e src tgt) (side_pairs e [natural_sides e src tgt])")
  case (Inl err)
  then have "err = Layout_feedback q" using assms(1) by (simp add: readableControlledRoute_def Let_def)
  then show ?thesis using collect_results_Inl [OF Inl] materialized_request assms(2,3) by blast
next
  case (Inr routed)
  then show ?thesis
    using assms preset_via_request unfolding readableControlledRoute_def Let_def
    by (auto split: list.splits option.splits prod.splits sum.splits if_splits)
qed

lemma plain_route_request:
  assumes "plain_route s st e src tgt ports p = Inl (Layout_feedback q)" "src \<in> set (nodes s)" "tgt \<in> set (nodes s)"
  shows "route_request s q"
  using assms routeVia_request unfolding plain_route_def Let_def by (auto split: prod.splits sum.splits)

lemma node_at_member: "node_at s i = Some n \<Longrightarrow> n \<in> set (nodes s)"
proof -
  assume n: "node_at s i = Some n"
  then obtain v where v: "nodesById (sn_workflow s) i = Some v" "n = measureNode s v" by (auto simp: node_at_def)
  then have "i \<in> set (node_ids (sn_workflow s))" using nodesById_Some [OF v(1)] by (auto simp: set_node_ids)
  then show ?thesis using v by (force simp: nodes_def)
qed

lemma pathFor_request:
  assumes "pathFor s st e = Inl (Layout_feedback q)"
  shows "route_request s q"
proof -
  obtain src tgt where n: "node_at s (rel_from e) = Some src" "node_at s (rel_to e) = Some tgt" and c: "cached_route st e = None"
    using assms by (auto simp: pathFor_def split: option.splits)
  then have m: "src \<in> set (nodes s)" "tgt \<in> set (nodes s)" using node_at_member by blast+
  obtain sides st1 where e: "edgeSides s st e src tgt = (sides, st1)" by fastforce
  note a = assms [unfolded pathFor_def c n option.case prod.case e]
  show ?thesis
  proof (cases "isReadableControlledRoute s e")
    case True
    then show ?thesis using a controlled_route_request [OF _ m] by (auto split: sum.splits prod.splits)
  next
    case False
    then show ?thesis using a automatic_route_request [OF _ m] plain_route_request [OF _ m] by (auto split: sum.splits if_splits)
  qed
qed


section \<open>Requests of the compiler\<close>

lemma fold_result_Inl: "fold_result f vs st = Inl err \<Longrightarrow> \<exists>v\<in>set vs. \<exists>st'. f v st' = Inl err"
proof (induction vs arbitrary: st)
  case (Cons v vs)
  then consider "f v st = Inl err" | st1 where "fold_result f vs st1 = Inl err" by (auto simp: bind_result_Inl)
  then show ?case
  proof cases
    case (2 st1)
    then show ?thesis using Cons.IH [of st1] by auto
  qed auto
qed simp

lemma throw_if_Inl: "throw_if b err = Inl err' \<longleftrightarrow> b \<and> err' = err"
  by (auto simp: throw_if_def)

lemma route_of_request: "route_of s e st = Inl (Routing (Layout_feedback q)) \<Longrightarrow> route_request s q"
  using pathFor_request by (auto simp: route_of_def split: sum.splits)

lemma pin_checks_no_request:
  "fail_pin e i \<noteq> Inl (Routing r)" "validateReadableRouteControls e \<noteq> Inl (Routing r)"
  by (auto simp: fail_pin_def validateReadableRouteControls_def throw_if_Inl split: option.splits prod.splits)

lemma label_at_request:
  assumes "label_at_of s e st = Inl (Routing (Layout_feedback q))"
  shows "route_request s q"
  using assms route_of_request by (auto simp: label_at_of_def label_of_def bind_result_Inl split: if_splits)

lemma pinned_edge_request:
  assumes "validate_pinned_edge s e st = Inl (Routing (Layout_feedback q))"
  shows "route_request s q"
proof -
  obtain src tgt where n: "node_at s (rel_from e) = Some src" "node_at s (rel_to e) = Some tgt"
    using assms by (auto simp: validate_pinned_edge_def split: option.splits)
  have "label_at_of s e st = Inl (Routing (Layout_feedback q)) \<or> (\<exists>st1. route_of s e st1 = Inl (Routing (Layout_feedback q)))"
    using assms pin_checks_no_request
    unfolding validate_pinned_edge_def n case_prod_beta fst_conv snd_conv option.case bind_result_Inl throw_if_Inl by blast
  then show ?thesis using label_at_request route_of_request by blast
qed

lemma pinned_geometry_request:
  assumes "validateReadablePinnedGeometry s st = Inl (Routing (Layout_feedback q))"
  shows "route_request s q"
proof -
  have "validateReadablePairwisePinConflicts s st' \<noteq> Inl (Routing r)" for st' r
    by (auto simp: validateReadablePairwisePinConflicts_def Let_def split: option.splits prod.splits)
  then have "fold_result (validate_pinned_edge s) (flow_edges s) st = Inl (Routing (Layout_feedback q))"
    using assms by (auto simp: validateReadablePinnedGeometry_def bind_result_Inl split: if_splits)
  from fold_result_Inl [OF this] show ?thesis using pinned_edge_request by blast
qed

lemma validation_request:
  assumes "validateWorkflow s branded st = Inl (Routing (Layout_feedback q))"
  shows "route_request s q"
proof -
  have "enforceLegacyColumnCapacity s \<noteq> Inl (Routing r)" for r
    by (auto simp: enforceLegacyColumnCapacity_def split: option.splits)
  then obtain ps where "fold_result (edge_problems s) (flow_edges s) (ps, st) = Inl (Routing (Layout_feedback q))"
    using assms unfolding validateWorkflow_def Let_def by (auto simp: bind_result_Inl throw_if_Inl)
  from fold_result_Inl [OF this] show ?thesis using route_of_request by (auto simp: edge_problems_def Let_def bind_result_Inl split: if_splits)
qed

lemma scene_request:
  assumes "compile_scene s authored branded = Inl (Routing (Layout_feedback q))"
  shows "route_request s q \<and> validateReadableInputsBeforeRouting s authored = Inr ()"
proof -
  have f: "finalizeReadableViewBox s st \<noteq> Inl (Routing r)" for st r
    by (auto simp: finalizeReadableViewBox_def Let_def split: option.splits)
  have i: "validateReadableInputsBeforeRouting s authored = Inr ()"
    using assms inputs_rejected [of s authored] by (auto simp: compile_scene_def bind_result_Inl)
  then have "validateReadablePinnedGeometry s (initial_state s) = Inl (Routing (Layout_feedback q)) \<or>
      (\<exists>st. validateWorkflow s branded st = Inl (Routing (Layout_feedback q)))"
    using assms f by (auto simp: compile_scene_def bind_result_Inl)
  then show ?thesis using i pinned_geometry_request validation_request by blast
qed

lemma compile_request:
  assumes "compileWorkflowInternal valid label branded w fb = Inl q" "wf_schemaVersion w = 2" "positive_sizes w"
  shows "route_request (scene_of (canonicalReadableWorkflow w) fb label) q \<and> drawable (canonicalReadableWorkflow w)"
proof -
  have c: "compile_scene (scene_of (canonicalReadableWorkflow w) fb label) w branded = Inl (Routing (Layout_feedback q))"
    using assms(1) by (auto simp: compileWorkflowInternal_def Let_def split: if_splits sum.splits compile_error.splits routing_error.splits)
  have "readable (scene_of (canonicalReadableWorkflow w) fb label)" using assms(2) by (simp add: canonical_fields)
  then have "well_placed (scene_of (canonicalReadableWorkflow w) fb label) w" using inputs_accepted scene_request [OF c] by blast
  then show ?thesis using scene_request [OF c] well_placed_drawable assms(2,3) by blast
qed

lemma compile_results: "compileWorkflowInternal valid label branded w fb \<noteq> Inr (Feedback_failure q)"
  by (auto simp: compileWorkflowInternal_def Let_def split: sum.splits compile_error.splits routing_error.splits)

text \<open>Every one of \<open>n\<close> rounds ends in a request that is granted, and the round after them asks for \<open>q\<close>.\<close>

primrec rounds_ask :: "(layout_feedback \<Rightarrow> layout_request + 'r) \<Rightarrow> nat \<Rightarrow> layout_feedback \<Rightarrow> layout_request \<Rightarrow> bool" where
  "rounds_ask compile 0 fb q \<longleftrightarrow> compile fb = Inl q"
| "rounds_ask compile (Suc n) fb q \<longleftrightarrow> (\<exists>q' fb'. compile fb = Inl q' \<and> next_feedback fb q' = Some fb' \<and> rounds_ask compile n fb' q)"

lemma rounds_fail:
  assumes "\<And>fb q. ok fb \<Longrightarrow> compile fb = Inl q \<Longrightarrow> \<exists>fb'. next_feedback fb q = Some fb' \<and> ok fb'"
    and "\<And>fb q. compile fb \<noteq> Inr (failed q)" "inj failed" "ok fb"
  shows "feedback_rounds n compile failed fb = failed q \<longleftrightarrow> rounds_ask compile n fb q"
  using assms(4)
proof (induction n arbitrary: fb)
  case (0 fb)
  show ?case
  proof (cases "compile fb")
    case (Inl q')
    obtain fb' where "next_feedback fb q' = Some fb'" using assms(1) [OF 0 Inl] by blast
    then show ?thesis using assms(3) by (auto simp: Inl dest: injD)
  next
    case (Inr r)
    then show ?thesis using assms(2) [of fb q] by simp
  qed
next
  case (Suc n fb)
  show ?case
  proof (cases "compile fb")
    case (Inl q')
    obtain fb' where "next_feedback fb q' = Some fb'" "ok fb'" using assms(1) [OF Suc.prems Inl] by blast
    then show ?thesis using Suc.IH [of fb'] by (simp add: Inl)
  next
    case (Inr r)
    then show ?thesis using assms(2) [of fb q] by simp
  qed
qed


lemma granted_request:
  assumes "granted w label fb" "drawable w" "route_request (scene_of w fb label) q"
  shows "\<exists>fb'. next_feedback fb q = Some fb' \<and> granted w label fb'"
  using assms(3) request_met [OF assms(2,1)] unfolding route_request_def by blast

lemma compile_granted:
  assumes "granted (canonicalReadableWorkflow w) label fb" "compileWorkflowInternal valid label branded w fb = Inl q"
    and "wf_schemaVersion w = 2" "positive_sizes w"
  shows "\<exists>fb'. next_feedback fb q = Some fb' \<and> granted (canonicalReadableWorkflow w) label fb'"
  using granted_request [OF assms(1)] compile_request [OF assms(2-4)] by blast

end
