(* ===== verification/Workflow_Compile_Demo.thy ===== *)
theory Workflow_Compile_Demo
  imports Workflow_Compile_Laws Workflow_Demo
begin

text \<open>
  A readable document with two nodes and no edges, evaluated through every stage of the compiler: its columns, its
  boxes, the checks of its texts and lanes, the silent gates and the canvas.
\<close>

section \<open>A document that compiles\<close>

definition pair_document :: workflow where
  "pair_document = demo\<lparr>wf_edges := []\<rparr>"

abbreviation pair_scene :: scene where "pair_scene \<equiv> scene_of pair_document no_feedback (\<lambda>k. k)"

lemma pair_simps [simp]:
  "wf_schemaVersion pair_document = 2" "wf_nodes pair_document = [demo_node (js ''a'') 0, demo_node (js ''b'') 1]" "wf_edges pair_document = []"
  "wf_phases pair_document = []" "wf_groups pair_document = []" "wf_lanes pair_document = [\<lparr>wl_id = js ''l'', wl_label = js ''L'', wl_exception = False\<rparr>]"
  "wf_mainPath pair_document = None" "wf_semanticChecks pair_document = None" "wf_viewBox pair_document = None" "wf_profile pair_document = None"
  by (simp_all add: pair_document_def demo_def)

lemma pair_canonical: "canonicalReadableWorkflow pair_document = pair_document"
proof -
  have "sort_key (node_key pair_document) (wf_nodes pair_document) = wf_nodes pair_document"
    by (simp add: node_key_def lane_rank_def laneOrder_def demo_node_def)
  then show ?thesis by (simp add: canonicalReadableWorkflow_def)
qed

lemma pair_constraints: "layout_constraints pair_document no_feedback = baseline_constraints @ [\<lparr>rc_from = 0, rc_to = 1, rc_minimum = 100\<rparr>]"
proof -
  have "node_constraints pair_document = [\<lparr>rc_from = 0, rc_to = 1, rc_minimum = 100\<rparr>]"
    by (simp add: node_constraints_def pair_constraint_def earlier_later_def clearance_constraint_def verticalIntervalsOverlap_def
      map_filter_simps del: js_simps)
  moreover have "direct_constraints pair_document = []" "label_constraints pair_document = []"
    by (simp_all add: direct_constraints_def label_constraints_def map_filter_simps)
  ultimately show ?thesis
    by (simp add: layout_constraints_def rank_constraints_def gap_constraints_def no_feedback_def map_filter_simps del: js_simps)
qed

lemma pair_ranked: "ranked_columns pair_document no_feedback = [94, 214, 334, 454, 574, 694]"
  unfolding start_columns_list [symmetric]
proof (rule nth_equalityI)
  show len: "length (ranked_columns pair_document no_feedback) = length start_columns"
    using solve_columns_spec(1) by (simp add: ranked_columns_eq start_columns_list)
  have a: "admissible (layout_constraints pair_document no_feedback) start_columns"
    by (auto simp: admissible_def six_columns start_columns_list baseline_constraints_def upt_rec pair_constraints)
  have "ranked_columns pair_document no_feedback ! k = start_columns ! k" if "k < columnCount" for k
    unfolding ranked_columns_eq by (rule antisym [OF solve_columns_least [OF a that] solve_columns_spec(3)])
  then show "ranked_columns pair_document no_feedback ! k = start_columns ! k" if "k < length (ranked_columns pair_document no_feedback)" for k
    using that len by (simp add: start_columns_list)
qed

lemma pair_shifted: "shifted_columns pair_document [94, 214, 334, 454, 574, 694] = [94, 214, 334, 454, 574, 694]"
proof -
  have l: "left_shift pair_document [94, 214, 334, 454, 574, 694] = 0" by (simp add: left_shift_def first_extent_def)
  have h: "header_shift pair_document xs = 0" for xs
    by (simp add: header_shift_def unpinnedTopEndpointIds_def first_occurrences_def map_filter_simps)
  have c: "content_left_shift pair_document xs = 0" for xs
    by (simp add: content_left_shift_def channel_label_left_def channelLabelEdgeKeys_def first_occurrences_def map_filter_simps)
  show ?thesis by (simp add: shifted_columns_def Let_def shift_columns_def l h c)
qed

lemma pair_columns: "layout_columns pair_document no_feedback = [94, 214, 334, 454, 574, 694]"
  by (simp add: layout_columns_def createReadableLayout_def Let_def pair_ranked pair_shifted)

lemma pair_height: "base_content_height pair_document = 74"
  by (simp add: base_content_height_def max_vertical_extent_def farther_def EPSILON_def del: js_simps)

lemma pair_lane: "laneOrder pair_document (js ''l'') = Some 0"
  by (simp add: laneOrder_def)

lemma pair_reserve: "reserve_at pair_document no_feedback 0 = (0, 0)"
  by (simp add: reserve_at_def lane_reserve_def)

lemma pair_drawable: "drawable pair_document"
  using pair_lane by (simp add: drawable_def demo_node_def)

lemma pair_lane_box: "lane_top_at pair_scene 0 = 52" "lane_height_at pair_scene (Some 0) = 104"
  using scene_heights [of pair_document 0 no_feedback "\<lambda>k. k"]
  by (simp_all add: pair_height pair_reserve lane_top_at_def createReadableLayout_def Let_def)

lemma pair_box:
  assumes "i = js ''a'' \<and> c = 0 \<or> i = js ''b'' \<and> c = 1"
  shows "measureNode pair_scene (demo_node i c) =
    \<lparr>rx = 48 + 120 * real c, ry = 93, rwidth = 92, rheight = 52, bcx = 94 + 120 * real c, bcy = 119, bid = i, pn_lane = js ''l'', pn_col = c\<rparr>"
proof -
  have n: "demo_node i c \<in> set (wf_nodes pair_document)" using assms by auto
  have k: "laneOrder pair_document (wn_lane (demo_node i c)) = Some 0" using pair_lane by simp
  note m = measured_node [OF pair_drawable n k, of no_feedback "\<lambda>k. k"]
  have "layout_columns pair_document no_feedback ! c = 94 + 120 * real c" using assms by (auto simp: pair_columns)
  then have "rx (measureNode pair_scene (demo_node i c)) = 48 + 120 * real c" "ry (measureNode pair_scene (demo_node i c)) = 93"
    "bcx (measureNode pair_scene (demo_node i c)) = 94 + 120 * real c"
    by (simp_all add: m pair_lane_box pair_reserve pair_height measured_bcx layout_columns_def [symmetric])
  moreover have "bcy r = ry r + rheight r / 2 \<and> bid r = i \<and> pn_lane r = js ''l'' \<and> pn_col r = c" if "r = measureNode pair_scene (demo_node i c)" for r
    unfolding that by (simp add: measureNode_def Let_def del: js_simps)
  ultimately show ?thesis using m by (simp del: js_simps)
qed

lemma pair_nodes: "nodes pair_scene = [demo_a, demo_b]"
proof -
  have "node_ids pair_document = [js ''a'', js ''b'']" by (simp add: node_ids_def first_occurrences_def)
  moreover have "nodesById pair_document (js ''a'') = Some (demo_node (js ''a'') 0)" "nodesById pair_document (js ''b'') = Some (demo_node (js ''b'') 1)"
    by (simp_all add: nodesById_def)
  ultimately show ?thesis using pair_box [of "js ''a''" 0] pair_box [of "js ''b''" 1] by (simp add: nodes_def del: js_simps)
qed

lemma pair_lane_width: "712 \<le> ly_laneW (createReadableLayout pair_document no_feedback)"
proof -
  have "rightmost_of pair_document [94, 214, 334, 454, 574, 694] = 744"
    by (simp add: rightmost_of_def farther_def EPSILON_def del: js_simps)
  then show ?thesis by (simp add: createReadableLayout_def Let_def pair_ranked pair_shifted lane_width_def)
qed

lemma pair_edges: "flow_edges pair_scene = []"
  by (simp add: flow_edges_def)

lemma pair_layout: "ly_laneX (sn_layout pair_scene) = 40" "sn_legend pair_scene = []"
  by (simp_all add: createReadableLayout_def Let_def scene_of_def pair_document_def demo_def resolveLegend_def or_empty_def)

lemma pair_routed: "automatically_routed pair_scene (initial_state pair_scene)"
  by (simp add: automatically_routed_def pair_edges routable.start)

lemma pair_valid: "validateWorkflow pair_scene (\<lambda>_. False) (initial_state pair_scene) = Inr (initial_state pair_scene)"
proof -
  define st where "st = initial_state pair_scene"
  have i: "node_ids pair_document = [js ''a'', js ''b'']" by (simp add: node_ids_def first_occurrences_def)
  have n: "nodesById pair_document (js ''a'') = Some (demo_node (js ''a'') 0)" "nodesById pair_document (js ''b'') = Some (demo_node (js ''b'') 1)"
    by (simp_all add: nodesById_def)
  have x: "wn_label (demo_node k c) = js ''N''" "wn_sublabel (demo_node k c) = None" "wn_tag (demo_node k c) = None" "wn_id (demo_node k c) = k" for k c
    by (simp_all add: demo_node_def)
  have u: "textUnits (js ''N'') = 1" by (simp add: textUnits_def fullwidth_def FULLWIDTH_RE_def variation_selector_def)
  note c = pair_columns [unfolded layout_columns_def]
  have h: "laneGroupHeaderH pair_scene (js ''l'') = 0" "laneTop pair_scene (js ''l'') = 52" "laneHeight pair_scene (js ''l'') = 104"
    using scene_lane [of pair_document "js ''l''" 0 no_feedback "\<lambda>k. k"] pair_lane pair_lane_box
    by (simp_all add: laneTop_def laneIndex_def pair_reserve pair_height del: js_simps)
  have t: "ly_laneTitleH (sn_layout pair_scene) = 30" "712 \<le> ly_laneW (sn_layout pair_scene)"
    using pair_lane_width by (simp_all add: createReadableLayout_def Let_def)
  have "node_problems pair_scene (\<lambda>_. False) (demo_node (js ''a'') 0) = []" "node_problems pair_scene (\<lambda>_. False) (demo_node (js ''b'') 1) = []"
    using t pair_box [of "js ''a''" 0] pair_box [of "js ''b''" 1]
    by (simp_all add: node_problems_def node_text_problems_def when_true_def Let_def x u c h pair_layout del: js_simps)
  moreover have "close_nodes pair_scene = []" by (simp add: close_nodes_def pair_nodes first_occurrences_def rectsOverlap_def del: js_simps)
  moreover have "identity_problems pair_document = []" by (simp add: identity_problems_def when_true_def)
  moreover have "gate_problems_before_labels pair_scene st = []" "label_gate_problems pair_scene st = []"
    using side_gate_silent [OF pair_routed] flow_gate_silent [OF pair_routed] border_gate_silent [OF pair_routed]
      rhythm_gate_silent [OF pair_routed] label_gate_silent [OF pair_routed]
    by (simp_all add: gate_problems_before_labels_def label_gate_problems_def Let_def st_def cleanCrossingProblems_def
        cleanAmbiguousCorridorProblems_def is_showcase_def qualityProfileForGate_def)
  moreover have "label_problems pair_scene st = []" by (simp add: label_problems_def placed_labels_def pair_edges map_filter_simps)
  moreover have "main_path_problems pair_scene = []" "canvas_problems pair_scene = []" by (simp_all add: main_path_problems_def canvas_problems_def)
  ultimately show ?thesis
    unfolding st_def by (simp add: validateWorkflow_def Let_def throw_if_def enforceLegacyColumnCapacity_def pair_edges i n del: js_simps)
qed


lemma fold_includePoint_nonneg:
  assumes "\<forall>(x, y)\<in>set ps. 0 \<le> x \<and> 0 \<le> y" "0 \<le> cb_left b" "0 \<le> cb_top b"
  shows "0 \<le> cb_left (fold includePoint ps b) \<and> 0 \<le> cb_top (fold includePoint ps b)"
  using assms by (induction ps arbitrary: b) (auto simp: includePoint_def split: prod.splits)

lemma pair_content: "content_points pair_scene st = [(48, 93), (140, 145), (168, 93), (260, 145)]"
  by (simp add: content_points_def pair_nodes pair_edges corners_def pair_layout legend_rects_def workflowLegendRects_def del: js_simps)

lemma pair_compiles: "\<exists>r. compileWorkflow (\<lambda>_. True) (\<lambda>k. k) (\<lambda>_. False) None pair_document = Compiled r"
proof -
  let ?s = pair_scene
  let ?i = "initial_state ?s"
  have r: "\<not> rectsOverlap demo_a demo_b 8" "\<not> rectsOverlap demo_b demo_a 8" by (simp_all add: rectsOverlap_def)
  have "well_placed ?s pair_document"
    using pair_box [of "js ''a''" 0] pair_box [of "js ''b''" 1] pair_columns r by (simp add: well_placed_def layout_columns_def)
  then have inputs: "validateReadableInputsBeforeRouting ?s pair_document = Inr ()" using inputs_accepted [of ?s pair_document] by simp
  have "validateReadablePairwisePinConflicts ?s ?i = Inr ()"
    by (simp add: validateReadablePairwisePinConflicts_def placed_labels_def placed_relations_def pair_edges map_filter_simps collectLabelRouteClearance_def collectAmbiguousCorridors_def corridor_routes_def)
  then have pinned: "validateReadablePinnedGeometry ?s ?i = Inr ?i" by (simp add: validateReadablePinnedGeometry_def pair_edges)
  have b: "0 \<le> cb_left (measuredContentBounds ?s ?i) \<and> 0 \<le> cb_top (measuredContentBounds ?s ?i)"
    unfolding measuredContentBounds_def by (rule fold_includePoint_nonneg) (simp_all add: pair_content pair_layout)
  then obtain v where "finalizeReadableViewBox ?s ?i = Inr v" by (simp add: finalizeReadableViewBox_def Let_def not_less)
  then have c: "compile_scene ?s pair_document (\<lambda>_. False) = Inr (receipt_of ?s ?i v)"
    by (simp add: compile_scene_def inputs pinned pair_valid)
  have "compileWorkflowInternal (\<lambda>_. True) (\<lambda>k. k) (\<lambda>_. False) pair_document no_feedback = Inr (Compiled (receipt_of ?s ?i v))"
    by (simp add: compileWorkflowInternal_def pair_canonical semanticContractDiagnostics_def Let_def c)
  then show ?thesis by (simp add: compileWorkflow_def compileWorkflowWithFeedback_def resolve_profile_def feedback_rounds.simps)
qed

end
