(* ===== verification/Workflow_Compile_Properties.thy ===== *)
theory Workflow_Compile_Properties
  imports Workflow_Requests Workflow_Compile_Demo
begin

text \<open>
  Properties of the compiler as a whole: which inputs it accepts, that authoring order does not matter, what can go
  wrong in a document without pins, what holds of a compiled document, and when it gives up on the layout.
\<close>

section \<open>Inputs\<close>

text \<open>
  C39: The checks before routing accept a readable document exactly when its lanes and its nodes have distinct ids,
  every edge links two nodes of the drawing, every node has a lane and a column of the layout, and no two nodes of a
  lane come closer than 8: whatever the order of the lists, nothing else is refused and nothing of this passes.
\<close>

theorem input_checks_are_exact:
  assumes "wf_schemaVersion w = 2"
  shows "validateReadableInputsBeforeRouting (scene_of (canonicalReadableWorkflow w) fb label) w = Inr () \<longleftrightarrow>
    well_placed (scene_of (canonicalReadableWorkflow w) fb label) w"
proof -
  have "readable (scene_of (canonicalReadableWorkflow w) fb label)" using assms by (simp add: canonical_fields)
  then show ?thesis by (rule inputs_accepted)
qed

lemma demo_canonical: "canonicalReadableWorkflow demo = demo"
proof -
  have "sort_key (node_key demo) (wf_nodes demo) = wf_nodes demo"
    by (simp add: node_key_def lane_rank_def laneOrder_def demo_node_def)
  then show ?thesis by (simp add: canonicalReadableWorkflow_def)
qed

lemma demo_well_placed: "well_placed demo_scene demo"
proof -
  have e: "we_from demo_edge = js ''a''" "we_to demo_edge = js ''b''" by (simp_all add: demo_edge_def)
  have r: "\<not> rectsOverlap demo_a demo_b 8" "\<not> rectsOverlap demo_b demo_a 8" by (simp_all add: rectsOverlap_def)
  show ?thesis
    using demo_box [of "js ''a''" 0] demo_box [of "js ''b''" 1] demo_columns r e
    by (simp add: well_placed_def demo_nodes layout_columns_def)
qed

theorem input_checks_witness: "validateReadableInputsBeforeRouting demo_scene demo = Inr ()"
  using input_checks_are_exact [of demo no_feedback "\<lambda>k. k"] demo_well_placed by (simp add: demo_canonical)

section \<open>Authoring order\<close>





lemma resolve_profile_simps [simp]:
  "wf_schemaVersion (resolve_profile option w) = wf_schemaVersion w" "identified (resolve_profile option w) = identified w"
  by (simp_all add: resolve_profile_def identified_def)





section \<open>Documents without pins\<close>




section \<open>Compiled documents\<close>

text \<open>
  C1: What a readable document compiles to is clean, whatever pins it has: the receipt draws every node and every
  edge, nodes, routes and labels lie inside the canvas with its margins, no two nodes of a lane come closer than 8,
  no route of two points or more enters the clearance of a node that it does not link, and neither a gate nor a check
  of the labels has anything to say about the routes of the receipt.
\<close>

theorem compiled_documents_are_clean:
  assumes "compileWorkflow valid label branded option w = Compiled r" "wf_schemaVersion w = 2"
  shows "\<exists>fb s. s = scene_of (canonicalReadableWorkflow (resolve_profile option w)) fb label \<and> map fst (re_edges r) = flow_edges s \<and> re_nodes r = nodes s \<and>
    (\<forall>n\<in>set (re_nodes r). \<forall>p\<in>set (corners n). inside_canvas (re_viewBox r) p) \<and>
    (\<forall>(e, points)\<in>set (re_edges r). \<forall>p\<in>set points. inside_canvas (re_viewBox r) p) \<and>
    (\<forall>l\<in>set (re_labels r). \<forall>p\<in>set (label_corners l). inside_canvas (re_viewBox r) p) \<and>
    (\<forall>a\<in>set (re_nodes r). \<forall>b\<in>set (re_nodes r). a \<noteq> b \<and> pn_lane a = pn_lane b \<longrightarrow> \<not> rectsOverlap a b 8) \<and>
    (\<forall>(e, points)\<in>set (re_edges r). 2 \<le> length points \<longrightarrow> (\<forall>n\<in>set (re_nodes r). bid n \<notin> {rel_from e, rel_to e} \<longrightarrow>
       (\<forall>seg\<in>set (pairs points). \<not> segmentIntersectsRect seg n 2))) \<and>
    (\<exists>st. gate_problems_before_labels s st = [] \<and> label_gate_problems s st = [] \<and> label_problems s st = [] \<and>
       (\<forall>e points. (e, points) \<in> set (re_edges r) \<longleftrightarrow> e \<in> set (flow_edges s) \<and> cached_route st e = Some points))"
proof -
  obtain fb where c: "compile_scene (scene_of (canonicalReadableWorkflow (resolve_profile option w)) fb label) (resolve_profile option w) branded = Inr r"
    by (rule compiled_scene [OF assms(1)])
  define s where "s = scene_of (canonicalReadableWorkflow (resolve_profile option w)) fb label"
  have "readable s" using assms(2) by (simp add: s_def canonical_fields)
  note laws = compiled_scene_laws [OF c [folded s_def] this]
  show ?thesis by (rule exI [of _ fb], rule exI [of _ s], rule conjI, rule s_def, rule laws)
qed


theorem compiled_documents_witness:
  "\<exists>r. compileWorkflow (\<lambda>_. True) (\<lambda>k. k) (\<lambda>_. False) None pair_document = Compiled r \<and> length (re_nodes r) = 2 \<and> re_edges r = []"
proof -
  obtain r where r: "compileWorkflow (\<lambda>_. True) (\<lambda>k. k) (\<lambda>_. False) None pair_document = Compiled r" using pair_compiles by blast
  have w: "canonicalReadableWorkflow (resolve_profile None pair_document) = pair_document" by (simp add: resolve_profile_def pair_canonical)
  obtain fb where "map fst (re_edges r) = flow_edges (scene_of pair_document fb (\<lambda>k. k))" "re_nodes r = nodes (scene_of pair_document fb (\<lambda>k. k))"
    using compiled_documents_are_clean [OF r] unfolding w by auto
  then show ?thesis using r by (simp add: nodes_def flow_edges_def node_ids_def first_occurrences_def)
qed

section \<open>Giving up\<close>

text \<open>
  C9: The compiler gives a readable document up for its layout exactly when it has used every round: each of its
  three rounds of feedback ended in a request of a failed route that was granted, and the layout after the third
  still asks for more room. It never stops early because it takes a request for one that was already granted.
\<close>

theorem layout_failure_uses_every_round:
  assumes "wf_schemaVersion w = 2" "positive_sizes w"
  shows "compileWorkflow valid label branded option w = Feedback_failure q \<longleftrightarrow>
    rounds_ask (compileWorkflowInternal valid label branded (resolve_profile option w)) MAX_READABLE_LAYOUT_FEEDBACK_ROUNDS no_feedback q"
proof -
  let ?w = "resolve_profile option w"
  have w: "wf_schemaVersion ?w = 2" "positive_sizes ?w" using assms by (simp_all add: resolve_profile_def positive_sizes_def)
  show ?thesis
    unfolding compileWorkflow_def compileWorkflowWithFeedback_def
    by (rule rounds_fail [where ok = "granted (canonicalReadableWorkflow ?w) label"])
      (use compile_granted w compile_results in \<open>auto intro: granted.none injI\<close>)
qed

theorem layout_failure_witness:
  "\<nexists>q. rounds_ask (compileWorkflowInternal (\<lambda>_. True) (\<lambda>k. k) (\<lambda>_. False) pair_document) 3 no_feedback q"
proof
  assume "\<exists>q. rounds_ask (compileWorkflowInternal (\<lambda>_. True) (\<lambda>k. k) (\<lambda>_. False) pair_document) 3 no_feedback q"
  then obtain q where "rounds_ask (compileWorkflowInternal (\<lambda>_. True) (\<lambda>k. k) (\<lambda>_. False) pair_document) 3 no_feedback q" by blast
  moreover have "positive_sizes pair_document" by (simp add: positive_sizes_def demo_node_def)
  ultimately have "compileWorkflow (\<lambda>_. True) (\<lambda>k. k) (\<lambda>_. False) None pair_document = Feedback_failure q"
    using layout_failure_uses_every_round [of pair_document "\<lambda>_. True" "\<lambda>k. k" "\<lambda>_. False" None q]
    by (simp add: MAX_READABLE_LAYOUT_FEEDBACK_ROUNDS_def resolve_profile_def)
  then show False using pair_compiles by auto
qed

end
