(* ===== verification/Sequence_Diagram.thy ===== *)
theory Sequence_Diagram
  imports Legend_Layout Canonical_Json Route_Gates
begin

text \<open>
The sequence renderer (\<open>renderers/sequence/render-sequence.mjs\<close>): documents, the columns and their headers, messages with
their labels, the whole of \<open>validateSequence\<close>, the placement of segment labels, and the geometry that is drawn. The
SVG text around that geometry is left out. \<open>branded\<close> stands for the lookup of brand marks, \<open>label\<close> for the
translations, \<open>env\<close> for the quality profile of the environment.
\<close>

section \<open>Documents\<close>

record participant =
  pt_id :: jstring
  pt_type :: jstring
  pt_label :: jstring
  pt_sublabel :: "jstring option"

record message =
  ms_id :: "jstring option"
  ms_from :: jstring
  ms_to :: jstring
  ms_y :: real
  ms_label :: jstring
  ms_variant :: "jstring option"

record time_segment =
  sg_from :: real
  sg_to :: real
  sg_label :: jstring

record activation =
  ac_participant :: jstring
  ac_from :: real
  ac_to :: real

record sequence_diagram =
  sq_viewBox :: "(real \<times> real) option"
  sq_columnFit :: "jstring option"
  sq_profile :: "jstring option"
  sq_legend :: "legend_config option"
  sq_participants :: "participant list"
  sq_messages :: "message list"
  sq_segments :: "time_segment list"
  sq_activations :: "activation list"

section \<open>Columns\<close>

definition seq_viewBox :: "sequence_diagram \<Rightarrow> real \<times> real" where
  "seq_viewBox d = (case sq_viewBox d of Some v \<Rightarrow> v | None \<Rightarrow> (920, 760))"

definition spreads :: "sequence_diagram \<Rightarrow> bool" where
  "spreads d \<longleftrightarrow> sq_columnFit d = Some (js ''spread'')"

definition participantCount :: "sequence_diagram \<Rightarrow> nat" where
  "participantCount d = max 1 (length (sq_participants d))"

definition sideMargin :: real where "sideMargin = 62"

definition participantW :: "sequence_diagram \<Rightarrow> real" where
  "participantW d =
     (if spreads d
      then max 86 (min 190 (of_int (js_round ((fst (seq_viewBox d) - sideMargin * 2) / real (participantCount d))) - 24))
      else 86)"

definition colGap :: "sequence_diagram \<Rightarrow> real" where
  "colGap d =
     (if spreads d \<and> 1 < participantCount d
      then max 108 ((fst (seq_viewBox d) - 40 - sideMargin - participantW d) / (real (participantCount d) - 1))
      else 108)"

record sequence_layout =
  sl_topY :: real
  sl_participantW :: real
  sl_participantH :: real
  sl_lifelineTop :: real
  sl_lifelineBottom :: real
  sl_legendY :: real
  sl_leftX :: real
  sl_colGap :: real
  sl_labelH :: real

definition sequence_layout_of :: "sequence_diagram \<Rightarrow> sequence_layout" where
  "sequence_layout_of d =
     \<lparr>sl_topY = 72, sl_participantW = participantW d, sl_participantH = 54, sl_lifelineTop = 142,
      sl_lifelineBottom = snd (seq_viewBox d) - 65, sl_legendY = snd (seq_viewBox d) - 54,
      sl_leftX = (if spreads d then sideMargin + participantW d / 2 else sideMargin), sl_colGap = colGap d, sl_labelH = 16\<rparr>"

definition participantX :: "sequence_diagram \<Rightarrow> nat \<Rightarrow> real" where
  "participantX d i = sl_leftX (sequence_layout_of d) + real i * sl_colGap (sequence_layout_of d)"

text \<open>\<open>participants\<close>: a map whose keys keep their first position and their last value.\<close>

definition participant_box :: "sequence_diagram \<Rightarrow> nat \<times> participant \<Rightarrow> box" where
  "participant_box d = (\<lambda>(i, p). let l = sequence_layout_of d in
     \<lparr>rx = participantX d i - sl_participantW l / 2, ry = sl_topY l, rwidth = sl_participantW l, rheight = sl_participantH l,
      bcx = participantX d i, bcy = sl_topY l + sl_participantH l / 2, bid = pt_id p\<rparr>)"

definition participants :: "sequence_diagram \<Rightarrow> jstring \<Rightarrow> (nat \<times> participant) option" where
  "participants d = map_of (rev (map (\<lambda>(i, p). (pt_id p, i, p)) (enumerate 0 (sq_participants d))))"

definition participant_ids :: "sequence_diagram \<Rightarrow> jstring list" where
  "participant_ids d = rev (remdups (rev (map pt_id (sq_participants d))))"

definition headers :: "sequence_diagram \<Rightarrow> box list" where
  "headers d = List.map_filter (\<lambda>i. map_option (participant_box d) (participants d i)) (participant_ids d)"

definition center_of :: "sequence_diagram \<Rightarrow> jstring \<Rightarrow> real option" where
  "center_of d i = map_option (\<lambda>p. bcx (participant_box d p)) (participants d i)"

section \<open>Messages\<close>

text \<open>The schema asks for a numeric \<open>y\<close>.\<close>

definition messageGeometry :: "sequence_diagram \<Rightarrow> message \<Rightarrow> (real \<times> real \<times> real) option" where
  "messageGeometry d m =
     (case (center_of d (ms_from m), center_of d (ms_to m)) of
        (Some f, Some t) \<Rightarrow>
          let direction = (if f < t then 1 else -1); start = f + direction * 7; end = t - direction * 7
          in Some (start, end, (start + end) / 2)
      | _ \<Rightarrow> None)"

definition message_label_width :: "message \<Rightarrow> real" where
  "message_label_width m = max 34 (real (textUnits (ms_label m)) * (52 / 10) + 12)"

definition messageLabelBox :: "sequence_diagram \<Rightarrow> message \<Rightarrow> rect option" where
  "messageLabelBox d m = map_option (\<lambda>(start, end, center).
     \<lparr>rx = center - message_label_width m / 2, ry = ms_y m - 20, rwidth = message_label_width m, rheight = sl_labelH (sequence_layout_of d)\<rparr>)
     (messageGeometry d m)"

definition messageRouteBox :: "sequence_diagram \<Rightarrow> message \<Rightarrow> rect option" where
  "messageRouteBox d m = map_option (\<lambda>(start, end, center).
     \<lparr>rx = min start end, ry = ms_y m - 2, rwidth = \<bar>end - start\<bar>, rheight = 4\<rparr>) (messageGeometry d m)"

definition compositionFrames :: "sequence_diagram \<Rightarrow> frame list" where
  "compositionFrames d = map (\<lambda>(i, sg).
     \<lparr>fr_shape = Frame_rect \<lparr>rx = 48, ry = sg_from sg, rwidth = fst (seq_viewBox d) - 96, rheight = sg_to sg - sg_from sg\<rparr> 10,
      fr_kind = Some (js ''segment''), fr_label = Some (sg_label sg), fr_id = Some (decimal i)\<rparr>) (enumerate 0 (sq_segments d))"

text \<open>A message as the relation that the gates see; its position identifies it.\<close>

definition message_relation :: "nat \<times> message \<Rightarrow> Routes.relation" where
  "message_relation = (\<lambda>(i, m).
     \<lparr>oid = i, rel_key = None, rel_id = ms_id m, rel_from = ms_from m, rel_to = ms_to m, rel_label = Some (ms_label m),
      fromSide = None, toSide = None, rel_route = None, via = None, channelX = None, channelY = None, labelAt = None,
      labelDx = None, labelDy = None, labelSegment = None\<rparr>)"

definition message_relations :: "sequence_diagram \<Rightarrow> Routes.relation list" where
  "message_relations d = map message_relation (enumerate 0 (sq_messages d))"

definition messagePath :: "sequence_diagram \<Rightarrow> message \<Rightarrow> point list" where
  "messagePath d m =
     (case (center_of d (ms_from m), center_of d (ms_to m)) of (Some f, Some t) \<Rightarrow> [(f, ms_y m), (t, ms_y m)] | _ \<Rightarrow> [])"

definition relation_path :: "sequence_diagram \<Rightarrow> Routes.relation \<Rightarrow> point list option" where
  "relation_path d r = Some (messagePath d (sq_messages d ! oid r))"

section \<open>Validation\<close>

datatype sequence_problem =
    Participant_ids
  | Short_timeline
  | Participant_label jstring
  | Participant_brand jstring
  | Participant_sublabel jstring
  | Message_source jstring
  | Message_target jstring
  | Message_outside jstring
  | Message_short jstring
  | Sequence_gate problem
  | Messages_crowded jstring jstring
  | Message_labels_overlap jstring jstring
  | Segment_range jstring
  | Segment_outside jstring
  | Activation_participant jstring
  | Activation_range jstring
  | Participants_exceed real

text \<open>\<open>branded\<close> tells whether \<open>brandMarkFor\<close> finds a mark; 6 is the legible minimum of sublabels, 8 that of labels.\<close>

definition participant_problems :: "(participant \<Rightarrow> bool) \<Rightarrow> real \<Rightarrow> participant \<Rightarrow> sequence_problem list" where
  "participant_problems branded width p =
     (if width + 6 < real (textUnits (pt_label p)) * (68 / 10) then [Participant_label (pt_id p)] else []) @
     (if branded p \<and> width - 48 < real (textUnits (pt_label p)) * 8 * (6 / 10) then [Participant_brand (pt_id p)] else []) @
     (if truthy (pt_sublabel p) \<and> availableNodeTextWidth width < minimumNodeTextWidth (or_empty (pt_sublabel p)) 6
      then [Participant_sublabel (pt_id p)] else [])"

definition message_problems :: "sequence_diagram \<Rightarrow> message \<Rightarrow> sequence_problem list" where
  "message_problems d m =
     (let l = sequence_layout_of d; f = center_of d (ms_from m); t = center_of d (ms_to m)
      in (if f = None then [Message_source (ms_label m)] else []) @
         (if t = None then [Message_target (ms_label m)] else []) @
         (if ms_y m < sl_lifelineTop l + 18 \<or> sl_lifelineBottom l - 18 < ms_y m then [Message_outside (ms_label m)] else []) @
         (case (f, t) of (Some x, Some x') \<Rightarrow> if \<bar>x' - x\<bar> < 60 then [Message_short (ms_label m)] else [] | _ \<Rightarrow> []))"

definition sequence_context :: gate_context where
  "sequence_context = \<lparr>gc_diagramType = js ''sequence'', gc_collection = js ''messages'', gc_routeHint = []\<rparr>"

text \<open>The gates before the crowding check; their hints are left out.\<close>

definition sequence_gates :: "jstring option \<Rightarrow> sequence_diagram \<Rightarrow> problem list" where
  "sequence_gates env d =
     (let rs = message_relations d; ids = set (participant_ids d); path = relation_path d; profile = sq_profile d; c = sequence_context
      in cleanFlowProblems c rs (headers d) path (js ''participant header'') 0 @
         cleanCrossingProblems c env rs ids path profile False False @
         cleanAmbiguousCorridorProblems c env rs (Some ids) path profile False 8 @
         cleanBorderRunProblems c env rs (Some ids) (compositionFrames d) path profile False @
         cleanRouteRhythmProblems c env rs (Some ids) path profile False 16 8)"

record placed_message =
  pm_label :: jstring
  pm_y :: real
  pm_x1 :: real
  pm_x2 :: real

definition placed_messages :: "sequence_diagram \<Rightarrow> placed_message list" where
  "placed_messages d = sort_key pm_y (List.map_filter (\<lambda>m.
     case (center_of d (ms_from m), center_of d (ms_to m)) of
       (Some f, Some t) \<Rightarrow> Some \<lparr>pm_label = ms_label m, pm_y = ms_y m, pm_x1 = min f t, pm_x2 = max f t\<rparr>
     | _ \<Rightarrow> None) (sq_messages d))"

definition share_space :: "placed_message \<Rightarrow> placed_message \<Rightarrow> bool" where
  "share_space a b \<longleftrightarrow> pm_x1 a < pm_x2 b \<and> pm_x1 b < pm_x2 a"

text \<open>The inner loop stops at the first message that is 28 or more below.\<close>

fun crowded_messages :: "placed_message list \<Rightarrow> sequence_problem list" where
  "crowded_messages [] = []"
| "crowded_messages (a # ms) =
     map (\<lambda>b. Messages_crowded (pm_label a) (pm_label b)) (filter (share_space a) (takeWhile (\<lambda>b. pm_y b - pm_y a < 28) ms)) @
     crowded_messages ms"

definition message_labels :: "sequence_diagram \<Rightarrow> label_entry list" where
  "message_labels d = List.map_filter (\<lambda>(i, m). map_option (\<lambda>r.
     \<lparr>le_rect = r, le_relation = Some (message_relation (i, m)), le_index = Some i, le_label = Some (ms_label m)\<rparr>) (messageLabelBox d m))
     (enumerate 0 (sq_messages d))"

definition label_overlaps :: "sequence_diagram \<Rightarrow> sequence_problem list" where
  "label_overlaps d = map (\<lambda>(a, b). Message_labels_overlap (or_empty (le_label a)) (or_empty (le_label b)))
     (filter (\<lambda>(a, b). rectsOverlap (le_rect a) (le_rect b) (- 2)) (ordered_pairs (message_labels d)))"

definition sequence_label_gate :: "jstring option \<Rightarrow> sequence_diagram \<Rightarrow> problem list" where
  "sequence_label_gate env d =
     cleanLabelRouteClearanceProblems sequence_context env (message_relations d) (message_labels d) (Some (set (participant_ids d)))
       (relation_path d) (sq_profile d) False 4"

definition segment_problems :: "sequence_diagram \<Rightarrow> time_segment \<Rightarrow> sequence_problem list" where
  "segment_problems d sg =
     (let l = sequence_layout_of d
      in (if sg_to sg \<le> sg_from sg then [Segment_range (sg_label sg)] else []) @
         (if sg_from sg < sl_topY l \<or> sl_lifelineBottom l + 20 < sg_to sg then [Segment_outside (sg_label sg)] else []))"

definition activation_problems :: "sequence_diagram \<Rightarrow> activation \<Rightarrow> sequence_problem list" where
  "activation_problems d a =
     (if participants d (ac_participant a) = None then [Activation_participant (ac_participant a)] else []) @
     (if ac_to a \<le> ac_from a then [Activation_range (ac_participant a)] else [])"

text \<open>The width that the last participant asks for.\<close>

definition width_problems :: "sequence_diagram \<Rightarrow> sequence_problem list" where
  "width_problems d =
     (case sq_participants d of
        [] \<Rightarrow> []
      | _ \<Rightarrow>
          let right = the (center_of d (pt_id (last (sq_participants d)))) + sl_participantW (sequence_layout_of d) / 2
          in if fst (seq_viewBox d) - 40 < right then [Participants_exceed (of_int \<lceil>right + 40\<rceil>)] else [])"

definition validateSequence :: "jstring option \<Rightarrow> (participant \<Rightarrow> bool) \<Rightarrow> sequence_diagram \<Rightarrow> sequence_problem list" where
  "validateSequence env branded d =
     (let l = sequence_layout_of d
      in (if length (participant_ids d) \<noteq> length (sq_participants d) then [Participant_ids] else []) @
         (if sl_lifelineBottom l - sl_lifelineTop l < 120 then [Short_timeline] else []) @
         concat (map (\<lambda>i. participant_problems branded (sl_participantW l) (snd (the (participants d i)))) (participant_ids d)) @
         concat (map (message_problems d) (sq_messages d)) @
         map Sequence_gate (sequence_gates env d) @
         crowded_messages (placed_messages d) @
         label_overlaps d @
         map Sequence_gate (sequence_label_gate env d) @
         concat (map (segment_problems d) (sq_segments d)) @
         concat (map (activation_problems d) (sq_activations d)) @
         width_problems d)"

section \<open>Segment labels\<close>

definition occupied :: "sequence_diagram \<Rightarrow> rect list" where
  "occupied d = concat (map (\<lambda>m. List.map_filter id [messageLabelBox d m, messageRouteBox d m]) (sq_messages d))"

definition segment_label_rect :: "time_segment \<Rightarrow> real \<Rightarrow> rect" where
  "segment_label_rect sg y = \<lparr>rx = 56, ry = y, rwidth = max 42 (real (textUnits (sg_label sg)) * (52 / 10) + 14), rheight = 18\<rparr>"

fun lift_label :: "rect list \<Rightarrow> nat \<Rightarrow> rect \<Rightarrow> rect" where
  "lift_label blocked 0 r = r"
| "lift_label blocked (Suc n) r =
     (if \<exists>b\<in>set blocked. rectsOverlap r b 2 then lift_label blocked n (r\<lparr>ry := ry r - 22\<rparr>) else r)"

text \<open>\<open>renderSegmentLabel\<close>: the place of the label, after at most four steps up.\<close>

definition segmentLabelBox :: "sequence_diagram \<Rightarrow> time_segment \<Rightarrow> rect" where
  "segmentLabelBox d sg = lift_label (occupied d) 4 (segment_label_rect sg (sg_from sg - 22))"

section \<open>Drawing\<close>

definition renderActivationBox :: "sequence_diagram \<Rightarrow> activation \<Rightarrow> rect option" where
  "renderActivationBox d a = map_option (\<lambda>cx. \<lparr>rx = cx - 5, ry = ac_from a, rwidth = 10, rheight = ac_to a - ac_from a\<rparr>) (center_of d (ac_participant a))"

definition drawn_message :: "sequence_diagram \<Rightarrow> message \<Rightarrow> point list option" where
  "drawn_message d m = map_option (\<lambda>(start, end, center). [(start, ms_y m), (end, ms_y m)]) (messageGeometry d m)"

definition sequence_catalog :: "(jstring \<Rightarrow> jstring) \<Rightarrow> catalog_entry list" where
  "sequence_catalog label = map (\<lambda>k. \<lparr>cg_kind = k, cg_label = label k, cg_interactive = Some False, cg_swatchWidth = Some 34, cg_swatchGap = Some 9\<rparr>)
     [js ''emphasis'', js ''return'', js ''security'', js ''dashed'', js ''default'']"

definition sequence_legend :: "(jstring \<Rightarrow> jstring) \<Rightarrow> sequence_diagram \<Rightarrow> legend_error + placed_legend option" where
  "sequence_legend label d =
     (let l = sequence_layout_of d;
          present = map (\<lambda>m. if truthy (ms_variant m) then or_empty (ms_variant m) else js ''default'') (sq_messages d)
      in measureLegend (resolveLegend (sq_legend d) (sequence_catalog label) present)
           \<lparr>ly_x = 40, ly_baselineY = sl_legendY l, ly_width = fst (seq_viewBox d) - 80, ly_fontSize = 8, ly_itemGap = 22,
            ly_lineGap = 22, ly_swatchGap = 8, ly_minTitleY = sl_legendY l - 30, ly_obstacles = [], ly_hide = (sq_legend d = None)\<rparr>)"

text \<open>The geometry of the drawing; nothing is drawn when the validation has problems or the legend fails.\<close>

datatype sequence_failure = Sequence_problems "sequence_problem list" | Sequence_legend legend_error

record sequence_drawing =
  sd_headers :: "box list"
  sd_messages :: "(message \<times> point list) list"
  sd_labels :: "rect list"
  sd_segments :: "rect list"
  sd_segment_labels :: "rect list"
  sd_activations :: "rect list"
  sd_legend :: "placed_legend option"

definition renderSequence ::
  "jstring option \<Rightarrow> (participant \<Rightarrow> bool) \<Rightarrow> (jstring \<Rightarrow> jstring) \<Rightarrow> sequence_diagram \<Rightarrow> sequence_failure + sequence_drawing" where
  "renderSequence env branded label d =
     bind_result (throw_if (validateSequence env branded d \<noteq> []) (Sequence_problems (validateSequence env branded d))) (\<lambda>_.
       case sequence_legend label d of
         Inl e \<Rightarrow> Inl (Sequence_legend e)
       | Inr legend \<Rightarrow> Inr
          \<lparr>sd_headers = headers d,
           sd_messages = List.map_filter (\<lambda>m. map_option (Pair m) (drawn_message d m)) (sq_messages d),
           sd_labels = List.map_filter (messageLabelBox d) (sq_messages d),
           sd_segments = map (\<lambda>sg. \<lparr>rx = 48, ry = sg_from sg, rwidth = fst (seq_viewBox d) - 96, rheight = sg_to sg - sg_from sg\<rparr>) (sq_segments d),
           sd_segment_labels = map (segmentLabelBox d) (sq_segments d),
           sd_activations = List.map_filter (renderActivationBox d) (sq_activations d),
           sd_legend = legend\<rparr>)"

end
