(* ===== verification/Sequence_Laws.thy ===== *)
theory Sequence_Laws
  imports Sequence_Diagram Gate_Laws
begin

text \<open>
Laws of the sequence renderer: headers stay apart, straight messages never trip the gates on headers, crossings,
corridors and rhythm, the crowding loop finds every crowded pair, and \<open>validateSequence\<close> decides the predicate
\<open>readable_sequence\<close>.
\<close>

section \<open>Columns\<close>

lemma participantW_bounds: "86 \<le> participantW d" "participantW d \<le> 190"
  by (auto simp: participantW_def)

lemma js_round_le: "of_int (js_round v) \<le> v + 1 / 2"
  by (simp add: js_round_def)

text \<open>Two neighbouring headers always leave 22 between them, however many participants share the canvas.\<close>

lemma column_gap:
  assumes "2 \<le> length (sq_participants d)"
  shows "participantW d + 22 \<le> colGap d"
proof (cases "spreads d \<and> 86 < participantW d")
  case False
  then show ?thesis using participantW_bounds(1) [of d] by (auto simp: colGap_def participantW_def)
next
  case True
  let ?n = "real (participantCount d)" and ?v = "fst (seq_viewBox d)" and ?W = "participantW d"
  have n: "2 \<le> ?n" "1 < participantCount d" using assms by (simp_all add: participantCount_def)
  have "?W \<le> of_int (js_round ((?v - 124) / ?n)) - 24"
    using True by (auto simp: participantW_def sideMargin_def)
  then have w: "?W \<le> (?v - 124) / ?n - 47 / 2" using js_round_le [of "(?v - 124) / ?n"] by simp
  have "?W * ?n \<le> ((?v - 124) / ?n - 47 / 2) * ?n" using mult_right_mono [OF w] n(1) by simp
  also have "\<dots> = ?v - 124 - 47 / 2 * ?n" using n(1) by (simp add: field_simps)
  finally have "(?W + 22) * (?n - 1) \<le> ?v - 102 - ?W" using n(1) by (simp add: algebra_simps)
  then have "?W + 22 \<le> (?v - 102 - ?W) / (?n - 1)" using n(1) by (simp add: pos_le_divide_eq)
  then show ?thesis using True n(2) by (simp add: colGap_def sideMargin_def)
qed

lemma participants_Some:
  assumes "participants d i = Some (k, p)"
  shows "k < length (sq_participants d)" "p = sq_participants d ! k" "pt_id p = i"
proof -
  have "(i, k, p) \<in> set (map (\<lambda>(i, p). (pt_id p, i, p)) (enumerate 0 (sq_participants d)))"
    using map_of_SomeD [OF assms [unfolded participants_def]] by simp
  then show "k < length (sq_participants d)" "p = sq_participants d ! k" "pt_id p = i" by (auto simp: in_set_enumerate_eq)
qed

lemma participants_None: "participants d i = None \<longleftrightarrow> i \<notin> pt_id ` set (sq_participants d)"
proof -
  have "(\<lambda>x. fst (case x of (i, p) \<Rightarrow> (pt_id p, i, p))) = (\<lambda>x :: nat \<times> participant. pt_id (snd x))" by (auto split: prod.splits)
  then have "fst ` set (map (\<lambda>(i, p). (pt_id p, i, p)) (enumerate 0 (sq_participants d))) = pt_id ` snd ` set (enumerate 0 (sq_participants d))"
    by (simp only: set_map image_image)
  also have "snd ` set (enumerate 0 (sq_participants d)) = set (sq_participants d)" by (metis set_map map_snd_enumerate)
  finally show ?thesis by (simp add: participants_def map_of_eq_None_iff)
qed

lemma set_participant_ids [simp]: "set (participant_ids d) = pt_id ` set (sq_participants d)"
  by (simp add: participant_ids_def)

lemma header_member:
  "b \<in> set (headers d) \<longleftrightarrow> (\<exists>i k p. participants d i = Some (k, p) \<and> b = participant_box d (k, p))"
proof -
  have i: "participants d i = Some v \<Longrightarrow> i \<in> set (participant_ids d)" for i v
    using participants_None [of d i] by auto
  show ?thesis
  proof
    assume "b \<in> set (headers d)"
    then show "\<exists>i k p. participants d i = Some (k, p) \<and> b = participant_box d (k, p)" by (auto simp: headers_def set_map_filter_iff)
  next
    assume "\<exists>i k p. participants d i = Some (k, p) \<and> b = participant_box d (k, p)"
    then obtain i k p where "participants d i = Some (k, p)" "b = participant_box d (k, p)" by blast
    then show "b \<in> set (headers d)" using i [of i "(k, p)"] unfolding headers_def set_map_filter_iff by (auto simp del: set_participant_ids)
  qed
qed

lemma header_fields [simp]:
  "ry (participant_box d v) = 72" "rheight (participant_box d v) = 54" "rwidth (participant_box d v) = participantW d"
  "rx (participant_box d v) = participantX d (fst v) - participantW d / 2" "bcx (participant_box d v) = participantX d (fst v)"
  "bid (participant_box d v) = pt_id (snd v)"
  by (simp_all add: participant_box_def Let_def sequence_layout_of_def split: prod.splits)

lemma header_ids: "bid ` set (headers d) = set (participant_ids d)"
proof -
  have "i \<in> bid ` set (headers d)" if i: "i \<in> set (participant_ids d)" for i
  proof -
    obtain k p where p: "participants d i = Some (k, p)" using i participants_None [of d i] by auto
    then have "participant_box d (k, p) \<in> set (headers d)" by (auto simp: header_member)
    then show ?thesis using participants_Some(3) [OF p] by force
  qed
  moreover have "bid b \<in> set (participant_ids d)" if b: "b \<in> set (headers d)" for b
  proof -
    obtain i k p where p: "participants d i = Some (k, p)" "b = participant_box d (k, p)" using b by (auto simp: header_member)
    then show ?thesis using participants_Some [OF p(1)] by auto
  qed
  ultimately show ?thesis by blast
qed

lemma headers_apart:
  assumes "a \<in> set (headers d)" "b \<in> set (headers d)" "a \<noteq> b"
  shows "\<not> rectsOverlap a b 22"
proof -
  obtain i k p i' k' p' where a: "participants d i = Some (k, p)" "a = participant_box d (k, p)"
    and b: "participants d i' = Some (k', p')" "b = participant_box d (k', p')"
    using assms by (auto simp: header_member)
  note pa = participants_Some [OF a(1)] and pb = participants_Some [OF b(1)]
  have kk: "k \<noteq> k'" using a b pa pb assms(3) by auto
  then have "2 \<le> length (sq_participants d)" using pa(1) pb(1) by auto
  note gap = column_gap [OF this]
  have x: "rx a = participantX d k - participantW d / 2" "rx b = participantX d k' - participantW d / 2"
    "rwidth a = participantW d" "rwidth b = participantW d" by (simp_all add: a b)
  have step: "participantX d m + participantW d + 22 \<le> participantX d m'" if "m < m'" for m m'
  proof -
    have "colGap d * 1 \<le> colGap d * (real m' - real m)"
      using that gap participantW_bounds(1) [of d] by (intro mult_left_mono) auto
    then show ?thesis using gap by (simp add: participantX_def sequence_layout_of_def algebra_simps)
  qed
  show ?thesis using step [of k k'] step [of k' k] kk unfolding rectsOverlap_def x by (cases k k' rule: linorder_cases) auto
qed

text \<open>With \<open>spread\<close> the last header ends exactly 40 before the right edge, unless the least gap is in force.\<close>

lemma spread_right_edge:
  assumes "spreads d" "2 \<le> length (sq_participants d)"
    and "108 * (real (length (sq_participants d)) - 1) \<le> fst (seq_viewBox d) - 102 - participantW d"
  shows "participantX d (length (sq_participants d) - 1) + participantW d / 2 = fst (seq_viewBox d) - 40"
proof -
  let ?n = "real (length (sq_participants d))"
  have c: "real (participantCount d) = ?n" "1 < participantCount d" using assms(2) by (simp_all add: participantCount_def)
  have "108 \<le> (fst (seq_viewBox d) - 102 - participantW d) / (?n - 1)"
    using assms(2,3) by (subst pos_le_divide_eq) auto
  then have g: "colGap d = (fst (seq_viewBox d) - 102 - participantW d) / (?n - 1)"
    using assms(1) c by (simp add: colGap_def sideMargin_def)
  have "participantX d (length (sq_participants d) - 1) = 62 + participantW d / 2 + (?n - 1) * colGap d"
    using assms(1,2) by (simp add: participantX_def sequence_layout_of_def sideMargin_def of_nat_diff)
  moreover have "(?n - 1) * colGap d = fst (seq_viewBox d) - 102 - participantW d"
    using assms(2) unfolding g by simp
  ultimately show ?thesis by simp
qed

section \<open>Single messages\<close>

text \<open>A message that passes its own checks, between its two columns.\<close>

definition runs_between :: "sequence_diagram \<Rightarrow> message \<Rightarrow> real \<Rightarrow> real \<Rightarrow> bool" where
  "runs_between d m f t \<longleftrightarrow> center_of d (ms_from m) = Some f \<and> center_of d (ms_to m) = Some t \<and>
     160 \<le> ms_y m \<and> ms_y m + 83 \<le> snd (seq_viewBox d) \<and> 60 \<le> \<bar>t - f\<bar>"

lemma message_problems_Nil: "message_problems d m = [] \<longleftrightarrow> (\<exists>f t. runs_between d m f t)"
  by (auto simp: message_problems_def runs_between_def Let_def sequence_layout_of_def not_less split: option.splits if_splits)

lemma runs_path: "runs_between d m f t \<Longrightarrow> messagePath d m = [(f, ms_y m), (t, ms_y m)]"
  by (simp add: runs_between_def messagePath_def)

lemma runs_known: "runs_between d m f t \<Longrightarrow> ms_from m \<in> set (participant_ids d) \<and> ms_to m \<in> set (participant_ids d)"
  using participants_None [of d "ms_from m"] participants_None [of d "ms_to m"] by (auto simp: runs_between_def center_of_def)

lemma relation_simps [simp]:
  "rel_from (message_relation (i, m)) = ms_from m" "rel_to (message_relation (i, m)) = ms_to m" "oid (message_relation (i, m)) = i"
  by (simp_all add: message_relation_def)

lemma length_relations [simp]: "length (message_relations d) = length (sq_messages d)"
  by (simp add: message_relations_def)

lemma relations_nth: "i < length (sq_messages d) \<Longrightarrow> message_relations d ! i = message_relation (i, sq_messages d ! i)"
  by (simp add: message_relations_def nth_enumerate_eq)

lemma relation_path_nth: "relation_path d (message_relation (i, m)) = Some (messagePath d (sq_messages d ! i))"
  by (simp add: relation_path_def)

section \<open>Silent gates\<close>

lemma horizontal_clears:
  assumes "ry r + rheight r + g + 1 \<le> y" "1 \<le> \<bar>t - f\<bar>" "0 \<le> rheight r + 2 * g"
  shows "\<not> segmentIntersectsRect ((f, y), (t, y)) r g"
proof -
  have far: "1 \<le> \<bar>(t - f) * (v - y)\<bar>" if "v \<le> ry r + rheight r + g" for v
  proof -
    have "1 \<le> \<bar>v - y\<bar>" using that assms(1) by simp
    then have "1 * 1 \<le> \<bar>t - f\<bar> * \<bar>v - y\<bar>" using assms(2) by (intro mult_mono) auto
    then show ?thesis by (simp add: abs_mult)
  qed
  have o: "orientation (f, y) (t, y) (u, v) = (if (t - f) * (v - y) < 0 then 1 else 2)" if "v \<le> ry r + rheight r + g" for u v
    using far [OF that] by (auto simp: orientation_def Let_def)
  have same: "((t - f) * (v - y) < 0) = ((t - f) * (v' - y) < 0)" if "v \<le> ry r + rheight r + g" "v' \<le> ry r + rheight r + g" for v v'
    using that assms(1) by (auto simp: mult_less_0_iff)
  have "\<not> segmentsIntersect (f, y) (t, y) (u, v) (u', v')" if "v \<le> ry r + rheight r + g" "v' \<le> ry r + rheight r + g" for u v u' v'
  proof -
    have "\<not> onSegment (u, v) (w, y) (u', v')" for w using that assms(1) by (auto simp: onSegment_def)
    then show ?thesis using o [OF that(1)] o [OF that(2)] same [OF that] unfolding segmentsIntersect_def Let_def by auto
  qed
  moreover have "\<not> pointInBox (w, y) (expand_rect r g)" for w using assms(1) by (simp add: pointInBox_def expand_rect_def)
  ultimately show ?thesis using assms(3) unfolding segmentIntersectsRect_def Let_def by (simp add: expand_rect_def)
qed

lemma flow_silent:
  assumes "\<forall>m\<in>set (sq_messages d). message_problems d m = []"
  shows "cleanFlowProblems c (message_relations d) (headers d) (relation_path d) kind 0 = []"
proof -
  have "flow_problem c kind 0 i (message_relation (i, m)) (messagePath d m) b = None" if m: "m \<in> set (sq_messages d)" and b: "b \<in> set (headers d)" for i m b
  proof -
    obtain f t where r: "runs_between d m f t" using assms m by (auto simp: message_problems_Nil)
    obtain i k p where "b = participant_box d (k, p)" using b by (auto simp: header_member)
    then have "\<not> segmentIntersectsRect ((f, ms_y m), (t, ms_y m)) b 0"
      using r by (intro horizontal_clears) (simp_all add: runs_between_def)
    then show ?thesis by (simp add: flow_problem_def flow_hit_def runs_path [OF r] find_index_def)
  qed
  then show ?thesis
    unfolding cleanFlowProblems_def concat_map_Nil_iff ball_enumerate
    by (auto simp: relations_nth relation_path_nth map_filter_Nil_iff)
qed

lemma crossing_silent: "cleanCrossingProblems c env (message_relations d) ids (relation_path d) profile a False = []"
proof -
  have horizontal: "\<exists>f t y. messagePath d m = [(f, y), (t, y)] \<or> messagePath d m = []" for m
    by (auto simp: messagePath_def split: option.splits)
  have none: "properSegmentIntersection (f, y) (t, y) (f', y') (t', y') = None" for f y t f' y' t'
    by (simp add: properSegmentIntersection_def Let_def crossProduct_def)
  have "crossing_hit (\<lparr>cr_relation = r, cr_index = i, cr_segments = authoredAnalysisSegments (messagePath d m)\<rparr>)
      (\<lparr>cr_relation = r', cr_index = i', cr_segments = authoredAnalysisSegments (messagePath d m')\<rparr>) = None" for r i m r' i' m'
    using horizontal [of m] horizontal [of m'] none by (auto simp: crossing_hit_None authoredAnalysisSegments_def)
  then have "crossing_hit v w = None"
    if "(v, w) \<in> set (ordered_pairs (crossing_routes (message_relations d) ids (relation_path d) False))" for v w
    using that unfolding crossing_routes_def by (auto simp: ordered_pairs_map_filter relation_path_def split: if_splits option.splits)
  then show ?thesis unfolding cleanCrossingProblems_def by (auto simp: map_filter_Nil_iff split: option.splits)
qed

lemma eligible_messages:
  assumes "\<forall>m\<in>set (sq_messages d). message_problems d m = []"
  shows "collectEligibleRoutedRelations (message_relations d) (Some (set (participant_ids d))) (relation_path d) =
    map (\<lambda>(i, m). \<lparr>ro_relation = Some (message_relation (i, m)), ro_index = Some i, ro_points = messagePath d m\<rparr>) (enumerate 0 (sq_messages d))"
proof -
  have mf: "List.map_filter f (enumerate 0 (message_relations d)) = map g (enumerate 0 (sq_messages d))"
    if "\<And>i. i < length (sq_messages d) \<Longrightarrow> f (i, message_relation (i, sq_messages d ! i)) = Some (g (i, sq_messages d ! i))" for f and g :: "nat \<times> message \<Rightarrow> routed"
  proof -
    have "enumerate 0 (message_relations d) = map (\<lambda>(i, m). (i, message_relation (i, m))) (enumerate 0 (sq_messages d))"
      by (rule nth_equalityI) (simp_all add: nth_enumerate_eq relations_nth)
    moreover have "List.map_filter f (map (\<lambda>(i, m). (i, message_relation (i, m))) xs) = map g xs"
      if "\<forall>(i, m)\<in>set xs. f (i, message_relation (i, m)) = Some (g (i, m))" for xs
      using that by (induction xs) (auto simp: map_filter_simps)
    moreover have "\<forall>(i, m)\<in>set (enumerate 0 (sq_messages d)). f (i, message_relation (i, m)) = Some (g (i, m))"
      using that by (auto simp: in_set_enumerate_eq)
    ultimately show ?thesis by simp
  qed
  have known: "ms_from (sq_messages d ! i) \<in> set (participant_ids d)" "ms_to (sq_messages d ! i) \<in> set (participant_ids d)"
    if "i < length (sq_messages d)" for i
    using assms that runs_known by (metis message_problems_Nil nth_mem)+
  show ?thesis unfolding collectEligibleRoutedRelations_def
    by (rule mf) (use known in \<open>simp add: relation_path_nth del: set_participant_ids\<close>)
qed

lemma normalize_span:
  assumes "1 \<le> \<bar>t - f\<bar>"
  shows "normalizeRoutePoints [(f, y), (t, y)] = [(f, y), (t, y)]"
  using assms by (simp add: normalizeRoutePoints_def dedupe_step_def normalize_step_def pop_collinear.simps)

lemma runs_normal: "runs_between d m f t \<Longrightarrow> normalizeRoutePoints (messagePath d m) = [(f, ms_y m), (t, ms_y m)]"
proof -
  assume r: "runs_between d m f t"
  then have "1 \<le> \<bar>t - f\<bar>" by (simp add: runs_between_def)
  then show ?thesis by (simp add: runs_path [OF r] normalize_span)
qed

lemma rhythm_silent:
  assumes "\<forall>m\<in>set (sq_messages d). message_problems d m = []"
  shows "cleanRouteRhythmProblems c env (message_relations d) (Some (set (participant_ids d))) (relation_path d) profile a 16 8 = []"
proof -
  have "route_rhythm_issues 16 8 (k, \<lparr>ro_relation = r, ro_index = i, ro_points = messagePath d m\<rparr>) = []" if "m \<in> set (sq_messages d)" for k r i m
  proof -
    obtain f t where "runs_between d m f t" using assms \<open>m \<in> set (sq_messages d)\<close> by (auto simp: message_problems_Nil)
    then have "normalizeRoutePoints (messagePath d m) = [(f, ms_y m), (t, ms_y m)]" "60 \<le> \<bar>t - f\<bar>"
      using runs_normal by (simp_all add: runs_between_def)
    then show ?thesis by (simp add: route_rhythm_issues_def segment_rhythm_issue_def manhattan_def segmentPosition_def
        rhythm_code_for_def Let_def map_filter_simps)
  qed
  then have "collectRouteRhythmIssues (collectEligibleRoutedRelations (message_relations d) (Some (set (participant_ids d))) (relation_path d)) 16 8 = []"
    unfolding eligible_messages [OF assms] collectRouteRhythmIssues_def concat_map_Nil_iff by (auto simp: in_set_enumerate_eq nth_enumerate_eq)
  then show ?thesis by (simp add: cleanRouteRhythmProblems_def)
qed

section \<open>Crowding\<close>

text \<open>Two messages that are 28 apart or share no horizontal space.\<close>

definition uncrowded :: "placed_message \<Rightarrow> placed_message \<Rightarrow> bool" where
  "uncrowded a b \<longleftrightarrow> 28 \<le> \<bar>pm_y b - pm_y a\<bar> \<or> \<not> share_space a b"

lemma uncrowded_sym: "uncrowded a b = uncrowded b a"
  by (auto simp: uncrowded_def share_space_def abs_minus_commute)

lemma takeWhile_close:
  assumes "sorted (map pm_y ms)" "b \<in> set ms" "pm_y b - v < 28"
  shows "b \<in> set (takeWhile (\<lambda>b. pm_y b - v < 28) ms)"
  using assms by (induction ms) auto

lemma crowded_Nil:
  assumes "sorted (map pm_y ms)"
  shows "crowded_messages ms = [] \<longleftrightarrow> sorted_wrt uncrowded ms"
  using assms
proof (induction ms)
  case (Cons a ms)
  have s: "sorted (map pm_y ms)" "\<forall>b\<in>set ms. pm_y a \<le> pm_y b" using Cons.prems by auto
  have "filter (share_space a) (takeWhile (\<lambda>b. pm_y b - pm_y a < 28) ms) = [] \<longleftrightarrow> (\<forall>b\<in>set ms. uncrowded a b)"
  proof
    assume n: "filter (share_space a) (takeWhile (\<lambda>b. pm_y b - pm_y a < 28) ms) = []"
    show "\<forall>b\<in>set ms. uncrowded a b"
    proof
      fix b assume b: "b \<in> set ms"
      show "uncrowded a b"
      proof (cases "pm_y b - pm_y a < 28")
        case True
        then show ?thesis using takeWhile_close [OF s(1) b True] n by (auto simp: uncrowded_def filter_empty_conv)
      qed (auto simp: uncrowded_def)
    qed
  next
    assume u: "\<forall>b\<in>set ms. uncrowded a b"
    show "filter (share_space a) (takeWhile (\<lambda>b. pm_y b - pm_y a < 28) ms) = []"
    proof (rule ccontr)
      assume "filter (share_space a) (takeWhile (\<lambda>b. pm_y b - pm_y a < 28) ms) \<noteq> []"
      then obtain b where "b \<in> set (takeWhile (\<lambda>b. pm_y b - pm_y a < 28) ms)" "share_space a b" by (auto simp: filter_empty_conv)
      then have "b \<in> set ms" "pm_y b - pm_y a < 28" "share_space a b" by (auto dest: set_takeWhileD)
      then show False using u s(2) by (fastforce simp: uncrowded_def)
    qed
  qed
  then show ?case using Cons.IH [OF s(1)] by simp
qed simp

lemma sorted_wrt_insort: "sorted_wrt uncrowded (insort_key f a ms) \<longleftrightarrow> (\<forall>b\<in>set ms. uncrowded a b) \<and> sorted_wrt uncrowded ms"
  by (induction ms) (auto simp: set_insort_key uncrowded_sym)

lemma sorted_wrt_sort: "sorted_wrt uncrowded (sort_key f ms) \<longleftrightarrow> sorted_wrt uncrowded ms"
  by (induction ms) (simp_all add: sorted_wrt_insort)

definition place_message :: "sequence_diagram \<Rightarrow> message \<Rightarrow> placed_message option" where
  "place_message d m = (case (center_of d (ms_from m), center_of d (ms_to m)) of
     (Some f, Some t) \<Rightarrow> Some \<lparr>pm_label = ms_label m, pm_y = ms_y m, pm_x1 = min f t, pm_x2 = max f t\<rparr> | _ \<Rightarrow> None)"

text \<open>What the crowding loop decides, independently of its sorting and its early exit.\<close>

definition spread_out :: "sequence_diagram \<Rightarrow> bool" where
  "spread_out d \<longleftrightarrow> (\<forall>i j a b. i < j \<and> j < length (sq_messages d) \<and> place_message d (sq_messages d ! i) = Some a \<and>
     place_message d (sq_messages d ! j) = Some b \<longrightarrow> uncrowded a b)"

lemma sorted_wrt_map_filter:
  "sorted_wrt P (List.map_filter f vs) \<longleftrightarrow> (\<forall>i j a b. i < j \<and> j < length vs \<and> f (vs ! i) = Some a \<and> f (vs ! j) = Some b \<longrightarrow> P a b)"
proof (induction vs)
  case (Cons v vs)
  have all: "(\<forall>i j a b. i < j \<and> j < length (v # vs) \<and> f ((v # vs) ! i) = Some a \<and> f ((v # vs) ! j) = Some b \<longrightarrow> P a b) \<longleftrightarrow>
      (\<forall>a b. f v = Some a \<longrightarrow> (\<exists>w\<in>set vs. f w = Some b) \<longrightarrow> P a b) \<and>
      (\<forall>i j a b. i < j \<and> j < length vs \<and> f (vs ! i) = Some a \<and> f (vs ! j) = Some b \<longrightarrow> P a b)" (is "?l \<longleftrightarrow> ?r")
  proof
    assume l: ?l
    have "P a b" if "f v = Some a" "w \<in> set vs" "f w = Some b" for a b w
    proof -
      obtain j where "j < length vs" "w = vs ! j" using \<open>w \<in> set vs\<close> by (metis in_set_conv_nth)
      then show ?thesis using l [rule_format, of 0 "Suc j" a b] that by simp
    qed
    moreover have "P a b" if "i < j" "j < length vs" "f (vs ! i) = Some a" "f (vs ! j) = Some b" for i j a b
      using l [rule_format, of "Suc i" "Suc j" a b] that by simp
    ultimately show ?r by blast
  next
    assume r: ?r
    show ?l
    proof (intro allI impI)
      fix i j a b
      assume h: "i < j \<and> j < length (v # vs) \<and> f ((v # vs) ! i) = Some a \<and> f ((v # vs) ! j) = Some b"
      then obtain j' where j: "j = Suc j'" by (cases j) auto
      show "P a b"
      proof (cases i)
        case 0
        then have "f v = Some a" "vs ! j' \<in> set vs" "f (vs ! j') = Some b" using h j by auto
        then show ?thesis using r by blast
      next
        case (Suc i')
        then have "i' < j' \<and> j' < length vs \<and> f (vs ! i') = Some a \<and> f (vs ! j') = Some b" using h j by simp
        then show ?thesis using r by blast
      qed
    qed
  qed
  show ?case
  proof (cases "f v")
    case None
    then show ?thesis unfolding all using Cons.IH by (simp add: map_filter_simps)
  next
    case (Some a)
    have "(\<forall>b\<in>set (List.map_filter f vs). P a b) \<longleftrightarrow> (\<forall>b. (\<exists>w\<in>set vs. f w = Some b) \<longrightarrow> P a b)" by (auto simp: set_map_filter_iff)
    then show ?thesis unfolding all using Cons.IH Some by (simp add: map_filter_simps)
  qed
qed (simp add: map_filter_simps)

lemma crowding_decided: "crowded_messages (placed_messages d) = [] \<longleftrightarrow> spread_out d"
proof -
  have p: "placed_messages d = sort_key pm_y (List.map_filter (place_message d) (sq_messages d))"
    by (simp add: placed_messages_def place_message_def [abs_def])
  have "sorted (map pm_y (placed_messages d))" by (simp add: p)
  from crowded_Nil [OF this] show ?thesis by (simp add: p sorted_wrt_sort sorted_wrt_map_filter spread_out_def)
qed

section \<open>Corridors\<close>

lemma collinear_apart:
  assumes "1 \<le> \<bar>t - f\<bar>" "1 \<le> \<bar>y' - y\<bar> \<or> max f' t' \<le> min f t \<or> max f t \<le> min f' t'"
  shows "collinearAxisOverlap (f, y) (t, y) (f', y') (t', y') = None"
proof -
  have "\<not> \<bar>f - t\<bar> \<le> 1 / 10000" using assms(1) by linarith
  then have v: "(\<bar>f - t\<bar> \<le> 1 / 10000) = False" by simp
  have c: "coord 0 (x, z) = x" for x z by (simp add: coord_def)
  have z: "(\<bar>y - y\<bar> \<le> 1 / 10000) = True" "(\<bar>y' - y'\<bar> \<le> 1 / 10000) = True" by simp_all
  show ?thesis
  proof (cases "\<bar>y - y'\<bar> \<le> 1 / 10000")
    case True
    let ?high = "min (max f t) (max f' t')" and ?low = "max (min f t) (min f' t')"
    have "?high \<le> max f' t'" "?high \<le> max f t" "min f t \<le> ?low" "min f' t' \<le> ?low" by simp_all
    moreover have "max f' t' \<le> min f t \<or> max f t \<le> min f' t'" using assms(2) True by linarith
    ultimately have "?high - ?low \<le> 1 / 10000" by linarith
    then have h: "(?high - ?low \<le> 1 / 10000) = True" by simp
    from True have e: "(\<bar>y - y'\<bar> \<le> 1 / 10000) = True" by simp
    show ?thesis unfolding collinearAxisOverlap_def Let_def fst_conv snd_conv by (simp only: v z e c h simp_thms if_True if_False)
  next
    case False
    then have e: "(\<bar>y - y'\<bar> \<le> 1 / 10000) = False" by simp
    show ?thesis unfolding collinearAxisOverlap_def Let_def fst_conv snd_conv by (simp only: v z e simp_thms if_True if_False)
  qed
qed

lemma ordered_pairs_map: "ordered_pairs (map f vs) = map (map_prod f f) (ordered_pairs vs)"
  by (induction vs) simp_all

lemma corridor_silent:
  assumes ok: "\<forall>m\<in>set (sq_messages d). message_problems d m = []" and s: "spread_out d"
  shows "cleanAmbiguousCorridorProblems c env (message_relations d) (Some (set (participant_ids d))) (relation_path d) profile a 8 = []"
proof -
  let ?entry = "\<lambda>(i, m). \<lparr>ro_relation = Some (message_relation (i, m)), ro_index = Some i, ro_points = messagePath d m\<rparr>"
  let ?route = "\<lambda>(i, m). \<lparr>co_relation = message_relation (i, m), co_index = i, co_points = messagePath d m\<rparr>"
  have nth: "enumerate 0 (map ?entry (enumerate 0 (sq_messages d))) = map (\<lambda>(i, m). (i, ?entry (i, m))) (enumerate 0 (sq_messages d))"
    by (rule nth_equalityI) (simp_all add: nth_enumerate_eq)
  have normal: "normalizeRoutePoints (messagePath d m) = messagePath d m \<and> length (messagePath d m) = 2" if "m \<in> set (sq_messages d)" for m
    using ok that runs_normal runs_path by (fastforce simp: message_problems_Nil)
  have routes: "corridor_routes (map ?entry (enumerate 0 (sq_messages d))) = map ?route (enumerate 0 (sq_messages d))"
  proof -
    have mf: "List.map_filter f (map (\<lambda>(i, m). (i, ?entry (i, m))) xs) = map ?route xs"
      if "\<forall>(i, m)\<in>set xs. f (i, ?entry (i, m)) = Some (?route (i, m))" for f and xs :: "(nat \<times> message) list"
      using that by (induction xs) (auto simp: map_filter_simps)
    show ?thesis unfolding corridor_routes_def nth by (rule mf) (use normal in \<open>auto simp: in_set_enumerate_eq\<close>)
  qed
  have "corridor_longest (?route (i, m)) (?route (j, m')) 8 = None"
    if ij: "i < j" "j < length (sq_messages d)" and m: "m = sq_messages d ! i" "m' = sq_messages d ! j" for i j m m'
  proof -
    obtain f t f' t' where r: "runs_between d m f t" "runs_between d m' f' t'"
      using ok ij m by (metis message_problems_Nil nth_mem order_less_trans)
    define p where "p = \<lparr>pm_label = ms_label m, pm_y = ms_y m, pm_x1 = min f t, pm_x2 = max f t\<rparr>"
    define p' where "p' = \<lparr>pm_label = ms_label m', pm_y = ms_y m', pm_x1 = min f' t', pm_x2 = max f' t'\<rparr>"
    have "place_message d m = Some p" "place_message d m' = Some p'"
      using r by (simp_all add: place_message_def runs_between_def p_def p'_def)
    then have "uncrowded p p'" using s ij m unfolding spread_out_def by blast
    then have u: "28 \<le> \<bar>ms_y m' - ms_y m\<bar> \<or> max f' t' \<le> min f t \<or> max f t \<le> min f' t'"
      unfolding uncrowded_def share_space_def p_def p'_def by simp linarith
    have "60 \<le> \<bar>t - f\<bar>" using r(1) by (simp add: runs_between_def)
    then have "collinearAxisOverlap (f, ms_y m) (t, ms_y m) (f', ms_y m') (t', ms_y m') = None"
      using u by (intro collinear_apart) auto
    then show ?thesis unfolding corridor_longest_def by (simp add: runs_path [OF r(1)] runs_path [OF r(2)] corridor_step_def)
  qed
  then have "collectAmbiguousCorridors (map ?entry (enumerate 0 (sq_messages d))) 8 = []"
    unfolding collectAmbiguousCorridors_def routes map_filter_Nil_iff
    by (auto simp: ordered_pairs_map ordered_pairs_enumerate)
  then show ?thesis unfolding cleanAmbiguousCorridorProblems_def eligible_messages [OF ok] by simp
qed

section \<open>The decision of the validation\<close>

definition readable_sequence :: "jstring option \<Rightarrow> (participant \<Rightarrow> bool) \<Rightarrow> sequence_diagram \<Rightarrow> bool" where
  "readable_sequence env branded d \<longleftrightarrow>
     distinct (map pt_id (sq_participants d)) \<and> 327 \<le> snd (seq_viewBox d) \<and>
     (\<forall>p\<in>set (sq_participants d). participant_problems branded (participantW d) p = []) \<and>
     (\<forall>m\<in>set (sq_messages d). \<exists>f t. runs_between d m f t) \<and> spread_out d \<and>
     cleanBorderRunProblems sequence_context env (message_relations d) (Some (set (participant_ids d))) (compositionFrames d)
       (relation_path d) (sq_profile d) False = [] \<and>
     label_overlaps d = [] \<and> sequence_label_gate env d = [] \<and>
     (\<forall>sg\<in>set (sq_segments d). sg_from sg < sg_to sg \<and> 72 \<le> sg_from sg \<and> sg_to sg + 45 \<le> snd (seq_viewBox d)) \<and>
     (\<forall>a\<in>set (sq_activations d). ac_participant a \<in> pt_id ` set (sq_participants d) \<and> ac_from a < ac_to a) \<and>
     (sq_participants d \<noteq> [] \<longrightarrow> participantX d (length (sq_participants d) - 1) + participantW d / 2 + 40 \<le> fst (seq_viewBox d))"

lemma length_participant_ids: "length (participant_ids d) = length (sq_participants d) \<longleftrightarrow> distinct (map pt_id (sq_participants d))"
proof -
  have "length (participant_ids d) = card (set (map pt_id (sq_participants d)))"
    by (simp add: participant_ids_def length_remdups_card_conv)
  then show ?thesis using card_distinct [of "map pt_id (sq_participants d)"] distinct_card [of "map pt_id (sq_participants d)"] by auto
qed

lemma distinct_participants:
  assumes "distinct (map pt_id (sq_participants d))" "k < length (sq_participants d)"
  shows "participants d (pt_id (sq_participants d ! k)) = Some (k, sq_participants d ! k)"
proof -
  obtain k' p where p: "participants d (pt_id (sq_participants d ! k)) = Some (k', p)"
    using participants_None [of d "pt_id (sq_participants d ! k)"] assms(2) by auto
  note s = participants_Some [OF p]
  then have "k' = k" using assms by (simp add: distinct_conv_nth) metis
  then show ?thesis using p s by simp
qed

lemma participant_checks:
  assumes "distinct (map pt_id (sq_participants d))"
  shows "concat (map (\<lambda>i. participant_problems branded w (snd (the (participants d i)))) (participant_ids d)) = [] \<longleftrightarrow>
    (\<forall>p\<in>set (sq_participants d). participant_problems branded w p = [])"
proof -
  have "snd (the (participants d (pt_id p))) = p" if "p \<in> set (sq_participants d)" for p
    using that distinct_participants [OF assms] by (auto simp: in_set_conv_nth)
  then show ?thesis unfolding concat_map_Nil_iff by auto
qed

lemma width_decided:
  assumes "distinct (map pt_id (sq_participants d))"
  shows "width_problems d = [] \<longleftrightarrow>
    (sq_participants d \<noteq> [] \<longrightarrow> participantX d (length (sq_participants d) - 1) + participantW d / 2 + 40 \<le> fst (seq_viewBox d))"
proof (cases "sq_participants d = []")
  case False
  have "participants d (pt_id (last (sq_participants d))) = Some (length (sq_participants d) - 1, last (sq_participants d))"
    using distinct_participants [OF assms, of "length (sq_participants d) - 1"] False by (simp add: last_conv_nth)
  then have "center_of d (pt_id (last (sq_participants d))) = Some (participantX d (length (sq_participants d) - 1))" by (simp add: center_of_def)
  then show ?thesis using False by (auto simp: width_problems_def Let_def sequence_layout_of_def split: list.splits)
qed (simp add: width_problems_def)

lemma segment_decided: "segment_problems d sg = [] \<longleftrightarrow> sg_from sg < sg_to sg \<and> 72 \<le> sg_from sg \<and> sg_to sg + 45 \<le> snd (seq_viewBox d)"
  by (auto simp: segment_problems_def Let_def sequence_layout_of_def)

lemma activation_decided: "activation_problems d a = [] \<longleftrightarrow> ac_participant a \<in> pt_id ` set (sq_participants d) \<and> ac_from a < ac_to a"
  using participants_None [of d "ac_participant a"] by (auto simp: activation_problems_def)

lemma validation_decided: "validateSequence env branded d = [] \<longleftrightarrow> readable_sequence env branded d"
proof (cases "(\<forall>m\<in>set (sq_messages d). message_problems d m = []) \<and> spread_out d \<and> distinct (map pt_id (sq_participants d))")
  case True
  then have ok: "\<forall>m\<in>set (sq_messages d). message_problems d m = []" and s: "spread_out d" and u: "distinct (map pt_id (sq_participants d))"
    by simp_all
  have g: "sequence_gates env d = cleanBorderRunProblems sequence_context env (message_relations d) (Some (set (participant_ids d)))
      (compositionFrames d) (relation_path d) (sq_profile d) False"
    unfolding sequence_gates_def Let_def flow_silent [OF ok] crossing_silent corridor_silent [OF ok s] rhythm_silent [OF ok] by simp
  have h: "sl_lifelineBottom (sequence_layout_of d) - sl_lifelineTop (sequence_layout_of d) < 120 \<longleftrightarrow> snd (seq_viewBox d) < 327"
    "sl_participantW (sequence_layout_of d) = participantW d" by (auto simp: sequence_layout_of_def)
  have c: "concat (map (message_problems d) (sq_messages d)) = []" using ok by simp
  have m: "\<forall>m\<in>set (sq_messages d). \<exists>f t. runs_between d m f t" using ok message_problems_Nil by blast
  show ?thesis
    unfolding validateSequence_def Let_def readable_sequence_def append_is_Nil_conv map_is_Nil_conv g h c participant_checks [OF u]
      crowding_decided width_decided [OF u] length_participant_ids
    using u s m by (auto simp: segment_decided activation_decided)
next
  case False
  then have "\<not> readable_sequence env branded d" by (auto simp: readable_sequence_def message_problems_Nil)
  moreover have "validateSequence env branded d \<noteq> []"
    using False unfolding validateSequence_def Let_def append_is_Nil_conv crowding_decided length_participant_ids [symmetric] by auto
  ultimately show ?thesis by simp
qed

section \<open>Segment labels\<close>

lemma lift_label_spec:
  "\<exists>k\<le>n. lift_label blocked n r = r\<lparr>ry := ry r - 22 * real k\<rparr> \<and>
    (\<forall>j<k. \<exists>b\<in>set blocked. rectsOverlap (r\<lparr>ry := ry r - 22 * real j\<rparr>) b 2) \<and>
    (k < n \<longrightarrow> (\<forall>b\<in>set blocked. \<not> rectsOverlap (lift_label blocked n r) b 2))"
proof (induction blocked n r rule: lift_label.induct)
  case (1 blocked r)
  then show ?case by simp
next
  case (2 blocked n r)
  show ?case
  proof (cases "\<exists>b\<in>set blocked. rectsOverlap r b 2")
    case False
    then show ?thesis by (intro exI [of _ 0]) simp
  next
    case True
    from 2 [OF True] obtain k where k: "k \<le> n" "lift_label blocked n (r\<lparr>ry := ry r - 22\<rparr>) = r\<lparr>ry := ry r - 22 - 22 * real k\<rparr>"
      "\<forall>j<k. \<exists>b\<in>set blocked. rectsOverlap (r\<lparr>ry := ry r - 22 - 22 * real j\<rparr>) b 2"
      "k < n \<longrightarrow> (\<forall>b\<in>set blocked. \<not> rectsOverlap (lift_label blocked n (r\<lparr>ry := ry r - 22\<rparr>)) b 2)" by auto
    have "\<exists>b\<in>set blocked. rectsOverlap (r\<lparr>ry := ry r - 22 * real j\<rparr>) b 2" if "j < Suc k" for j
    proof (cases j)
      case (Suc j')
      then have "\<exists>b\<in>set blocked. rectsOverlap (r\<lparr>ry := ry r - 22 - 22 * real j'\<rparr>) b 2" using k(3) that by auto
      then show ?thesis using Suc by (simp add: algebra_simps)
    qed (use True in simp)
    moreover have "lift_label blocked (Suc n) r = r\<lparr>ry := ry r - 22 * real (Suc k)\<rparr>" using True k(2) by (simp add: algebra_simps)
    moreover have "Suc k < Suc n \<longrightarrow> (\<forall>b\<in>set blocked. \<not> rectsOverlap (lift_label blocked (Suc n) r) b 2)" using k(4) True by simp
    ultimately show ?thesis using k(1) by (intro exI [of _ "Suc k"]) simp
  qed
qed

end
