(* ===== verification/Sequence_Properties.thy ===== *)
theory Sequence_Properties
  imports Sequence_Laws
begin

text \<open>
Properties of the sequence renderer, with a small diagram of two participants as their witness.
\<close>

section \<open>A small diagram\<close>

definition sample_participant :: "jstring \<Rightarrow> participant" where
  "sample_participant i = \<lparr>pt_id = i, pt_type = js ''backend'', pt_label = js ''P'', pt_sublabel = None\<rparr>"

definition sample_message :: message where
  "sample_message = \<lparr>ms_id = None, ms_from = js ''a'', ms_to = js ''b'', ms_y = 160, ms_label = js ''m'', ms_variant = None\<rparr>"

definition sample_segment :: time_segment where
  "sample_segment = \<lparr>sg_from = 150, sg_to = 300, sg_label = js ''S''\<rparr>"

definition sample_sequence :: sequence_diagram where
  "sample_sequence = \<lparr>sq_viewBox = None, sq_columnFit = None, sq_profile = None, sq_legend = None,
     sq_participants = [sample_participant (js ''a''), sample_participant (js ''b'')], sq_messages = [sample_message],
     sq_segments = [sample_segment], sq_activations = []\<rparr>"

lemma sample_simps [simp]:
  "sq_viewBox sample_sequence = None" "sq_columnFit sample_sequence = None" "sq_profile sample_sequence = None" "sq_legend sample_sequence = None"
  "sq_participants sample_sequence = [sample_participant (js ''a''), sample_participant (js ''b'')]" "sq_messages sample_sequence = [sample_message]"
  "sq_segments sample_sequence = [sample_segment]" "sq_activations sample_sequence = []" "pt_id (sample_participant i) = i"
  "ms_from sample_message = js ''a''" "ms_to sample_message = js ''b''" "ms_y sample_message = 160" "ms_label sample_message = js ''m''"
  "sg_from sample_segment = 150" "sg_to sample_segment = 300" "sg_label sample_segment = js ''S''"
  by (simp_all add: sample_sequence_def sample_participant_def sample_message_def sample_segment_def)

lemma sample_layout [simp]:
  "seq_viewBox sample_sequence = (920, 760)" "participantW sample_sequence = 86" "participantX sample_sequence k = 62 + real k * 108"
  by (simp_all add: seq_viewBox_def participantW_def participantX_def sequence_layout_of_def spreads_def colGap_def sideMargin_def)

lemma sample_participants: "participants sample_sequence (js ''a'') = Some (0, sample_participant (js ''a''))"
  "participants sample_sequence (js ''b'') = Some (1, sample_participant (js ''b''))"
  by (simp_all add: participants_def)

lemma sample_centers: "center_of sample_sequence (js ''a'') = Some 62" "center_of sample_sequence (js ''b'') = Some 170"
  by (simp_all add: center_of_def sample_participants del: js_simps)

lemma sample_units: "textUnits (js ''P'') = 1" "textUnits (js ''m'') = 1" "textUnits (js ''S'') = 1"
  by (simp_all add: textUnits_def fullwidth_def FULLWIDTH_RE_def variation_selector_def)

lemma sample_headers: "headers sample_sequence = [participant_box sample_sequence (0, sample_participant (js ''a'')),
    participant_box sample_sequence (1, sample_participant (js ''b''))]"
proof -
  have "participant_ids sample_sequence = [js ''a'', js ''b'']" by (simp add: participant_ids_def)
  then show ?thesis by (simp add: headers_def sample_participants map_filter_simps del: js_simps)
qed

lemma sample_geometry: "messageGeometry sample_sequence sample_message = Some (69, 163, 116)"
  by (simp add: messageGeometry_def sample_centers Let_def del: js_simps)

lemma sample_valid: "validateSequence None (\<lambda>_. False) sample_sequence = []"
proof -
  have p: "participant_problems (\<lambda>_. False) 86 (sample_participant i) = []" for i
    by (simp add: participant_problems_def sample_participant_def sample_units del: js_simps)
  have m: "runs_between sample_sequence sample_message 62 170" by (simp add: runs_between_def sample_centers del: js_simps)
  have s: "spread_out sample_sequence" by (simp add: spread_out_def)
  have b: "cleanBorderRunProblems c None rs ids fs path None False = []" for c rs ids fs path
    by (simp add: cleanBorderRunProblems_def qualityProfileForGate_def)
  have o: "label_overlaps sample_sequence = []"
    by (simp add: label_overlaps_def message_labels_def messageLabelBox_def sample_geometry map_filter_simps)
  have l: "sequence_label_gate None sample_sequence = []"
    by (simp add: sequence_label_gate_def cleanLabelRouteClearanceProblems_def is_showcase_def qualityProfileForGate_def)
  have "readable_sequence None (\<lambda>_. False) sample_sequence"
    unfolding readable_sequence_def using p m s b o l by auto
  then show ?thesis by (simp add: validation_decided)
qed

lemma sample_label_box: "messageLabelBox sample_sequence sample_message = Some \<lparr>rx = 99, ry = 140, rwidth = 34, rheight = 16\<rparr>"
  by (simp add: messageLabelBox_def sample_geometry message_label_width_def sample_units sequence_layout_of_def del: js_simps)

lemma sample_route_box: "messageRouteBox sample_sequence sample_message = Some \<lparr>rx = 69, ry = 158, rwidth = 94, rheight = 4\<rparr>"
  by (simp add: messageRouteBox_def sample_geometry)

lemma sample_segment_label: "segmentLabelBox sample_sequence sample_segment = \<lparr>rx = 56, ry = 106, rwidth = 42, rheight = 18\<rparr>"
proof -
  have "occupied sample_sequence = [\<lparr>rx = 99, ry = 140, rwidth = 34, rheight = 16\<rparr>, \<lparr>rx = 69, ry = 158, rwidth = 94, rheight = 4\<rparr>]"
    by (simp add: occupied_def sample_label_box sample_route_box map_filter_simps)
  then show ?thesis
    by (simp add: segmentLabelBox_def segment_label_rect_def sample_units rectsOverlap_def numeral_eq_Suc del: js_simps)
qed

lemma sample_drawn: "\<exists>drawing. renderSequence None (\<lambda>_. False) id sample_sequence = Inr drawing"
proof -
  have "\<exists>legend. sequence_legend id sample_sequence = Inr legend"
    by (simp add: sequence_legend_def measureLegend_def unfit_def Let_def split: option.splits)
  then show ?thesis by (auto simp: renderSequence_def sample_valid throw_if_def)
qed

section \<open>What is drawn\<close>

lemma drawn_messages:
  assumes "readable_sequence env branded d"
  shows "map fst (List.map_filter (\<lambda>m. map_option (Pair m) (drawn_message d m)) (sq_messages d)) = sq_messages d \<and>
    (\<forall>(m, points)\<in>set (List.map_filter (\<lambda>m. map_option (Pair m) (drawn_message d m)) (sq_messages d)).
      \<exists>x x'. points = [(x, ms_y m), (x', ms_y m)] \<and> x \<noteq> x' \<and> 160 \<le> ms_y m \<and> ms_y m + 83 \<le> snd (seq_viewBox d))"
proof -
  have dm: "\<exists>x x'. drawn_message d m = Some [(x, ms_y m), (x', ms_y m)] \<and> x \<noteq> x' \<and> 160 \<le> ms_y m \<and> ms_y m + 83 \<le> snd (seq_viewBox d)"
    if "m \<in> set (sq_messages d)" for m
  proof -
    from assms have "\<forall>m\<in>set (sq_messages d). \<exists>f t. runs_between d m f t" unfolding readable_sequence_def by blast
    with that obtain f t where r: "runs_between d m f t" by blast
    then have "drawn_message d m = Some [(f + (if f < t then 1 else -1) * 7, ms_y m), (t - (if f < t then 1 else -1) * 7, ms_y m)]"
      by (simp add: drawn_message_def messageGeometry_def runs_between_def Let_def)
    moreover have "f + (if f < t then 1 else -1) * 7 \<noteq> t - (if f < t then 1 else -1) * 7" using r by (auto simp: runs_between_def)
    ultimately show ?thesis using r unfolding runs_between_def by blast
  qed
  have "map fst (List.map_filter (\<lambda>m. map_option (Pair m) (drawn_message d m)) ms) = ms" if "set ms \<subseteq> set (sq_messages d)" for ms
    using that
  proof (induction ms)
    case (Cons m ms)
    then obtain points where "drawn_message d m = Some points" using dm [of m] by auto
    then show ?case using Cons by (simp add: map_filter_simps)
  qed (simp add: map_filter_simps)
  moreover have "\<exists>x x'. points = [(x, ms_y m), (x', ms_y m)] \<and> x \<noteq> x' \<and> 160 \<le> ms_y m \<and> ms_y m + 83 \<le> snd (seq_viewBox d)"
    if "(m, points) \<in> set (List.map_filter (\<lambda>m. map_option (Pair m) (drawn_message d m)) (sq_messages d))" for m points
    using that dm [of m] by (fastforce simp: set_map_filter_iff)
  ultimately show ?thesis by blast
qed

lemma drawn_headers:
  assumes "readable_sequence env branded d"
  shows "map bid (headers d) = map pt_id (sq_participants d) \<and> (\<forall>h\<in>set (headers d). rx h + rwidth h + 40 \<le> fst (seq_viewBox d))"
proof
  have u: "distinct (map pt_id (sq_participants d))" using assms by (simp add: readable_sequence_def)
  then have i: "participant_ids d = map pt_id (sq_participants d)" by (simp add: participant_ids_def distinct_remdups_id)
  have "map bid (List.map_filter (\<lambda>i. map_option (participant_box d) (participants d i)) is) = is" if "set is \<subseteq> set (participant_ids d)" for "is"
    using that
  proof (induction "is")
    case (Cons i js)
    then obtain k p where p: "participants d i = Some (k, p)" using participants_None [of d i] by auto
    then show ?case using Cons participants_Some(3) [OF p] by (simp add: map_filter_simps)
  qed (simp add: map_filter_simps)
  then show "map bid (headers d) = map pt_id (sq_participants d)" using i by (simp add: headers_def)
  show "\<forall>h\<in>set (headers d). rx h + rwidth h + 40 \<le> fst (seq_viewBox d)"
  proof
    fix h assume "h \<in> set (headers d)"
    then obtain i k p where h: "participants d i = Some (k, p)" "h = participant_box d (k, p)" by (auto simp: header_member)
    note s = participants_Some [OF h(1)]
    let ?n = "length (sq_participants d)"
    have "0 \<le> colGap d" by (auto simp: colGap_def le_max_iff_disj)
    then have "real k * colGap d \<le> real (?n - 1) * colGap d" using s(1) by (intro mult_right_mono) auto
    then have "participantX d k \<le> participantX d (?n - 1)" by (simp add: participantX_def sequence_layout_of_def)
    moreover have "participantX d (?n - 1) + participantW d / 2 + 40 \<le> fst (seq_viewBox d)" using assms s(1) by (auto simp: readable_sequence_def)
    ultimately show "rx h + rwidth h + 40 \<le> fst (seq_viewBox d)" by (simp add: h)
  qed
qed

section \<open>Properties\<close>

text \<open>
  C1: The validation of a sequence diagram accepts a document exactly when the ids are distinct, the texts fit, every
  message runs between two known columns inside the timeline, messages that share horizontal space are 28 apart, the
  segments, activations and columns lie in the canvas, and borders and labels are clear. The gates on headers,
  crossings, corridors and rhythm never decide anything on top of that.
\<close>

theorem sequence_validation_is_decided: "validateSequence env branded d = [] \<longleftrightarrow> readable_sequence env branded d"
  by (rule validation_decided)

text \<open>
  C2: Participant headers never come closer than 22, whatever the canvas, the column fit and the number of
  participants.
\<close>

theorem headers_keep_their_distance:
  assumes "a \<in> set (headers d)" "b \<in> set (headers d)" "a \<noteq> b"
  shows "\<not> rectsOverlap a b 22"
  using assms by (rule headers_apart)

theorem headers_distance_witness:
  "\<not> rectsOverlap (participant_box sample_sequence (0, sample_participant (js ''a''))) (participant_box sample_sequence (1, sample_participant (js ''b''))) 22"
proof (rule headers_keep_their_distance [where d = sample_sequence])
  have "bid (participant_box sample_sequence (0, sample_participant (js ''a''))) \<noteq> bid (participant_box sample_sequence (1, sample_participant (js ''b'')))"
    by simp
  then show "participant_box sample_sequence (0, sample_participant (js ''a'')) \<noteq> participant_box sample_sequence (1, sample_participant (js ''b''))" by metis
qed (simp_all only: sample_headers list.set_intros)

text \<open>
  C3: A sequence diagram that is drawn shows every participant and every message: the arrows are horizontal, run
  between the lifelines of their participants inside the timeline, and no header ends beyond the right margin.
\<close>

theorem drawn_sequence_is_complete:
  assumes "renderSequence env branded label d = Inr drawing"
  shows "map fst (sd_messages drawing) = sq_messages d \<and> map bid (sd_headers drawing) = map pt_id (sq_participants d) \<and>
    (\<forall>(m, points)\<in>set (sd_messages drawing). \<exists>x x'. points = [(x, ms_y m), (x', ms_y m)] \<and> x \<noteq> x' \<and> 160 \<le> ms_y m \<and>
       ms_y m + 83 \<le> snd (seq_viewBox d)) \<and>
    (\<forall>h\<in>set (sd_headers drawing). rx h + rwidth h + 40 \<le> fst (seq_viewBox d))"
proof -
  have v: "validateSequence env branded d = []" using assms by (auto simp: renderSequence_def bind_result_Inr throw_if_def split: if_splits)
  then have r: "readable_sequence env branded d" by (simp add: validation_decided)
  have dr: "sd_messages drawing = List.map_filter (\<lambda>m. map_option (Pair m) (drawn_message d m)) (sq_messages d)" "sd_headers drawing = headers d"
    using assms by (auto simp: renderSequence_def v throw_if_def split: sum.splits)
  show ?thesis unfolding dr using drawn_messages [OF r] drawn_headers [OF r] by blast
qed

theorem drawn_sequence_witness:
  "\<exists>drawing. renderSequence None (\<lambda>_. False) id sample_sequence = Inr drawing \<and> map fst (sd_messages drawing) = [sample_message] \<and>
     map bid (sd_headers drawing) = [js ''a'', js ''b'']"
proof -
  obtain drawing where d: "renderSequence None (\<lambda>_. False) id sample_sequence = Inr drawing" using sample_drawn by blast
  then show ?thesis using drawn_sequence_is_complete [OF d] by auto
qed

text \<open>
  C4: The label of a time segment moves up past the messages it meets and is not kept away from the participant
  headers: in this valid document it ends inside the first header, which is drawn over it.
\<close>

theorem segment_label_can_hide_behind_a_header:
  "validateSequence None (\<lambda>_. False) sample_sequence = [] \<and>
   rectsOverlap (segmentLabelBox sample_sequence sample_segment) (participant_box sample_sequence (0, sample_participant (js ''a''))) 0"
proof
  show "rectsOverlap (segmentLabelBox sample_sequence sample_segment) (participant_box sample_sequence (0, sample_participant (js ''a''))) 0"
    by (simp add: sample_segment_label rectsOverlap_def)
qed (rule sample_valid)

end
