(* ===== verification/Spec2Isabelle.thy ===== *)
theory Spec2Isabelle
  imports Geometry_Properties Update_Properties Delta_Properties Legend_Laws Migration_Laws Engineering_Profile Commit_Laws Evidence_Laws Workflow_Compile_Properties Sequence_Properties
begin

text \<open>
  A verification library for the JavaScript of the archify skill
  (\<open>src/.agents/skills/archify/\<close>).

  \<^bold>\<open>Geometry\<close> (\<open>renderers/shared/geometry.mjs\<close>): \<open>Geometry_Core\<close> (predicates), \<open>Routes\<close>
  (normalisation, sides, anchors), \<open>Route_Rhythm\<close> (rhythm, budgets, the port bridge), \<open>Port_Spread\<close>,
  \<open>Route_Gates\<close> and \<open>Gate_Laws\<close> (the mechanical gates), \<open>Geometry_Properties\<close>.

  \<^bold>\<open>Update checker\<close> (\<open>scripts/update-contract.mjs\<close>, \<open>scripts/check-update.mjs\<close>): \<open>Json\<close>,
  \<open>Update_Contract\<close>, \<open>Update_State\<close>, \<open>Update_Laws\<close>, \<open>Iso_Time\<close>, \<open>Update_Checks\<close>,
  \<open>Update_Protocol\<close>, \<open>Update_Properties\<close>.
\<close>

end
